(* ===== verification/Gate_Prelude.thy ===== *)
theory Gate_Prelude
  imports Main "HOL-Library.Word"
begin

text \<open>
  Shared vocabulary of the development: Go's fixed-width integers as words, errors and panics
  as values, byte slices over an explicit heap of backing arrays, and the generic list and
  word lemmas the component theories use.

  An error built with \<^verbatim>\<open>errors.New\<close> or \<^verbatim>\<open>errors.Errorf\<close> is \<open>Err\<close> of its format
  string and arguments; \<^verbatim>\<open>errors.Wrap\<close>, \<^verbatim>\<open>errors.Wrapf\<close>, \<^verbatim>\<open>errors.WithMessage\<close> and
  \<^verbatim>\<open>errors.WithMessagef\<close> are \<open>Wrap\<close>. A fallible call returns \<open>Ok\<close>, \<open>Fail\<close> (the error
  return) or \<open>Panic\<close> (a run-time panic).
\<close>

section \<open>Types of the language\<close>

type_synonym byte = "8 word"
type_synonym bytes = "byte list"
type_synonym int32 = "32 word"
type_synonym int64 = "64 word"
type_synonym uint32 = "32 word"
type_synonym uint64 = "64 word"

datatype garg = AInt int | AStr string

datatype gerr = Err string "garg list" | Wrap string "garg list" gerr

datatype 'a res = Ok 'a | Fail gerr | Panic string

named_theorems gate_inv \<open>facts that unfold or preserve the invariants of the components\<close>

fun root_cause :: "gerr \<Rightarrow> gerr" where
  "root_cause (Err f as) = Err f as"
| "root_cause (Wrap f as e) = root_cause e"

fun is_panic :: "'a res \<Rightarrow> bool" where
  "is_panic (Panic _) = True"
| "is_panic _ = False"

fun bind_res :: "'a res \<Rightarrow> ('a \<Rightarrow> 'b res) \<Rightarrow> 'b res" where
  "bind_res (Ok x) f = f x"
| "bind_res (Fail e) f = Fail e"
| "bind_res (Panic p) f = Panic p"

lemma bind_res_Ok_conv: "bind_res x f = Ok z \<longleftrightarrow> (\<exists>y. x = Ok y \<and> f y = Ok z)"
  by (cases x) auto

lemma bind_res_split [split]:
  "P (bind_res x f) \<longleftrightarrow>
    (\<forall>y. x = Ok y \<longrightarrow> P (f y)) \<and> (\<forall>e. x = Fail e \<longrightarrow> P (Fail e)) \<and> (\<forall>p. x = Panic p \<longrightarrow> P (Panic p))"
  by (cases x) auto


section \<open>Lists\<close>

definition splice_at :: "nat \<Rightarrow> 'a list \<Rightarrow> 'a list \<Rightarrow> 'a list" where
  "splice_at off ys xs = take off xs @ ys @ drop (off + length ys) xs"

lemma length_splice_at [simp]:
  "off + length ys \<le> length xs \<Longrightarrow> length (splice_at off ys xs) = length xs"
  by (simp add: splice_at_def)

lemma take_splice_at [simp]: "n \<le> off \<Longrightarrow> off \<le> length xs \<Longrightarrow> take n (splice_at off ys xs) = take n xs"
  by (simp add: splice_at_def)

lemma splice_at_Nil [simp]: "splice_at off [] xs = xs"
  by (simp add: splice_at_def)

lemma window_splice_at:
  assumes "r \<le> w" and "w + length ys \<le> length xs"
  shows "take (w + length ys - r) (drop r (splice_at w ys xs)) = take (w - r) (drop r xs) @ ys"
proof -
  have "drop r (splice_at w ys xs) = drop r (take w xs) @ ys @ drop (w + length ys) xs"
    using assms by (simp add: splice_at_def)
  moreover have "drop r (take w xs) = take (w - r) (drop r xs)"
    by (simp add: drop_take)
  moreover have "length (take (w - r) (drop r xs)) = w - r"
    using assms by simp
  ultimately show ?thesis
    using assms by (simp add: take_append)
qed

lemma window_split:
  assumes "r + n \<le> w" and "w \<le> length xs"
  shows "take (w - r) (drop r xs) = take n (drop r xs) @ take (w - (r + n)) (drop (r + n) xs)"
proof -
  have "w - r = n + (w - (r + n))"
    using assms by simp
  then show ?thesis
    by (metis take_add drop_drop add.commute)
qed

lemma length_window [simp]: "w \<le> length xs \<Longrightarrow> length (take (w - r) (drop r xs)) = w - r"
  by simp

text \<open>Lists whose elements carry the index of the list they are in.\<close>

lemma distinct_concat_tagged:
  assumes "\<forall>i < length xss. distinct (xss ! i) \<and> (\<forall>x \<in> set (xss ! i). tag x = n + i)"
  shows "distinct (concat xss)"
  using assms
proof (induction xss arbitrary: n)
  case (Cons xs xss)
  have later: "\<forall>i < length xss. distinct (xss ! i) \<and> (\<forall>x \<in> set (xss ! i). tag x = Suc n + i)"
    using Cons.prems [rule_format, of "Suc i" for i] by simp
  have "tag x = n" if "x \<in> set xs" for x
    using Cons.prems [rule_format, of 0] that by simp
  moreover have "tag x > n" if "x \<in> set (concat xss)" for x
  proof -
    from that obtain xs where "xs \<in> set xss" "x \<in> set xs" by auto
    then obtain i where "i < length xss" "x \<in> set (xss ! i)"
      by (metis in_set_conv_nth)
    with later show ?thesis by simp
  qed
  ultimately have "set xs \<inter> set (concat xss) = {}" by fastforce
  then show ?case
    using Cons.IH [OF later] Cons.prems [rule_format, of 0] by simp
qed simp

lemma in_set_updD: "x \<in> set (xs[i := y]) \<Longrightarrow> x = y \<or> x \<in> set xs"
  using set_update_subset_insert [of xs i y] by blast

lemma foldl_keeps:
  assumes "\<And>x w. P w \<Longrightarrow> P (f w x)" and "P w"
  shows "P (foldl f w xs)"
  using assms(2) by (induction xs arbitrary: w) (auto intro: assms(1))


section \<open>Backing arrays and slices\<close>

text \<open>
  A Go slice is a view of a backing array: the array (an index into the heap), the offset of
  its first element, its length and its capacity. The nil slice is \<open>None\<close>. The heap is the
  list of the arrays allocated so far, so that the next address is its length.
\<close>

record slice =
  s_arr :: nat
  s_off :: nat
  s_len :: nat
  s_cap :: nat

type_synonym heap = "bytes list"

definition make_slice :: "nat \<Rightarrow> heap \<Rightarrow> slice \<times> heap" where
  "make_slice n hp = (\<lparr>s_arr = length hp, s_off = 0, s_len = n, s_cap = n\<rparr>, hp @ [replicate n 0])"

definition slice_bytes :: "heap \<Rightarrow> slice \<Rightarrow> bytes" where
  "slice_bytes hp s = take (s_len s) (drop (s_off s) (hp ! s_arr s))"

definition write_slice :: "slice \<Rightarrow> nat \<Rightarrow> bytes \<Rightarrow> heap \<Rightarrow> heap" where
  "write_slice s i bs hp = hp[s_arr s := splice_at (s_off s + i) bs (hp ! s_arr s)]"

lemma length_write_slice [simp]: "length (write_slice s i bs hp) = length hp"
  by (simp add: write_slice_def)

lemma write_slice_other [simp]: "a \<noteq> s_arr s \<Longrightarrow> write_slice s i bs hp ! a = hp ! a"
  by (simp add: write_slice_def)

lemma write_slice_same [simp]:
  "s_arr s < length hp \<Longrightarrow> write_slice s i bs hp ! s_arr s = splice_at (s_off s + i) bs (hp ! s_arr s)"
  by (simp add: write_slice_def)

lemma write_slice_length [simp]:
  assumes "s_off s + i + length bs \<le> length (hp ! s_arr s)"
  shows "length (write_slice s i bs hp ! a) = length (hp ! a)"
  using assms by (cases "s_arr s < length hp"; cases "a = s_arr s") (auto simp: write_slice_def list_update_beyond)


section \<open>Big-endian 32-bit words\<close>

text \<open>
  \<^verbatim>\<open>binary.BigEndian\<close> of the standard library: the bytes of a 32-bit word, most significant
  first, and the word of four bytes.
\<close>

unbundle bit_operations_syntax

definition be32 :: "uint32 \<Rightarrow> bytes" where
  "be32 x = [ucast (drop_bit 24 x), ucast (drop_bit 16 x), ucast (drop_bit 8 x), ucast x]"

fun un_be32 :: "bytes \<Rightarrow> uint32" where
  "un_be32 (b0 # b1 # b2 # b3 # _) =
     ucast b3 OR push_bit 8 (ucast b2) OR push_bit 16 (ucast b1) OR push_bit 24 (ucast b0)"
| "un_be32 _ = 0"

lemma length_be32 [simp]: "length (be32 x) = 4"
  by (simp add: be32_def)

lemma un_be32_be32 [simp]: "un_be32 (be32 x) = x"
proof (rule bit_word_eqI)
  fix n :: nat
  assume "n < LENGTH(32)"
  then consider "n < 8" | "8 \<le> n" "n < 16" | "16 \<le> n" "n < 24" | "24 \<le> n" "n < 32"
    by fastforce
  then show "bit (un_be32 (be32 x)) n = bit x n"
    by cases (auto simp: be32_def bit_simps)
qed

lemma un_be32_append [simp]: "un_be32 (be32 x @ ys) = x"
  using un_be32_be32 [of x] by (simp add: be32_def)

end
