(* ===== verification/Buf_Pool.thy ===== *)
theory Buf_Pool
  imports Gate_Prelude "HOL-Library.Multiset"
begin

text \<open>
  The slab pool of the buffered reader (\<^verbatim>\<open>pkg/net/internal/bufreader/pool.go\<close>): its
  construction, \<open>Alloc\<close>, \<open>Free\<close> and \<open>Size\<close>.

  A \<^verbatim>\<open>sync.Pool\<close> of the standard library is a bag from which \<open>Get\<close> takes an arbitrary
  element, or calls \<open>New\<close>; the choice is an argument of every \<open>Alloc\<close> (\<open>None\<close>: the pool is
  treated as empty; \<open>Some j\<close>: the j-th free buffer, when there is one). Sizes are \<open>nat\<close>
  after the check of the constructor, and \<open>int\<close> where the code accepts a negative argument.
\<close>

section \<open>The pool\<close>

record SyncPool =
  classes :: "slice list list"
  classesSize :: "nat list"
  minSize :: nat
  maxSize :: nat
  sizeLookup :: "8 word list"

definition ErrInvalidSize :: gerr where
  "ErrInvalidSize = Err ''invalid size parameters'' []"

text \<open>The first loop of the constructor counts the classes. The positivity of the chunk size is
  checked before the loop starts. Sizes are not wrapped at 64 bits: those of the default pool,
  which the properties are about, are far below.\<close>

function count_classes :: "nat \<Rightarrow> nat \<Rightarrow> nat \<Rightarrow> nat \<Rightarrow> nat \<Rightarrow> nat \<Rightarrow> nat \<times> nat" where
  "count_classes mn mx factor chunkSize n curSize =
     (if chunkSize \<le> mx \<and> 0 < mn
      then count_classes mn mx factor (chunkSize + mn * (Suc n div factor * 2 + 1)) (Suc n) chunkSize
      else (n, curSize))"
  by pat_completeness auto
termination
  by (relation "measure (\<lambda>(mn, mx, factor, chunkSize, n, curSize). Suc mx - chunkSize)") auto

declare count_classes.simps [simp del]

text \<open>The table from sizes to classes is filled from the end of the previous class up to and
  including the size of the class.\<close>

function fill_lookup :: "nat \<Rightarrow> nat \<Rightarrow> 8 word \<Rightarrow> 8 word list \<Rightarrow> 8 word list" where
  "fill_lookup i sz v lk = (if i \<le> sz then fill_lookup (Suc i) sz v (lk[i := v]) else lk)"
  by pat_completeness auto
termination
  by (relation "measure (\<lambda>(i, sz, v, lk). Suc sz - i)") auto

declare fill_lookup.simps [simp del]

fun init_classes ::
  "nat \<Rightarrow> nat \<Rightarrow> nat \<Rightarrow> nat \<Rightarrow> nat \<Rightarrow> nat \<Rightarrow> nat list \<Rightarrow> 8 word list \<Rightarrow> nat list \<times> 8 word list" where
  "init_classes mn mx factor 0 k chunkSize sizes lk = (sizes, lk)"
| "init_classes mn mx factor (Suc left) k chunkSize sizes lk =
     (let chunkSize' = chunkSize + mn * (k div factor * 2 + 1);
          sz = min chunkSize' mx;
          sizes' = sizes[k := sz];
          start = (if 0 < k then sizes' ! (k - 1) else 0)
      in init_classes mn mx factor left (Suc k) chunkSize' sizes' (fill_lookup start sz (of_nat k) lk))"

definition num_classes :: "nat \<Rightarrow> nat \<Rightarrow> nat \<Rightarrow> nat" where
  "num_classes mn mx factor =
     (case count_classes mn mx factor mn 0 mn of (n, curSize) \<Rightarrow> if curSize < mx then Suc n else n)"

definition NewSyncPool :: "int \<Rightarrow> int \<Rightarrow> int \<Rightarrow> SyncPool res" where
  "NewSyncPool mn mx factor =
     (if mn \<le> 0 \<or> mx < mn \<or> factor \<le> 0 then Fail ErrInvalidSize
      else let n = num_classes (nat mn) (nat mx) (nat factor);
               (sizes, lk) = init_classes (nat mn) (nat mx) (nat factor) n 0 (nat mn)
                               (replicate n 0) (replicate (Suc (nat mx)) 0)
           in Ok \<lparr>classes = replicate n [], classesSize = sizes,
                  minSize = nat mn, maxSize = nat mx, sizeLookup = lk\<rparr>)"

text \<open>The memory of the process as far as byte buffers are concerned: the arrays and the pool.\<close>

record mem =
  hp :: heap
  pool :: SyncPool

definition classOf :: "SyncPool \<Rightarrow> nat \<Rightarrow> nat" where
  "classOf p sz = unat (sizeLookup p ! sz)"

text \<open>\<open>Get\<close> of one class: the chosen free buffer, or a new one of the size of the class.\<close>

definition pool_Get :: "nat option \<Rightarrow> nat \<Rightarrow> mem \<Rightarrow> slice \<times> mem" where
  "pool_Get ch k m =
     (let free = classes (pool m) ! k in
      case ch of
        Some j \<Rightarrow>
          if j < length free
          then (free ! j, m\<lparr>pool := (pool m)\<lparr>classes := (classes (pool m))[k := take j free @ drop (Suc j) free]\<rparr>\<rparr>)
          else (case make_slice (classesSize (pool m) ! k) (hp m) of (s, h) \<Rightarrow> (s, m\<lparr>hp := h\<rparr>))
      | None \<Rightarrow> (case make_slice (classesSize (pool m) ! k) (hp m) of (s, h) \<Rightarrow> (s, m\<lparr>hp := h\<rparr>)))"

definition Alloc :: "nat option \<Rightarrow> int \<Rightarrow> mem \<Rightarrow> slice res \<times> mem" where
  "Alloc ch sz m =
     (if sz \<le> 0 then (case make_slice 0 (hp m) of (s, h) \<Rightarrow> (Ok s, m\<lparr>hp := h\<rparr>))
      else if nat sz \<le> maxSize (pool m) then
        (case pool_Get ch (classOf (pool m) (nat sz)) m of
           (s, m') \<Rightarrow> if nat sz \<le> s_cap s then (Ok (s\<lparr>s_len := nat sz\<rparr>), m')
                      else (Panic ''slice bounds out of range'', m'))
      else (case make_slice (nat sz) (hp m) of (s, h) \<Rightarrow> (Ok s, m\<lparr>hp := h\<rparr>)))"

definition Free :: "slice option \<Rightarrow> mem \<Rightarrow> mem" where
  "Free ms m =
     (case ms of
        None \<Rightarrow> m
      | Some s \<Rightarrow>
          if s_cap s \<le> maxSize (pool m)
          then let k = classOf (pool m) (s_cap s) in
               m\<lparr>pool := (pool m)\<lparr>classes := (classes (pool m))[k := s\<lparr>s_len := s_cap s\<rparr> # classes (pool m) ! k]\<rparr>\<rparr>
          else m)"

definition Size :: "SyncPool \<Rightarrow> int \<Rightarrow> int" where
  "Size p sz =
     (if sz \<le> 0 \<or> int (maxSize p) < sz then sz
      else int (classesSize p ! classOf p (nat sz)))"


section \<open>What the constructor builds\<close>

text \<open>The uncapped size of class k, and the size the constructor stores for it.\<close>

fun chunk_at :: "nat \<Rightarrow> nat \<Rightarrow> nat \<Rightarrow> nat" where
  "chunk_at mn factor 0 = mn + mn"
| "chunk_at mn factor (Suc k) = chunk_at mn factor k + mn * (Suc k div factor * 2 + 1)"

definition class_size :: "nat \<Rightarrow> nat \<Rightarrow> nat \<Rightarrow> nat \<Rightarrow> nat" where
  "class_size mn mx factor k = min (chunk_at mn factor k) mx"

lemma length_fill_lookup [simp]: "length (fill_lookup i sz v lk) = length lk"
proof (induction i sz v lk rule: fill_lookup.induct)
  case (1 i sz v lk)
  then show ?case by (subst fill_lookup.simps) simp
qed

lemma nth_fill_lookup:
  "j < length lk \<Longrightarrow> fill_lookup i sz v lk ! j = (if i \<le> j \<and> j \<le> sz then v else lk ! j)"
proof (induction i sz v lk rule: fill_lookup.induct)
  case (1 i sz v lk)
  show ?case
  proof (cases "i \<le> sz")
    case True
    then have "fill_lookup i sz v lk = fill_lookup (Suc i) sz v (lk[i := v])"
      by (subst fill_lookup.simps) simp
    with 1 True show ?thesis
      by (auto simp: nth_list_update)
  next
    case False
    then show ?thesis by (subst fill_lookup.simps) auto
  qed
qed

lemma chunk_at_mono: "i \<le> j \<Longrightarrow> chunk_at mn factor i \<le> chunk_at mn factor j"
  by (induction j) (auto simp: le_Suc_eq)

lemma class_size_mono: "i \<le> j \<Longrightarrow> class_size mn mx factor i \<le> class_size mn mx factor j"
  using chunk_at_mono [of i j mn factor] by (auto simp: class_size_def)

text \<open>The state of the second loop after k classes: the sizes of the first k classes are stored,
  and every table entry up to the last of them names the last class that starts at or below it.\<close>

definition loop_inv :: "nat \<Rightarrow> nat \<Rightarrow> nat \<Rightarrow> nat \<Rightarrow> nat list \<Rightarrow> 8 word list \<Rightarrow> bool" where
  "loop_inv mn mx factor k sizes lk \<longleftrightarrow>
     (\<forall>i < k. sizes ! i = class_size mn mx factor i) \<and>
     (0 < k \<longrightarrow> (\<forall>i \<le> class_size mn mx factor (k - 1).
        \<exists>c < k. lk ! i = of_nat c \<and> (0 < c \<longrightarrow> class_size mn mx factor (c - 1) \<le> i) \<and>
                i \<le> class_size mn mx factor c \<and>
                (Suc c < k \<longrightarrow> i < class_size mn mx factor c)))"

lemma loop_inv_step:
  assumes inv: "loop_inv mn mx factor k sizes lk" and k: "k < length sizes" and lk: "length lk = Suc mx"
  shows "loop_inv mn mx factor (Suc k) (sizes[k := class_size mn mx factor k])
    (fill_lookup (if 0 < k then class_size mn mx factor (k - 1) else 0) (class_size mn mx factor k) (of_nat k) lk)"
    (is "loop_inv _ _ _ _ ?sizes ?lk")
proof -
  let ?cs = "class_size mn mx factor"
  let ?start = "if 0 < k then ?cs (k - 1) else 0"
  have sizes: "\<forall>i < Suc k. ?sizes ! i = ?cs i"
    using inv k by (auto simp: loop_inv_def nth_list_update less_Suc_eq)
  have "\<exists>c < Suc k. ?lk ! i = of_nat c \<and> (0 < c \<longrightarrow> ?cs (c - 1) \<le> i) \<and> i \<le> ?cs c \<and> (Suc c < Suc k \<longrightarrow> i < ?cs c)"
    if i: "i \<le> ?cs k" for i
  proof (cases "?start \<le> i")
    case True
    moreover have "i < length lk"
      using i lk by (simp add: class_size_def)
    ultimately have "?lk ! i = of_nat k"
      using i by (simp add: nth_fill_lookup)
    with True i show ?thesis
      by (intro exI [of _ k]) auto
  next
    case False
    then have k0: "0 < k" and small: "i < ?cs (k - 1)"
      by (auto split: if_splits)
    moreover have "i < length lk"
      using i lk by (simp add: class_size_def)
    ultimately have same: "?lk ! i = lk ! i"
      by (simp add: nth_fill_lookup)
    from inv k0 small obtain c where c: "c < k" "lk ! i = of_nat c" "0 < c \<longrightarrow> ?cs (c - 1) \<le> i" "i \<le> ?cs c"
      "Suc c < k \<longrightarrow> i < ?cs c"
      unfolding loop_inv_def by (meson less_imp_le)
    moreover have "i < ?cs c"
    proof (cases "Suc c < k")
      case False
      with c(1) have "c = k - 1" by linarith
      with small show ?thesis by simp
    qed (use c(5) in blast)
    ultimately show ?thesis
      using same by (intro exI [of _ c]) auto
  qed
  with sizes show ?thesis
    by (simp add: loop_inv_def)
qed

lemma init_classes_inv:
  assumes "loop_inv mn mx factor k sizes lk" and "k + left = length sizes" and "length lk = Suc mx"
    and "chunkSize = (if k = 0 then mn else chunk_at mn factor (k - 1))" and "0 < factor"
    and "init_classes mn mx factor left k chunkSize sizes lk = (sizes', lk')"
  shows "loop_inv mn mx factor (k + left) sizes' lk' \<and> length sizes' = length sizes \<and> length lk' = length lk"
  using assms
proof (induction left arbitrary: k chunkSize sizes lk)
  case 0
  then show ?case by simp
next
  case (Suc left)
  let ?cs = "class_size mn mx factor"
  let ?chunk = "chunkSize + mn * (k div factor * 2 + 1)"
  let ?sizes = "sizes[k := ?cs k]"
  let ?start = "if 0 < k then ?cs (k - 1) else 0"
  let ?lk = "fill_lookup ?start (?cs k) (of_nat k) lk"
  have chunk: "?chunk = chunk_at mn factor k"
    using Suc.prems(4,5) by (cases k) auto
  have sz: "min (chunk_at mn factor k) mx = ?cs k"
    by (simp add: class_size_def)
  have start: "(if 0 < k then ?sizes ! (k - 1) else 0) = ?start"
    using Suc.prems(1,2) by (auto simp: loop_inv_def)
  have "init_classes mn mx factor left (Suc k) (chunk_at mn factor k) ?sizes ?lk = (sizes', lk')"
    using Suc.prems(6) by (simp only: init_classes.simps Let_def chunk sz start)
  moreover have "loop_inv mn mx factor (Suc k) ?sizes ?lk"
    using Suc.prems by (intro loop_inv_step) auto
  ultimately have "loop_inv mn mx factor (Suc k + left) sizes' lk' \<and> length sizes' = length ?sizes \<and> length lk' = length ?lk"
    using Suc.prems by (intro Suc.IH) auto
  then show ?case by simp
qed


text \<open>The first loop stops past the maximum, so that the last class has the maximal size.\<close>

lemma count_classes_result:
  assumes "count_classes mn mx factor chunk n cur = (n', cur')" and "0 < mn"
    and "chunk + mn = chunk_at mn factor n"
    and "0 < n \<longrightarrow> cur + mn = chunk_at mn factor (n - 1) \<and> cur \<le> mx"
  shows "n \<le> n' \<and> (chunk \<le> mx \<longrightarrow> n < n') \<and> mx + mn < chunk_at mn factor n' \<and>
    (0 < n' \<longrightarrow> cur' + mn = chunk_at mn factor (n' - 1) \<and> cur' \<le> mx)"
  using assms
proof (induction mn mx factor chunk n cur rule: count_classes.induct)
  case (1 mn mx factor chunk n cur)
  show ?case
  proof (cases "chunk \<le> mx")
    case True
    let ?next = "chunk + mn * (Suc n div factor * 2 + 1)"
    have "count_classes mn mx factor ?next (Suc n) chunk = (n', cur')"
      using 1(2) True 1(3) by (subst (asm) count_classes.simps) simp
    moreover have "?next + mn = chunk_at mn factor (Suc n)"
      using 1(4) by simp
    ultimately have "Suc n \<le> n' \<and> (?next \<le> mx \<longrightarrow> Suc n < n') \<and> mx + mn < chunk_at mn factor n' \<and>
        (0 < n' \<longrightarrow> cur' + mn = chunk_at mn factor (n' - 1) \<and> cur' \<le> mx)"
      using 1(1) True 1(3,4) by simp
    then show ?thesis by simp
  next
    case False
    then have "n' = n" and "cur' = cur"
      using 1(2) by (subst (asm) count_classes.simps, simp)+
    with False 1(3,4,5) show ?thesis by auto
  qed
qed

lemma num_classes_result:
  assumes "0 < mn" and "mn \<le> mx"
  shows "0 < num_classes mn mx factor \<and> class_size mn mx factor (num_classes mn mx factor - 1) = mx"
proof -
  obtain n cur where eq: "count_classes mn mx factor mn 0 mn = (n, cur)"
    by fastforce
  have "0 < n" and n: "mx + mn < chunk_at mn factor n"
    and cur: "cur + mn = chunk_at mn factor (n - 1)" "cur \<le> mx"
    using count_classes_result [OF eq] assms by auto
  then show ?thesis
    using eq by (cases "cur < mx") (auto simp: num_classes_def class_size_def min_def)
qed

text \<open>The class the finished table names for a size: the number of classes, the last one apart,
  that are not larger than it.\<close>

definition class_index :: "nat list \<Rightarrow> nat \<Rightarrow> nat" where
  "class_index sizes i = length (takeWhile (\<lambda>z. z \<le> i) (butlast sizes))"

definition pool_cfg :: "SyncPool \<Rightarrow> bool" where
  "pool_cfg p \<longleftrightarrow>
     classesSize p \<noteq> [] \<and> sorted (classesSize p) \<and> last (classesSize p) = maxSize p \<and>
     length (classes p) = length (classesSize p) \<and> length (sizeLookup p) = Suc (maxSize p) \<and>
     (\<forall>i \<le> maxSize p. sizeLookup p ! i = of_nat (class_index (classesSize p) i))"

lemma class_index_less: "sizes \<noteq> [] \<Longrightarrow> class_index sizes i < length sizes"
proof -
  assume "sizes \<noteq> []"
  moreover have "class_index sizes i \<le> length (butlast sizes)"
    by (simp only: class_index_def length_takeWhile_le)
  ultimately show ?thesis
    by (simp add: less_eq_Suc_le Suc_diff_le length_greater_0_conv [symmetric] del: length_greater_0_conv)
qed

lemma class_index_eqI:
  assumes "c < length sizes" and "sorted sizes" and "0 < c \<Longrightarrow> sizes ! (c - 1) \<le> i"
    and "Suc c < length sizes \<Longrightarrow> i < sizes ! c"
  shows "class_index sizes i = c"
proof -
  have "takeWhile (\<lambda>z. z \<le> i) (butlast sizes) = take c (butlast sizes)"
  proof (rule takeWhile_eq_take_P_nth)
    fix j assume "j < c" and "j < length (butlast sizes)"
    moreover from this assms(1,2) have "sizes ! j \<le> sizes ! (c - 1)"
      by (intro sorted_nth_mono) auto
    ultimately show "butlast sizes ! j \<le> i"
      using assms(3) by (simp add: nth_butlast)
  next
    assume "c < length (butlast sizes)"
    then show "\<not> butlast sizes ! c \<le> i"
      using assms(4) by (simp add: nth_butlast less_diff_conv)
  qed
  with assms(1) show ?thesis by (simp add: class_index_def)
qed

lemma class_index_fits:
  assumes "sizes \<noteq> []" and "i \<le> last sizes"
  shows "i \<le> sizes ! class_index sizes i"
proof (cases "class_index sizes i < length (butlast sizes)")
  case True
  then have "\<not> butlast sizes ! class_index sizes i \<le> i"
    unfolding class_index_def by (rule nth_length_takeWhile)
  with True show ?thesis by (simp add: nth_butlast)
next
  case False
  then have "class_index sizes i = length sizes - 1"
    using class_index_less [OF assms(1), of i] by simp
  with assms show ?thesis by (simp add: last_conv_nth)
qed

lemma NewSyncPool_cfg:
  assumes "NewSyncPool mn mx factor = Ok p"
  shows "pool_cfg p \<and> maxSize p = nat mx \<and> classes p = replicate (length (classesSize p)) [] \<and>
    classesSize p = map (class_size (nat mn) (nat mx) (nat factor)) [0..<num_classes (nat mn) (nat mx) (nat factor)]"
proof -
  let ?n = "num_classes (nat mn) (nat mx) (nat factor)"
  let ?cs = "class_size (nat mn) (nat mx) (nat factor)"
  have pos: "0 < nat mn" "nat mn \<le> nat mx" "0 < nat factor"
    using assms by (auto simp: NewSyncPool_def split: if_splits)
  have n: "0 < ?n" "?cs (?n - 1) = nat mx"
    using num_classes_result [OF pos(1,2)] by auto
  obtain sizes lk where init: "init_classes (nat mn) (nat mx) (nat factor) ?n 0 (nat mn)
      (replicate ?n 0) (replicate (Suc (nat mx)) 0) = (sizes, lk)"
    by fastforce
  then have p: "p = \<lparr>classes = replicate ?n [], classesSize = sizes, minSize = nat mn, maxSize = nat mx, sizeLookup = lk\<rparr>"
    using assms pos by (simp add: NewSyncPool_def split: if_splits)
  have inv: "loop_inv (nat mn) (nat mx) (nat factor) ?n sizes lk" and len: "length sizes = ?n" "length lk = Suc (nat mx)"
    using init_classes_inv [OF _ _ _ _ pos(3) init] by (auto simp: loop_inv_def)
  have sizes: "sizes = map ?cs [0..<?n]"
    using inv len by (intro nth_equalityI) (auto simp: loop_inv_def)
  have sorted: "sorted sizes"
    by (auto simp: sizes sorted_iff_nth_mono intro: class_size_mono)
  have "lk ! i = of_nat (class_index sizes i)" if "i \<le> nat mx" for i
  proof -
    from inv n that obtain c where "c < ?n" "lk ! i = of_nat c" "0 < c \<longrightarrow> ?cs (c - 1) \<le> i" "Suc c < ?n \<longrightarrow> i < ?cs c"
      unfolding loop_inv_def by metis
    moreover from this have "class_index sizes i = c"
      using sorted by (intro class_index_eqI) (auto simp: sizes less_imp_diff_less)
    ultimately show ?thesis by simp
  qed
  then show ?thesis
    using p n len sizes sorted by (auto simp: pool_cfg_def last_conv_nth)
qed


lemma classOf_eq:
  assumes "pool_cfg p" and "length (classesSize p) \<le> 256" and "i \<le> maxSize p"
  shows "classOf p i = class_index (classesSize p) i"
proof -
  have "class_index (classesSize p) i < 256"
    using assms(1,2) class_index_less [of "classesSize p" i] by (simp add: pool_cfg_def)
  then show ?thesis
    using assms(1,3) by (simp add: classOf_def pool_cfg_def unat_of_nat)
qed

lemmas pool_state_defs = Alloc_def Free_def pool_Get_def make_slice_def


section \<open>The contract of a byte pool\<close>

text \<open>
  What a user of the pool relies on. \<open>pinv\<close> is an invariant of the memory, \<open>held m s\<close> says that
  the user owns the buffer \<open>s\<close>. For a supported size, \<open>Alloc\<close> succeeds whatever free buffer is
  chosen, the new buffer has exactly the requested length, it shares no array with a buffer
  that is already held, and the bytes of the held buffers are unchanged; \<open>Free\<close> gives back one
  buffer and leaves the others alone; writing to a held buffer stays within it.
\<close>

locale buffer_pool =
  fixes ok_size :: "nat \<Rightarrow> bool"
    and pinv :: "mem \<Rightarrow> bool"
    and held :: "mem \<Rightarrow> slice \<Rightarrow> bool"
  assumes alloc_ok: "pinv m \<Longrightarrow> ok_size n \<Longrightarrow>
      \<exists>s m'. Alloc ch (int n) m = (Ok s, m') \<and> pinv m' \<and> held m' s \<and> s_len s = n"
    and alloc_frame: "pinv m \<Longrightarrow> ok_size n \<Longrightarrow> Alloc ch (int n) m = (Ok s, m') \<Longrightarrow> held m t \<Longrightarrow>
      held m' t \<and> s_arr t \<noteq> s_arr s \<and> hp m' ! s_arr t = hp m ! s_arr t"
    and free_inv: "pinv m \<Longrightarrow> held m s \<Longrightarrow> pinv (Free (Some s) m)"
    and free_frame: "held m s \<Longrightarrow> held m t \<Longrightarrow> s_arr t \<noteq> s_arr s \<Longrightarrow> held (Free (Some s) m) t"
    and write_inv: "pinv m \<Longrightarrow> held m s \<Longrightarrow> i + length bs \<le> s_len s \<Longrightarrow>
      pinv (m\<lparr>hp := write_slice s i bs (hp m)\<rparr>)"
    and write_frame: "held m s \<Longrightarrow> i + length bs \<le> s_len s \<Longrightarrow> held m t \<Longrightarrow>
      held (m\<lparr>hp := write_slice s i bs (hp m)\<rparr>) t"
    and held_wf: "held m s \<Longrightarrow>
      s_off s = 0 \<and> s_arr s < length (hp m) \<and> s_len s \<le> length (hp m ! s_arr s)"
begin

lemma held_window: "held m s \<Longrightarrow> i \<le> s_len s \<Longrightarrow> i \<le> length (hp m ! s_arr s)"
  using held_wf [of m s] by simp

lemma write_bytes:
  assumes "held m s" and "i + length bs \<le> s_len s"
  shows "hp (m\<lparr>hp := write_slice s i bs (hp m)\<rparr>) ! s_arr s = splice_at i bs (hp m ! s_arr s)"
  using held_wf [OF assms(1)] by simp

end

lemma hp_Free [simp]: "hp (Free ms m) = hp m"
  by (simp add: Free_def Let_def split: option.split)


section \<open>A set of sizes that a pool serves safely\<close>

text \<open>
  \<open>Free\<close> files a buffer under the class of its capacity. The table maps the size of a class to
  the next class, so a buffer comes back under a class whose size it does not have. A set of
  request sizes is safe for a configuration when every capacity handed out for one of them is
  large enough for each of them that its new class serves.
\<close>

definition caps_of :: "SyncPool \<Rightarrow> nat list \<Rightarrow> nat list" where
  "caps_of p szs = map (\<lambda>y. classesSize p ! class_index (classesSize p) y) (filter (\<lambda>y. y \<le> maxSize p) szs)"

definition safe_sizes :: "SyncPool \<Rightarrow> nat list \<Rightarrow> bool" where
  "safe_sizes p szs \<longleftrightarrow>
     list_all (\<lambda>c. list_all (\<lambda>x. x \<le> maxSize p \<and>
        class_index (classesSize p) x = class_index (classesSize p) c \<longrightarrow> x \<le> c) szs) (caps_of p szs)"

definition pool_arrs :: "SyncPool \<Rightarrow> nat list" where
  "pool_arrs p = map s_arr (concat (classes p))"

definition same_cfg :: "SyncPool \<Rightarrow> SyncPool \<Rightarrow> bool" where
  "same_cfg p q \<longleftrightarrow> classesSize q = classesSize p \<and> maxSize q = maxSize p \<and> sizeLookup q = sizeLookup p \<and>
     length (classes q) = length (classesSize p)"

definition slice_ok :: "heap \<Rightarrow> slice \<Rightarrow> bool" where
  "slice_ok h s \<longleftrightarrow> s_off s = 0 \<and> s_arr s < length h \<and> s_cap s = length (h ! s_arr s) \<and> s_len s \<le> s_cap s"

definition free_ok :: "SyncPool \<Rightarrow> nat list \<Rightarrow> heap \<Rightarrow> nat \<Rightarrow> slice \<Rightarrow> bool" where
  "free_ok p szs h k s \<longleftrightarrow>
     slice_ok h s \<and> s_cap s \<in> set (caps_of p szs) \<and> class_index (classesSize p) (s_cap s) = k"

definition pool_inv :: "SyncPool \<Rightarrow> nat list \<Rightarrow> mem \<Rightarrow> bool" where
  "pool_inv p szs m \<longleftrightarrow> same_cfg p (pool m) \<and> distinct (pool_arrs (pool m)) \<and>
     (\<forall>k < length (classesSize p). \<forall>s \<in> set (classes (pool m) ! k). free_ok p szs (hp m) k s)"

definition pool_held :: "SyncPool \<Rightarrow> nat list \<Rightarrow> mem \<Rightarrow> slice \<Rightarrow> bool" where
  "pool_held p szs m s \<longleftrightarrow> slice_ok (hp m) s \<and> s_arr s \<notin> set (pool_arrs (pool m)) \<and>
     same_cfg p (pool m) \<and> (maxSize p < s_cap s \<or> s_cap s \<in> set (caps_of p szs))"

definition served :: "SyncPool \<Rightarrow> nat list \<Rightarrow> nat \<Rightarrow> bool" where
  "served p szs n \<longleftrightarrow> 0 < n \<and> (n \<in> set szs \<or> maxSize p < n)"

lemmas pool_inv_defs = pool_inv_def pool_held_def same_cfg_def free_ok_def slice_ok_def

lemma set_concat_update:
  "k < length xss \<Longrightarrow> set (concat (xss[k := ys])) \<subseteq> set ys \<union> set (concat xss)"
  by (auto simp: in_set_conv_nth nth_list_update split: if_splits) (metis nth_mem)+

lemma mset_concat_update_add:
  "k < length xss \<Longrightarrow> mset (concat (xss[k := y # xss ! k])) = add_mset y (mset (concat xss))"
proof (induction xss arbitrary: k)
  case (Cons xs xss)
  then show ?case by (cases k) auto
qed simp

lemma mset_concat_update_remove:
  assumes "k < length xss" and "j < length (xss ! k)"
  shows "mset (concat xss) = add_mset (xss ! k ! j) (mset (concat (xss[k := take j (xss ! k) @ drop (Suc j) (xss ! k)])))"
  using assms
proof (induction xss arbitrary: k)
  case (Cons xs xss)
  show ?case
  proof (cases k)
    case 0
    with Cons.prems have "mset xs = add_mset (xs ! j) (mset (take j xs) + mset (drop (Suc j) xs))"
      by (metis id_take_nth_drop mset.simps(2) mset_append nth_Cons_0 union_mset_add_mset_right)
    with 0 show ?thesis by simp
  next
    case (Suc k')
    with Cons show ?thesis by simp
  qed
qed simp


lemma mset_pool_arrs_add:
  "k < length (classes q) \<Longrightarrow>
    mset (pool_arrs (q\<lparr>classes := (classes q)[k := s # classes q ! k]\<rparr>)) = add_mset (s_arr s) (mset (pool_arrs q))"
  by (simp add: pool_arrs_def mset_concat_update_add mset_map)

lemma mset_pool_arrs_remove:
  assumes "k < length (classes q)" and "j < length (classes q ! k)"
  shows "mset (pool_arrs q) = add_mset (s_arr (classes q ! k ! j))
    (mset (pool_arrs (q\<lparr>classes := (classes q)[k := take j (classes q ! k) @ drop (Suc j) (classes q ! k)]\<rparr>)))"
  using mset_concat_update_remove [OF assms] by (simp add: pool_arrs_def mset_map)

lemma distinct_add_mset:
  assumes "mset xs = add_mset y (mset ys)"
  shows "distinct xs \<longleftrightarrow> y \<notin> set ys \<and> distinct ys"
proof -
  have "mset xs = mset (y # ys)"
    using assms by simp
  then show ?thesis
    using mset_eq_imp_distinct_iff [of xs "y # ys"] by simp
qed

lemma set_add_mset: "mset xs = add_mset y (mset ys) \<Longrightarrow> set xs = insert y (set ys)"
  by (metis set_mset_add_mset_insert set_mset_mset)

lemma pool_arrs_less:
  "pool_inv p szs m \<Longrightarrow> a \<in> set (pool_arrs (pool m)) \<Longrightarrow> a < length (hp m)"
  by (auto simp: pool_inv_defs pool_arrs_def in_set_conv_nth) (metis nth_mem)

lemma slice_ok_grow: "slice_ok h s \<Longrightarrow> slice_ok (h @ [xs]) s"
  by (auto simp: slice_ok_def nth_append)

lemma held_grow:
  assumes "pool_held p szs m t"
  shows "pool_held p szs (m\<lparr>hp := hp m @ [xs]\<rparr>) t \<and> s_arr t \<noteq> length (hp m) \<and> (hp m @ [xs]) ! s_arr t = hp m ! s_arr t"
  using assms by (simp add: pool_held_def slice_ok_grow) (simp add: slice_ok_def nth_append)

locale safe_pool =
  fixes p :: SyncPool and szs :: "nat list"
  assumes cfg: "pool_cfg p"
    and few: "length (classesSize p) \<le> 256"
    and safe: "safe_sizes p szs"
begin

lemma same_class:
  assumes "same_cfg p q" and "n \<le> maxSize p"
  shows "classOf q n = class_index (classesSize p) n"
  using classOf_eq [OF cfg few assms(2)] assms(1) by (simp add: classOf_def same_cfg_def)

lemma caps_le: "c \<in> set (caps_of p szs) \<Longrightarrow> c \<le> maxSize p"
proof -
  assume "c \<in> set (caps_of p szs)"
  then obtain y where "c = classesSize p ! class_index (classesSize p) y"
    by (auto simp: caps_of_def)
  moreover have "classesSize p ! class_index (classesSize p) y \<le> classesSize p ! (length (classesSize p) - 1)"
    using cfg class_index_less [of "classesSize p" y] by (intro sorted_nth_mono) (auto simp: pool_cfg_def)
  moreover have "classesSize p ! (length (classesSize p) - 1) = maxSize p"
    using cfg last_conv_nth [of "classesSize p"] by (simp add: pool_cfg_def)
  ultimately show ?thesis by simp
qed

lemma get_new:
  assumes inv: "pool_inv p szs m" and n: "n \<in> set szs" "n \<le> maxSize p"
    and eq: "make_slice (classesSize p ! class_index (classesSize p) n) (hp m) = (s, h)"
  shows "n \<le> s_cap s \<and> pool_inv p szs (m\<lparr>hp := h\<rparr>) \<and> pool_held p szs (m\<lparr>hp := h\<rparr>) s \<and>
    (\<forall>t. pool_held p szs m t \<longrightarrow> pool_held p szs (m\<lparr>hp := h\<rparr>) t \<and> s_arr t \<noteq> s_arr s \<and> h ! s_arr t = hp m ! s_arr t)"
proof -
  let ?c = "classesSize p ! class_index (classesSize p) n"
  have s: "s = \<lparr>s_arr = length (hp m), s_off = 0, s_len = ?c, s_cap = ?c\<rparr>" and h: "h = hp m @ [replicate ?c 0]"
    using eq by (auto simp: make_slice_def)
  have "n \<le> ?c"
    using cfg n by (intro class_index_fits) (auto simp: pool_cfg_def)
  moreover have "?c \<in> set (caps_of p szs)"
    using n by (auto simp: caps_of_def)
  moreover have "length (hp m) \<notin> set (pool_arrs (pool m))"
    using pool_arrs_less [OF inv] by blast
  moreover have "pool_inv p szs (m\<lparr>hp := h\<rparr>)"
    using inv by (simp add: h pool_inv_def free_ok_def slice_ok_grow)
  moreover have frame: "\<forall>t. pool_held p szs m t \<longrightarrow> pool_held p szs (m\<lparr>hp := h\<rparr>) t \<and> s_arr t \<noteq> s_arr s \<and> h ! s_arr t = hp m ! s_arr t"
    using held_grow [of p szs m _ "replicate ?c 0"] by (simp add: s h)
  moreover have "same_cfg p (pool m)"
    using inv by (simp add: pool_inv_def)
  ultimately have "pool_held p szs (m\<lparr>hp := h\<rparr>) s"
    by (simp add: s h pool_held_def slice_ok_def)
  with \<open>n \<le> ?c\<close> \<open>pool_inv p szs (m\<lparr>hp := h\<rparr>)\<close> frame show ?thesis
    by (simp add: s)
qed

lemma get_old:
  assumes inv: "pool_inv p szs m" and n: "n \<in> set szs" "n \<le> maxSize p"
    and k: "k = class_index (classesSize p) n" and j: "j < length (classes (pool m) ! k)"
    and s: "s = classes (pool m) ! k ! j"
    and m': "m' = m\<lparr>pool := (pool m)\<lparr>classes := (classes (pool m))[k := take j (classes (pool m) ! k) @ drop (Suc j) (classes (pool m) ! k)]\<rparr>\<rparr>"
  shows "n \<le> s_cap s \<and> pool_inv p szs m' \<and> pool_held p szs m' s \<and>
    (\<forall>t. pool_held p szs m t \<longrightarrow> pool_held p szs m' t \<and> s_arr t \<noteq> s_arr s \<and> hp m' ! s_arr t = hp m ! s_arr t)"
proof -
  let ?free = "classes (pool m) ! k"
  have kl: "k < length (classes (pool m))"
    using inv cfg k class_index_less by (simp add: pool_inv_defs pool_cfg_def)
  have mem: "s \<in> set ?free" using s j by simp
  then have ok: "slice_ok (hp m) s" "s_cap s \<in> set (caps_of p szs)" "class_index (classesSize p) (s_cap s) = k"
    using inv kl by (auto simp: pool_inv_def same_cfg_def free_ok_def)
  then have le: "n \<le> s_cap s"
    using safe n k by (auto simp: safe_sizes_def list_all_iff)
  have arrs: "mset (pool_arrs (pool m)) = add_mset (s_arr s) (mset (pool_arrs (pool m')))"
    using mset_pool_arrs_remove [OF kl j] s m' by simp
  then have "s_arr s \<notin> set (pool_arrs (pool m'))" and "distinct (pool_arrs (pool m'))"
    and set: "set (pool_arrs (pool m)) = insert (s_arr s) (set (pool_arrs (pool m')))"
    using inv distinct_add_mset [OF arrs] set_add_mset [OF arrs] by (auto simp: pool_inv_def)
  moreover have hp: "hp m' = hp m" and cfg': "same_cfg p (pool m')"
    using inv m' by (simp_all add: pool_inv_def same_cfg_def)
  moreover have sub: "set (classes (pool m') ! i) \<subseteq> set (classes (pool m) ! i)" for i
    using m' kl by (cases "i = k") (auto dest: in_set_takeD in_set_dropD)
  ultimately have "pool_inv p szs m'"
    using inv by (simp add: pool_inv_def) (meson subsetD)
  moreover have "pool_held p szs m' s"
    using ok \<open>s_arr s \<notin> _\<close> cfg' by (simp add: pool_held_def hp)
  moreover have "pool_held p szs m' t \<and> s_arr t \<noteq> s_arr s" if "pool_held p szs m t" for t
    using that set cfg' by (auto simp: pool_held_def hp)
  ultimately show ?thesis
    using le hp by simp
qed

lemma get_ok:
  assumes inv: "pool_inv p szs m" and n: "n \<in> set szs" "n \<le> maxSize p"
    and eq: "pool_Get ch (class_index (classesSize p) n) m = (s, m')"
  shows "n \<le> s_cap s \<and> pool_inv p szs m' \<and> pool_held p szs m' s \<and>
    (\<forall>t. pool_held p szs m t \<longrightarrow> pool_held p szs m' t \<and> s_arr t \<noteq> s_arr s \<and> hp m' ! s_arr t = hp m ! s_arr t)"
proof (cases "\<exists>j. ch = Some j \<and> j < length (classes (pool m) ! class_index (classesSize p) n)")
  case True
  then obtain j where "ch = Some j" and j: "j < length (classes (pool m) ! class_index (classesSize p) n)"
    by blast
  with eq show ?thesis
    by (intro get_old [OF inv n refl j]) (simp_all add: pool_Get_def Let_def)
next
  case False
  have sizes: "classesSize (pool m) = classesSize p"
    using inv by (simp add: pool_inv_def same_cfg_def)
  obtain h where "make_slice (classesSize p ! class_index (classesSize p) n) (hp m) = (s, h)" and "m' = m\<lparr>hp := h\<rparr>"
    using eq False by (auto simp: pool_Get_def Let_def sizes split: option.splits prod.splits if_splits)
  then show ?thesis
    using get_new [OF inv n] by simp
qed

lemma held_shrink: "pool_held p szs m s \<Longrightarrow> n \<le> s_cap s \<Longrightarrow> pool_held p szs m (s\<lparr>s_len := n\<rparr>)"
  by (auto simp: pool_held_def slice_ok_def)

lemma alloc_result:
  assumes inv: "pool_inv p szs m" and n: "served p szs n"
  shows "\<exists>s m'. Alloc ch (int n) m = (Ok s, m') \<and> pool_inv p szs m' \<and> pool_held p szs m' s \<and> s_len s = n \<and>
    (\<forall>t. pool_held p szs m t \<longrightarrow> pool_held p szs m' t \<and> s_arr t \<noteq> s_arr s \<and> hp m' ! s_arr t = hp m ! s_arr t)"
proof (cases "n \<le> maxSize p")
  case True
  then have szs: "n \<in> set szs" "0 < n"
    using n by (auto simp: served_def)
  have mx: "maxSize (pool m) = maxSize p" and cls: "classOf (pool m) n = class_index (classesSize p) n"
    using inv same_class [OF _ True] by (auto simp: pool_inv_def same_cfg_def)
  obtain s m' where get: "pool_Get ch (class_index (classesSize p) n) m = (s, m')"
    by fastforce
  from get_ok [OF inv szs(1) True get] show ?thesis
    using szs True get held_shrink [of m' s n] by (simp add: Alloc_def mx cls)
next
  case False
  let ?s = "\<lparr>s_arr = length (hp m), s_off = 0, s_len = n, s_cap = n\<rparr>"
  let ?m = "m\<lparr>hp := hp m @ [replicate n 0]\<rparr>"
  have "Alloc ch (int n) m = (Ok ?s, ?m)"
    using False inv n by (auto simp: Alloc_def make_slice_def pool_inv_def same_cfg_def served_def)
  moreover have "pool_inv p szs ?m"
    using inv by (simp add: pool_inv_def free_ok_def slice_ok_grow)
  moreover have "pool_held p szs ?m ?s"
    using False inv pool_arrs_less [OF inv] by (auto simp: pool_inv_defs)
  moreover have "pool_held p szs ?m t \<and> s_arr t \<noteq> s_arr ?s \<and> hp ?m ! s_arr t = hp m ! s_arr t" if "pool_held p szs m t" for t
    using held_grow [OF that] by simp
  ultimately show ?thesis by fastforce
qed

lemma free_result:
  assumes inv: "pool_inv p szs m" and s: "pool_held p szs m s"
  shows "pool_inv p szs (Free (Some s) m)"
proof (cases "s_cap s \<le> maxSize p")
  case True
  let ?k = "class_index (classesSize p) (s_cap s)"
  let ?s = "s\<lparr>s_len := s_cap s\<rparr>"
  have same: "same_cfg p (pool m)" and mx: "maxSize (pool m) = maxSize p"
    using inv by (auto simp: pool_inv_def same_cfg_def)
  have m': "Free (Some s) m = m\<lparr>pool := (pool m)\<lparr>classes := (classes (pool m))[?k := ?s # classes (pool m) ! ?k]\<rparr>\<rparr>"
    (is "_ = ?m'")
    using True same_class [OF same True] by (simp add: Free_def mx Let_def)
  have kl: "?k < length (classes (pool m))"
    using same cfg class_index_less by (simp add: same_cfg_def pool_cfg_def)
  have "distinct (pool_arrs (pool ?m'))"
    using inv s distinct_add_mset [OF mset_pool_arrs_add [OF kl, of ?s]] by (simp add: pool_inv_def pool_held_def)
  moreover have "free_ok p szs (hp m) ?k ?s"
    using s True by (auto simp: pool_held_def free_ok_def slice_ok_def)
  ultimately show ?thesis
    using inv kl by (auto simp: m' pool_inv_def same_cfg_def nth_list_update)
next
  case False
  moreover have "maxSize (pool m) = maxSize p"
    using inv by (simp add: pool_inv_def same_cfg_def)
  ultimately show ?thesis
    using inv by (simp add: Free_def)
qed

lemma free_keeps:
  assumes s: "pool_held p szs m s" and t: "pool_held p szs m t" and ne: "s_arr t \<noteq> s_arr s"
  shows "pool_held p szs (Free (Some s) m) t"
proof (cases "s_cap s \<le> maxSize p")
  case True
  let ?k = "class_index (classesSize p) (s_cap s)"
  let ?s = "s\<lparr>s_len := s_cap s\<rparr>"
  have same: "same_cfg p (pool m)" and mx: "maxSize (pool m) = maxSize p"
    using s by (auto simp: pool_held_def same_cfg_def)
  have m': "Free (Some s) m = m\<lparr>pool := (pool m)\<lparr>classes := (classes (pool m))[?k := ?s # classes (pool m) ! ?k]\<rparr>\<rparr>"
    using True same_class [OF same True] by (simp add: Free_def mx Let_def)
  have "?k < length (classes (pool m))"
    using same cfg class_index_less by (simp add: same_cfg_def pool_cfg_def)
  from set_add_mset [OF mset_pool_arrs_add [OF this, of ?s]] show ?thesis
    using t ne by (simp add: m' pool_held_def same_cfg_def)
next
  case False
  moreover have "maxSize (pool m) = maxSize p"
    using s by (simp add: pool_held_def same_cfg_def)
  ultimately show ?thesis
    using t by (simp add: Free_def)
qed

lemma write_len:
  assumes "pool_held p szs m s" and "i + length bs \<le> s_len s"
  shows "length (write_slice s i bs (hp m) ! a) = length (hp m ! a)"
  using assms by (intro write_slice_length) (auto simp: pool_held_def slice_ok_def)

lemma slice_ok_write:
  assumes "pool_held p szs m s" and "i + length bs \<le> s_len s"
  shows "slice_ok (write_slice s i bs (hp m)) t = slice_ok (hp m) t"
  using write_len [OF assms] by (simp add: slice_ok_def)

end

sublocale safe_pool \<subseteq> buffer_pool "served p szs" "pool_inv p szs" "pool_held p szs"
proof unfold_locales
  fix m n ch
  assume "pool_inv p szs m" and "served p szs n"
  then show "\<exists>s m'. Alloc ch (int n) m = (Ok s, m') \<and> pool_inv p szs m' \<and> pool_held p szs m' s \<and> s_len s = n"
    using alloc_result by metis
next
  fix m n ch s m' t
  assume "pool_inv p szs m" and "served p szs n" and "Alloc ch (int n) m = (Ok s, m')" and "pool_held p szs m t"
  then show "pool_held p szs m' t \<and> s_arr t \<noteq> s_arr s \<and> hp m' ! s_arr t = hp m ! s_arr t"
    using alloc_result [of m n ch] by auto
next
  fix m s assume "pool_inv p szs m" and "pool_held p szs m s"
  then show "pool_inv p szs (Free (Some s) m)" by (rule free_result)
next
  fix m s t assume "pool_held p szs m s" and "pool_held p szs m t" and "s_arr t \<noteq> s_arr s"
  then show "pool_held p szs (Free (Some s) m) t" by (rule free_keeps)
next
  fix m s i and bs :: bytes
  assume "pool_inv p szs m" and "pool_held p szs m s" and "i + length bs \<le> s_len s"
  then show "pool_inv p szs (m\<lparr>hp := write_slice s i bs (hp m)\<rparr>)"
    using slice_ok_write [of m s i bs] by (simp add: pool_inv_def free_ok_def)
next
  fix m s i t and bs :: bytes
  assume "pool_held p szs m s" and "i + length bs \<le> s_len s" and "pool_held p szs m t"
  then show "pool_held p szs (m\<lparr>hp := write_slice s i bs (hp m)\<rparr>) t"
    using slice_ok_write [of m s i bs] by (simp add: pool_held_def)
next
  fix m s assume "pool_held p szs m s"
  then show "s_off s = 0 \<and> s_arr s < length (hp m) \<and> s_len s \<le> length (hp m ! s_arr s)"
    by (simp add: pool_held_def slice_ok_def)
qed



section \<open>The pool of the reader\<close>

text \<open>
  The package initialiser of \<^verbatim>\<open>reader.go\<close> builds the pool with chunks from 1024 to 65536 bytes
  and growth factor 4. The reader asks for powers of two only (its initial sizes are powers of
  two and it grows to \<open>nextPowerOfTwo\<close>), and for these the pool is safe.
\<close>

definition default_pool :: "SyncPool res" where
  "default_pool = NewSyncPool 1024 65536 4"

definition default_sizes :: "nat list" where
  "default_sizes = [2048, 3072, 4096, 5120, 8192, 11264, 14336, 17408, 22528, 27648, 32768, 37888, 45056, 52224, 59392, 65536]"

lemma num_classes_default: "num_classes 1024 65536 4 = 16"
  by (simp add: num_classes_def count_classes.simps)

lemma chunk_at_numeral:
  "chunk_at mn factor (numeral v) = chunk_at mn factor (pred_numeral v) + mn * (numeral v div factor * 2 + 1)"
  by (simp add: numeral_eq_Suc)

lemma class_sizes_default: "map (class_size 1024 65536 4) [0..<16] = default_sizes"
  by (simp add: default_sizes_def class_size_def chunk_at_numeral upt_rec)

definition pow2_sizes :: "nat list" where
  "pow2_sizes = map (\<lambda>k. 2 ^ k) [0..<17]"

lemma default_pool_Ok: "\<exists>p. default_pool = Ok p"
  by (simp add: default_pool_def NewSyncPool_def Let_def split: prod.split)

definition the_pool :: SyncPool where
  "the_pool = (case default_pool of Ok p \<Rightarrow> p
     | _ \<Rightarrow> \<lparr>classes = [], classesSize = [], minSize = 0, maxSize = 0, sizeLookup = []\<rparr>)"

lemma default_pool_eq: "default_pool = Ok the_pool"
proof -
  from default_pool_Ok obtain p where p: "default_pool = Ok p" ..
  show ?thesis
    unfolding the_pool_def p by simp
qed

lemma the_pool_cfg: "pool_cfg the_pool" and the_pool_max [simp]: "maxSize the_pool = 65536"
  and the_pool_sizes [simp]: "classesSize the_pool = default_sizes"
  and the_pool_classes: "classes the_pool = replicate 16 []"
  using NewSyncPool_cfg [of 1024 65536 4 the_pool] default_pool_eq
  by (simp_all add: default_pool_def num_classes_default class_sizes_default)
     (simp_all add: default_sizes_def)

lemma safe_sizes_default: "safe_sizes the_pool pow2_sizes"
  by (simp add: safe_sizes_def caps_of_def pow2_sizes_def class_index_def default_sizes_def upt_rec)

interpretation reader_pool: safe_pool the_pool pow2_sizes
  by unfold_locales (simp_all add: the_pool_cfg safe_sizes_default default_sizes_def)



section \<open>Runs of the pool\<close>

text \<open>A user of the pool keeps the list of its live buffers, allocates and frees; a panic of
  \<open>Alloc\<close> ends the run.\<close>

datatype pool_op = OpAlloc "nat option" int | OpFree nat

fun pool_step :: "pool_op \<Rightarrow> slice list \<times> mem \<Rightarrow> (slice list \<times> mem) option" where
  "pool_step (OpAlloc ch n) (live, m) =
     (case Alloc ch n m of (Ok s, m') \<Rightarrow> Some (s # live, m') | _ \<Rightarrow> None)"
| "pool_step (OpFree i) (live, m) =
     (if i < length live then Some (take i live @ drop (Suc i) live, Free (Some (live ! i)) m)
      else Some (live, m))"

fun pool_run :: "pool_op list \<Rightarrow> slice list \<times> mem \<Rightarrow> (slice list \<times> mem) option" where
  "pool_run [] st = Some st"
| "pool_run (x # xs) st = (case pool_step x st of None \<Rightarrow> None | Some st' \<Rightarrow> pool_run xs st')"

definition fresh_mem :: "SyncPool \<Rightarrow> mem" where
  "fresh_mem p = \<lparr>hp = [], pool = p\<rparr>"

definition pow2_op :: "pool_op \<Rightarrow> bool" where
  "pow2_op x \<longleftrightarrow> (case x of OpAlloc ch n \<Rightarrow> (\<exists>k. n = 2 ^ k) | OpFree i \<Rightarrow> True)"

lemma pool_arrs_fresh: "classes p = replicate n [] \<Longrightarrow> pool_arrs p = []"
  by (simp add: pool_arrs_def)

lemma pool_inv_fresh: "pool_cfg p \<Longrightarrow> classes p = replicate n [] \<Longrightarrow> pool_inv p szs (fresh_mem p)"
  by (simp add: pool_inv_def fresh_mem_def same_cfg_def pool_cfg_def pool_arrs_fresh)

lemma served_pow2: "served the_pool pow2_sizes (2 ^ k)"
proof (cases "k < 17")
  case True
  then have "(2::nat) ^ k \<in> set pow2_sizes"
    by (auto simp: pow2_sizes_def)
  then show ?thesis by (simp add: served_def)
next
  case False
  then have "(2::nat) ^ 17 \<le> 2 ^ k"
    by (intro power_increasing) auto
  then show ?thesis by (simp add: served_def)
qed

definition live_ok :: "slice list \<times> mem \<Rightarrow> bool" where
  "live_ok st \<longleftrightarrow> (case st of (live, m) \<Rightarrow> pool_inv the_pool pow2_sizes m \<and>
     (\<forall>s \<in> set live. pool_held the_pool pow2_sizes m s) \<and> distinct (map s_arr live))"

lemma live_okI:
  "pool_inv the_pool pow2_sizes m \<Longrightarrow> \<forall>s \<in> set live. pool_held the_pool pow2_sizes m s \<Longrightarrow>
    distinct (map s_arr live) \<Longrightarrow> live_ok (live, m)"
  by (simp add: live_ok_def)

lemma pool_step_live_ok:
  assumes "live_ok st" and "pow2_op x"
  shows "\<exists>st'. pool_step x st = Some st' \<and> live_ok st'"
proof -
  obtain live m where st: "st = (live, m)" by fastforce
  have inv: "pool_inv the_pool pow2_sizes m" and live: "\<forall>s \<in> set live. pool_held the_pool pow2_sizes m s"
    and dist: "distinct (map s_arr live)"
    using assms(1) by (auto simp: st live_ok_def)
  show ?thesis
  proof (cases x)
    case (OpAlloc ch n)
    then obtain k where n: "n = int (2 ^ k)"
      using assms(2) by (auto simp: pow2_op_def)
    from reader_pool.alloc_ok [OF inv served_pow2] obtain s m' where al: "Alloc ch n m = (Ok s, m')"
      and m': "pool_inv the_pool pow2_sizes m'" "pool_held the_pool pow2_sizes m' s"
      unfolding n by metis
    have "\<forall>t \<in> set live. pool_held the_pool pow2_sizes m' t \<and> s_arr t \<noteq> s_arr s"
      using reader_pool.alloc_frame [OF inv served_pow2 al [unfolded n]] live by blast
    with m' dist have "live_ok (s # live, m')"
      by (intro live_okI) auto
    with al show ?thesis
      by (simp add: OpAlloc st)
  next
    case (OpFree i)
    show ?thesis
    proof (cases "i < length live")
      case True
      let ?live = "take i live @ drop (Suc i) live"
      have perm: "mset live = add_mset (live ! i) (mset ?live)"
        using True by (metis id_take_nth_drop mset.simps(2) mset_append union_mset_add_mset_right)
      then have "mset (map s_arr live) = add_mset (s_arr (live ! i)) (mset (map s_arr ?live))"
        by (simp del: mset_append map_append add: mset_map)
      from distinct_add_mset [OF this] dist have d: "s_arr (live ! i) \<notin> set (map s_arr ?live)" "distinct (map s_arr ?live)"
        by blast+
      have sub: "set ?live \<subseteq> set live"
        using set_add_mset [OF perm] by blast
      have hi: "pool_held the_pool pow2_sizes m (live ! i)"
        using live True by simp
      have "pool_held the_pool pow2_sizes (Free (Some (live ! i)) m) t" if t: "t \<in> set ?live" for t
      proof (rule reader_pool.free_frame [OF hi])
        show "pool_held the_pool pow2_sizes m t"
          using sub live t by (meson subsetD)
        show "s_arr t \<noteq> s_arr (live ! i)"
          using d(1) imageI [OF t, of s_arr] by (metis set_map)
      qed
      then have "live_ok (?live, Free (Some (live ! i)) m)"
        by (intro live_okI reader_pool.free_inv [OF inv hi] d(2) ballI)
      with True show ?thesis
        by (simp add: OpFree st)
    qed (use assms(1) in \<open>simp add: OpFree st\<close>)
  qed
qed

lemma pool_run_live_ok:
  "live_ok st \<Longrightarrow> list_all pow2_op xs \<Longrightarrow> \<exists>st'. pool_run xs st = Some st' \<and> live_ok st'"
proof (induction xs arbitrary: st)
  case (Cons x xs)
  then obtain st' where "pool_step x st = Some st'" "live_ok st'"
    using pool_step_live_ok [of st x] by auto
  with Cons show ?case by simp
qed simp



section \<open>Properties of the pool\<close>

text \<open>
  C34: Whatever sequence of allocations (of power-of-two sizes, as the reader makes them) and
  frees runs on the pool of the reader, and whichever free buffer each \<open>Get\<close> picks, no
  allocation panics, and any two buffers that are live at the same time have different arrays.
\<close>

theorem pool_pow2_run_ok:
  assumes "default_pool = Ok p" and "list_all pow2_op xs"
  shows "\<exists>live m. pool_run xs ([], fresh_mem p) = Some (live, m) \<and>
    distinct (map s_arr live) \<and> (\<forall>s \<in> set live. slice_ok (hp m) s)"
proof -
  have p: "p = the_pool"
    using assms(1) unfolding default_pool_eq by simp
  have "live_ok ([], fresh_mem the_pool)"
    using pool_inv_fresh [OF the_pool_cfg the_pool_classes] by (simp add: live_ok_def)
  from pool_run_live_ok [OF this assms(2)] show ?thesis
    by (auto simp: p live_ok_def pool_held_def)
qed

theorem pool_pow2_run_ok_witness:
  "\<exists>p live m. default_pool = Ok p \<and>
     pool_run [OpAlloc None 8192, OpFree 0, OpAlloc (Some 0) 16384, OpAlloc (Some 0) 8192] ([], fresh_mem p) = Some (live, m) \<and>
     distinct (map s_arr live) \<and> (\<forall>s \<in> set live. slice_ok (hp m) s)"
proof -
  have "(\<exists>k. (8192::int) = 2 ^ k) \<and> (\<exists>k. (16384::int) = 2 ^ k)"
    by (intro conjI exI [of _ "13"] exI [of _ "14"]) simp_all
  then have "list_all pow2_op [OpAlloc None 8192, OpFree 0, OpAlloc (Some 0) 16384, OpAlloc (Some 0) 8192]"
    by (simp add: pow2_op_def)
  from pool_pow2_run_ok [OF default_pool_eq this] show ?thesis
    using default_pool_eq by blast
qed

text \<open>
  In a pool of at most 256 classes, an allocation that finds no free buffer returns a
  fresh, zeroed buffer of exactly the requested length, and its capacity is what \<open>Size\<close>
  announces for the request.
\<close>

theorem alloc_fresh_exact:
  assumes "NewSyncPool mn mx factor = Ok p" and "length (classesSize p) \<le> 256"
    and "pool m = p" and "0 < n"
  shows "\<exists>s m'. Alloc None n m = (Ok s, m') \<and> int (s_len s) = n \<and> int (s_cap s) = Size p n \<and>
    n \<le> Size p n \<and> slice_bytes (hp m') s = replicate (nat n) 0 \<and> s_arr s = length (hp m)"
proof -
  have cfg: "pool_cfg p"
    using NewSyncPool_cfg [OF assms(1)] by blast
  show ?thesis
  proof (cases "nat n \<le> maxSize p")
    case True
    have "nat n \<le> classesSize p ! class_index (classesSize p) (nat n)"
      using cfg True by (intro class_index_fits) (auto simp: pool_cfg_def)
    moreover have "\<not> int (maxSize p) < n"
      using True by linarith
    ultimately show ?thesis
      using True assms(3,4) classOf_eq [OF cfg assms(2) True]
      by (simp add: Alloc_def pool_Get_def make_slice_def Size_def slice_bytes_def Let_def)
  next
    case False
    moreover from this have "int (maxSize p) < n"
      by linarith
    ultimately show ?thesis
      using assms(3,4) by (simp add: Alloc_def make_slice_def Size_def slice_bytes_def)
  qed
qed

theorem alloc_fresh_exact_witness:
  "\<exists>p. NewSyncPool 1024 65536 4 = Ok p \<and> length (classesSize p) \<le> 256 \<and>
    (\<exists>s m'. Alloc None 5000 (fresh_mem p) = (Ok s, m') \<and> int (s_len s) = 5000 \<and> int (s_cap s) = Size p 5000 \<and>
       5000 \<le> Size p 5000 \<and> slice_bytes (hp m') s = replicate (nat 5000) 0 \<and> s_arr s = length (hp (fresh_mem p)))"
proof -
  have "NewSyncPool 1024 65536 4 = Ok the_pool"
    using default_pool_eq by (simp add: default_pool_def)
  moreover have "length (classesSize the_pool) \<le> 256"
    by (simp add: default_sizes_def)
  moreover have "pool (fresh_mem the_pool) = the_pool"
    by (simp add: fresh_mem_def)
  ultimately show ?thesis
    using alloc_fresh_exact [of 1024 65536 4 the_pool "fresh_mem the_pool" 5000] by auto
qed

lemma classOf_the_pool: "i \<le> 65536 \<Longrightarrow> classOf the_pool i = class_index default_sizes i"
  using classOf_eq [OF the_pool_cfg, of i] by (simp add: default_sizes_def)

lemma classOf_classes [simp]: "classOf (q\<lparr>classes := cs\<rparr>) i = classOf q i"
  by (simp add: classOf_def)

text \<open>
  \<open>Free\<close> files a buffer under a class it does not fit. On the pool of the reader, a buffer
  allocated for 1024 bytes (capacity 2048) comes back under the class of 3072 bytes, and the
  next allocation of 3000 bytes that picks it panics; so does an allocation that picks a buffer
  of length 0 after it was freed.
\<close>

theorem free_misfiles_buffer:
  assumes "default_pool = Ok p"
  shows "pool_run [OpAlloc None 1024, OpFree 0] ([], fresh_mem p) \<noteq> None \<and>
    pool_run [OpAlloc None 1024, OpFree 0, OpAlloc (Some 0) 3000] ([], fresh_mem p) = None \<and>
    pool_run [OpAlloc None 0, OpFree 0, OpAlloc (Some 0) 1024] ([], fresh_mem p) = None"
proof -
  have p: "p = the_pool"
    using assms unfolding default_pool_eq by simp
  have cls: "classOf the_pool 1024 = 0" "classOf the_pool 2048 = 1" "classOf the_pool 3000 = 1" "classOf the_pool 0 = 0"
    by (simp_all add: classOf_the_pool class_index_def default_sizes_def)
  note eval = p fresh_mem_def Alloc_def Free_def pool_Get_def make_slice_def Let_def cls the_pool_classes
    default_sizes_def
  show ?thesis
    by (simp add: eval)
qed

theorem free_misfiles_buffer_witness:
  "\<exists>p. default_pool = Ok p \<and> pool_run [OpAlloc None 1024, OpFree 0] ([], fresh_mem p) \<noteq> None \<and>
    pool_run [OpAlloc None 1024, OpFree 0, OpAlloc (Some 0) 3000] ([], fresh_mem p) = None \<and>
    pool_run [OpAlloc None 0, OpFree 0, OpAlloc (Some 0) 1024] ([], fresh_mem p) = None"
  using default_pool_eq free_misfiles_buffer [OF default_pool_eq] by blast

lemma count_classes_linear:
  "mx < factor \<Longrightarrow> n \<le> mx \<Longrightarrow> count_classes 1 mx factor (Suc n) n cur = (mx, if n = mx then cur else mx)"
proof (induction "mx - n" arbitrary: n cur)
  case 0
  then show ?case by (subst count_classes.simps) simp
next
  case (Suc d)
  then have "count_classes 1 mx factor (Suc (Suc n)) (Suc n) (Suc n) = (mx, mx)"
    by auto
  with Suc show ?case by (subst count_classes.simps) simp
qed

lemma chunk_at_linear: "k < factor \<Longrightarrow> chunk_at 1 factor k = k + 2"
  by (induction k) auto

text \<open>
  The class index is stored in one byte, so a configuration with more than 256 classes
  selects too small a class: \<open>NewSyncPool(1, 300, 301)\<close> succeeds with 300 classes and its very
  first allocation of 300 bytes panics.
\<close>

theorem class_index_overflow:
  "\<exists>p. NewSyncPool 1 300 301 = Ok p \<and> length (classesSize p) = 300 \<and>
    fst (Alloc None 300 (fresh_mem p)) = Panic ''slice bounds out of range''"
proof -
  have "\<exists>p. NewSyncPool 1 300 301 = Ok p"
    by (simp add: NewSyncPool_def Let_def split: prod.split)
  then obtain p where p: "NewSyncPool 1 300 301 = Ok p" ..
  have n: "num_classes 1 300 301 = 300"
    using count_classes_linear [of 300 301 0] by (simp add: num_classes_def)
  have cfg: "pool_cfg p" and mx: "maxSize p = 300"
    and sizes: "classesSize p = map (class_size 1 300 301) [0..<300]"
    using NewSyncPool_cfg [OF p] n by (simp_all del: One_nat_def add: One_nat_def [symmetric])
  have "class_index (classesSize p) 300 = 299"
    using cfg by (intro class_index_eqI) (auto simp: sizes class_size_def pool_cfg_def)
  then have "classOf p 300 = 43"
    using cfg by (simp add: pool_cfg_def mx classOf_def)
  moreover have "classesSize p ! 43 = 45"
    using chunk_at_linear [of 43 301] by (simp add: sizes class_size_def)
  ultimately have "fst (Alloc None 300 (fresh_mem p)) = Panic ''slice bounds out of range''"
    by (simp add: Alloc_def fresh_mem_def mx pool_Get_def make_slice_def Let_def)
  with p show ?thesis by (simp add: sizes)
qed


section \<open>Reuse of buffers\<close>

text \<open>The sizes from 2048 to 32768 that are powers of two, which the readers of workers (8192 by
  default) and clients (4096) ask for: the class each is allocated from, the capacity it gets, and
  the class that capacity is filed under when it is freed.\<close>

definition reader_size :: "nat \<Rightarrow> bool" where
  "reader_size n \<longleftrightarrow> n \<in> {2048, 4096, 8192, 16384, 32768}"

definition reader_caps :: "nat set" where
  "reader_caps = {3072, 5120, 11264, 17408, 37888}"

definition reader_classes :: "nat set" where
  "reader_classes = {1, 3, 5, 7, 11}"

lemma reader_size_class:
  assumes "reader_size n"
  shows "classOf the_pool n \<in> reader_classes" and "default_sizes ! classOf the_pool n \<in> reader_caps"
    and "n \<le> 65536" and "0 < n" and "n \<le> default_sizes ! classOf the_pool n"
  using assms by (auto simp: reader_size_def reader_classes_def reader_caps_def classOf_the_pool class_index_def default_sizes_def)

lemma reader_cap_class: "c \<in> reader_caps \<Longrightarrow> c \<le> 65536 \<and> classOf the_pool c \<notin> reader_classes \<and> classOf the_pool c < 16"
  by (auto simp: reader_caps_def reader_classes_def classOf_the_pool class_index_def default_sizes_def)

text \<open>Nothing is free in the classes that are allocated from.\<close>

definition reader_run_ok :: "slice list \<times> mem \<Rightarrow> bool" where
  "reader_run_ok st \<longleftrightarrow> (case st of (live, m) \<Rightarrow>
     (\<exists>cs. pool m = the_pool\<lparr>classes := cs\<rparr> \<and> length cs = 16 \<and> (\<forall>k \<in> reader_classes. cs ! k = [])) \<and>
     (\<forall>s \<in> set live. s_cap s \<in> reader_caps))"

definition reader_op :: "pool_op \<Rightarrow> bool" where
  "reader_op x \<longleftrightarrow> (case x of OpAlloc ch n \<Rightarrow> 0 \<le> n \<and> reader_size (nat n) | OpFree i \<Rightarrow> True)"

definition is_alloc :: "pool_op \<Rightarrow> bool" where
  "is_alloc x \<longleftrightarrow> (case x of OpAlloc ch n \<Rightarrow> True | OpFree i \<Rightarrow> False)"

lemma reader_step:
  assumes "reader_run_ok (live, m)" and "reader_op x"
  shows "\<exists>live' m'. pool_step x (live, m) = Some (live', m') \<and> reader_run_ok (live', m') \<and>
    length (hp m') = length (hp m) + (if is_alloc x then 1 else 0)"
proof -
  obtain cs where cs: "pool m = the_pool\<lparr>classes := cs\<rparr>" "length cs = 16" "\<forall>k \<in> reader_classes. cs ! k = []"
    and live: "\<forall>s \<in> set live. s_cap s \<in> reader_caps"
    using assms(1) by (auto simp: reader_run_ok_def)
  show ?thesis
  proof (cases x)
    case (OpAlloc ch n)
    then have n: "0 \<le> n" "reader_size (nat n)" using assms(2) by (simp_all add: reader_op_def)
    note c = reader_size_class [OF n(2)]
    let ?k = "classOf the_pool (nat n)" and ?s = "fst (make_slice (default_sizes ! classOf the_pool (nat n)) (hp m))"
      and ?h = "snd (make_slice (default_sizes ! classOf the_pool (nat n)) (hp m))"
    have "cs ! ?k = []" using cs(3) c(1) by blast
    then have get: "pool_Get ch ?k m = (?s, m\<lparr>hp := ?h\<rparr>)"
      by (cases ch) (simp_all add: pool_Get_def cs(1) Let_def case_prod_unfold)
    have s: "s_cap ?s = default_sizes ! ?k" "length ?h = Suc (length (hp m))"
      by (simp_all add: make_slice_def)
    have "Alloc ch n m = (Ok (?s\<lparr>s_len := nat n\<rparr>), m\<lparr>hp := ?h\<rparr>)"
      using n(1) c get s(1) by (simp add: Alloc_def cs(1))
    then show ?thesis
      using OpAlloc cs live s c(2) by (auto simp: reader_run_ok_def is_alloc_def)
  next
    case (OpFree i)
    show ?thesis
    proof (cases "i < length live")
      case True
      let ?s = "live ! i" and ?live = "take i live @ drop (Suc i) live"
      let ?k = "classOf the_pool (s_cap ?s)"
      have cap: "s_cap ?s \<in> reader_caps" using live True by simp
      note k = reader_cap_class [OF cap]
      have fr: "Free (Some ?s) m = m\<lparr>pool := the_pool\<lparr>classes := cs[?k := ?s\<lparr>s_len := s_cap ?s\<rparr> # cs ! ?k]\<rparr>\<rparr>"
        using k by (simp add: Free_def cs(1) Let_def)
      have "set ?live \<subseteq> set live" by (auto dest: in_set_takeD in_set_dropD)
      then have "reader_run_ok (?live, Free (Some ?s) m)"
        unfolding reader_run_ok_def fr using cs k live by (auto simp: nth_list_update)
      then show ?thesis using OpFree True by (simp add: is_alloc_def fr)
    qed (use assms(1) OpFree in \<open>simp add: is_alloc_def\<close>)
  qed
qed

lemma reader_run:
  assumes "reader_run_ok (live, m)" and "list_all reader_op xs"
  shows "\<exists>live' m'. pool_run xs (live, m) = Some (live', m') \<and> length (hp m') = length (hp m) + length (filter is_alloc xs)"
  using assms
proof (induction xs arbitrary: live m)
  case (Cons x xs)
  from reader_step [of live m x] Cons.prems obtain live1 m1 where
    one: "pool_step x (live, m) = Some (live1, m1)" "reader_run_ok (live1, m1)"
      "length (hp m1) = length (hp m) + (if is_alloc x then 1 else 0)"
    by auto
  from Cons.IH [OF one(2)] Cons.prems(2) obtain live' m' where
    "pool_run xs (live1, m1) = Some (live', m')" "length (hp m') = length (hp m1) + length (filter is_alloc xs)"
    by auto
  with one show ?case by simp
qed simp

text \<open>
  C26: The pool never hands out a freed buffer of a reader again. In any sequence of allocations
  of the power-of-two sizes from 2048 to 32768, which include the buffers of workers and clients,
  and of frees, whichever free buffer each \<open>Get\<close> would pick, every allocation makes a new array:
  the number of arrays is the number of allocations, although any number of buffers were freed
  before. Each class of these sizes gets its buffers back under the next class.
\<close>

theorem pool_never_reuses:
  assumes "default_pool = Ok p" and "list_all reader_op xs"
  shows "\<exists>live m. pool_run xs ([], fresh_mem p) = Some (live, m) \<and> length (hp m) = length (filter is_alloc xs)"
proof -
  have p: "p = the_pool" using assms(1) unfolding default_pool_eq by simp
  have "the_pool = the_pool\<lparr>classes := replicate 16 []\<rparr>" using the_pool_classes by simp
  then have "reader_run_ok ([], fresh_mem the_pool)"
    by (auto simp: reader_run_ok_def fresh_mem_def reader_classes_def intro!: exI [of _ "replicate 16 []"])
  from reader_run [OF this assms(2)] show ?thesis by (simp add: p fresh_mem_def)
qed

theorem pool_never_reuses_witness:
  "\<exists>live m. pool_run [OpAlloc None 8192, OpFree 0, OpAlloc (Some 0) 8192, OpFree 0, OpAlloc (Some 0) 8192] ([], fresh_mem the_pool) =
     Some (live, m) \<and> length (hp m) = 3"
  using pool_never_reuses [OF default_pool_eq,
      of "[OpAlloc None 8192, OpFree 0, OpAlloc (Some 0) 8192, OpFree 0, OpAlloc (Some 0) 8192]"]
  by (simp add: reader_op_def reader_size_def is_alloc_def numeral_3_eq_3 del: pool_run.simps)

end
