(* ===== verification/Buf_Reader.thy ===== *)
theory Buf_Reader
  imports Buf_Pool
begin

text \<open>
  The buffered reader (\<^verbatim>\<open>pkg/net/internal/bufreader/reader.go\<close>) over an \<^verbatim>\<open>io.Reader\<close>.

  The connection is the list of the results its \<open>Read\<close> calls have in store: a chunk of data
  (a chunk longer than the room offered is handed out in pieces) or an error; past the end of
  the list every \<open>Read\<close> returns EOF. Positions are \<open>nat\<close>: \<open>r \<le> w \<le> len(buf)\<close> is an invariant,
  so no subtraction is truncated.
\<close>

unbundle bit_operations_syntax

section \<open>Rounding up to a power of two\<close>

definition nextPowerOfTwo :: "64 word \<Rightarrow> 64 word" where
  "nextPowerOfTwo n0 =
     (if n0 \<le>s 1 then 1
      else let n = n0 - 1;
               n = n OR signed_drop_bit 1 n;
               n = n OR signed_drop_bit 2 n;
               n = n OR signed_drop_bit 4 n;
               n = n OR signed_drop_bit 8 n;
               n = n OR signed_drop_bit 16 n;
               n = n OR signed_drop_bit 32 n
           in n + 1)"

text \<open>\<open>smeared w x m\<close>: every bit of \<open>m\<close> is the disjunction of \<open>w\<close> consecutive bits of \<open>x\<close>.\<close>

definition smeared :: "nat \<Rightarrow> 64 word \<Rightarrow> 64 word \<Rightarrow> bool" where
  "smeared w x m \<longleftrightarrow> (\<forall>i. bit m i \<longleftrightarrow> (\<exists>j < w. bit x (i + j)))"

lemma smeared_refl: "smeared 1 x x"
  by (simp add: smeared_def)

lemma smeared_double:
  assumes "smeared w x m" and "\<not> bit x 63" and "w < 64"
  shows "smeared (2 * w) x (m OR signed_drop_bit w m)"
  unfolding smeared_def
proof (intro allI)
  fix i
  have top: "\<not> bit m 63"
  proof
    assume "bit m 63"
    then obtain j where "bit x (63 + j)"
      using assms(1) by (auto simp: smeared_def)
    then have "63 + j < 64"
      using bit_imp_le_length [of x "63 + j"] by simp
    with \<open>bit x (63 + j)\<close> assms(2) show False by simp
  qed
  have shift: "bit (signed_drop_bit w m) i = bit m (w + i)"
    using top assms(3) bit_imp_le_length [of m "w + i"] by (auto simp: bit_signed_drop_bit_iff)
  have "(\<exists>j < 2 * w. bit x (i + j)) \<longleftrightarrow> (\<exists>j < w. bit x (i + j)) \<or> (\<exists>j < w. bit x (w + i + j))"
  proof
    assume "\<exists>j < 2 * w. bit x (i + j)"
    then obtain j where j: "j < 2 * w" "bit x (i + j)" by blast
    show "(\<exists>j < w. bit x (i + j)) \<or> (\<exists>j < w. bit x (w + i + j))"
    proof (cases "j < w")
      case False
      then have "j - w < w" and "w + i + (j - w) = i + j"
        using j(1) by auto
      with j(2) show ?thesis by metis
    qed (use j in blast)
  next
    assume "(\<exists>j < w. bit x (i + j)) \<or> (\<exists>j < w. bit x (w + i + j))"
    then show "\<exists>j < 2 * w. bit x (i + j)"
    proof
      assume "\<exists>j < w. bit x (w + i + j)"
      then obtain j where "j < w" "bit x (w + i + j)" by blast
      then have "w + j < 2 * w \<and> bit x (i + (w + j))"
        by (simp add: ac_simps)
      then show ?thesis by blast
    qed (metis trans_less_add1 mult_2)
  qed
  then show "bit (m OR signed_drop_bit w m) i \<longleftrightarrow> (\<exists>j < 2 * w. bit x (i + j))"
    using assms(1) by (simp add: bit_or_iff shift smeared_def)
qed

lemma smeared_mask:
  assumes "smeared 64 x m" and "bit x t" and "\<And>i. t < i \<Longrightarrow> \<not> bit x i"
  shows "m = mask (Suc t)"
proof (rule bit_word_eqI)
  fix i assume i: "i < LENGTH(64)"
  have "(\<exists>j < 64. bit x (i + j)) \<longleftrightarrow> i \<le> t"
  proof
    assume "\<exists>j < 64. bit x (i + j)"
    then show "i \<le> t" using assms(3) by (meson leI le_add1 order_less_le_trans)
  next
    assume "i \<le> t"
    moreover have "t < 64" using bit_imp_le_length [OF assms(2)] by simp
    ultimately show "\<exists>j < 64. bit x (i + j)"
      using assms(2) by (intro exI [of _ "t - i"]) auto
  qed
  with i assms(1) show "bit m i = bit (mask (Suc t) :: 64 word) i"
    by (simp add: smeared_def bit_mask_iff less_Suc_eq_le)
qed

lemma top_bit:
  assumes "2 ^ t \<le> unat x" and "unat x < 2 ^ Suc t"
  shows "bit (x :: 64 word) t" and "\<And>i. t < i \<Longrightarrow> \<not> bit x i"
proof -
  have "unat x div 2 ^ t = 1"
    using assms by (intro div_nat_eqI) auto
  then have "bit (unat x) t"
    by (simp add: bit_iff_odd)
  then show "bit x t"
    by (simp add: bit_unsigned_iff)
  fix i assume "t < i"
  then have "(2::nat) ^ Suc t \<le> 2 ^ i"
    by (intro power_increasing) auto
  with assms(2) have "unat x < 2 ^ i" by linarith
  then have "unat x div 2 ^ i = 0"
    by simp
  then have "\<not> bit (unat x) i"
    by (simp add: bit_iff_odd)
  then show "\<not> bit x i"
    by (simp add: bit_unsigned_iff)
qed

lemma smear_all:
  assumes "\<not> bit x 63" and "2 ^ t \<le> unat x" and "unat x < 2 ^ Suc t"
  shows "(let n = x; n = n OR signed_drop_bit 1 n; n = n OR signed_drop_bit 2 n; n = n OR signed_drop_bit 4 n;
      n = n OR signed_drop_bit 8 n; n = n OR signed_drop_bit 16 n; n = n OR signed_drop_bit 32 n in n + 1)
    = (2 ^ Suc t :: 64 word)"
proof -
  define n1 where "n1 = x OR signed_drop_bit 1 x"
  define n2 where "n2 = n1 OR signed_drop_bit 2 n1"
  define n4 where "n4 = n2 OR signed_drop_bit 4 n2"
  define n8 where "n8 = n4 OR signed_drop_bit 8 n4"
  define n16 where "n16 = n8 OR signed_drop_bit 16 n8"
  define n32 where "n32 = n16 OR signed_drop_bit 32 n16"
  have "smeared 2 x n1" using smeared_double [OF smeared_refl assms(1)] by (simp add: n1_def)
  then have "smeared 4 x n2" using smeared_double [OF _ assms(1), of 2 n1] by (simp add: n2_def)
  then have "smeared 8 x n4" using smeared_double [OF _ assms(1), of 4 n2] by (simp add: n4_def)
  then have "smeared 16 x n8" using smeared_double [OF _ assms(1), of 8 n4] by (simp add: n8_def)
  then have "smeared 32 x n16" using smeared_double [OF _ assms(1), of 16 n8] by (simp add: n16_def)
  then have "smeared 64 x n32" using smeared_double [OF _ assms(1), of 32 n16] by (simp add: n32_def)
  then have "n32 = mask (Suc t)"
    using smeared_mask top_bit [OF assms(2,3)] by blast
  then have "n32 + 1 = 2 ^ Suc t"
    by (simp add: mask_eq_exp_minus_1)
  then show ?thesis
    by (simp only: Let_def n1_def n2_def n4_def n8_def n16_def n32_def)
qed


lemma pow2_bracket: "0 < (x :: nat) \<Longrightarrow> \<exists>t. 2 ^ t \<le> x \<and> x < 2 ^ Suc t"
proof (induction x rule: less_induct)
  case (less x)
  show ?case
  proof (cases "x = 1")
    case True
    then show ?thesis by (intro exI [of _ 0]) simp
  next
    case False
    with less.prems have "x div 2 < x" "0 < x div 2" by auto
    then obtain t where "2 ^ t \<le> x div 2 \<and> x div 2 < 2 ^ Suc t"
      using less.IH by blast
    then have "2 ^ Suc t \<le> x \<and> x < 2 ^ Suc (Suc t)"
      by auto
    then show ?thesis by blast
  qed
qed

lemma nextPowerOfTwo_exp:
  assumes "2 ^ t < n" and "n \<le> 2 ^ Suc t" and "n < 2 ^ 63"
  shows "nextPowerOfTwo (of_nat n) = 2 ^ Suc t"
proof -
  have n: "1 < n" using assms(1) by (metis one_le_numeral one_le_power order_le_less_trans)
  have un: "unat (of_nat n :: 64 word) = n"
    using assms(3) by (simp add: unat_of_nat)
  then have "(of_nat n :: 64 word) \<noteq> 0"
    using n by (metis not_less_zero unat_0)
  then have ux: "unat (of_nat n - 1 :: 64 word) = n - 1"
    by (simp add: unat_minus_one un)
  let ?x = "of_nat n - 1 :: 64 word"
  have "unat ?x < 2 ^ 63" using assms(3) n ux by linarith
  then have "\<not> bit (unat ?x) 63"
    by (simp only: bit_iff_odd div_less) simp
  then have neg: "\<not> bit ?x 63"
    by (simp add: bit_unsigned_iff)
  have big: "((of_nat n :: 64 word) \<le>s 1) = False"
  proof -
    have "sint (of_nat n :: 64 word) = int n"
      using assms(3) by (simp add: signed_of_nat signed_take_bit_int_eq_self)
    then show ?thesis using n by (simp add: word_sle_eq)
  qed
  have "2 ^ t \<le> unat ?x" and "unat ?x < 2 ^ Suc t"
    using assms(1,2) ux by simp_all
  then show ?thesis
    unfolding nextPowerOfTwo_def big if_False by (rule smear_all [OF neg])
qed


lemma sint_pow2:
  assumes "k < 63"
  shows "sint (2 ^ k :: 64 word) = 2 ^ k"
proof -
  have "(2::int) ^ k < 2 ^ 63"
    using assms by (intro power_strict_increasing) auto
  moreover have "- (2 ^ 63) \<le> (2::int) ^ k"
    by (rule order_trans [of _ 0]) simp_all
  ultimately have "signed_take_bit 63 ((2::int) ^ k) = 2 ^ k"
    by (intro signed_take_bit_int_eq_self)
  then show ?thesis
    using signed_of_int [where 'a = int and 'b = 64, of "2 ^ k"] by simp
qed


section \<open>Reading from the connection\<close>

datatype rdev = RData bytes | RErr gerr

definition io_EOF :: gerr where "io_EOF = Err ''EOF'' []"
definition io_ErrUnexpectedEOF :: gerr where "io_ErrUnexpectedEOF = Err ''unexpected EOF'' []"
definition io_ErrShortBuffer :: gerr where "io_ErrShortBuffer = Err ''short buffer'' []"

text \<open>The loop of \<^verbatim>\<open>io.ReadAtLeast\<close>: \<open>acc\<close> is what was read into the buffer of \<open>room\<close> bytes.\<close>

fun read_loop :: "nat \<Rightarrow> nat \<Rightarrow> bytes \<Rightarrow> rdev list \<Rightarrow> bytes \<times> gerr option \<times> rdev list" where
  "read_loop room mn acc [] =
     (if mn \<le> length acc then (acc, None, []) else (acc, Some io_EOF, []))"
| "read_loop room mn acc (RErr e # evs) =
     (if mn \<le> length acc then (acc, None, RErr e # evs) else (acc, Some e, evs))"
| "read_loop room mn acc (RData bs # evs) =
     (if mn \<le> length acc then (acc, None, RData bs # evs)
      else if length bs \<le> room - length acc then read_loop room mn (acc @ bs) evs
      else (acc @ take (room - length acc) bs, None, RData (drop (room - length acc) bs) # evs))"

definition io_ReadAtLeast :: "nat \<Rightarrow> nat \<Rightarrow> rdev list \<Rightarrow> bytes \<times> gerr option \<times> rdev list" where
  "io_ReadAtLeast room mn evs =
     (if room < mn then ([], Some io_ErrShortBuffer, evs)
      else case read_loop room mn [] evs of
        (bs, None, evs') \<Rightarrow> (bs, None, evs')
      | (bs, Some e, evs') \<Rightarrow>
          (bs, Some (if bs \<noteq> [] \<and> e = io_EOF then io_ErrUnexpectedEOF else e), evs'))"

text \<open>The bytes a connection delivers before its first error.\<close>

fun stream :: "rdev list \<Rightarrow> bytes" where
  "stream [] = []"
| "stream (RErr e # evs) = []"
| "stream (RData bs # evs) = bs @ stream evs"

lemma read_loop_ok:
  assumes "mn \<le> length acc + length (stream evs)" and "mn \<le> room" and "length acc \<le> room"
  shows "\<exists>bs evs'. read_loop room mn acc evs = (acc @ bs, None, evs') \<and> stream evs = bs @ stream evs' \<and>
    mn \<le> length (acc @ bs) \<and> length (acc @ bs) \<le> room"
  using assms
proof (induction room mn acc evs rule: read_loop.induct)
  case (3 room mn acc bs evs)
  consider "mn \<le> length acc" | "\<not> mn \<le> length acc" "length bs \<le> room - length acc"
    | "\<not> mn \<le> length acc" "\<not> length bs \<le> room - length acc"
    by blast
  then show ?case
  proof cases
    case 1
    with 3(4) show ?thesis by auto
  next
    case 2
    with 3 obtain cs evs' where "read_loop room mn (acc @ bs) evs = ((acc @ bs) @ cs, None, evs')"
        "stream evs = cs @ stream evs'" "mn \<le> length ((acc @ bs) @ cs)" "length ((acc @ bs) @ cs) \<le> room"
      by fastforce
    with 2 show ?thesis by auto
  next
    case 3
    with "3.prems" show ?thesis by auto
  qed
qed auto

lemma read_loop_short:
  assumes "length acc + length (stream evs) < mn" and "mn \<le> room"
  shows "\<exists>e evs'. read_loop room mn acc evs = (acc @ stream evs, Some e, evs')"
  using assms by (induction room mn acc evs rule: read_loop.induct) auto

lemma io_ReadAtLeast_ok:
  assumes "mn \<le> length (stream evs)" and "mn \<le> room"
  shows "\<exists>bs evs'. io_ReadAtLeast room mn evs = (bs, None, evs') \<and> stream evs = bs @ stream evs' \<and>
    mn \<le> length bs \<and> length bs \<le> room"
  using read_loop_ok [of mn "[]" evs room] assms by (auto simp: io_ReadAtLeast_def)

lemma io_ReadAtLeast_short:
  assumes "length (stream evs) < mn" and "mn \<le> room"
  shows "\<exists>e evs'. io_ReadAtLeast room mn evs = (stream evs, Some e, evs')"
  using read_loop_short [of "[]" evs mn room] assms by (auto simp: io_ReadAtLeast_def)


section \<open>The reader\<close>

definition ErrBufReaderAlreadyClosed :: gerr where
  "ErrBufReaderAlreadyClosed = Err ''bufreader.Reader already closed'' []"

definition ErrBufReaderSize :: gerr where
  "ErrBufReaderSize = Err ''bufreader.Reader size error'' []"

record reader =
  conn :: "rdev list"
  rbuf :: "slice option"
  rw :: nat
  rr :: nat
  cleanedUp :: bool

definition InitReaderPool :: "int \<Rightarrow> int \<Rightarrow> int \<Rightarrow> mem \<Rightarrow> unit res \<times> mem" where
  "InitReaderPool mn mx factor m =
     (case NewSyncPool mn mx factor of
        Ok p \<Rightarrow> (Ok (), m\<lparr>pool := p\<rparr>)
      | Fail e \<Rightarrow> (Fail e, m)
      | Panic e \<Rightarrow> (Panic e, m))"

definition NewReader :: "nat option \<Rightarrow> rdev list \<Rightarrow> int \<Rightarrow> mem \<Rightarrow> reader res \<times> mem" where
  "NewReader ch c initialSize m =
     (case Alloc ch initialSize m of
        (Ok s, m') \<Rightarrow> (Ok \<lparr>conn = c, rbuf = Some s, rw = 0, rr = 0, cleanedUp = False\<rparr>, m')
      | (Fail e, m') \<Rightarrow> (Fail e, m')
      | (Panic e, m') \<Rightarrow> (Panic e, m'))"

definition buf_len :: "reader \<Rightarrow> nat" where
  "buf_len r = (case rbuf r of None \<Rightarrow> 0 | Some s \<Rightarrow> s_len s)"

definition unreadBytes :: "reader \<Rightarrow> nat" where
  "unreadBytes r = rw r - rr r"

definition capLeft :: "reader \<Rightarrow> nat" where
  "capLeft r = buf_len r - rw r"

text \<open>The bytes \<open>r.buf[i:j]\<close>, and storing bytes from position \<open>i\<close>.\<close>

definition buf_window :: "reader \<Rightarrow> nat \<Rightarrow> nat \<Rightarrow> mem \<Rightarrow> bytes" where
  "buf_window r i j m =
     (case rbuf r of None \<Rightarrow> [] | Some s \<Rightarrow> take (j - i) (drop (s_off s + i) (hp m ! s_arr s)))"

definition buf_store :: "reader \<Rightarrow> nat \<Rightarrow> bytes \<Rightarrow> mem \<Rightarrow> mem" where
  "buf_store r i bs m = (case rbuf r of None \<Rightarrow> m | Some s \<Rightarrow> m\<lparr>hp := write_slice s i bs (hp m)\<rparr>)"

definition readAtLeast :: "nat \<Rightarrow> reader \<Rightarrow> mem \<Rightarrow> unit res \<times> reader \<times> mem" where
  "readAtLeast n r m =
     (case io_ReadAtLeast (capLeft r) n (conn r) of
        (bs, Some e, evs) \<Rightarrow> (Fail e, r\<lparr>conn := evs\<rparr>, buf_store r (rw r) bs m)
      | (bs, None, evs) \<Rightarrow> (Ok (), r\<lparr>conn := evs, rw := rw r + length bs\<rparr>, buf_store r (rw r) bs m))"

text \<open>\<open>n = r.buf[r.r]; r.r++\<close>\<close>

definition take_byte :: "reader \<Rightarrow> mem \<Rightarrow> byte res \<times> reader \<times> mem" where
  "take_byte r m =
     (case buf_window r (rr r) (Suc (rr r)) m of
        b # _ \<Rightarrow> (Ok b, r\<lparr>rr := Suc (rr r)\<rparr>, m)
      | [] \<Rightarrow> (Panic ''index out of range'', r, m))"

definition ReadByte :: "reader \<Rightarrow> mem \<Rightarrow> byte res \<times> reader \<times> mem" where
  "ReadByte r m =
     (if 0 < unreadBytes r then take_byte r m
      else if capLeft r = 0 \<and> cleanedUp r then (Fail ErrBufReaderAlreadyClosed, r, m)
      else let r0 = (if capLeft r = 0 then r\<lparr>rr := 0, rw := 0\<rparr> else r) in
           case readAtLeast 1 r0 m of
             (Ok _, r1, m1) \<Rightarrow> take_byte r1 m1
           | (Fail e, r1, m1) \<Rightarrow> (Fail e, r1, m1)
           | (Panic e, r1, m1) \<Rightarrow> (Panic e, r1, m1))"

text \<open>\<open>result := r.buf[r.r : r.r+n]; r.r += n\<close>\<close>

definition take_slice :: "nat \<Rightarrow> reader \<Rightarrow> mem \<Rightarrow> slice option res \<times> reader \<times> mem" where
  "take_slice n r m =
     (Ok (map_option (\<lambda>s. s\<lparr>s_off := s_off s + rr r, s_len := n, s_cap := s_cap s - rr r\<rparr>) (rbuf r)),
      r\<lparr>rr := rr r + n\<rparr>, m)"

text \<open>Moving the unread bytes to the front of a larger buffer, or of the same one. \<open>copy\<close> copies
  as many bytes as fit.\<close>

definition grow_buf :: "nat option \<Rightarrow> nat \<Rightarrow> reader \<Rightarrow> mem \<Rightarrow> unit res \<times> reader \<times> mem" where
  "grow_buf ch needed r m =
     (case Alloc ch (sint (nextPowerOfTwo (of_nat (needed + 128)))) m of
        (Ok s, m1) \<Rightarrow>
          let src = take (s_len s) (buf_window r (rr r) (rw r) m1);
              m2 = m1\<lparr>hp := write_slice s 0 src (hp m1)\<rparr>
          in (Ok (), r\<lparr>rw := length src, rr := 0, rbuf := Some s\<rparr>, Free (rbuf r) m2)
      | (Fail e, m1) \<Rightarrow> (Fail e, r, m1)
      | (Panic e, m1) \<Rightarrow> (Panic e, r, m1))"

definition compact_buf :: "reader \<Rightarrow> mem \<Rightarrow> reader \<times> mem" where
  "compact_buf r m =
     (let src = buf_window r (rr r) (rw r) m
      in (r\<lparr>rw := length src, rr := 0\<rparr>, buf_store r 0 src m))"

definition ReadFull :: "nat option \<Rightarrow> int \<Rightarrow> reader \<Rightarrow> mem \<Rightarrow> slice option res \<times> reader \<times> mem" where
  "ReadFull ch n0 r m =
     (if n0 < 0 then (Fail ErrBufReaderSize, r, m)
      else let n = nat n0 in
        if n \<le> unreadBytes r then take_slice n r m
        else let needed = n + unreadBytes r in
          if buf_len r < needed \<and> cleanedUp r then (Fail ErrBufReaderAlreadyClosed, r, m)
          else case (if buf_len r < needed then grow_buf ch needed r m
                     else (case compact_buf r m of (r1, m1) \<Rightarrow> (Ok (), r1, m1))) of
                 (Fail e, r1, m1) \<Rightarrow> (Fail e, r1, m1)
               | (Panic e, r1, m1) \<Rightarrow> (Panic e, r1, m1)
               | (Ok _, r1, m1) \<Rightarrow>
                   (case readAtLeast (n - unreadBytes r1) r1 m1 of
                      (Ok _, r2, m2) \<Rightarrow> take_slice n r2 m2
                    | (Fail e, r2, m2) \<Rightarrow> (Fail e, r2, m2)
                    | (Panic e, r2, m2) \<Rightarrow> (Panic e, r2, m2)))"

definition Close :: "reader \<Rightarrow> mem \<Rightarrow> unit res \<times> reader \<times> mem" where
  "Close r m =
     (if cleanedUp r then (Fail ErrBufReaderAlreadyClosed, r, m)
      else (Ok (), r\<lparr>cleanedUp := True, rw := 0, rr := 0, rbuf := None\<rparr>, Free (rbuf r) m))"


section \<open>The reader as a queue of bytes\<close>

text \<open>
  The abstract state of a reader is the sequence of bytes it still has to deliver: the unread
  part of its buffer followed by what the connection delivers. \<open>isolated\<close> says that an
  operation leaves the buffers of everybody else alone and takes no array that is in use.
\<close>

definition pending :: "mem \<Rightarrow> reader \<Rightarrow> bytes" where
  "pending m r = buf_window r (rr r) (rw r) m @ stream (conn r)"

definition reader_ok :: "(mem \<Rightarrow> bool) \<Rightarrow> (mem \<Rightarrow> slice \<Rightarrow> bool) \<Rightarrow> reader \<Rightarrow> mem \<Rightarrow> bool" where
  "reader_ok pinv held r m \<longleftrightarrow> pinv m \<and> \<not> cleanedUp r \<and>
     (\<exists>s. rbuf r = Some s \<and> held m s \<and> rr r \<le> rw r \<and> rw r \<le> s_len s)"

definition own_arr :: "reader \<Rightarrow> nat option" where
  "own_arr r = map_option s_arr (rbuf r)"

definition isolated :: "(mem \<Rightarrow> slice \<Rightarrow> bool) \<Rightarrow> reader \<Rightarrow> mem \<Rightarrow> reader \<Rightarrow> mem \<Rightarrow> bool" where
  "isolated held r m r' m' \<longleftrightarrow>
     (\<forall>t. held m t \<and> own_arr r \<noteq> Some (s_arr t) \<longrightarrow>
        held m' t \<and> own_arr r' \<noteq> Some (s_arr t) \<and> hp m' ! s_arr t = hp m ! s_arr t)"

lemma isolated_trans:
  "isolated held r m r1 m1 \<Longrightarrow> isolated held r1 m1 r2 m2 \<Longrightarrow> isolated held r m r2 m2"
  by (simp add: isolated_def)

lemma isolated_refl: "own_arr r' = own_arr r \<Longrightarrow> isolated held r m r' m"
  by (simp add: isolated_def)

lemma reader_okE:
  assumes "reader_ok pinv held r m"
  obtains s where "pinv m" "\<not> cleanedUp r" "rbuf r = Some s" "held m s" "rr r \<le> rw r" "rw r \<le> s_len s"
  using assms by (auto simp: reader_ok_def)

locale pow2_pool = buffer_pool +
  assumes pow2_ok: "ok_size (2 ^ k)"
begin

lemma window_length:
  assumes "reader_ok pinv held r m"
  shows "length (buf_window r (rr r) (rw r) m) = unreadBytes r"
proof -
  from assms obtain s where s: "rbuf r = Some s" "held m s" "rw r \<le> s_len s"
    by (rule reader_okE)
  from held_wf [OF s(2)] s show ?thesis
    by (auto simp: buf_window_def unreadBytes_def intro!: min_absorb2 diff_le_mono)
qed

lemma store_ok:
  assumes ok: "reader_ok pinv held r m" and fits: "i + length bs \<le> buf_len r"
  shows "reader_ok pinv held r (buf_store r i bs m) \<and> isolated held r m r (buf_store r i bs m)"
proof -
  from ok obtain s where s: "pinv m" "\<not> cleanedUp r" "rbuf r = Some s" "held m s" "rr r \<le> rw r" "rw r \<le> s_len s"
    by (rule reader_okE)
  have fits: "i + length bs \<le> s_len s"
    using fits s by (simp add: buf_len_def)
  have "reader_ok pinv held r (buf_store r i bs m)"
    using s write_inv [OF s(1,4) fits] write_frame [OF s(4) fits s(4)]
    by (simp add: reader_ok_def buf_store_def)
  moreover have "isolated held r m r (buf_store r i bs m)"
    using s write_frame [OF s(4) fits] by (simp add: isolated_def own_arr_def buf_store_def)
  ultimately show ?thesis ..
qed

lemma store_window:
  assumes ok: "reader_ok pinv held r m" and fits: "rw r + length bs \<le> buf_len r"
  shows "buf_window r (rr r) (rw r + length bs) (buf_store r (rw r) bs m) = buf_window r (rr r) (rw r) m @ bs"
proof -
  from ok obtain s where s: "rbuf r = Some s" "held m s" "rr r \<le> rw r" "rw r \<le> s_len s"
    by (rule reader_okE)
  from held_wf [OF s(2)] s fits have "rw r + length bs \<le> length (hp m ! s_arr s)"
    by (simp add: buf_len_def)
  from window_splice_at [OF s(3) this] held_wf [OF s(2)] s show ?thesis
    by (simp add: buf_window_def buf_store_def)
qed

lemma store_front_window:
  assumes ok: "reader_ok pinv held r m" and fits: "length bs \<le> buf_len r"
  shows "buf_window r 0 (length bs) (buf_store r 0 bs m) = bs"
proof -
  from ok obtain s where s: "rbuf r = Some s" "held m s"
    by (rule reader_okE)
  from held_wf [OF s(2)] s show ?thesis
    by (simp add: buf_window_def buf_store_def splice_at_def)
qed

lemma compact_ok:
  assumes ok: "reader_ok pinv held r m" and eq: "compact_buf r m = (r1, m1)"
  shows "reader_ok pinv held r1 m1 \<and> pending m1 r1 = pending m r \<and> unreadBytes r1 = unreadBytes r \<and>
    buf_len r1 = buf_len r \<and> rr r1 = 0 \<and> conn r1 = conn r \<and> isolated held r m r1 m1"
proof -
  let ?src = "buf_window r (rr r) (rw r) m"
  have r1: "r1 = r\<lparr>rw := length ?src, rr := 0\<rparr>" and m1: "m1 = buf_store r 0 ?src m"
    using eq by (auto simp: compact_buf_def Let_def)
  have len: "length ?src = unreadBytes r"
    by (rule window_length [OF ok])
  have le: "length ?src \<le> buf_len r"
    using ok by (auto simp: len unreadBytes_def buf_len_def elim!: reader_okE)
  have st: "reader_ok pinv held r m1" "isolated held r m r m1"
    using store_ok [OF ok, of 0 ?src] le by (simp_all add: m1)
  have "buf_window r1 0 (rw r1) m1 = ?src"
    using store_front_window [OF ok le] by (simp add: r1 m1 buf_window_def)
  moreover have "reader_ok pinv held r1 m1"
    using st(1) le by (auto simp: reader_ok_def r1 buf_len_def)
  moreover have "isolated held r m r1 m1"
    using st(2) by (simp add: isolated_def r1 own_arr_def)
  ultimately show ?thesis
    by (simp add: pending_def r1 len unreadBytes_def [of "r\<lparr>rw := _, rr := _\<rparr>"] buf_len_def)
qed

lemma fill_ok:
  assumes ok: "reader_ok pinv held r m" and n: "n \<le> capLeft r" "n \<le> length (stream (conn r))"
  shows "\<exists>r1 m1. readAtLeast n r m = (Ok (), r1, m1) \<and> reader_ok pinv held r1 m1 \<and>
    pending m1 r1 = pending m r \<and> unreadBytes r + n \<le> unreadBytes r1 \<and> isolated held r m r1 m1"
proof -
  from io_ReadAtLeast_ok [OF n(2,1)] obtain bs evs where
    rd: "io_ReadAtLeast (capLeft r) n (conn r) = (bs, None, evs)" "stream (conn r) = bs @ stream evs"
      "n \<le> length bs" "length bs \<le> capLeft r"
    by blast
  let ?r = "r\<lparr>conn := evs, rw := rw r + length bs\<rparr>"
  let ?m = "buf_store r (rw r) bs m"
  have fits: "rw r + length bs \<le> buf_len r"
    using rd(4) ok by (auto simp: capLeft_def buf_len_def elim!: reader_okE)
  have st: "reader_ok pinv held r ?m" "isolated held r m r ?m"
    using store_ok [OF ok fits] by simp_all
  have "reader_ok pinv held ?r ?m"
    using st(1) fits by (auto simp: reader_ok_def buf_len_def)
  moreover have "isolated held r m ?r ?m"
    using st(2) by (simp add: isolated_def own_arr_def)
  moreover have "pending ?m ?r = pending m r"
    using store_window [OF ok fits] rd(2) by (simp add: pending_def buf_window_def)
  moreover have "unreadBytes r + n \<le> unreadBytes ?r"
    using rd(3) ok by (auto simp: unreadBytes_def elim!: reader_okE)
  ultimately show ?thesis
    by (simp add: readAtLeast_def rd(1))
qed

lemma grow_size:
  assumes "0 < n" and "n \<le> 2 ^ 60" and "u < n"
  obtains k where "sint (nextPowerOfTwo (of_nat (n + u + 128))) = int (2 ^ k)" and "n + u < 2 ^ k"
proof -
  let ?N = "n + u + 128"
  from pow2_bracket [of "?N - 1"] obtain t where t: "2 ^ t \<le> ?N - 1" "?N - 1 < 2 ^ Suc t"
    by auto
  have N: "?N \<le> 2 ^ 61 + 2 ^ 60"
    using assms by simp
  have "t < 62"
  proof (rule ccontr)
    assume "\<not> t < 62"
    then have "(2::nat) ^ 62 \<le> 2 ^ t" by (intro power_increasing) auto
    with t(1) N show False by simp
  qed
  have "nextPowerOfTwo (of_nat ?N) = 2 ^ Suc t"
    using t N by (intro nextPowerOfTwo_exp) auto
  moreover have "sint (2 ^ Suc t :: 64 word) = int (2 ^ Suc t)"
    using sint_pow2 [of "Suc t"] \<open>t < 62\<close> by simp
  moreover have "n + u < 2 ^ Suc t"
    using t by linarith
  ultimately show thesis
    using that by metis
qed

lemma grow_ok:
  assumes ok: "reader_ok pinv held r m" and n: "unreadBytes r < n" "n \<le> 2 ^ 60"
  shows "\<exists>r1 m1. grow_buf ch (n + unreadBytes r) r m = (Ok (), r1, m1) \<and> reader_ok pinv held r1 m1 \<and>
    pending m1 r1 = pending m r \<and> unreadBytes r1 = unreadBytes r \<and> n + unreadBytes r < buf_len r1 \<and> rr r1 = 0 \<and>
    conn r1 = conn r \<and> isolated held r m r1 m1"
proof -
  from ok obtain s where s: "pinv m" "\<not> cleanedUp r" "rbuf r = Some s" "held m s" "rr r \<le> rw r" "rw r \<le> s_len s"
    by (rule reader_okE)
  obtain k where k: "sint (nextPowerOfTwo (of_nat (n + unreadBytes r + 128))) = int (2 ^ k)" "n + unreadBytes r < 2 ^ k"
    using grow_size [OF _ n(2,1)] n(1) by auto
  from alloc_ok [OF s(1) pow2_ok] obtain t m1 where
    t: "Alloc ch (int (2 ^ k)) m = (Ok t, m1)" "pinv m1" "held m1 t" "s_len t = 2 ^ k"
    by metis
  note fr = alloc_frame [OF s(1) pow2_ok t(1)]
  have own: "held m1 s" "s_arr s \<noteq> s_arr t" "hp m1 ! s_arr s = hp m ! s_arr s"
    using fr [OF s(4)] by simp_all
  let ?src = "buf_window r (rr r) (rw r) m"
  have same: "buf_window r (rr r) (rw r) m1 = ?src"
    by (simp add: buf_window_def s(3) own(3))
  have len: "length ?src = unreadBytes r"
    by (rule window_length [OF ok])
  let ?m2 = "m1\<lparr>hp := write_slice t 0 ?src (hp m1)\<rparr>"
  let ?r1 = "r\<lparr>rw := length ?src, rr := 0, rbuf := Some t\<rparr>"
  have fits: "0 + length ?src \<le> s_len t"
    using k(2) t(4) len by simp
  have m2: "pinv ?m2" "held ?m2 t" "held ?m2 s"
    using write_inv [OF t(2,3) fits] write_frame [OF t(3) fits t(3)] write_frame [OF t(3) fits own(1)] by simp_all
  let ?m3 = "Free (Some s) ?m2"
  have eq: "grow_buf ch (n + unreadBytes r) r m = (Ok (), ?r1, ?m3)"
    using fits unfolding grow_buf_def k(1) t(1) by (simp add: same s(3) Let_def)
  have "held ?m3 t"
    using free_frame [OF m2(3,2)] own(2) by simp
  then have "reader_ok pinv held ?r1 ?m3"
    using free_inv [OF m2(1,3)] s(2) fits by (simp add: reader_ok_def)
  moreover have "buf_window ?r1 0 (length ?src) ?m3 = ?src"
    using held_wf [OF t(3)] by (simp add: buf_window_def splice_at_def)
  moreover have "isolated held r m ?r1 ?m3"
    unfolding isolated_def
  proof (intro allI impI)
    fix v assume v: "held m v \<and> own_arr r \<noteq> Some (s_arr v)"
    then have v1: "held m1 v" "s_arr v \<noteq> s_arr t" "hp m1 ! s_arr v = hp m ! s_arr v"
      using fr [of v] by auto
    have "held ?m2 v"
      using write_frame [OF t(3) fits v1(1)] by simp
    then have "held ?m3 v"
      using free_frame [OF m2(3)] v by (simp add: own_arr_def s(3))
    with v1 show "held ?m3 v \<and> own_arr ?r1 \<noteq> Some (s_arr v) \<and> hp ?m3 ! s_arr v = hp m ! s_arr v"
      by (auto simp: own_arr_def)
  qed
  ultimately show ?thesis
    using eq k(2) len by (simp add: pending_def unreadBytes_def [of "r\<lparr>rw := _, rr := _, rbuf := _\<rparr>"] buf_len_def t(4))
qed

lemma take_slice_ok:
  assumes ok: "reader_ok pinv held r m" and n: "n \<le> unreadBytes r"
  shows "\<exists>s r1. take_slice n r m = (Ok (Some s), r1, m) \<and> slice_bytes (hp m) s = take n (pending m r) \<and>
    pending m r1 = drop n (pending m r) \<and> reader_ok pinv held r1 m \<and> own_arr r1 = own_arr r \<and> own_arr r = Some (s_arr s)"
proof -
  from ok obtain s where s: "pinv m" "\<not> cleanedUp r" "rbuf r = Some s" "held m s" "rr r \<le> rw r" "rw r \<le> s_len s"
    by (rule reader_okE)
  let ?xs = "hp m ! s_arr s"
  let ?t = "s\<lparr>s_off := s_off s + rr r, s_len := n, s_cap := s_cap s - rr r\<rparr>"
  let ?r = "r\<lparr>rr := rr r + n\<rparr>"
  have wf: "s_off s = 0" "rw r \<le> length ?xs"
    using held_wf [OF s(4)] s(6) by simp_all
  have split: "take (rw r - rr r) (drop (rr r) ?xs) = take n (drop (rr r) ?xs) @ take (rw r - (rr r + n)) (drop (rr r + n) ?xs)"
    using n s(5) wf(2) by (intro window_split) (auto simp: unreadBytes_def)
  have len: "length (take n (drop (rr r) ?xs)) = n"
    using n s(5) wf(2) by (simp add: unreadBytes_def)
  have "pending m r = take n (drop (rr r) ?xs) @ take (rw r - (rr r + n)) (drop (rr r + n) ?xs) @ stream (conn r)"
    using split by (simp add: pending_def buf_window_def s(3) wf(1))
  then have "take n (pending m r) = take n (drop (rr r) ?xs)"
    and "drop n (pending m r) = take (rw r - (rr r + n)) (drop (rr r + n) ?xs) @ stream (conn r)"
    using len by simp_all
  moreover have "reader_ok pinv held ?r m"
    using s n by (simp add: reader_ok_def unreadBytes_def)
  ultimately show ?thesis
    by (simp add: take_slice_def s(3) slice_bytes_def pending_def buf_window_def wf(1) own_arr_def)
qed

lemma refill_ok:
  assumes ok: "reader_ok pinv held r m" and n: "unreadBytes r < n" "n \<le> 2 ^ 60" "n \<le> length (pending m r)"
  shows "\<exists>r1 m1. (if buf_len r < n + unreadBytes r then grow_buf ch (n + unreadBytes r) r m
       else case compact_buf r m of (r1, m1) \<Rightarrow> (Ok (), r1, m1)) = (Ok (), r1, m1) \<and>
    reader_ok pinv held r1 m1 \<and> pending m1 r1 = pending m r \<and> unreadBytes r1 = unreadBytes r \<and>
    n - unreadBytes r1 \<le> capLeft r1 \<and> conn r1 = conn r \<and> isolated held r m r1 m1"
proof (cases "buf_len r < n + unreadBytes r")
  case True
  from grow_ok [OF ok n(1,2), of ch] obtain r1 m1 where
    "grow_buf ch (n + unreadBytes r) r m = (Ok (), r1, m1)" "reader_ok pinv held r1 m1"
    "pending m1 r1 = pending m r" "unreadBytes r1 = unreadBytes r" "n + unreadBytes r < buf_len r1" "rr r1 = 0"
    "conn r1 = conn r" "isolated held r m r1 m1"
    by blast
  with True show ?thesis
    by (auto simp: capLeft_def unreadBytes_def)
next
  case False
  obtain r1 m1 where eq: "compact_buf r m = (r1, m1)" by fastforce
  from compact_ok [OF ok eq] False n(1) show ?thesis
    by (auto simp: eq capLeft_def unreadBytes_def)
qed

lemma ReadFull_ok:
  assumes ok: "reader_ok pinv held r m" and n: "0 \<le> n" "n \<le> 2 ^ 60" "nat n \<le> length (pending m r)"
  shows "\<exists>s r' m'. ReadFull ch n r m = (Ok (Some s), r', m') \<and>
    slice_bytes (hp m') s = take (nat n) (pending m r) \<and> pending m' r' = drop (nat n) (pending m r) \<and>
    reader_ok pinv held r' m' \<and> own_arr r' = Some (s_arr s) \<and> isolated held r m r' m'"
proof (cases "nat n \<le> unreadBytes r")
  case True
  from take_slice_ok [OF ok True] obtain s r1 where
    "take_slice (nat n) r m = (Ok (Some s), r1, m)" "slice_bytes (hp m) s = take (nat n) (pending m r)"
    "pending m r1 = drop (nat n) (pending m r)" "reader_ok pinv held r1 m" "own_arr r1 = own_arr r" "own_arr r = Some (s_arr s)"
    by blast
  with True n(1) show ?thesis
    by (simp add: ReadFull_def Let_def isolated_refl)
next
  case False
  have "nat n \<le> 2 ^ 60" using n(2) by (simp add: nat_le_iff)
  with refill_ok [OF ok, of "nat n" ch] False n(3) obtain r1 m1 where
    r1: "(if buf_len r < nat n + unreadBytes r then grow_buf ch (nat n + unreadBytes r) r m
       else case compact_buf r m of (r1, m1) \<Rightarrow> (Ok (), r1, m1)) = (Ok (), r1, m1)"
      "reader_ok pinv held r1 m1" "pending m1 r1 = pending m r" "unreadBytes r1 = unreadBytes r"
      "nat n - unreadBytes r1 \<le> capLeft r1" "conn r1 = conn r" "isolated held r m r1 m1"
    by (auto simp: not_le)
  have "nat n - unreadBytes r1 \<le> length (stream (conn r1))"
    using n(3) window_length [OF ok] r1(4,6) by (simp add: pending_def)
  from fill_ok [OF r1(2,5) this] obtain r2 m2 where
    r2: "readAtLeast (nat n - unreadBytes r1) r1 m1 = (Ok (), r2, m2)" "reader_ok pinv held r2 m2"
      "pending m2 r2 = pending m1 r1" "unreadBytes r1 + (nat n - unreadBytes r1) \<le> unreadBytes r2" "isolated held r1 m1 r2 m2"
    by blast
  have "nat n \<le> unreadBytes r2" using r2(4) by simp
  from take_slice_ok [OF r2(2) this] obtain s r3 where
    r3: "take_slice (nat n) r2 m2 = (Ok (Some s), r3, m2)" "slice_bytes (hp m2) s = take (nat n) (pending m2 r2)"
      "pending m2 r3 = drop (nat n) (pending m2 r2)" "reader_ok pinv held r3 m2" "own_arr r3 = own_arr r2" "own_arr r2 = Some (s_arr s)"
    by blast
  have "isolated held r m r3 m2"
    using isolated_trans [OF isolated_trans [OF r1(7) r2(5)] isolated_refl [OF r3(5)]] .
  moreover have "\<not> cleanedUp r"
    using ok by (simp add: reader_ok_def)
  moreover have "ReadFull ch n r m = (Ok (Some s), r3, m2)"
    using False n(1) \<open>\<not> cleanedUp r\<close> by (simp add: ReadFull_def Let_def r1(1) r2(1) r3(1))
  ultimately show ?thesis
    using r1(3) r2(3) r3 by auto
qed

lemma fill_short:
  assumes ok: "reader_ok pinv held r m" and n: "n \<le> capLeft r" "length (stream (conn r)) < n"
  shows "\<exists>e r1 m1. readAtLeast n r m = (Fail e, r1, m1)"
  using io_ReadAtLeast_short [OF n(2,1)] by (auto simp: readAtLeast_def)

lemma refill_room:
  assumes ok: "reader_ok pinv held r m" and n: "unreadBytes r < n" "n \<le> 2 ^ 60"
  shows "\<exists>r1 m1. (if buf_len r < n + unreadBytes r then grow_buf ch (n + unreadBytes r) r m
       else case compact_buf r m of (r1, m1) \<Rightarrow> (Ok (), r1, m1)) = (Ok (), r1, m1) \<and>
    reader_ok pinv held r1 m1 \<and> unreadBytes r1 = unreadBytes r \<and> n - unreadBytes r1 \<le> capLeft r1 \<and> conn r1 = conn r"
proof (cases "buf_len r < n + unreadBytes r")
  case True
  from grow_ok [OF ok n, of ch] True show ?thesis
    by (auto simp: capLeft_def unreadBytes_def)
next
  case False
  obtain r1 m1 where eq: "compact_buf r m = (r1, m1)" by fastforce
  from compact_ok [OF ok eq] False n(1) show ?thesis
    by (auto simp: eq capLeft_def unreadBytes_def)
qed

lemma ReadFull_short:
  assumes ok: "reader_ok pinv held r m" and n: "0 \<le> n" "n \<le> 2 ^ 60" "length (pending m r) < nat n"
  shows "\<exists>e r' m'. ReadFull ch n r m = (Fail e, r', m')"
proof -
  have small: "unreadBytes r < nat n"
    using n(3) window_length [OF ok] by (simp add: pending_def)
  have "nat n \<le> 2 ^ 60" using n(2) by (simp add: nat_le_iff)
  with refill_room [OF ok small, of ch] obtain r1 m1 where
    r1: "(if buf_len r < nat n + unreadBytes r then grow_buf ch (nat n + unreadBytes r) r m
       else case compact_buf r m of (r1, m1) \<Rightarrow> (Ok (), r1, m1)) = (Ok (), r1, m1)"
      "reader_ok pinv held r1 m1" "unreadBytes r1 = unreadBytes r" "nat n - unreadBytes r1 \<le> capLeft r1" "conn r1 = conn r"
    by blast
  have "length (stream (conn r1)) < nat n - unreadBytes r1"
    using n(3) window_length [OF ok] r1(3,5) by (simp add: pending_def)
  from fill_short [OF r1(2,4) this] obtain e r2 m2 where "readAtLeast (nat n - unreadBytes r1) r1 m1 = (Fail e, r2, m2)"
    by blast
  moreover have "\<not> cleanedUp r"
    using ok by (simp add: reader_ok_def)
  ultimately show ?thesis
    using small n(1) by (simp add: ReadFull_def Let_def r1(1))
qed

lemma NewReader_ok:
  assumes "pinv m"
  shows "\<exists>r m'. NewReader ch c (2 ^ k) m = (Ok r, m') \<and> reader_ok pinv held r m' \<and> pending m' r = stream c \<and>
    (\<forall>t. held m t \<longrightarrow> held m' t \<and> own_arr r \<noteq> Some (s_arr t) \<and> hp m' ! s_arr t = hp m ! s_arr t)"
proof -
  from alloc_ok [OF assms pow2_ok, of ch k] obtain s m' where
    al: "Alloc ch (int (2 ^ k)) m = (Ok s, m')" "pinv m'" "held m' s"
    by metis
  moreover have "int (2 ^ k) = 2 ^ k" by simp
  ultimately show ?thesis
    using alloc_frame [OF assms pow2_ok al(1)]
    by (simp add: NewReader_def reader_ok_def pending_def buf_window_def own_arr_def) metis
qed

lemma take_byte_ok:
  assumes ok: "reader_ok pinv held r m" and n: "0 < unreadBytes r"
  shows "\<exists>r'. take_byte r m = (Ok (hd (pending m r)), r', m) \<and> pending m r' = tl (pending m r) \<and>
    reader_ok pinv held r' m"
proof -
  from take_slice_ok [OF ok, of 1] n obtain s r' where sl: "take_slice 1 r m = (Ok (Some s), r', m)"
    and b: "slice_bytes (hp m) s = take 1 (pending m r)" and p: "pending m r' = drop 1 (pending m r)"
    and ok': "reader_ok pinv held r' m"
    by auto
  have "pending m r \<noteq> []"
    using n window_length [OF ok] by (auto simp: pending_def)
  then obtain b bs where pb: "pending m r = b # bs"
    by (cases "pending m r") auto
  obtain s0 where s0: "rbuf r = Some s0"
    using ok by (auto simp: reader_ok_def)
  have "buf_window r (rr r) (Suc (rr r)) m = [b]"
    using b sl pb by (auto simp: take_slice_def s0 slice_bytes_def buf_window_def)
  moreover have "r' = r\<lparr>rr := Suc (rr r)\<rparr>"
    using sl by (simp add: take_slice_def)
  ultimately show ?thesis
    using p ok' pb by (simp add: take_byte_def)
qed

lemma ReadByte_ok:
  assumes ok: "reader_ok pinv held r m" and ne: "pending m r \<noteq> []" and room: "0 < buf_len r"
  shows "\<exists>r' m'. ReadByte r m = (Ok (hd (pending m r)), r', m') \<and> pending m' r' = tl (pending m r) \<and>
    reader_ok pinv held r' m'"
proof (cases "0 < unreadBytes r")
  case True
  with take_byte_ok [OF ok True] show ?thesis
    by (auto simp: ReadByte_def)
next
  case False
  let ?r = "if capLeft r = 0 then r\<lparr>rr := 0, rw := 0\<rparr> else r"
  have empty: "buf_window r (rr r) (rw r) m = []"
    using False window_length [OF ok] by simp
  have ok': "reader_ok pinv held ?r m"
    using ok by (auto simp: reader_ok_def)
  have pend: "pending m ?r = pending m r" and conn: "conn ?r = conn r"
    using empty by (auto simp: pending_def buf_window_def split: option.splits)
  have "1 \<le> capLeft ?r"
    using room ok by (auto simp: capLeft_def buf_len_def)
  moreover have "1 \<le> length (stream (conn ?r))"
    using ne empty conn by (simp add: pending_def Suc_le_eq)
  ultimately obtain r1 m1 where r1: "readAtLeast 1 ?r m = (Ok (), r1, m1)" "reader_ok pinv held r1 m1"
    "pending m1 r1 = pending m ?r" "unreadBytes ?r + 1 \<le> unreadBytes r1"
    using fill_ok [OF ok'] by blast
  have "0 < unreadBytes r1" using r1(4) by simp
  from take_byte_ok [OF r1(2) this] obtain r2 where
    "take_byte r1 m1 = (Ok (hd (pending m r)), r2, m1)" "pending m1 r2 = tl (pending m r)" "reader_ok pinv held r2 m1"
    using r1(3) pend by auto
  moreover have "\<not> cleanedUp r"
    using ok by (simp add: reader_ok_def)
  ultimately show ?thesis
    using False r1(1) by (simp add: ReadByte_def Let_def)
qed

end

text \<open>The contract, discharged for the pool the package initialiser builds.\<close>

definition mem_inv :: "mem \<Rightarrow> bool" where
  "mem_inv m = pool_inv the_pool pow2_sizes m"

definition buf_held :: "mem \<Rightarrow> slice \<Rightarrow> bool" where
  "buf_held m s = pool_held the_pool pow2_sizes m s"

definition reader_inv :: "reader \<Rightarrow> mem \<Rightarrow> bool" where
  "reader_inv r m = reader_ok mem_inv buf_held r m"

interpretation reader_mem: pow2_pool "served the_pool pow2_sizes" mem_inv buf_held
proof -
  have "mem_inv = pool_inv the_pool pow2_sizes" and "buf_held = pool_held the_pool pow2_sizes"
    by (auto simp: fun_eq_iff mem_inv_def buf_held_def)
  then show "pow2_pool (served the_pool pow2_sizes) mem_inv buf_held"
    using reader_pool.buffer_pool_axioms by (simp add: pow2_pool_def pow2_pool_axioms_def served_pow2)
qed

lemma mem_inv_fresh: "mem_inv (fresh_mem the_pool)"
  using pool_inv_fresh [OF the_pool_cfg the_pool_classes] by (simp add: mem_inv_def)

lemma fresh_reader:
  "\<exists>r m. NewReader None c 4096 (fresh_mem the_pool) = (Ok r, m) \<and> reader_inv r m \<and> pending m r = stream c"
  using reader_mem.NewReader_ok [OF mem_inv_fresh, of None c 12] by (simp add: reader_inv_def) blast


section \<open>Properties of the reader\<close>

text \<open>
  C4: \<open>ReadFull\<close> delivers the byte stream in order and without loss. However the network
  splits the data into chunks, and whichever pooled buffer an enlargement picks, when at least
  \<open>n\<close> bytes are available \<open>ReadFull(n)\<close> returns a slice with exactly the next \<open>n\<close> bytes, the
  bytes after them remain to be read, and the invariant is kept.
\<close>

theorem ReadFull_delivers:
  assumes "reader_inv r m" and "0 \<le> n" and "n \<le> 2 ^ 60" and "nat n \<le> length (pending m r)"
  shows "\<exists>s r' m'. ReadFull ch n r m = (Ok (Some s), r', m') \<and>
    slice_bytes (hp m') s = take (nat n) (pending m r) \<and>
    pending m' r' = drop (nat n) (pending m r) \<and> reader_inv r' m'"
  using reader_mem.ReadFull_ok [of r m n ch] assms unfolding reader_inv_def by blast

theorem ReadFull_delivers_witness:
  "\<exists>r m s r' m'. reader_inv r m \<and> pending m r = [1, 2, 3] \<and> ReadFull None 2 r m = (Ok (Some s), r', m') \<and>
    slice_bytes (hp m') s = [1, 2] \<and> pending m' r' = [3] \<and> reader_inv r' m'"
proof -
  obtain r m where r: "reader_inv r m" and p: "pending m r = stream [RData [1], RData [2, 3]]"
    using fresh_reader by blast
  then have "pending m r = [1, 2, 3]" by simp
  with ReadFull_delivers [OF r, of 2 None] r show ?thesis
    by (simp add: numeral_2_eq_2) blast
qed

text \<open>
  C38: When fewer bytes than requested arrive before the connection fails, \<open>ReadFull\<close> returns an
  error; it neither panics nor returns a short slice.
\<close>

theorem ReadFull_insufficient:
  assumes "reader_inv r m" and "0 \<le> n" and "n \<le> 2 ^ 60" and "length (pending m r) < nat n"
  shows "\<exists>e r' m'. ReadFull ch n r m = (Fail e, r', m')"
  using reader_mem.ReadFull_short [of r m n ch] assms unfolding reader_inv_def by blast

theorem ReadFull_insufficient_witness:
  "\<exists>r m e r' m'. reader_inv r m \<and> pending m r = [7] \<and> ReadFull None 2 r m = (Fail e, r', m')"
proof -
  obtain r m where r: "reader_inv r m" and p: "pending m r = stream [RData [7]]"
    using fresh_reader by blast
  then have p7: "pending m r = [7]" by simp
  with ReadFull_insufficient [OF r, of 2 None] have "\<exists>e r' m'. ReadFull None 2 r m = (Fail e, r', m')"
    by simp
  with r p7 show ?thesis by blast
qed


lemma two_fresh_readers:
  "\<exists>r q m. reader_inv r m \<and> reader_inv q m \<and> own_arr r \<noteq> own_arr q \<and> pending m r = stream c \<and> pending m q = stream d"
proof -
  obtain q m where q: "reader_inv q m" "pending m q = stream d"
    using fresh_reader by blast
  then have "mem_inv m" by (simp add: reader_inv_def reader_ok_def)
  from reader_mem.NewReader_ok [OF this, of None c 12] obtain r m' where
    r: "reader_ok mem_inv buf_held r m'" "pending m' r = stream c"
    and fr: "\<forall>t. buf_held m t \<longrightarrow> buf_held m' t \<and> own_arr r \<noteq> Some (s_arr t) \<and> hp m' ! s_arr t = hp m ! s_arr t"
    by blast
  obtain t where t: "rbuf q = Some t" "buf_held m t" "rr q \<le> rw q" "rw q \<le> s_len t" "\<not> cleanedUp q"
    using q(1) by (auto simp: reader_inv_def reader_ok_def)
  have "reader_inv q m'"
    using fr t r(1) by (auto simp: reader_inv_def reader_ok_def)
  moreover have "pending m' q = pending m q" and "own_arr r \<noteq> own_arr q"
    using fr t by (auto simp: pending_def buf_window_def own_arr_def)
  ultimately show ?thesis
    using r q(2) by (auto simp: reader_inv_def)
qed


text \<open>
  \<open>ReadByte\<close> on a reader with a non-empty buffer returns the next byte of the stream when
  there is one, and leaves the rest to be read.
\<close>

theorem ReadByte_delivers:
  assumes "reader_inv r m" and "pending m r = b # bs" and "0 < buf_len r"
  shows "\<exists>r' m'. ReadByte r m = (Ok b, r', m') \<and> pending m' r' = bs \<and> reader_inv r' m'"
  using reader_mem.ReadByte_ok [of r m] assms unfolding reader_inv_def by auto

theorem ReadByte_delivers_witness:
  "\<exists>r m r' m'. pending m r = [5, 6] \<and> ReadByte r m = (Ok 5, r', m') \<and> pending m' r' = [6] \<and> reader_inv r' m'"
proof -
  from reader_mem.NewReader_ok [OF mem_inv_fresh, of None "[RData [5, 6]]" 12] obtain r m where
    new: "NewReader None [RData [5, 6]] 4096 (fresh_mem the_pool) = (Ok r, m)" and r: "reader_inv r m" and p: "pending m r = [5, 6]"
    by (auto simp: reader_inv_def)
  have "0 < buf_len r"
    using new by (auto simp: NewReader_def buf_len_def Alloc_def fresh_mem_def split: prod.splits if_splits)
  from ReadByte_delivers [OF r p this] p show ?thesis by blast
qed

text \<open>
  A closed reader refuses further work: closing it again, reading a byte and reading any
  positive number of bytes return \<open>ErrBufReaderAlreadyClosed\<close> and change nothing.
\<close>

theorem closed_reader_refuses:
  assumes "Close r m = (Ok (), r', m')" and "0 < n"
  shows "Close r' m' = (Fail ErrBufReaderAlreadyClosed, r', m') \<and>
    ReadByte r' m' = (Fail ErrBufReaderAlreadyClosed, r', m') \<and>
    ReadFull ch n r' m' = (Fail ErrBufReaderAlreadyClosed, r', m')"
proof -
  have "cleanedUp r'" "rw r' = 0" "rr r' = 0" "rbuf r' = None"
    using assms(1) by (auto simp: Close_def split: if_splits)
  with assms(2) show ?thesis
    by (simp add: Close_def ReadByte_def ReadFull_def unreadBytes_def capLeft_def buf_len_def)
qed

theorem closed_reader_refuses_witness:
  "\<exists>r m r' m'. Close r m = (Ok (), r', m') \<and> Close r' m' = (Fail ErrBufReaderAlreadyClosed, r', m') \<and>
    ReadByte r' m' = (Fail ErrBufReaderAlreadyClosed, r', m') \<and>
    ReadFull None 4 r' m' = (Fail ErrBufReaderAlreadyClosed, r', m')"
proof -
  obtain r m where "reader_inv r m"
    using fresh_reader by blast
  then have "\<not> cleanedUp r" by (simp add: reader_inv_def reader_ok_def)
  then obtain r' m' where "Close r m = (Ok (), r', m')"
    by (simp add: Close_def)
  with closed_reader_refuses [OF this, of 4 None] show ?thesis by auto
qed

text \<open>
  C37: \<open>nextPowerOfTwo\<close> computes the least power of two that is not below its argument, for
  every argument up to \<open>2 ^ 62\<close>; above that it overflows to the most negative \<open>int\<close>.
\<close>

theorem nextPowerOfTwo_correct:
  assumes "1 \<le> n" and "n < 2 ^ 63"
  shows "(n \<le> 2 ^ 62 \<longrightarrow> (\<exists>k. sint (nextPowerOfTwo (of_nat n)) = 2 ^ k \<and> n \<le> 2 ^ k \<and> (\<forall>j. n \<le> 2 ^ j \<longrightarrow> k \<le> j))) \<and>
    (2 ^ 62 < n \<longrightarrow> sint (nextPowerOfTwo (of_nat n)) = - (2 ^ 63))"
proof (cases "n = 1")
  case True
  have "nextPowerOfTwo 1 = 1"
    by (simp add: nextPowerOfTwo_def)
  with True show ?thesis
    by (intro conjI impI exI [of _ 0]) simp_all
next
  case False
  with assms(1) obtain t where t: "2 ^ t \<le> n - 1" "n - 1 < 2 ^ Suc t"
    using pow2_bracket [of "n - 1"] by auto
  then have n: "2 ^ t < n" "n \<le> 2 ^ Suc t"
    using assms(1) by linarith+
  then have eq: "nextPowerOfTwo (of_nat n) = 2 ^ Suc t"
    using assms(2) by (intro nextPowerOfTwo_exp)
  have least: "Suc t \<le> j" if "n \<le> 2 ^ j" for j
    using n(1) that by (metis Suc_leI order_less_le_trans power_less_imp_less_exp one_less_numeral_iff semiring_norm(76))
  show ?thesis
  proof (intro conjI impI)
    assume "n \<le> 2 ^ 62"
    then have "Suc t < 63" using least [of 62] by simp
    from sint_pow2 [OF this] show "\<exists>k. sint (nextPowerOfTwo (of_nat n)) = 2 ^ k \<and> n \<le> 2 ^ k \<and> (\<forall>j. n \<le> 2 ^ j \<longrightarrow> k \<le> j)"
      using n(2) least unfolding eq by blast
  next
    assume big: "2 ^ 62 < n"
    have "Suc t \<le> 63" using least [of 63] assms(2) by simp
    moreover have "\<not> Suc t \<le> 62"
    proof
      assume "Suc t \<le> 62"
      then have "(2::nat) ^ Suc t \<le> 2 ^ 62" by (intro power_increasing) auto
      with big n(2) show False by simp
    qed
    ultimately have "Suc t = 63" by simp
    then show "sint (nextPowerOfTwo (of_nat n)) = - (2 ^ 63)"
      unfolding eq by simp
  qed
qed

theorem nextPowerOfTwo_correct_witness:
  "(1::nat) \<le> 4225 \<and> (\<exists>k. sint (nextPowerOfTwo (of_nat 4225)) = 2 ^ k \<and> (4225::nat) \<le> 2 ^ k) \<and>
   sint (nextPowerOfTwo (of_nat (2 ^ 62 + 1))) = - (2 ^ 63)"
  using nextPowerOfTwo_correct [of 4225] nextPowerOfTwo_correct [of "2 ^ 62 + 1"] by (simp del: of_nat_numeral) blast

end
