(* ===== verification/Session.thy ===== *)
theory Session
  imports Gate_Prelude
begin

text \<open>
  The session of a connection (\<^verbatim>\<open>pkg/net/session.go\<close>) and the packet encryption that uses it
  (\<^verbatim>\<open>pkg/net/internal/crypto.go\<close>).

  The cipher block is a value of the type parameter \<open>'b\<close> (\<open>None\<close>: the nil interface value). The
  AES routines belong to another module and are parameters of \<open>encrypt\<close> and \<open>decrypt\<close>.
\<close>

section \<open>Index counters\<close>

record indexInfo =
  ix_start :: int64
  ix_index :: int64

definition newIndexInfo :: "int64 \<Rightarrow> indexInfo" where
  "newIndexInfo st = \<lparr>ix_start = st, ix_index = st\<rparr>"

definition Increase :: "indexInfo \<Rightarrow> int64 \<times> indexInfo" where
  "Increase i = (ix_index i + 1, i\<lparr>ix_index := ix_index i + 1\<rparr>)"

definition Load :: "indexInfo \<Rightarrow> int64" where
  "Load i = ix_index i"


section \<open>Sessions\<close>

record 'b encryptor =
  enc_encrypt :: bool
  enc_block :: "'b option"
  enc_key :: bytes

record 'b session =
  ss_encryptor :: "'b encryptor"
  userId :: int64
  serverId :: int64
  clientIP :: string
  color :: string
  status :: int64
  startTime :: int64
  csIndex :: indexInfo
  scIndex :: indexInfo

definition DefaultSession :: "'b session" where
  "DefaultSession =
     \<lparr>ss_encryptor = \<lparr>enc_encrypt = False, enc_block = None, enc_key = []\<rparr>,
      userId = 0, serverId = 0, clientIP = [], color = [], status = 0, startTime = 0,
      csIndex = newIndexInfo 0, scIndex = newIndexInfo 1\<rparr>"

definition NewSession ::
  "int64 \<Rightarrow> int64 \<Rightarrow> int64 \<Rightarrow> 'b option \<Rightarrow> bytes \<Rightarrow> bool \<Rightarrow> string \<Rightarrow> int64 \<Rightarrow> 'b session" where
  "NewSession uid sid st block key crypto col sts =
     \<lparr>ss_encryptor = \<lparr>enc_encrypt = crypto, enc_block = block, enc_key = key\<rparr>,
      userId = uid, serverId = sid, clientIP = [], color = col, status = sts, startTime = st,
      csIndex = newIndexInfo 0, scIndex = newIndexInfo 1\<rparr>"

definition IncreaseCSIndex :: "'b session \<Rightarrow> int64 \<times> 'b session" where
  "IncreaseCSIndex s = (case Increase (csIndex s) of (v, i) \<Rightarrow> (v, s\<lparr>csIndex := i\<rparr>))"

definition CSIndex :: "'b session \<Rightarrow> int64" where
  "CSIndex s = Load (csIndex s)"

definition IncreaseSCIndex :: "'b session \<Rightarrow> int64 \<times> 'b session" where
  "IncreaseSCIndex s = (case Increase (scIndex s) of (v, i) \<Rightarrow> (v, s\<lparr>scIndex := i\<rparr>))"

definition SCIndex :: "'b session \<Rightarrow> int64" where
  "SCIndex s = Load (scIndex s)"

definition StartTime :: "'b session \<Rightarrow> int64" where
  "StartTime s = startTime s"

definition UID :: "'b session \<Rightarrow> int64" where
  "UID s = userId s"

definition SID :: "'b session \<Rightarrow> int64" where
  "SID s = serverId s"

definition Color :: "'b session \<Rightarrow> string" where
  "Color s = (if length (color s) = 0 then [] else color s)"

definition Status :: "'b session \<Rightarrow> int64" where
  "Status s = status s"

definition ClientIP :: "'b session \<Rightarrow> string" where
  "ClientIP s = clientIP s"

definition SetClientIP :: "string \<Rightarrow> 'b session \<Rightarrow> 'b session" where
  "SetClientIP ip s = s\<lparr>clientIP := ip\<rparr>"

definition IsCrypto :: "'b session \<Rightarrow> bool" where
  "IsCrypto s = enc_encrypt (ss_encryptor s)"

definition Block :: "'b session \<Rightarrow> 'b option" where
  "Block s = enc_block (ss_encryptor s)"

definition Key :: "'b session \<Rightarrow> bytes" where
  "Key s = enc_key (ss_encryptor s)"

lemmas session_defs = IncreaseCSIndex_def IncreaseSCIndex_def CSIndex_def SCIndex_def Increase_def Load_def
  UID_def SID_def Color_def Status_def StartTime_def ClientIP_def SetClientIP_def IsCrypto_def Block_def Key_def

lemma Color_eq [simp]: "Color s = color s"
  by (simp add: Color_def)

text \<open>A counter that was increased \<open>n\<close> times.\<close>

fun increase_n :: "nat \<Rightarrow> indexInfo \<Rightarrow> int64 list \<times> indexInfo" where
  "increase_n 0 i = ([], i)"
| "increase_n (Suc n) i =
     (case Increase i of (v, i') \<Rightarrow> case increase_n n i' of (vs, i'') \<Rightarrow> (v # vs, i''))"

lemma increase_n_values:
  "increase_n n i = (map (\<lambda>k. ix_index i + 1 + of_nat k) [0..<n], i\<lparr>ix_index := ix_index i + of_nat n\<rparr>)"
proof (induction n arbitrary: i)
  case (Suc n)
  have "map (\<lambda>k. ix_index i + 1 + of_nat k) [0..<Suc n]
      = (ix_index i + 1) # map (\<lambda>k. ix_index i + 1 + of_nat k) (map Suc [0..<n])"
    by (simp only: map_Suc_upt upt_conv_Cons zero_less_Suc list.map) simp
  then show ?case
    by (simp add: Increase_def Suc.IH ac_simps o_def del: upt_Suc)
qed simp


section \<open>Packet encryption\<close>

type_synonym 'b aes = "bytes \<Rightarrow> 'b option \<Rightarrow> bytes \<Rightarrow> bytes res"

definition encrypt :: "'b aes \<Rightarrow> 'b session \<Rightarrow> bytes \<Rightarrow> bytes res" where
  "encrypt aes_Encrypt ss data =
     (if \<not> IsCrypto ss then Ok data
      else case aes_Encrypt (Key ss) (Block ss) data of
             Ok out \<Rightarrow> Ok out
           | Fail e \<Rightarrow> Fail (Wrap ''packet encrypt failed'' [] e)
           | Panic p \<Rightarrow> Panic p)"

definition decrypt :: "'b aes \<Rightarrow> 'b session \<Rightarrow> bytes \<Rightarrow> bytes res" where
  "decrypt aes_Decrypt ss data =
     (if \<not> IsCrypto ss then Ok data
      else case aes_Decrypt (Key ss) (Block ss) data of
             Ok out \<Rightarrow> Ok out
           | Fail e \<Rightarrow> Fail (Wrap ''packet decrypt failed'' [] e)
           | Panic p \<Rightarrow> Panic p)"

text \<open>The contract of the AES module: what \<open>Encrypt\<close> produced under a key, \<open>Decrypt\<close> recovers
  under the same key.\<close>

definition aes_inverse :: "'b aes \<Rightarrow> 'b aes \<Rightarrow> bool" where
  "aes_inverse E D \<longleftrightarrow> (\<forall>k b x y. E k b x = Ok y \<longrightarrow> D k b y = Ok x)"

lemma decrypt_encrypt:
  assumes "aes_inverse E D" and "encrypt E ss x = Ok y"
  shows "decrypt D ss y = Ok x"
  using assms by (auto simp: aes_inverse_def encrypt_def decrypt_def split: if_splits res.splits)

text \<open>
  The counters of a session hand out consecutive values. A new session starts the client
  counter at 0 and the server counter at 1, and the k-th increase of a counter (from 0) returns
  its starting value plus k + 1, in 64-bit arithmetic; so no value is repeated within the first
  2 ^ 64 increases.
\<close>

theorem session_counters_consecutive:
  "fst (increase_n n (csIndex (NewSession uid sid st b key cr col sts))) = map (\<lambda>k. 1 + of_nat k) [0..<n] \<and>
   fst (increase_n n (scIndex (NewSession uid sid st b key cr col sts))) = map (\<lambda>k. 2 + of_nat k) [0..<n] \<and>
   (n \<le> 2 ^ 64 \<longrightarrow> distinct (fst (increase_n n (csIndex (NewSession uid sid st b key cr col sts)))))"
proof -
  have "distinct (map (\<lambda>k. 1 + of_nat k :: int64) [0..<n])" if "n \<le> 2 ^ 64"
  proof -
    have "inj_on (\<lambda>k. of_nat k :: int64) {0..<n}"
      using that by (intro inj_onI) (auto simp: word_of_nat_eq_iff take_bit_nat_eq_self)
    then have "inj_on (\<lambda>k. 1 + of_nat k :: int64) {0..<n}"
      by (simp add: inj_on_def)
    then show ?thesis by (simp add: distinct_map)
  qed
  then show ?thesis
    by (simp add: increase_n_values NewSession_def newIndexInfo_def)
qed

theorem session_counters_consecutive_witness:
  "fst (increase_n 3 (csIndex (NewSession 7 1 0 (None :: unit option) [] True [] 0))) = [1, 2, 3] \<and>
   distinct (fst (increase_n 3 (csIndex (NewSession 7 1 0 (None :: unit option) [] True [] 0))))"
  using session_counters_consecutive [of 3 7 1 0 "None :: unit option" "[]" True "[]" 0]
  by (simp add: upt_rec)

end
