(* ===== verification/Frame.thy ===== *)
theory Frame
  imports Buf_Reader Session
begin

text \<open>
  Packets on the wire: a four-byte big-endian length and the body. \<open>w_write\<close> and \<open>w_read\<close> are
  \<open>write\<close> and \<open>read\<close> of the worker (\<^verbatim>\<open>pkg/net/internal/worker.go\<close>) as functions of the session,
  the reader and the memory; \<open>c_read\<close> is that of the client
  (\<^verbatim>\<open>pkg/net/tcp/client/client.go\<close>).
\<close>

section \<open>Writing and reading packets\<close>

definition PackLenSize :: int where "PackLenSize = 4"

definition MaxBodySize :: int32 where "MaxBodySize = push_bit 14 1"

text \<open>The bytes built by \<^verbatim>\<open>binary.Write\<close> of the length and \<^verbatim>\<open>buf.Write\<close> of the body; writing to a
  \<^verbatim>\<open>bytes.Buffer\<close> does not fail. The length is truncated to 32 bits.\<close>

definition frame :: "bytes \<Rightarrow> bytes" where
  "frame pack = be32 (of_nat (length pack)) @ pack"

text \<open>The connection is the bytes it has sent; \<open>wr\<close> is the result of \<^verbatim>\<open>conn.Write\<close>: the error it
  returns, if any, after the number of bytes it has sent.\<close>

type_synonym conn_write = "bytes \<Rightarrow> (nat \<times> gerr) option"

definition conn_Write :: "conn_write \<Rightarrow> bytes \<Rightarrow> bytes \<Rightarrow> unit res \<times> bytes" where
  "conn_Write wr bs sent =
     (case wr bs of None \<Rightarrow> (Ok (), sent @ bs) | Some (n, e) \<Rightarrow> (Fail e, sent @ take n bs))"

definition w_write :: "'b aes \<Rightarrow> conn_write \<Rightarrow> 'b session \<Rightarrow> bytes \<Rightarrow> bytes \<Rightarrow> unit res \<times> bytes" where
  "w_write aes_Encrypt wr ss pack sent =
     (case encrypt aes_Encrypt ss pack of
        Fail e \<Rightarrow> (Fail e, sent)
      | Panic p \<Rightarrow> (Panic p, sent)
      | Ok pack' \<Rightarrow>
          (case conn_Write wr (frame pack') sent of
             (Fail e, sent') \<Rightarrow> (Fail (Wrap ''send packet failed'' [] e), sent')
           | (r, sent') \<Rightarrow> (r, sent')))"

definition opt_bytes :: "mem \<Rightarrow> slice option \<Rightarrow> bytes" where
  "opt_bytes m so = (case so of None \<Rightarrow> [] | Some s \<Rightarrow> slice_bytes (hp m) s)"

definition w_read ::
  "'b aes \<Rightarrow> nat option \<Rightarrow> nat option \<Rightarrow> 'b session \<Rightarrow> reader \<Rightarrow> mem \<Rightarrow> bytes res \<times> reader \<times> mem" where
  "w_read aes_Decrypt ch1 ch2 ss r m =
     (case ReadFull ch1 PackLenSize r m of
        (Fail e, r1, m1) \<Rightarrow> (Fail (Wrap ''read packet length failed'' [] e), r1, m1)
      | (Panic p, r1, m1) \<Rightarrow> (Panic p, r1, m1)
      | (Ok lenBytes, r1, m1) \<Rightarrow>
          let packLen = un_be32 (opt_bytes m1 lenBytes) :: int32 in
          if packLen \<le>s 0 then (Fail (Err ''packet len must greater than 0'' []), r1, m1)
          else if MaxBodySize <s packLen
               then (Fail (Err ''packet len=%d must less than %d'' [AInt (sint packLen), AInt (sint MaxBodySize)]), r1, m1)
          else case ReadFull ch2 (sint packLen) r1 m1 of
                 (Fail e, r2, m2) \<Rightarrow> (Fail (Wrap ''read packet body failed. len=%d'' [AInt (sint packLen)] e), r2, m2)
               | (Panic p, r2, m2) \<Rightarrow> (Panic p, r2, m2)
               | (Ok buf, r2, m2) \<Rightarrow> (decrypt aes_Decrypt ss (opt_bytes m2 buf), r2, m2))"


text \<open>The client returns the slice itself, a view of the buffer of the reader.\<close>

definition c_read :: "nat option \<Rightarrow> nat option \<Rightarrow> reader \<Rightarrow> mem \<Rightarrow> slice option res \<times> reader \<times> mem" where
  "c_read ch1 ch2 r m =
     (case ReadFull ch1 PackLenSize r m of
        (Fail e, r1, m1) \<Rightarrow> (Fail (Wrap ''read pack len failed. lenSize=%d'' [AInt PackLenSize] e), r1, m1)
      | (Panic p, r1, m1) \<Rightarrow> (Panic p, r1, m1)
      | (Ok lb, r1, m1) \<Rightarrow>
          let packLen = un_be32 (opt_bytes m1 lb) :: int32 in
          case ReadFull ch2 (sint packLen) r1 m1 of
            (Fail e, r2, m2) \<Rightarrow> (Fail (Wrap ''read pack body failed. len=%d'' [AInt (sint packLen)] e), r2, m2)
          | (Panic p, r2, m2) \<Rightarrow> (Panic p, r2, m2)
          | (Ok buf, r2, m2) \<Rightarrow> (Ok buf, r2, m2))"


lemma opt_bytes_Some [simp]: "opt_bytes m (Some s) = slice_bytes (hp m) s"
  by (simp add: opt_bytes_def)


section \<open>The byte source a packet reader relies on\<close>

locale byte_source =
  fixes rinv :: "reader \<Rightarrow> mem \<Rightarrow> bool" and pend :: "mem \<Rightarrow> reader \<Rightarrow> bytes"
  assumes read_full: "rinv r m \<Longrightarrow> 0 \<le> n \<Longrightarrow> n \<le> 2 ^ 60 \<Longrightarrow> nat n \<le> length (pend m r) \<Longrightarrow>
      \<exists>s r' m'. ReadFull ch n r m = (Ok (Some s), r', m') \<and> slice_bytes (hp m') s = take (nat n) (pend m r) \<and>
        pend m' r' = drop (nat n) (pend m r) \<and> rinv r' m'"
    and read_short: "rinv r m \<Longrightarrow> 0 \<le> n \<Longrightarrow> n \<le> 2 ^ 60 \<Longrightarrow> length (pend m r) < nat n \<Longrightarrow>
      \<exists>e r' m'. ReadFull ch n r m = (Fail e, r', m')"
begin

lemma read_header:
  assumes "rinv r m" and "pend m r = be32 x @ rest"
  shows "\<exists>s r' m'. ReadFull ch PackLenSize r m = (Ok (Some s), r', m') \<and> un_be32 (slice_bytes (hp m') s) = x \<and>
    pend m' r' = rest \<and> rinv r' m'"
  using read_full [OF assms(1), of PackLenSize ch] assms(2) by (auto simp: PackLenSize_def)

lemma w_read_frame:
  assumes inv: "rinv r m" and p: "pend m r = frame pk @ rest" and len: "0 < length pk" "length pk \<le> 2 ^ 14"
  shows "\<exists>r' m'. w_read D ch1 ch2 ss r m = (decrypt D ss pk, r', m') \<and> pend m' r' = rest \<and> rinv r' m'"
proof -
  let ?l = "of_nat (length pk) :: int32"
  from read_header [OF inv, of ?l "pk @ rest" ch1] p obtain s r1 m1 where
    h: "ReadFull ch1 PackLenSize r m = (Ok (Some s), r1, m1)" "un_be32 (slice_bytes (hp m1) s) = ?l"
      "pend m1 r1 = pk @ rest" "rinv r1 m1"
    by (auto simp: frame_def)
  have l: "sint ?l = int (length pk)"
    using len by (simp add: signed_of_nat signed_take_bit_int_eq_self)
  from read_full [OF h(4), of "int (length pk)" ch2] len h(3) obtain s2 r2 m2 where
    b: "ReadFull ch2 (int (length pk)) r1 m1 = (Ok (Some s2), r2, m2)" "slice_bytes (hp m2) s2 = pk"
      "pend m2 r2 = rest" "rinv r2 m2"
    by auto
  show ?thesis
    using len b by (simp add: w_read_def h(1,2) l word_sle_eq word_sless_alt MaxBodySize_def Let_def)
qed

lemma w_read_reject:
  assumes inv: "rinv r m" and p: "pend m r = be32 x @ rest" and bad: "sint x \<le> 0 \<or> 2 ^ 14 < sint x"
  shows "\<exists>e r' m'. w_read D ch1 ch2 ss r m = (Fail e, r', m') \<and> pend m' r' = rest \<and> rinv r' m'"
proof -
  from read_header [OF inv p, of ch1] obtain s r1 m1 where
    "ReadFull ch1 PackLenSize r m = (Ok (Some s), r1, m1)" "un_be32 (slice_bytes (hp m1) s) = x"
      "pend m1 r1 = rest" "rinv r1 m1"
    by blast
  then show ?thesis
    using bad by (auto simp: w_read_def word_sle_eq word_sless_alt MaxBodySize_def Let_def)
qed

lemma c_read_frame:
  assumes inv: "rinv r m" and p: "pend m r = frame pk @ rest" and len: "length pk < 2 ^ 31"
  shows "\<exists>s r' m'. c_read ch1 ch2 r m = (Ok (Some s), r', m') \<and> slice_bytes (hp m') s = pk \<and>
    pend m' r' = rest \<and> rinv r' m'"
proof -
  let ?l = "of_nat (length pk) :: int32"
  from read_header [OF inv, of ?l "pk @ rest" ch1] p obtain s r1 m1 where
    h: "ReadFull ch1 PackLenSize r m = (Ok (Some s), r1, m1)" "un_be32 (slice_bytes (hp m1) s) = ?l"
      "pend m1 r1 = pk @ rest" "rinv r1 m1"
    by (auto simp: frame_def)
  have l: "sint ?l = int (length pk)"
    using len by (simp add: signed_of_nat signed_take_bit_int_eq_self)
  from read_full [OF h(4), of "int (length pk)" ch2] len h(3) obtain s2 r2 m2 where
    b: "ReadFull ch2 (int (length pk)) r1 m1 = (Ok (Some s2), r2, m2)" "slice_bytes (hp m2) s2 = pk"
      "pend m2 r2 = rest" "rinv r2 m2"
    by auto
  then show ?thesis
    by (simp add: c_read_def h(1,2) l Let_def)
qed

end

interpretation gate_source: byte_source reader_inv pending
proof
  fix r m ch and n :: int
  assume "reader_inv r m" and n: "0 \<le> n" "n \<le> 2 ^ 60"
  then have ok: "reader_ok mem_inv buf_held r m"
    by (simp add: reader_inv_def)
  show "\<exists>s r' m'. ReadFull ch n r m = (Ok (Some s), r', m') \<and> slice_bytes (hp m') s = take (nat n) (pending m r) \<and>
      pending m' r' = drop (nat n) (pending m r) \<and> reader_inv r' m'" if "nat n \<le> length (pending m r)"
    using reader_mem.ReadFull_ok [OF ok n that] unfolding reader_inv_def by blast
  show "\<exists>e r' m'. ReadFull ch n r m = (Fail e, r', m')" if "length (pending m r) < nat n"
    using reader_mem.ReadFull_short [OF ok n that] .
qed

text \<open>The loop of a worker that reads packets until the first error: the packets and the error.
  The choices of pooled buffers are given for every packet.\<close>

fun read_packs ::
  "'b aes \<Rightarrow> (nat option \<times> nat option) list \<Rightarrow> 'b session \<Rightarrow> reader \<Rightarrow> mem \<Rightarrow> bytes list \<times> reader \<times> mem" where
  "read_packs D [] ss r m = ([], r, m)"
| "read_packs D ((ch1, ch2) # chs) ss r m =
     (case w_read D ch1 ch2 ss r m of
        (Ok pk, r1, m1) \<Rightarrow> (case read_packs D chs ss r1 m1 of (pks, r2, m2) \<Rightarrow> (pk # pks, r2, m2))
      | (_, r1, m1) \<Rightarrow> ([], r1, m1))"


definition wire_ok :: "'b aes \<Rightarrow> 'b session \<Rightarrow> bytes \<Rightarrow> bytes \<Rightarrow> bool" where
  "wire_ok E ss pk w \<longleftrightarrow> w_write E (\<lambda>_. None) ss pk [] = (Ok (), w) \<and> 4 < length w \<and> length w \<le> 4 + 2 ^ 14"

lemma wire_ok_frame:
  assumes "aes_inverse E D" and "wire_ok E ss pk w"
  obtains c where "w = frame c" and "0 < length c" and "length c \<le> 2 ^ 14" and "decrypt D ss c = Ok pk"
proof -
  from assms(2) obtain c where "encrypt E ss pk = Ok c" and "w = frame c"
    by (auto simp: wire_ok_def w_write_def conn_Write_def split: res.splits)
  moreover from this have "decrypt D ss c = Ok pk"
    using decrypt_encrypt [OF assms(1)] by blast
  ultimately show thesis
    using assms(2) by (intro that) (auto simp: wire_ok_def frame_def)
qed

lemma read_packs_all:
  assumes "aes_inverse E D" and "reader_inv r m" and "list_all2 (wire_ok E ss) pks ws"
    and "pending m r = concat ws @ rest" and "length chs = length pks"
  shows "\<exists>r' m'. read_packs D chs ss r m = (pks, r', m') \<and> pending m' r' = rest \<and> reader_inv r' m'"
  using assms(3,2,4,5)
proof (induction pks ws arbitrary: r m chs rule: list_all2_induct)
  case (Cons pk pks w ws)
  obtain c where c: "w = frame c" "0 < length c" "length c \<le> 2 ^ 14" "decrypt D ss c = Ok pk"
    using wire_ok_frame [OF assms(1) Cons.hyps(1)] by blast
  obtain ch1 ch2 chs' where chs: "chs = (ch1, ch2) # chs'" "length chs' = length pks"
    using Cons.prems(3) by (cases chs) auto
  have "pending m r = frame c @ (concat ws @ rest)"
    using Cons.prems(2) c(1) by simp
  from gate_source.w_read_frame [OF Cons.prems(1) this c(2,3), of D ch1 ch2 ss] obtain r1 m1 where
    one: "w_read D ch1 ch2 ss r m = (Ok pk, r1, m1)" "pending m1 r1 = concat ws @ rest" "reader_inv r1 m1"
    using c(4) by auto
  from Cons.IH [OF one(3,2) chs(2)] one(1) show ?case
    by (auto simp: chs(1))
qed simp

text \<open>
  C5: What one end writes, the other end reads. For any list of packets whose encrypted form
  is at most 16384 bytes long, any splitting of the bytes into network chunks and any choice of
  pooled buffers, reading from a stream that starts with the written frames returns exactly the
  packets, in order, and leaves what follows them; encryption is undone by decryption under
  the same session.
\<close>

theorem packets_roundtrip:
  assumes "aes_inverse E D" and "reader_inv r m" and "list_all2 (wire_ok E ss) pks ws"
    and "pending m r = concat ws @ rest" and "length chs = length pks"
  shows "\<exists>r' m'. read_packs D chs ss r m = (pks, r', m') \<and> pending m' r' = rest \<and> reader_inv r' m'"
  using read_packs_all [OF assms] .

theorem packets_roundtrip_witness:
  "\<exists>r m r' m'. stream (conn r) = frame [13, 1, 2] @ frame [13] @ [0] \<and>
     read_packs (\<lambda>k b x. Ok (tl x)) [(None, None), (None, None)] (NewSession 7 1 0 (None :: unit option) [] True [] 0) r m
       = ([[1, 2], []], r', m') \<and> pending m' r' = [0] \<and> reader_inv r' m'"
proof -
  let ?E = "\<lambda>k b x. Ok (13 # x) :: bytes res" and ?D = "\<lambda>k b x. Ok (tl x) :: bytes res"
  let ?ss = "NewSession 7 1 0 (None :: unit option) [] True [] 0"
  let ?ws = "[frame [13, 1, 2], frame [13]]"
  obtain r m where new: "NewReader None [RData (concat ?ws @ [0])] 4096 (fresh_mem the_pool) = (Ok r, m)"
    and r: "reader_inv r m" "pending m r = stream [RData (concat ?ws @ [0])]"
    using fresh_reader by blast
  have c: "conn r = [RData (concat ?ws @ [0])]"
    using new by (auto simp: NewReader_def split: prod.splits res.splits)
  have "aes_inverse ?E ?D" by (simp add: aes_inverse_def)
  moreover have "list_all2 (wire_ok ?E ?ss) [[1, 2], []] ?ws"
    by (simp add: wire_ok_def w_write_def conn_Write_def encrypt_def session_defs NewSession_def frame_def)
  moreover have "pending m r = concat ?ws @ [0]"
    using r(2) by simp
  ultimately have "\<exists>r' m'. read_packs ?D [(None, None), (None, None)] ?ss r m = ([[1, 2], []], r', m') \<and> pending m' r' = [0] \<and> reader_inv r' m'"
    using packets_roundtrip [of ?E ?D r m ?ss "[[1, 2], []]" ?ws "[0]" "[(None, None), (None, None)]"] r(1) by simp
  moreover have "stream (conn r) = frame [13, 1, 2] @ frame [13] @ [0]"
    using c by simp
  ultimately show ?thesis by blast
qed

text \<open>
  C15: A length field that is not between 1 and 16384 (read as a signed 32-bit number) is
  refused right after the four header bytes: the worker gets an error, nothing of the body is
  read and no buffer is enlarged for it.
\<close>

theorem bad_length_refused:
  assumes "reader_inv r m" and "pending m r = be32 x @ rest" and "sint x \<le> 0 \<or> 2 ^ 14 < sint x"
  shows "\<exists>e r' m'. w_read D ch1 ch2 ss r m = (Fail e, r', m') \<and> pending m' r' = rest \<and> reader_inv r' m'"
  using gate_source.w_read_reject [OF assms] .

theorem bad_length_refused_witness:
  "\<exists>r m e r' m'. pending m r = be32 16385 @ [1, 2] \<and>
     w_read (\<lambda>k b x. Ok x) None None (DefaultSession :: unit session) r m = (Fail e, r', m') \<and> pending m' r' = [1, 2] \<and> reader_inv r' m'"
proof -
  obtain r m where r: "reader_inv r m" "pending m r = stream [RData (be32 16385 @ [1, 2])]"
    using fresh_reader by blast
  then have p: "pending m r = be32 16385 @ [1, 2]" by simp
  have "sint (16385 :: int32) \<le> 0 \<or> 2 ^ 14 < sint (16385 :: int32)" by simp
  from bad_length_refused [OF r(1) p this, of "\<lambda>k b x. Ok x" None None "DefaultSession :: unit session"] p
  show ?thesis by blast
qed

end
