(* ===== verification/Messages.thy ===== *)
theory Messages
  imports Gate_Prelude
begin

text \<open>
  The messages the gate handles and their object pools: the packet exchanged with clients
  (\<^verbatim>\<open>gen/api/client/packet/packet.pb.go\<close>), the messages of the player and room tunnels
  (\<^verbatim>\<open>gen/api/server/{player,room}/intra/v1/tunnel.pb.go\<close>), and the pools
  \<^verbatim>\<open>app/gate/internal/pkg/pool/packet.go\<close> and
  \<^verbatim>\<open>app/gate/internal/intra/net/tunnels/{player,room}/pool.go\<close>.

  A pointer to a message is an option (\<open>None\<close>: nil); nil and empty byte slices are not told
  apart. Only the fields of the message are kept of the generated structs, not the
  bookkeeping of the serialisation library.
\<close>

section \<open>Packets\<close>

record packet =
  Ver :: int32
  Index :: int32
  Compress :: bool
  Mod :: int32
  Seq :: int32
  Obj :: int64
  Data :: bytes
  DataVersion :: uint64

definition zero_packet :: packet where
  "zero_packet = \<lparr>Ver = 0, Index = 0, Compress = False, Mod = 0, Seq = 0, Obj = 0, Data = [], DataVersion = 0\<rparr>"

definition Packet_Reset :: "packet \<Rightarrow> packet" where
  "Packet_Reset x = zero_packet"

definition GetVer :: "packet option \<Rightarrow> int32" where
  "GetVer x = (case x of Some p \<Rightarrow> Ver p | None \<Rightarrow> 0)"
definition GetIndex :: "packet option \<Rightarrow> int32" where
  "GetIndex x = (case x of Some p \<Rightarrow> Index p | None \<Rightarrow> 0)"
definition GetCompress :: "packet option \<Rightarrow> bool" where
  "GetCompress x = (case x of Some p \<Rightarrow> Compress p | None \<Rightarrow> False)"
definition GetMod :: "packet option \<Rightarrow> int32" where
  "GetMod x = (case x of Some p \<Rightarrow> Mod p | None \<Rightarrow> 0)"
definition GetSeq :: "packet option \<Rightarrow> int32" where
  "GetSeq x = (case x of Some p \<Rightarrow> Seq p | None \<Rightarrow> 0)"
definition GetObj :: "packet option \<Rightarrow> int64" where
  "GetObj x = (case x of Some p \<Rightarrow> Obj p | None \<Rightarrow> 0)"
definition GetData :: "packet option \<Rightarrow> bytes" where
  "GetData x = (case x of Some p \<Rightarrow> Data p | None \<Rightarrow> [])"
definition GetDataVersion :: "packet option \<Rightarrow> uint64" where
  "GetDataVersion x = (case x of Some p \<Rightarrow> DataVersion p | None \<Rightarrow> 0)"


section \<open>Messages of the tunnels\<close>

text \<open>The player and the room service use structs with the same fields, which share one record; the
  methods of the struct of the room service are those with \<open>room\<close> and \<open>rm\<close> in their names.\<close>

record message =
  m_Mod :: int32
  m_Seq :: int32
  m_Obj :: int64
  m_Data :: bytes
  m_DataVersion :: uint64

definition zero_message :: message where
  "zero_message = \<lparr>m_Mod = 0, m_Seq = 0, m_Obj = 0, m_Data = [], m_DataVersion = 0\<rparr>"

definition Message_Reset :: "message \<Rightarrow> message" where
  "Message_Reset x = zero_message"

definition m_GetMod :: "message option \<Rightarrow> int32" where
  "m_GetMod x = (case x of Some p \<Rightarrow> m_Mod p | None \<Rightarrow> 0)"
definition m_GetSeq :: "message option \<Rightarrow> int32" where
  "m_GetSeq x = (case x of Some p \<Rightarrow> m_Seq p | None \<Rightarrow> 0)"
definition m_GetObj :: "message option \<Rightarrow> int64" where
  "m_GetObj x = (case x of Some p \<Rightarrow> m_Obj p | None \<Rightarrow> 0)"
definition m_GetData :: "message option \<Rightarrow> bytes" where
  "m_GetData x = (case x of Some p \<Rightarrow> m_Data p | None \<Rightarrow> [])"
definition m_GetDataVersion :: "message option \<Rightarrow> uint64" where
  "m_GetDataVersion x = (case x of Some p \<Rightarrow> m_DataVersion p | None \<Rightarrow> 0)"

definition room_Message_Reset :: "message \<Rightarrow> message" where
  "room_Message_Reset x = zero_message"

definition rm_GetMod :: "message option \<Rightarrow> int32" where
  "rm_GetMod x = (case x of Some p \<Rightarrow> m_Mod p | None \<Rightarrow> 0)"
definition rm_GetSeq :: "message option \<Rightarrow> int32" where
  "rm_GetSeq x = (case x of Some p \<Rightarrow> m_Seq p | None \<Rightarrow> 0)"
definition rm_GetObj :: "message option \<Rightarrow> int64" where
  "rm_GetObj x = (case x of Some p \<Rightarrow> m_Obj p | None \<Rightarrow> 0)"
definition rm_GetData :: "message option \<Rightarrow> bytes" where
  "rm_GetData x = (case x of Some p \<Rightarrow> m_Data p | None \<Rightarrow> [])"
definition rm_GetDataVersion :: "message option \<Rightarrow> uint64" where
  "rm_GetDataVersion x = (case x of Some p \<Rightarrow> m_DataVersion p | None \<Rightarrow> 0)"


section \<open>Object pools\<close>

text \<open>
  \<^verbatim>\<open>sync.Pool\<close>: the objects put back so far. \<open>Get\<close> may return any of them or a new one, which the
  parameter \<open>ch\<close> decides; it may also drop objects at any time, which leaves a sublist.
\<close>

definition pool_get :: "'a \<Rightarrow> nat option \<Rightarrow> 'a list \<Rightarrow> 'a \<times> 'a list" where
  "pool_get new ch pl =
     (case ch of
        Some i \<Rightarrow> if i < length pl then (pl ! i, take i pl @ drop (Suc i) pl) else (new, pl)
      | None \<Rightarrow> (new, pl))"

definition pool_put :: "('a \<Rightarrow> 'a) \<Rightarrow> 'a option \<Rightarrow> 'a list \<Rightarrow> 'a list" where
  "pool_put reset x pl = (case x of None \<Rightarrow> pl | Some m \<Rightarrow> reset m # pl)"

definition GetPacket :: "nat option \<Rightarrow> packet list \<Rightarrow> packet \<times> packet list" where
  "GetPacket ch pl = pool_get zero_packet ch pl"

definition PutPacket :: "packet option \<Rightarrow> packet list \<Rightarrow> packet list" where
  "PutPacket p pl = pool_put Packet_Reset p pl"

definition player_getMessage :: "nat option \<Rightarrow> message list \<Rightarrow> message \<times> message list" where
  "player_getMessage ch pl = pool_get zero_message ch pl"

definition player_putMessage :: "message option \<Rightarrow> message list \<Rightarrow> message list" where
  "player_putMessage m pl = pool_put Message_Reset m pl"

definition room_getMessage :: "nat option \<Rightarrow> message list \<Rightarrow> message \<times> message list" where
  "room_getMessage ch pl = pool_get zero_message ch pl"

definition room_putMessage :: "message option \<Rightarrow> message list \<Rightarrow> message list" where
  "room_putMessage m pl = pool_put room_Message_Reset m pl"

text \<open>The contract of an object pool: whatever it hands out is blank.\<close>

definition blank :: "'a \<Rightarrow> 'a list \<Rightarrow> bool" where
  "blank zero pl \<longleftrightarrow> set pl \<subseteq> {zero}"

locale blank_pool =
  fixes zero :: 'a and get :: "nat option \<Rightarrow> 'a list \<Rightarrow> 'a \<times> 'a list" and put :: "'a option \<Rightarrow> 'a list \<Rightarrow> 'a list"
  assumes get_blank: "blank zero pl \<Longrightarrow> fst (get ch pl) = zero \<and> blank zero (snd (get ch pl))"
    and put_blank: "blank zero pl \<Longrightarrow> blank zero (put mo pl)"
begin

lemma get_zero:
  assumes "blank zero pl"
  obtains pl' where "get ch pl = (zero, pl')" and "blank zero pl'"
  using get_blank [OF assms, of ch] by (metis prod.collapse)

end

lemma pool_get_blank:
  assumes "blank zero pl"
  shows "fst (pool_get zero ch pl) = zero \<and> blank zero (snd (pool_get zero ch pl))"
proof (cases "\<exists>i. ch = Some i \<and> i < length pl")
  case True
  then obtain i where i: "ch = Some i" "i < length pl" by blast
  have "pl ! i = zero" using assms i(2) nth_mem unfolding blank_def by blast
  moreover have "blank zero (take i pl @ drop (Suc i) pl)"
    using assms set_take_subset [of i pl] set_drop_subset [of "Suc i" pl] unfolding blank_def by auto
  ultimately show ?thesis using i by (simp add: pool_get_def)
next
  case False
  with assms show ?thesis by (auto simp: pool_get_def split: option.splits)
qed

lemma pool_put_blank:
  assumes "blank zero pl" and "\<And>x. reset x = zero"
  shows "blank zero (pool_put reset mo pl)"
  using assms by (simp add: pool_put_def blank_def split: option.splits)

interpretation packet_pool: blank_pool zero_packet GetPacket PutPacket
  unfolding GetPacket_def PutPacket_def
  by unfold_locales (rule pool_get_blank pool_put_blank; simp add: Packet_Reset_def)+

interpretation player_pool: blank_pool zero_message player_getMessage player_putMessage
  unfolding player_getMessage_def player_putMessage_def
  by unfold_locales (rule pool_get_blank pool_put_blank; simp add: Message_Reset_def)+

interpretation room_pool: blank_pool zero_message room_getMessage room_putMessage
  unfolding room_getMessage_def room_putMessage_def
  by unfold_locales (rule pool_get_blank pool_put_blank; simp add: room_Message_Reset_def)+

end
