(* ===== verification/Tunnel_Holder.thy ===== *)
theory Tunnel_Holder
  imports Gate_Prelude "HOL-Library.AList"
begin

text \<open>
  The tunnels of one connection (\<^verbatim>\<open>pkg/net/internal/tunnel.go\<close>): a map from tunnel types to
  maps from object ids to tunnels, and the two-step protocol of \<^verbatim>\<open>Worker.Tunnel\<close> (look up under
  the read lock, then create under the write lock).

  A tunnel is a value of the interface \<^verbatim>\<open>tunnel.Tunnel\<close>, here a reference of type \<open>'t\<close>; what the
  references stand for is the world, of type \<open>'w\<close>, which the methods of the interface read and
  change. Go leaves the order in which \<^verbatim>\<open>range\<close> visits a map unspecified; \<open>h_stop\<close> visits the
  entries in the order of the association lists, and nothing below depends on that order.
\<close>

section \<open>The holder\<close>

type_synonym 't tunnel_group = "(int64 \<times> 't) list"

record 't holder =
  tunnelGroups :: "(int32 \<times> 't tunnel_group) list"

type_synonym ('t, 'w) create_func = "int32 \<Rightarrow> int64 \<Rightarrow> 'w \<Rightarrow> 't res \<times> 'w"

definition newTunnelHolder :: "'t holder" where
  "newTunnelHolder = \<lparr>tunnelGroups = []\<rparr>"

definition h_stop :: "('t \<Rightarrow> 'w \<Rightarrow> 'w) \<Rightarrow> 't holder \<Rightarrow> 'w \<Rightarrow> 'w" where
  "h_stop TriggerStop h w =
     foldl (\<lambda>w1 (_, tg). foldl (\<lambda>w2 (_, t). TriggerStop t w2) w1 tg) w (tunnelGroups h)"

definition h_tunnel :: "('t \<Rightarrow> 'w \<Rightarrow> bool) \<Rightarrow> int32 \<Rightarrow> int64 \<Rightarrow> 't holder \<Rightarrow> 'w \<Rightarrow> 't option" where
  "h_tunnel IsStopping tp oid h w =
     (case map_of (tunnelGroups h) tp of
        None \<Rightarrow> None
      | Some tg \<Rightarrow>
          (case map_of tg oid of
             None \<Rightarrow> None
           | Some t \<Rightarrow> if IsStopping t w then None else Some t))"

text \<open>The group of a type, created empty when it is missing.\<close>

definition ensure_group :: "int32 \<Rightarrow> 't holder \<Rightarrow> 't tunnel_group \<times> 't holder" where
  "ensure_group tp h =
     (case map_of (tunnelGroups h) tp of
        Some tg \<Rightarrow> (tg, h)
      | None \<Rightarrow> ([], h\<lparr>tunnelGroups := AList.update tp [] (tunnelGroups h)\<rparr>))"

definition createTunnel ::
  "('t \<Rightarrow> 'w \<Rightarrow> bool) \<Rightarrow> ('t, 'w) create_func \<Rightarrow> int32 \<Rightarrow> int64 \<Rightarrow> 't holder \<Rightarrow> 'w \<Rightarrow> 't res \<times> 't holder \<times> 'w" where
  "createTunnel IsStopping create tp oid h w =
     (let (tg, h1) = ensure_group tp h;
          live = (case map_of tg oid of
                    None \<Rightarrow> None
                  | Some t \<Rightarrow> if \<not> IsStopping t w then Some t else None) in
      case live of
        Some t \<Rightarrow> (Ok t, h1, w)
      | None \<Rightarrow>
          (case create tp oid w of
             (Fail e, w1) \<Rightarrow> (Fail e, h1, w1)
           | (Panic p, w1) \<Rightarrow> (Panic p, h1, w1)
           | (Ok t, w1) \<Rightarrow>
               (Ok t, h1\<lparr>tunnelGroups := AList.update tp (AList.update oid t tg) (tunnelGroups h1)\<rparr>, w1)))"

text \<open>What the map holds for a key, stopping or not.\<close>

definition held :: "'t holder \<Rightarrow> int32 \<Rightarrow> int64 \<Rightarrow> 't option" where
  "held h tp oid = Option.bind (map_of (tunnelGroups h) tp) (\<lambda>tg. map_of tg oid)"

lemma h_tunnel_held:
  "h_tunnel IsStopping tp oid h w =
     (case held h tp oid of None \<Rightarrow> None | Some t \<Rightarrow> if IsStopping t w then None else Some t)"
  by (simp add: h_tunnel_def held_def split: option.splits)

lemma held_new [simp]: "held newTunnelHolder tp oid = None"
  by (simp add: held_def newTunnelHolder_def)

lemma ensure_group_held:
  assumes "ensure_group tp h = (tg, h1)"
  shows "map_of (tunnelGroups h1) tp = Some tg" and "held h1 = held h"
  using assms by (auto simp: ensure_group_def held_def update_conv' fun_eq_iff split: option.splits)

text \<open>The three outcomes of a creation, over the map.\<close>

lemma createTunnel_live:
  assumes "held h tp oid = Some t" and "\<not> IsStopping t w"
  shows "\<exists>h'. createTunnel IsStopping create tp oid h w = (Ok t, h', w) \<and> held h' = held h"
proof -
  obtain tg h1 where e: "ensure_group tp h = (tg, h1)" by fastforce
  note g = ensure_group_held [OF e]
  have "map_of tg oid = Some t"
    using assms(1) g by (metis bind.bind_lunit held_def)
  then show ?thesis
    using assms(2) g(2) by (simp add: createTunnel_def e)
qed

lemma createTunnel_new:
  assumes "held h tp oid = None \<or> (\<exists>t. held h tp oid = Some t \<and> IsStopping t w)"
  shows "\<exists>h'. createTunnel IsStopping create tp oid h w = (fst (create tp oid w), h', snd (create tp oid w)) \<and>
    held h' = (\<lambda>tp' oid'. case fst (create tp oid w) of
       Ok t \<Rightarrow> if tp' = tp \<and> oid' = oid then Some t else held h tp' oid'
     | _ \<Rightarrow> held h tp' oid')"
proof -
  obtain tg h1 where e: "ensure_group tp h = (tg, h1)" by fastforce
  note g = ensure_group_held [OF e]
  have m: "held h tp oid = map_of tg oid"
    using g by (metis bind.bind_lunit held_def)
  have "held (h1\<lparr>tunnelGroups := AList.update tp (AList.update oid t tg) (tunnelGroups h1)\<rparr>) =
      (\<lambda>tp' oid'. if tp' = tp \<and> oid' = oid then Some t else held h tp' oid')" for t
    unfolding g(2) [symmetric] using g(1) by (auto simp: held_def update_conv' fun_eq_iff)
  then show ?thesis
    using assms g(2) by (auto simp: createTunnel_def e m split: option.splits res.splits prod.splits)
qed

lemma createTunnel_cases:
  obtains (live) t h' where "held h tp oid = Some t" "\<not> IsStopping t w"
      "createTunnel IsStopping create tp oid h w = (Ok t, h', w)" "held h' = held h"
  | (new) t w' h' where "held h tp oid = None \<or> (\<exists>u. held h tp oid = Some u \<and> IsStopping u w)"
      "create tp oid w = (Ok t, w')" "createTunnel IsStopping create tp oid h w = (Ok t, h', w')"
      "held h' = (\<lambda>tp' oid'. if tp' = tp \<and> oid' = oid then Some t else held h tp' oid')"
  | (refused) r w' h' where "held h tp oid = None \<or> (\<exists>u. held h tp oid = Some u \<and> IsStopping u w)"
      "create tp oid w = (r, w')" "\<forall>t. r \<noteq> Ok t"
      "createTunnel IsStopping create tp oid h w = (r, h', w')" "held h' = held h"
proof (cases "\<exists>t. held h tp oid = Some t \<and> \<not> IsStopping t w")
  case True
  then show ?thesis using createTunnel_live [of h tp oid _ IsStopping w create] live by blast
next
  case False
  then have n: "held h tp oid = None \<or> (\<exists>t. held h tp oid = Some t \<and> IsStopping t w)"
    by (cases "held h tp oid") auto
  obtain r w' where c: "create tp oid w = (r, w')" by fastforce
  from createTunnel_new [of h tp oid IsStopping w create] n c obtain h' where
    h': "createTunnel IsStopping create tp oid h w = (r, h', w')"
      "held h' = (\<lambda>tp' oid'. case r of Ok t \<Rightarrow> if tp' = tp \<and> oid' = oid then Some t else held h tp' oid' | _ \<Rightarrow> held h tp' oid')"
    by auto
  show ?thesis
  proof (cases r)
    case (Ok t)
    with n c h' show ?thesis by (intro new) auto
  next
    case (Fail e)
    with n c h' show ?thesis by (intro refused) (auto simp: fun_eq_iff)
  next
    case (Panic p)
    with n c h' show ?thesis by (intro refused) (auto simp: fun_eq_iff)
  qed
qed


lemma createTunnel_world:
  "snd (snd (createTunnel IsStopping create tp oid h w)) = w \<or>
   snd (snd (createTunnel IsStopping create tp oid h w)) = snd (create tp oid w)"
proof (cases rule: createTunnel_cases [of h tp oid IsStopping w create])
qed auto


section \<open>Concurrent requests\<close>

text \<open>
  Requests for tunnels under any interleaving. A request is at the start of \<^verbatim>\<open>Worker.Tunnel\<close>
  (\<open>Asking\<close>), between its two critical sections (\<open>Missed\<close>), or done. The world may change at any
  moment in any way that leaves stopped tunnels stopped.
\<close>

datatype 't treq = Asking | Missed | Got 't | Refused

record ('t, 'w) tstate =
  ts_holder :: "'t holder"
  ts_world :: 'w
  ts_reqs :: "((int32 \<times> int64) \<times> 't treq) list"

inductive tunnel_step ::
  "('t \<Rightarrow> 'w \<Rightarrow> bool) \<Rightarrow> ('t, 'w) create_func \<Rightarrow> ('t, 'w) tstate \<Rightarrow> ('t, 'w) tstate \<Rightarrow> bool"
  for IsStopping create where
  hit: "i < length (ts_reqs s) \<Longrightarrow> ts_reqs s ! i = ((tp, oid), Asking) \<Longrightarrow>
    h_tunnel IsStopping tp oid (ts_holder s) (ts_world s) = Some t \<Longrightarrow>
    tunnel_step IsStopping create s (s\<lparr>ts_reqs := (ts_reqs s)[i := ((tp, oid), Got t)]\<rparr>)"
| miss: "i < length (ts_reqs s) \<Longrightarrow> ts_reqs s ! i = ((tp, oid), Asking) \<Longrightarrow>
    h_tunnel IsStopping tp oid (ts_holder s) (ts_world s) = None \<Longrightarrow>
    tunnel_step IsStopping create s (s\<lparr>ts_reqs := (ts_reqs s)[i := ((tp, oid), Missed)]\<rparr>)"
| made: "i < length (ts_reqs s) \<Longrightarrow> ts_reqs s ! i = ((tp, oid), Missed) \<Longrightarrow>
    createTunnel IsStopping create tp oid (ts_holder s) (ts_world s) = (Ok t, h', w') \<Longrightarrow>
    tunnel_step IsStopping create s
      \<lparr>ts_holder = h', ts_world = w', ts_reqs = (ts_reqs s)[i := ((tp, oid), Got t)]\<rparr>"
| failed: "i < length (ts_reqs s) \<Longrightarrow> ts_reqs s ! i = ((tp, oid), Missed) \<Longrightarrow>
    createTunnel IsStopping create tp oid (ts_holder s) (ts_world s) = (r, h', w') \<Longrightarrow> \<forall>t. r \<noteq> Ok t \<Longrightarrow>
    tunnel_step IsStopping create s
      \<lparr>ts_holder = h', ts_world = w', ts_reqs = (ts_reqs s)[i := ((tp, oid), Refused)]\<rparr>"
| other: "(\<And>t. IsStopping t (ts_world s) \<Longrightarrow> IsStopping t w') \<Longrightarrow>
    tunnel_step IsStopping create s (s\<lparr>ts_world := w'\<rparr>)"

definition tunnel_start :: "'w \<Rightarrow> (int32 \<times> int64) list \<Rightarrow> ('t, 'w) tstate" where
  "tunnel_start w ks = \<lparr>ts_holder = newTunnelHolder, ts_world = w, ts_reqs = map (\<lambda>k. (k, Asking)) ks\<rparr>"

text \<open>What a request got is in the map for its key, or stopping by now.\<close>

definition got_held :: "('t \<Rightarrow> 'w \<Rightarrow> bool) \<Rightarrow> ('t, 'w) tstate \<Rightarrow> bool" where
  "got_held IsStopping s \<longleftrightarrow>
     (\<forall>tp oid t. ((tp, oid), Got t) \<in> set (ts_reqs s) \<longrightarrow>
        IsStopping t (ts_world s) \<or> held (ts_holder s) tp oid = Some t)"

lemma got_heldI:
  assumes "got_held IsStopping s" and "\<And>t. IsStopping t (ts_world s) \<Longrightarrow> IsStopping t (ts_world s')"
    and "\<And>tp oid t. ((tp, oid), Got t) \<in> set (ts_reqs s') \<Longrightarrow>
      ((tp, oid), Got t) \<in> set (ts_reqs s) \<or> held (ts_holder s') tp oid = Some t"
    and "\<And>tp oid t. held (ts_holder s) tp oid = Some t \<Longrightarrow>
      IsStopping t (ts_world s') \<or> held (ts_holder s') tp oid = Some t"
  shows "got_held IsStopping s'"
  using assms unfolding got_held_def by metis

text \<open>The contract of a function that creates tunnels: it never brings a stopped one back.\<close>

locale tunnel_factory =
  fixes IsStopping :: "'t \<Rightarrow> 'w \<Rightarrow> bool" and create :: "('t, 'w) create_func"
  assumes create_keeps_stopped: "IsStopping t w \<Longrightarrow> IsStopping t (snd (create tp oid w))"
begin

lemma step_got_held:
  assumes "tunnel_step IsStopping create s s'" and "got_held IsStopping s"
  shows "got_held IsStopping s'"
  using assms(1)
proof cases
  case (hit i tp oid t)
  then have "held (ts_holder s) tp oid = Some t"
    by (simp add: h_tunnel_held split: option.splits if_splits)
  with hit show ?thesis
    by (intro got_heldI [OF assms(2)]) (auto dest!: in_set_updD)
next
  case (miss i tp oid)
  then show ?thesis
    by (intro got_heldI [OF assms(2)]) (auto dest!: in_set_updD)
next
  case (made i tp oid t h' w')
  show ?thesis
  proof (cases rule: createTunnel_cases [of "ts_holder s" tp oid IsStopping "ts_world s" create])
    case (live u g)
    with made show ?thesis
      by (intro got_heldI [OF assms(2)]) (auto dest!: in_set_updD)
  next
    case (new u v g)
    then have "IsStopping x v" if "IsStopping x (ts_world s)" for x
      using create_keeps_stopped [OF that, of tp oid] by simp
    with new made show ?thesis
      by (intro got_heldI [OF assms(2)]) (auto dest!: in_set_updD)
  qed (use made in auto)
next
  case (failed i tp oid r h' w')
  show ?thesis
  proof (cases rule: createTunnel_cases [of "ts_holder s" tp oid IsStopping "ts_world s" create])
    case (refused q v g)
    then have "IsStopping x v" if "IsStopping x (ts_world s)" for x
      using create_keeps_stopped [OF that, of tp oid] by simp
    with refused failed show ?thesis
      by (intro got_heldI [OF assms(2)]) (auto dest!: in_set_updD)
  qed (use failed in auto)
next
  case (other w')
  then show ?thesis
    by (intro got_heldI [OF assms(2)]) auto
qed

lemma reachable_got_held:
  assumes "(tunnel_step IsStopping create)\<^sup>*\<^sup>* (tunnel_start w ks) s"
  shows "got_held IsStopping s"
  using assms
  by induction (auto simp: step_got_held, auto simp: got_held_def tunnel_start_def)

lemma one_live_tunnel:
  assumes "(tunnel_step IsStopping create)\<^sup>*\<^sup>* (tunnel_start w ks) s"
    and "((tp, oid), Got t) \<in> set (ts_reqs s)" and "((tp, oid), Got u) \<in> set (ts_reqs s)"
    and "\<not> IsStopping t (ts_world s)" and "\<not> IsStopping u (ts_world s)"
  shows "t = u"
proof -
  note inv = reachable_got_held [OF assms(1), unfolded got_held_def, rule_format]
  have "held (ts_holder s) tp oid = Some t"
    using inv [OF assms(2)] assms(4) by blast
  moreover have "held (ts_holder s) tp oid = Some u"
    using inv [OF assms(3)] assms(5) by blast
  ultimately show ?thesis by simp
qed

end

text \<open>Stopping the holder triggers the stop of every tunnel in it.\<close>

locale stoppable_tunnels =
  fixes Triggered :: "'t \<Rightarrow> 'w \<Rightarrow> bool" and TriggerStop :: "'t \<Rightarrow> 'w \<Rightarrow> 'w"
    and known :: "'t \<Rightarrow> 'w \<Rightarrow> bool"
  assumes trigger_triggers: "known t w \<Longrightarrow> Triggered t (TriggerStop t w)"
    and trigger_keeps: "known t w \<Longrightarrow> Triggered t w \<Longrightarrow> Triggered t (TriggerStop u w)"
    and trigger_known: "known t w \<Longrightarrow> known t (TriggerStop u w)"
begin

definition stop_one_group :: "'w \<Rightarrow> int32 \<times> 't tunnel_group \<Rightarrow> 'w" where
  "stop_one_group w g = foldl (\<lambda>w2 (_, u). TriggerStop u w2) w (snd g)"

lemma stop_one_group_keeps:
  assumes "known t w"
  shows "known t (stop_one_group w g)" and "Triggered t w \<Longrightarrow> Triggered t (stop_one_group w g)"
proof -
  show "known t (stop_one_group w g)"
    unfolding stop_one_group_def using assms by (rule foldl_keeps [rotated]) (auto intro: trigger_known)
  have "known t (foldl (\<lambda>w2 (_, u). TriggerStop u w2) w (snd g)) \<and>
      Triggered t (foldl (\<lambda>w2 (_, u). TriggerStop u w2) w (snd g))" if "Triggered t w"
    by (rule foldl_keeps [where P = "\<lambda>w. known t w \<and> Triggered t w"]) (use assms that trigger_known trigger_keeps in auto)
  then show "Triggered t w \<Longrightarrow> Triggered t (stop_one_group w g)"
    by (simp add: stop_one_group_def)
qed

lemma stop_one_group_stops:
  assumes "known t w" and "(oid, t) \<in> set tg"
  shows "Triggered t (stop_one_group w (tp, tg))"
proof -
  let ?f = "\<lambda>w2 (_ :: int64, u). TriggerStop u w2"
  from assms(2) obtain ys zs where "tg = ys @ (oid, t) # zs"
    by (meson split_list)
  moreover have k: "known t (foldl ?f w ys)"
    using assms(1) by (rule foldl_keeps [rotated]) (auto intro: trigger_known)
  then have "known t (TriggerStop t (foldl ?f w ys)) \<and> Triggered t (TriggerStop t (foldl ?f w ys))"
    using trigger_triggers trigger_known by blast
  then have "known t (foldl ?f (TriggerStop t (foldl ?f w ys)) zs) \<and> Triggered t (foldl ?f (TriggerStop t (foldl ?f w ys)) zs)"
    by (rule foldl_keeps [rotated]) (auto intro: trigger_known trigger_keeps)
  ultimately show ?thesis
    by (simp add: stop_one_group_def)
qed

lemma h_stop_groups: "h_stop TriggerStop h w = foldl stop_one_group w (tunnelGroups h)"
  by (simp add: h_stop_def stop_one_group_def [abs_def] case_prod_unfold)

lemma stop_stops_held:
  assumes "held h tp oid = Some t" and "known t w"
  shows "Triggered t (h_stop TriggerStop h w)"
proof -
  from assms(1) obtain tg where tg: "map_of (tunnelGroups h) tp = Some tg" "map_of tg oid = Some t"
    by (auto simp: held_def bind_eq_Some_conv)
  from map_of_SomeD [OF tg(1)] obtain ys zs where "tunnelGroups h = ys @ (tp, tg) # zs"
    by (meson split_list)
  moreover have k: "known t (foldl stop_one_group w ys)"
    using assms(2) by (rule foldl_keeps [rotated]) (rule stop_one_group_keeps)
  then have "known t (stop_one_group (foldl stop_one_group w ys) (tp, tg)) \<and>
      Triggered t (stop_one_group (foldl stop_one_group w ys) (tp, tg))"
    using map_of_SomeD [OF tg(2)] stop_one_group_stops stop_one_group_keeps(1) by blast
  then have "known t (foldl stop_one_group (stop_one_group (foldl stop_one_group w ys) (tp, tg)) zs) \<and>
      Triggered t (foldl stop_one_group (stop_one_group (foldl stop_one_group w ys) (tp, tg)) zs)"
    by (rule foldl_keeps [rotated]) (auto intro: stop_one_group_keeps)
  ultimately show ?thesis
    by (simp add: h_stop_groups)
qed

end

end
