(* ===== verification/Buckets.thy ===== *)
theory Buckets
  imports Gate_Prelude "HOL-Library.AList"
begin

text \<open>
  The registry of connected workers (\<^verbatim>\<open>pkg/net/internal/buckets.go\<close>): an array of buckets, each
  a map from worker ids to workers, and the process-wide index \<open>uidWidMap\<close> from user ids to
  worker ids.

  A worker is a pointer; \<open>WID\<close> and \<open>UID\<close> are its methods, which do not change while the worker is
  registered (the session is set by the handshake, before the registration). Go maps are
  association lists; \<^verbatim>\<open>range\<close> visits them in list order and no result below depends on it.
\<close>

section \<open>Buckets\<close>

type_synonym wptr = nat

type_synonym bucket = "(uint64 \<times> wptr) list"

record buckets =
  bs_buckets :: "bucket list"
  bucketSize :: uint32
  uidWidMap :: "(int64 \<times> uint64) list"

definition newBucket :: "bucket" where
  "newBucket = []"

definition b_put :: "(wptr \<Rightarrow> uint64) \<Rightarrow> (wptr \<Rightarrow> int64) \<Rightarrow> wptr \<Rightarrow> bucket \<Rightarrow> (int64 \<times> uint64) list \<Rightarrow>
    wptr option \<times> bucket \<times> (int64 \<times> uint64) list" where
  "b_put WID UID w b um = (map_of b (WID w), AList.update (WID w) w b, AList.update (UID w) (WID w) um)"

definition b_del :: "(wptr \<Rightarrow> uint64) \<Rightarrow> (wptr \<Rightarrow> int64) \<Rightarrow> wptr \<Rightarrow> bucket \<Rightarrow> (int64 \<times> uint64) list \<Rightarrow>
    bucket \<times> (int64 \<times> uint64) list" where
  "b_del WID UID dw b um =
     (case map_of b (WID dw) of
        Some w \<Rightarrow> if w = dw then (AList.delete (WID w) b, AList.delete (UID w) um) else (b, um)
      | None \<Rightarrow> (b, um))"

definition b_get :: "uint64 \<Rightarrow> bucket \<Rightarrow> wptr option" where
  "b_get key b = map_of b key"

definition b_snapshot :: "bucket \<Rightarrow> bucket" where
  "b_snapshot b = b"

text \<open>The callback of a walk has a state of its own and returns whether to go on.\<close>

fun walk_entries :: "(wptr \<Rightarrow> 's \<Rightarrow> bool \<times> 's) \<Rightarrow> bucket \<Rightarrow> 's \<Rightarrow> 's" where
  "walk_entries f [] s = s"
| "walk_entries f ((_, w) # es) s = (case f w s of (False, s') \<Rightarrow> s' | (True, s') \<Rightarrow> walk_entries f es s')"

definition b_walk :: "(wptr \<Rightarrow> 's \<Rightarrow> bool \<times> 's) \<Rightarrow> bucket \<Rightarrow> 's \<Rightarrow> 's" where
  "b_walk f b s = walk_entries f (b_snapshot b) s"


section \<open>The array of buckets\<close>

text \<open>The index is a variable of the package, which is empty when the program starts; \<open>idx\<close> is what it
  holds when a registry is made. \<^verbatim>\<open>make\<close> panics on a negative length; the loop that fills the array runs
  up to the same size.\<close>

definition uidWidMap_init :: "(int64 \<times> uint64) list" where
  "uidWidMap_init = []"

definition NewBuckets :: "(int64 \<times> uint64) list \<Rightarrow> int \<Rightarrow> buckets res" where
  "NewBuckets idx BucketSize =
     (if BucketSize < 0 then Panic ''makeslice: len out of range''
      else Ok \<lparr>bs_buckets = replicate (nat BucketSize) newBucket, bucketSize = of_int BucketSize, uidWidMap = idx\<rparr>)"

definition Bucket_of :: "uint64 \<Rightarrow> buckets \<Rightarrow> nat res" where
  "Bucket_of key bs =
     (if bucketSize bs = 0 then Panic ''integer divide by zero''
      else let idx = key mod ucast (bucketSize bs) in
           if unat idx < length (bs_buckets bs) then Ok (unat idx) else Panic ''index out of range'')"

definition Worker_of :: "uint64 \<Rightarrow> buckets \<Rightarrow> wptr option res" where
  "Worker_of key bs = bind_res (Bucket_of key bs) (\<lambda>i. Ok (b_get key (bs_buckets bs ! i)))"

definition Put :: "(wptr \<Rightarrow> uint64) \<Rightarrow> (wptr \<Rightarrow> int64) \<Rightarrow> wptr \<Rightarrow> buckets \<Rightarrow> (wptr option \<times> buckets) res" where
  "Put WID UID w bs =
     bind_res (Bucket_of (WID w) bs) (\<lambda>i.
       case b_put WID UID w (bs_buckets bs ! i) (uidWidMap bs) of
         (old, b, um) \<Rightarrow> Ok (old, bs\<lparr>bs_buckets := (bs_buckets bs)[i := b], uidWidMap := um\<rparr>))"

text \<open>The pointer \<^verbatim>\<open>bs.buckets[idx]\<close> is never nil: \<open>NewBuckets\<close> fills every entry.\<close>

definition Del :: "(wptr \<Rightarrow> uint64) \<Rightarrow> (wptr \<Rightarrow> int64) \<Rightarrow> wptr \<Rightarrow> buckets \<Rightarrow> buckets res" where
  "Del WID UID w bs =
     bind_res (Bucket_of (WID w) bs) (\<lambda>i.
       case b_del WID UID w (bs_buckets bs ! i) (uidWidMap bs) of
         (b, um) \<Rightarrow> Ok (bs\<lparr>bs_buckets := (bs_buckets bs)[i := b], uidWidMap := um\<rparr>))"

definition Walk :: "(wptr \<Rightarrow> 's \<Rightarrow> bool \<times> 's) \<Rightarrow> buckets \<Rightarrow> 's \<Rightarrow> 's" where
  "Walk f bs s = foldl (\<lambda>s1 b. b_walk f b s1) s (bs_buckets bs)"

definition GetByUID :: "int64 \<Rightarrow> buckets \<Rightarrow> wptr option res" where
  "GetByUID uid bs =
     (case map_of (uidWidMap bs) uid of None \<Rightarrow> Ok None | Some wid \<Rightarrow> Worker_of wid bs)"

text \<open>The result may contain nil workers (\<open>None\<close>): the index is read before the bucket.\<close>

fun GetByUIDs :: "int64 list \<Rightarrow> buckets \<Rightarrow> wptr option list res" where
  "GetByUIDs [] bs = Ok []"
| "GetByUIDs (uid # uids) bs =
     (case map_of (uidWidMap bs) uid of
        None \<Rightarrow> GetByUIDs uids bs
      | Some wid \<Rightarrow> bind_res (Worker_of wid bs) (\<lambda>w. bind_res (GetByUIDs uids bs) (\<lambda>ws. Ok (w # ws))))"


section \<open>Invariant and abstraction\<close>

definition slot :: "buckets \<Rightarrow> uint64 \<Rightarrow> nat" where
  "slot bs key = unat key mod length (bs_buckets bs)"

definition buckets_ok :: "(wptr \<Rightarrow> uint64) \<Rightarrow> buckets \<Rightarrow> bool" where
  "buckets_ok WID bs \<longleftrightarrow>
     bs_buckets bs \<noteq> [] \<and> length (bs_buckets bs) = unat (bucketSize bs) \<and>
     (\<forall>i < length (bs_buckets bs).
        distinct (map fst (bs_buckets bs ! i)) \<and>
        (\<forall>(k, w) \<in> set (bs_buckets bs ! i). slot bs k = i \<and> WID w = k))"

text \<open>What the array stores, as one map.\<close>

definition registered :: "buckets \<Rightarrow> uint64 \<Rightarrow> wptr option" where
  "registered bs key = map_of (bs_buckets bs ! slot bs key) key"

lemma slot_less: "buckets_ok WID bs \<Longrightarrow> slot bs key < length (bs_buckets bs)"
  unfolding buckets_ok_def slot_def by (metis length_greater_0_conv mod_less_divisor)

lemma slot_update [simp]: "slot (bs\<lparr>bs_buckets := (bs_buckets bs)[i := b], uidWidMap := um\<rparr>) key = slot bs key"
  by (simp add: slot_def)

lemma Bucket_of_slot:
  assumes "buckets_ok WID bs"
  shows "Bucket_of key bs = Ok (slot bs key)"
proof -
  have n: "length (bs_buckets bs) = unat (bucketSize bs)" "0 < length (bs_buckets bs)"
    using assms unfolding buckets_ok_def by blast+
  have "unat (ucast (bucketSize bs) :: uint64) = unat (bucketSize bs)"
    using unsigned_less [where ?'a = nat, of "bucketSize bs"]
    by (simp add: unsigned_ucast_eq take_bit_nat_eq_self)
  then have "unat (key mod ucast (bucketSize bs)) = slot bs key"
    using n(1) by (simp add: unat_mod_distrib slot_def)
  moreover have "bucketSize bs \<noteq> 0"
    using n by (metis unat_0 less_numeral_extra(3))
  ultimately show ?thesis
    using slot_less [OF assms] by (simp add: Bucket_of_def Let_def)
qed

lemma Worker_of_registered [gate_inv]:
  "buckets_ok WID bs \<Longrightarrow> Worker_of key bs = Ok (registered bs key)"
  by (simp add: Worker_of_def Bucket_of_slot registered_def b_get_def)

lemma NewBuckets_ok:
  assumes "0 < n" and "n < 2 ^ 32"
  shows "\<exists>bs. NewBuckets idx n = Ok bs \<and> buckets_ok WID bs \<and> registered bs = Map.empty \<and> uidWidMap bs = idx"
proof -
  have "unat (of_int n :: uint32) = nat n"
    using assms by (simp add: unat_eq_nat_uint unsigned_of_int take_bit_int_eq_self)
  then show ?thesis
    using assms by (auto simp: NewBuckets_def buckets_ok_def newBucket_def registered_def slot_def fun_eq_iff)
qed


lemma replace_bucket:
  fixes um :: "(int64 \<times> uint64) list"
  assumes ok: "buckets_ok WID bs" and d: "distinct (map fst b)"
    and e: "\<forall>(k, w) \<in> set b. slot bs k = slot bs key \<and> WID w = k"
    and r: "\<And>k. slot bs k = slot bs key \<Longrightarrow> map_of b k = (if k = key then v else registered bs k)"
  defines "bs' \<equiv> bs\<lparr>bs_buckets := (bs_buckets bs)[slot bs key := b], uidWidMap := um\<rparr>"
  shows "buckets_ok WID bs'" and "registered bs' = (registered bs)(key := v)" and "uidWidMap bs' = um"
proof -
  note l = slot_less [OF ok, of key]
  show "buckets_ok WID bs'"
  proof -
    have "(bs_buckets bs)[slot bs key := b] ! i = (if i = slot bs key then b else bs_buckets bs ! i)" for i
      using l by simp
    then show ?thesis
      using ok d e unfolding buckets_ok_def bs'_def slot_update by simp
  qed
  show "registered bs' = (registered bs)(key := v)"
  proof
    fix k
    show "registered bs' k = ((registered bs)(key := v)) k"
    proof (cases "slot bs k = slot bs key")
      case True
      with r [OF True] l show ?thesis by (simp add: registered_def bs'_def)
    next
      case False
      then have "k \<noteq> key" by auto
      with False show ?thesis by (simp add: registered_def bs'_def)
    qed
  qed
qed (simp add: bs'_def)

lemma bucket_entries:
  assumes "buckets_ok WID bs"
  shows "distinct (map fst (bs_buckets bs ! slot bs key))"
    and "\<forall>(k, w) \<in> set (bs_buckets bs ! slot bs key). slot bs k = slot bs key \<and> WID w = k"
    and "slot bs k = slot bs key \<Longrightarrow> map_of (bs_buckets bs ! slot bs key) k = registered bs k"
  using assms slot_less [OF assms, of key] by (auto simp: buckets_ok_def registered_def)

lemma registered_WID:
  assumes "buckets_ok WID bs" and "registered bs k = Some w"
  shows "WID w = k"
  using bucket_entries(2) [OF assms(1), of k] assms(2) by (auto simp: registered_def dest: map_of_SomeD)

lemma Put_registered [gate_inv]:
  assumes ok: "buckets_ok WID bs"
  shows "\<exists>bs'. Put WID UID w bs = Ok (registered bs (WID w), bs') \<and> buckets_ok WID bs' \<and>
    registered bs' = (registered bs)(WID w \<mapsto> w) \<and> uidWidMap bs' = AList.update (UID w) (WID w) (uidWidMap bs)"
proof -
  let ?b = "bs_buckets bs ! slot bs (WID w)"
  note b = bucket_entries [OF ok, where key = "WID w"]
  have d: "distinct (map fst (AList.update (WID w) w ?b))"
    using b(1) by (rule distinct_update)
  have e: "\<forall>(k, u) \<in> set (AList.update (WID w) w ?b). slot bs k = slot bs (WID w) \<and> WID u = k"
  proof (clarify)
    fix k u
    assume "(k, u) \<in> set (AList.update (WID w) w ?b)"
    then have "map_of (AList.update (WID w) w ?b) k = Some u"
      using d by simp
    then have "k = WID w \<and> u = w \<or> (k, u) \<in> set ?b"
      by (auto simp: update_conv' split: if_splits dest: map_of_SomeD)
    then show "slot bs k = slot bs (WID w) \<and> WID u = k"
      using b(2) by auto
  qed
  have r: "map_of (AList.update (WID w) w ?b) k = (if k = WID w then Some w else registered bs k)"
    if "slot bs k = slot bs (WID w)" for k
    using b(3) [OF that] by (simp add: update_conv')
  show ?thesis
    using replace_bucket [OF ok d e r] by (simp add: Put_def Bucket_of_slot [OF ok] b_put_def registered_def)
qed

lemma Del_registered [gate_inv]:
  assumes ok: "buckets_ok WID bs"
  shows "\<exists>bs'. Del WID UID w bs = Ok bs' \<and> buckets_ok WID bs' \<and>
    registered bs' = (if registered bs (WID w) = Some w then (registered bs)(WID w := None) else registered bs) \<and>
    uidWidMap bs' = (if registered bs (WID w) = Some w then AList.delete (UID w) (uidWidMap bs) else uidWidMap bs)"
proof (cases "registered bs (WID w) = Some w")
  case True
  let ?b = "bs_buckets bs ! slot bs (WID w)"
  note b = bucket_entries [OF ok, where key = "WID w"]
  have d: "distinct (map fst (AList.delete (WID w) ?b))"
    using b(1) by (rule distinct_delete)
  have e: "\<forall>(k, u) \<in> set (AList.delete (WID w) ?b). slot bs k = slot bs (WID w) \<and> WID u = k"
    using b(2) by (auto simp: AList.delete_eq)
  have r: "map_of (AList.delete (WID w) ?b) k = (if k = WID w then None else registered bs k)"
    if "slot bs k = slot bs (WID w)" for k
    using b(3) [OF that] by (simp add: delete_conv')
  show ?thesis
    using replace_bucket [OF ok d e r] True
    by (simp add: Del_def Bucket_of_slot [OF ok] b_del_def registered_def [symmetric])
next
  case False
  then have "b_del WID UID w (bs_buckets bs ! slot bs (WID w)) (uidWidMap bs) = (bs_buckets bs ! slot bs (WID w), uidWidMap bs)"
    by (auto simp: b_del_def registered_def split: option.splits)
  with False ok show ?thesis
    by (simp add: Del_def Bucket_of_slot [OF ok])
qed


section \<open>The contract of a registry\<close>

text \<open>Registrations and removals in the order the locks serialise them, and what they do to the
  map from worker ids to workers: a removal counts only when the entry still is this worker.\<close>

datatype reg_op = RPut wptr | RDel wptr

fun reg_run :: "(wptr \<Rightarrow> 's \<Rightarrow> (wptr option \<times> 's) res) \<Rightarrow> (wptr \<Rightarrow> 's \<Rightarrow> 's res) \<Rightarrow> reg_op list \<Rightarrow> 's \<Rightarrow> 's res" where
  "reg_run put del [] s = Ok s"
| "reg_run put del (RPut w # ops) s = bind_res (put w s) (\<lambda>(_, s'). reg_run put del ops s')"
| "reg_run put del (RDel w # ops) s = bind_res (del w s) (\<lambda>s'. reg_run put del ops s')"

fun reg_spec :: "(wptr \<Rightarrow> uint64) \<Rightarrow> reg_op \<Rightarrow> (uint64 \<Rightarrow> wptr option) \<Rightarrow> uint64 \<Rightarrow> wptr option" where
  "reg_spec WID (RPut w) m = m(WID w \<mapsto> w)"
| "reg_spec WID (RDel w) m = (if m (WID w) = Some w then m(WID w := None) else m)"

locale worker_registry =
  fixes inv :: "'s \<Rightarrow> bool" and view :: "'s \<Rightarrow> uint64 \<Rightarrow> wptr option" and WID :: "wptr \<Rightarrow> uint64"
    and put :: "wptr \<Rightarrow> 's \<Rightarrow> (wptr option \<times> 's) res" and del :: "wptr \<Rightarrow> 's \<Rightarrow> 's res"
  assumes put_law: "inv s \<Longrightarrow> \<exists>s'. put w s = Ok (view s (WID w), s') \<and> inv s' \<and> view s' = (view s)(WID w \<mapsto> w)"
    and del_law: "inv s \<Longrightarrow> \<exists>s'. del w s = Ok s' \<and> inv s' \<and>
      view s' = (if view s (WID w) = Some w then (view s)(WID w := None) else view s)"
begin

lemma run_refines:
  assumes "inv s"
  shows "\<exists>s'. reg_run put del ops s = Ok s' \<and> inv s' \<and> view s' = fold (reg_spec WID) ops (view s)"
  using assms
proof (induction ops arbitrary: s)
  case (Cons x ops)
  show ?case
  proof (cases x)
    case (RPut w)
    from put_law [OF Cons.prems, of w] obtain s1 where
      "put w s = Ok (view s (WID w), s1)" "inv s1" "view s1 = (view s)(WID w \<mapsto> w)" by blast
    with Cons.IH [of s1] RPut show ?thesis by (auto simp del: fun_upd_apply)
  next
    case (RDel w)
    from del_law [OF Cons.prems, of w] obtain s1 where
      "del w s = Ok s1" "inv s1" "view s1 = (if view s (WID w) = Some w then (view s)(WID w := None) else view s)" by blast
    with Cons.IH [of s1] RDel show ?thesis by (auto simp del: fun_upd_apply)
  qed
qed simp

text \<open>A worker that is registered stays so until its own removal or a registration under its id.\<close>

lemma spec_stays:
  assumes "m (WID w) = Some w" and "RDel w \<notin> set ops" and "\<forall>u. RPut u \<in> set ops \<longrightarrow> WID u \<noteq> WID w"
  shows "fold (reg_spec WID) ops m (WID w) = Some w"
  using assms
proof (induction ops arbitrary: m)
  case (Cons x ops)
  have "reg_spec WID x m (WID w) = Some w"
    using Cons.prems by (cases x) auto
  then show ?case
    using Cons.IH [of "reg_spec WID x m"] Cons.prems by simp
qed simp

end

interpretation bucket_registry: worker_registry "buckets_ok WID" registered WID "Put WID UID" "Del WID UID" for WID UID
  by unfold_locales (use Put_registered Del_registered in blast)+


section \<open>Walking and looking up by user\<close>

definition all_workers :: "buckets \<Rightarrow> wptr list" where
  "all_workers bs = concat (map (map snd) (bs_buckets bs))"

lemma walk_entries_all:
  assumes "\<And>w s. fst (f w s)"
  shows "walk_entries f es s = fold (\<lambda>w s. snd (f w s)) (map snd es) s"
proof (induction es arbitrary: s)
  case (Cons e es)
  obtain k w s' where e: "e = (k, w)" "f w s = (True, s')"
    using assms by (metis (full_types) prod.collapse)
  with Cons.IH [of s'] show ?case by simp
qed simp

lemma Walk_all:
  assumes "\<And>w s. fst (f w s)"
  shows "Walk f bs s = fold (\<lambda>w s. snd (f w s)) (all_workers bs) s"
proof -
  have "foldl (\<lambda>s1 b. b_walk f b s1) s bks = fold (\<lambda>w s. snd (f w s)) (concat (map (map snd) bks)) s" for bks
    by (induction bks arbitrary: s) (simp_all add: b_walk_def b_snapshot_def walk_entries_all [OF assms])
  then show ?thesis by (simp add: Walk_def all_workers_def)
qed

lemma set_all_workers:
  assumes ok: "buckets_ok WID bs"
  shows "set (all_workers bs) = ran (registered bs)"
proof
  show "set (all_workers bs) \<subseteq> ran (registered bs)"
  proof
    fix w
    assume "w \<in> set (all_workers bs)"
    then obtain i k where i: "i < length (bs_buckets bs)" "(k, w) \<in> set (bs_buckets bs ! i)"
      by (fastforce simp: all_workers_def in_set_conv_nth)
    then have "slot bs k = i" "distinct (map fst (bs_buckets bs ! i))"
      using ok by (auto simp: buckets_ok_def)
    with i have "registered bs k = Some w"
      by (simp add: registered_def)
    then show "w \<in> ran (registered bs)" by (rule ranI)
  qed
  show "ran (registered bs) \<subseteq> set (all_workers bs)"
  proof
    fix w
    assume "w \<in> ran (registered bs)"
    then obtain k where "registered bs k = Some w" by (auto simp: ran_def)
    then have "(k, w) \<in> set (bs_buckets bs ! slot bs k)"
      by (simp add: registered_def map_of_SomeD)
    then show "w \<in> set (all_workers bs)"
      using nth_mem [OF slot_less [OF ok, of k]] by (force simp: all_workers_def)
  qed
qed

lemma distinct_all_workers:
  assumes ok: "buckets_ok WID bs"
  shows "distinct (map WID (all_workers bs))"
proof -
  have k: "map WID (map snd b) = map fst b" if "b \<in> set (bs_buckets bs)" for b
    using that ok by (fastforce simp: buckets_ok_def in_set_conv_nth)
  have "map WID (all_workers bs) = concat (map (map fst) (bs_buckets bs))"
    unfolding all_workers_def map_concat using k by (auto intro!: arg_cong [where f = concat])
  moreover have "distinct (map fst (bs_buckets bs ! i)) \<and> (\<forall>k \<in> set (map fst (bs_buckets bs ! i)). slot bs k = i)"
    if "i < length (bs_buckets bs)" for i
    using ok that unfolding buckets_ok_def by fastforce
  then have "distinct (concat (map (map fst) (bs_buckets bs)))"
    by (intro distinct_concat_tagged [where tag = "slot bs" and n = 0]) simp
  ultimately show ?thesis by simp
qed


text \<open>The index agrees with the buckets: a user id leads to exactly the worker of that user.\<close>

definition index_ok :: "(wptr \<Rightarrow> int64) \<Rightarrow> buckets \<Rightarrow> bool" where
  "index_ok UID bs \<longleftrightarrow>
     (\<forall>u k. map_of (uidWidMap bs) u = Some k \<longleftrightarrow> (\<exists>w. registered bs k = Some w \<and> UID w = u))"

text \<open>Operations of users who are connected at most once, under worker ids used once at a time.\<close>

fun exclusive :: "(wptr \<Rightarrow> uint64) \<Rightarrow> (wptr \<Rightarrow> int64) \<Rightarrow> reg_op list \<Rightarrow> wptr list \<Rightarrow> bool" where
  "exclusive WID UID [] on = True"
| "exclusive WID UID (RPut w # ops) on =
     ((\<forall>v \<in> set on. WID v \<noteq> WID w \<and> UID v \<noteq> UID w) \<and> exclusive WID UID ops (w # on))"
| "exclusive WID UID (RDel w # ops) on = exclusive WID UID ops (removeAll w on)"

lemma index_Put:
  assumes "buckets_ok WID bs" and "index_ok UID bs" and "Put WID UID w bs = Ok (old, bs')"
    and "registered bs (WID w) = None" and "\<forall>v \<in> ran (registered bs). UID v \<noteq> UID w"
  shows "index_ok UID bs'"
proof -
  from Put_registered [OF assms(1), of UID w] assms(3) have
    r: "registered bs' = (registered bs)(WID w \<mapsto> w)" "uidWidMap bs' = AList.update (UID w) (WID w) (uidWidMap bs)"
    by auto
  show ?thesis
    unfolding index_ok_def
  proof (intro allI)
    fix u k
    show "map_of (uidWidMap bs') u = Some k \<longleftrightarrow> (\<exists>v. registered bs' k = Some v \<and> UID v = u)"
    proof (cases "u = UID w")
      case True
      then have "\<not> (\<exists>v. registered bs k = Some v \<and> UID v = u)"
        using assms(5) by (auto simp: ran_def)
      with True show ?thesis by (auto simp: r update_conv')
    next
      case False
      then have "map_of (uidWidMap bs') u = Some k \<longleftrightarrow> (\<exists>v. registered bs k = Some v \<and> UID v = u)"
        using assms(2) by (simp add: r(2) update_conv' index_ok_def)
      with False assms(4) show ?thesis by (auto simp: r(1))
    qed
  qed
qed

lemma index_Del:
  assumes "buckets_ok WID bs" and "index_ok UID bs" and "Del WID UID w bs = Ok bs'"
  shows "index_ok UID bs'"
proof (cases "registered bs (WID w) = Some w")
  case True
  then have m: "map_of (uidWidMap bs) (UID w) = Some (WID w)"
    using assms(2) by (auto simp: index_ok_def)
  from Del_registered [OF assms(1), of UID w] assms(3) True have
    r: "registered bs' = (registered bs)(WID w := None)" "uidWidMap bs' = AList.delete (UID w) (uidWidMap bs)"
    by auto
  show ?thesis
    unfolding index_ok_def
  proof (intro allI)
    fix u k
    have old: "map_of (uidWidMap bs) u = Some k \<longleftrightarrow> (\<exists>v. registered bs k = Some v \<and> UID v = u)"
      using assms(2) by (simp add: index_ok_def)
    show "map_of (uidWidMap bs') u = Some k \<longleftrightarrow> (\<exists>v. registered bs' k = Some v \<and> UID v = u)"
      using old m True by (auto simp: r delete_conv' split: if_splits)
  qed
next
  case False
  with Del_registered [OF assms(1), of UID w] assms(2,3) show ?thesis
    by (auto simp: index_ok_def)
qed

lemma exclusive_step:
  assumes "buckets_ok WID bs" and "index_ok UID bs" and "ran (registered bs) \<subseteq> set on" and "exclusive WID UID (x # ops) on"
  obtains bs1 on1 where "reg_run (Put WID UID) (Del WID UID) (x # ops) bs = reg_run (Put WID UID) (Del WID UID) ops bs1"
    and "buckets_ok WID bs1" and "index_ok UID bs1" and "registered bs1 = reg_spec WID x (registered bs)"
    and "ran (registered bs1) \<subseteq> set on1" and "exclusive WID UID ops on1"
proof (cases x)
  case (RPut w)
  from Put_registered [OF assms(1), of UID w] obtain bs1 where
    p: "Put WID UID w bs = Ok (registered bs (WID w), bs1)" "buckets_ok WID bs1" "registered bs1 = (registered bs)(WID w \<mapsto> w)"
    by blast
  have free: "\<forall>v \<in> ran (registered bs). WID v \<noteq> WID w \<and> UID v \<noteq> UID w"
    using assms(3,4) RPut by auto
  then have "registered bs (WID w) = None"
    using registered_WID [OF assms(1)] by (meson option.exhaust ranI)
  then have ix: "index_ok UID bs1"
    using index_Put [OF assms(1,2) p(1)] free by blast
  have "ran (registered bs1) \<subseteq> set (w # on)"
    using assms(3) by (auto simp: p(3) ran_def)
  then show thesis
    using that [OF _ p(2) ix, of "w # on"] RPut p(1,3) assms(4) by simp
next
  case (RDel w)
  from Del_registered [OF assms(1), of UID w] obtain bs1 where
    p: "Del WID UID w bs = Ok bs1" "buckets_ok WID bs1"
      "registered bs1 = (if registered bs (WID w) = Some w then (registered bs)(WID w := None) else registered bs)"
    by blast
  have "registered bs1 k \<noteq> Some w" for k
    using registered_WID [OF p(2), of k w] p(3) by (metis fun_upd_same option.distinct(1))
  then have "w \<notin> ran (registered bs1)" by (simp add: ran_def)
  moreover have "ran (registered bs1) \<subseteq> ran (registered bs)"
    by (auto simp: p(3) ran_def split: if_splits)
  ultimately have "ran (registered bs1) \<subseteq> set (removeAll w on)"
    using assms(3) by auto
  then show thesis
    using that [OF _ p(2) index_Del [OF assms(1,2) p(1)], of "removeAll w on"] RDel p(1,3) assms(4) by simp
qed

lemma exclusive_index:
  assumes "buckets_ok WID bs" and "index_ok UID bs" and "ran (registered bs) \<subseteq> set on" and "exclusive WID UID ops on"
  shows "\<exists>bs'. reg_run (Put WID UID) (Del WID UID) ops bs = Ok bs' \<and> buckets_ok WID bs' \<and> index_ok UID bs' \<and>
    registered bs' = fold (reg_spec WID) ops (registered bs)"
  using assms
proof (induction ops arbitrary: bs on)
  case (Cons x ops)
  obtain bs1 on1 where s: "reg_run (Put WID UID) (Del WID UID) (x # ops) bs = reg_run (Put WID UID) (Del WID UID) ops bs1"
    "buckets_ok WID bs1" "index_ok UID bs1" "registered bs1 = reg_spec WID x (registered bs)"
    "ran (registered bs1) \<subseteq> set on1" "exclusive WID UID ops on1"
    using exclusive_step [OF Cons.prems] .
  from Cons.IH [OF s(2,3,5,6)] show ?case unfolding s(1) s(4) fold_simps .
qed simp

lemma GetByUID_index:
  assumes "buckets_ok WID bs" and "index_ok UID bs"
  shows "\<exists>wo. GetByUID u bs = Ok wo \<and> (\<forall>w. wo = Some w \<longleftrightarrow> w \<in> ran (registered bs) \<and> UID w = u)"
proof (cases "map_of (uidWidMap bs) u")
  case None
  then have "\<nexists>k w. registered bs k = Some w \<and> UID w = u"
    using assms(2) unfolding index_ok_def by (metis option.distinct(1))
  with None show ?thesis
    by (auto simp: GetByUID_def ran_def)
next
  case (Some k)
  then obtain w where w: "registered bs k = Some w" "UID w = u"
    using assms(2) by (auto simp: index_ok_def)
  have "v = w" if "v \<in> ran (registered bs)" "UID v = u" for v
  proof -
    from that(1) obtain j where j: "registered bs j = Some v" by (auto simp: ran_def)
    with that(2) assms(2) have "map_of (uidWidMap bs) u = Some j" by (auto simp: index_ok_def)
    with Some w j show ?thesis by simp
  qed
  with w show ?thesis
    using Some by (auto simp: GetByUID_def Worker_of_registered [OF assms(1)] ran_def)
qed


text \<open>Only the ids of the registered workers matter.\<close>

lemma buckets_ok_cong:
  assumes "buckets_ok WIDf bs" and "\<And>p. p \<in> ran (registered bs) \<Longrightarrow> WIDg p = WIDf p"
  shows "buckets_ok WIDg bs"
proof -
  have "WIDg (snd e) = WIDf (snd e)" if "i < length (bs_buckets bs)" "e \<in> set (bs_buckets bs ! i)" for i e
  proof -
    have "bs_buckets bs ! i \<in> set (bs_buckets bs)" using that(1) by simp
    then have "snd e \<in> set (all_workers bs)" using that(2) by (auto simp: all_workers_def)
    then show ?thesis using assms(2) set_all_workers [OF assms(1)] by simp
  qed
  then show ?thesis
    using assms(1) by (simp add: buckets_ok_def case_prod_unfold)
qed

lemma index_ok_cong:
  assumes "index_ok UIDf bs" and "\<And>p. p \<in> ran (registered bs) \<Longrightarrow> UIDg p = UIDf p"
  shows "index_ok UIDg bs"
  using assms(1) assms(2) [OF ranI] unfolding index_ok_def by metis



section \<open>Properties\<close>

definition put_del :: "(wptr \<Rightarrow> uint64) \<Rightarrow> (wptr \<Rightarrow> int64) \<Rightarrow> int \<Rightarrow> reg_op list \<Rightarrow> buckets res" where
  "put_del WID UID n ops = bind_res (NewBuckets uidWidMap_init n) (reg_run (Put WID UID) (Del WID UID) ops)"

text \<open>
  C7: The array of buckets is one map. For every number of buckets from 1 to 2 ^ 32 - 1 and
  every sequence of registrations and removals, in whatever order the locks serialise them, no
  operation panics and looking up a worker id afterwards gives the worker registered last under
  it, unless that very worker was removed: a removal by a replaced worker changes nothing.
\<close>

theorem buckets_refine_map:
  assumes "0 < n" and "n < 2 ^ 32"
  shows "\<exists>bs. put_del WID UID n ops = Ok bs \<and>
    (\<forall>k. Worker_of k bs = Ok (fold (reg_spec WID) ops Map.empty k))"
proof -
  obtain bs where n: "NewBuckets uidWidMap_init n = Ok bs" "buckets_ok WID bs" "registered bs = Map.empty"
    using NewBuckets_ok [OF assms] by blast
  from bucket_registry.run_refines [OF n(2), of UID ops] obtain bs' where
    "reg_run (Put WID UID) (Del WID UID) ops bs = Ok bs'" "buckets_ok WID bs'"
    "registered bs' = fold (reg_spec WID) ops Map.empty"
    unfolding n(3) by blast
  then show ?thesis
    using Worker_of_registered by (auto simp: put_del_def n(1))
qed

theorem buckets_refine_map_witness:
  "\<exists>bs. put_del of_nat of_nat 32 [RPut 5, RPut 37, RDel 5] = Ok bs \<and>
     Worker_of 5 bs = Ok None \<and> Worker_of 37 bs = Ok (Some 37)"
  using buckets_refine_map [of 32 of_nat of_nat "[RPut 5, RPut 37, RDel 5]"] by auto

text \<open>
  C17: A user is found by id. If no user is registered twice at a time and no worker id is
  reused while it is registered, then after any such sequence of registrations and removals
  looking up a user id gives exactly the registered worker of that user, and nothing when there
  is none.
\<close>

theorem user_index_exact:
  assumes "0 < n" and "n < 2 ^ 32" and "exclusive WID UID ops []"
  shows "\<exists>bs. put_del WID UID n ops = Ok bs \<and>
    (\<forall>u. \<exists>wo. GetByUID u bs = Ok wo \<and>
       (\<forall>w. wo = Some w \<longleftrightarrow> w \<in> ran (fold (reg_spec WID) ops Map.empty) \<and> UID w = u))"
proof -
  obtain bs where n: "NewBuckets uidWidMap_init n = Ok bs" "buckets_ok WID bs" "registered bs = Map.empty" "uidWidMap bs = uidWidMap_init"
    using NewBuckets_ok [OF assms(1,2)] by blast
  have "index_ok UID bs"
    by (simp add: index_ok_def n uidWidMap_init_def)
  from exclusive_index [OF n(2) this _ assms(3)] obtain bs' where
    run: "reg_run (Put WID UID) (Del WID UID) ops bs = Ok bs'" "buckets_ok WID bs'" "index_ok UID bs'"
      "registered bs' = fold (reg_spec WID) ops Map.empty"
    unfolding n(3) by auto
  with GetByUID_index [OF run(2,3)] show ?thesis
    by (auto simp: put_del_def n(1))
qed

theorem user_index_exact_witness:
  "\<exists>bs. put_del of_nat (\<lambda>w. 100 + of_nat w) 32 [RPut 5, RPut 37, RDel 5] = Ok bs \<and>
     GetByUID 137 bs = Ok (Some 37) \<and> GetByUID 105 bs = Ok None"
proof -
  let ?UID = "\<lambda>w :: nat. 100 + of_nat w :: int64"
  have "fold (reg_spec of_nat) [RPut 5, RPut 37, RDel 5] Map.empty = [37 \<mapsto> 37]"
    by (simp add: fun_eq_iff)
  then have u: "ran (fold (reg_spec of_nat) [RPut 5, RPut 37, RDel 5] Map.empty) = {37}"
    by (simp only: ran_map_upd ran_empty)
  have "exclusive of_nat ?UID [RPut 5, RPut 37, RDel 5] []" by simp
  moreover have "(0 :: int) < 32" "(32 :: int) < 2 ^ 32" by simp_all
  ultimately obtain bs where
    bs: "put_del of_nat ?UID 32 [RPut 5, RPut 37, RDel 5] = Ok bs"
    and g: "\<And>v. \<exists>wo. GetByUID v bs = Ok wo \<and> (\<forall>w. wo = Some w \<longleftrightarrow> w \<in> {37} \<and> ?UID w = v)"
    using user_index_exact [of 32 of_nat ?UID "[RPut 5, RPut 37, RDel 5]", unfolded u] by blast
  from g [of 137] obtain wo where w: "GetByUID 137 bs = Ok wo" "\<forall>w. wo = Some w \<longleftrightarrow> w \<in> {37} \<and> ?UID w = 137"
    by blast
  then have "wo = Some 37" by simp
  with w(1) have one: "GetByUID 137 bs = Ok (Some 37)" by simp
  from g [of 105] obtain v where v: "GetByUID 105 bs = Ok v" "\<forall>w. v = Some w \<longleftrightarrow> w \<in> {37} \<and> ?UID w = 105"
    by blast
  have "?UID 37 \<noteq> 105" by simp
  then have "v \<noteq> Some w" for w
    using v(2) by blast
  then have "v = None"
    by (cases v) blast+
  with v(1) have "GetByUID 105 bs = Ok None" by simp
  then show ?thesis using bs one by blast
qed

text \<open>
  C29: A user who connects again before the old connection is gone cannot be reached any more.
  When a second worker of a user is registered and then the first one is removed, the second
  stays registered but looking up the user gives no worker: the removal deletes the index entry
  of the user although it leads to the new worker.
\<close>

theorem relogin_unreachable:
  assumes "buckets_ok WID bs" and "registered bs (WID a) = Some a"
    and "WID b \<noteq> WID a" and "UID b = UID a"
  shows "\<exists>bs'. reg_run (Put WID UID) (Del WID UID) [RPut b, RDel a] bs = Ok bs' \<and>
    Worker_of (WID b) bs' = Ok (Some b) \<and> GetByUID (UID b) bs' = Ok None"
proof -
  from Put_registered [OF assms(1), of UID b] obtain bs1 where
    p: "Put WID UID b bs = Ok (registered bs (WID b), bs1)" "buckets_ok WID bs1" "registered bs1 = (registered bs)(WID b \<mapsto> b)"
    by blast
  have "registered bs1 (WID a) = Some a"
    using assms(2,3) by (simp add: p(3))
  with Del_registered [OF p(2), of UID a] obtain bs2 where
    d: "Del WID UID a bs1 = Ok bs2" "buckets_ok WID bs2" "registered bs2 = (registered bs1)(WID a := None)"
      "uidWidMap bs2 = AList.delete (UID a) (uidWidMap bs1)"
    by auto
  have "Worker_of (WID b) bs2 = Ok (Some b)"
    using assms(3) by (simp add: Worker_of_registered [OF d(2)] d(3) p(3))
  moreover have "GetByUID (UID b) bs2 = Ok None"
    using assms(4) by (simp add: GetByUID_def d(4) delete_conv')
  ultimately show ?thesis
    by (simp add: p(1) d(1))
qed

theorem relogin_unreachable_witness:
  "\<exists>bs bs'. put_del of_nat (\<lambda>_. 7) 32 [RPut 1] = Ok bs \<and>
     reg_run (Put of_nat (\<lambda>_. 7)) (Del of_nat (\<lambda>_. 7)) [RPut 2, RDel 1] bs = Ok bs' \<and>
     Worker_of 2 bs' = Ok (Some 2) \<and> GetByUID 7 bs' = Ok None"
proof -
  obtain bs0 where n: "NewBuckets uidWidMap_init 32 = Ok bs0" "buckets_ok of_nat bs0"
    using NewBuckets_ok [of 32 uidWidMap_init of_nat] by auto
  from Put_registered [OF n(2), of "\<lambda>_. 7" 1] obtain bs where
    p: "Put of_nat (\<lambda>_. 7) 1 bs0 = Ok (registered bs0 1, bs)" "buckets_ok of_nat bs" "registered bs 1 = Some 1"
    by auto
  have "registered bs (of_nat 1) = Some 1" using p(3) by simp
  from relogin_unreachable [OF p(2) this, of 2 "\<lambda>_. 7"] obtain bs' where
    "reg_run (Put of_nat (\<lambda>_. 7)) (Del of_nat (\<lambda>_. 7)) [RPut 2, RDel 1] bs = Ok bs'"
    "Worker_of (of_nat 2) bs' = Ok (Some 2)" "GetByUID 7 bs' = Ok None"
    by auto
  moreover have "put_del of_nat (\<lambda>_. 7) 32 [RPut 1] = Ok bs"
    unfolding put_del_def n(1) bind_res.simps reg_run.simps p(1) by simp
  ultimately show ?thesis by auto
qed

end
