(* ===== verification/Decimal.thy ===== *)
theory Decimal
  imports Gate_Prelude
begin

text \<open>
  What the program uses of the standard library's text functions: decimal numbers
  (\<^verbatim>\<open>strconv.FormatInt\<close>, \<^verbatim>\<open>strconv.ParseInt\<close> and \<^verbatim>\<open>%d\<close>), booleans, and \<^verbatim>\<open>strings.Split\<close> and
  \<^verbatim>\<open>strings.Index\<close>.
\<close>

section \<open>Decimal digits\<close>

definition digit :: "nat \<Rightarrow> char" where
  "digit d = char_of (48 + d)"

definition is_digit :: "char \<Rightarrow> bool" where
  "is_digit c \<longleftrightarrow> 48 \<le> (of_char c :: nat) \<and> (of_char c :: nat) \<le> 57"

definition digit_val :: "char \<Rightarrow> nat" where
  "digit_val c = of_char c - 48"

fun dec :: "nat \<Rightarrow> string" where
  "dec n = (if n < 10 then [digit n] else dec (n div 10) @ [digit (n mod 10)])"

declare dec.simps [simp del]

definition undec :: "string \<Rightarrow> nat" where
  "undec s = foldl (\<lambda>n c. 10 * n + digit_val c) 0 s"

lemma digit_facts [simp]: "d < 10 \<Longrightarrow> is_digit (digit d)" "d < 10 \<Longrightarrow> digit_val (digit d) = d"
  by (simp_all add: digit_def is_digit_def digit_val_def)

lemma dec_digits: "\<forall>c \<in> set (dec n). is_digit c"
proof (induction n rule: dec.induct)
  case (1 n)
  then show ?case by (cases "n < 10") (auto simp: dec.simps [of n])
qed

lemma dec_nonempty [simp]: "dec n \<noteq> []"
  by (simp add: dec.simps [of n])

lemma undec_dec [simp]: "undec (dec n) = n"
proof (induction n rule: dec.induct)
  case (1 n)
  then show ?case by (cases "n < 10") (simp_all add: dec.simps [of n] undec_def)
qed


section \<open>Signed numbers of 64 bits\<close>

definition FormatInt :: "int \<Rightarrow> string" where
  "FormatInt i = (if i < 0 then CHR ''-'' # dec (nat (- i)) else dec (nat i))"

lemma FormatInt_nonempty [simp]: "FormatInt i \<noteq> []"
  by (simp add: FormatInt_def)

definition ErrSyntax :: "string \<Rightarrow> gerr" where
  "ErrSyntax s = Err ''strconv.ParseInt: parsing: invalid syntax'' [AStr s]"

definition ErrRange :: "string \<Rightarrow> gerr" where
  "ErrRange s = Err ''strconv.ParseInt: parsing: value out of range'' [AStr s]"

text \<open>The sign and the rest of a number.\<close>

fun split_sign :: "string \<Rightarrow> bool \<times> string" where
  "split_sign (c # s) = (if c = CHR ''-'' then (True, s) else if c = CHR ''+'' then (False, s) else (False, c # s))"
| "split_sign [] = (False, [])"

definition ParseInt64 :: "string \<Rightarrow> int64 res" where
  "ParseInt64 s =
     (case split_sign s of
        (neg, ds) \<Rightarrow>
          if ds = [] \<or> \<not> list_all is_digit ds then Fail (ErrSyntax s)
          else if \<not> neg \<and> undec ds \<ge> 2 ^ 63 then Fail (ErrRange s)
          else if neg \<and> undec ds > 2 ^ 63 then Fail (ErrRange s)
          else Ok (of_int (if neg then - int (undec ds) else int (undec ds))))"

lemma digit_no_sign: "is_digit c \<Longrightarrow> c \<noteq> CHR ''-'' \<and> c \<noteq> CHR ''+''"
  by (auto simp: is_digit_def)

lemma split_sign_dec: "split_sign (dec n) = (False, dec n)"
proof (cases "dec n")
  case (Cons c s)
  then have "is_digit c" using dec_digits [of n] by simp
  then show ?thesis using Cons digit_no_sign by simp
qed simp

lemma ParseInt_FormatInt [simp]: "ParseInt64 (FormatInt (sint (x :: int64))) = Ok x"
proof -
  have r: "- (2 ^ 63) \<le> sint x" "sint x < 2 ^ 63"
    using sint_greater_eq [of x] sint_less [of x] by simp_all
  have d: "list_all is_digit (dec n)" for n
    using dec_digits [of n] by (simp add: list_all_iff)
  show ?thesis
  proof (cases "sint x < 0")
    case True
    then have "nat (- sint x) \<le> 2 ^ 63" "int (nat (- sint x)) = - sint x" using r by auto
    with True show ?thesis
      by (simp add: FormatInt_def ParseInt64_def d)
  next
    case False
    then obtain n where n: "sint x = int n"
      by (metis not_less nonneg_eq_int)
    have "ParseInt64 (FormatInt (int n)) = Ok (of_int (int n))"
      using r(2) n by (simp add: FormatInt_def ParseInt64_def split_sign_dec d)
    then show ?thesis
      unfolding n [symmetric] by simp
  qed
qed


section \<open>Strings\<close>

text \<open>\<^verbatim>\<open>strings.Split\<close> with a one-character separator.\<close>

fun split_at :: "char \<Rightarrow> string \<Rightarrow> string list" where
  "split_at c [] = [[]]"
| "split_at c (x # xs) =
     (if x = c then [] # split_at c xs
      else case split_at c xs of [] \<Rightarrow> [[x]] | p # ps \<Rightarrow> (x # p) # ps)"

lemma split_at_nonempty [simp]: "split_at c s \<noteq> []"
  by (induction c s rule: split_at.induct) (auto split: list.splits)

lemma hd_split_at: "split_at c s ! 0 = takeWhile (\<lambda>x. x \<noteq> c) s"
  by (induction c s rule: split_at.induct) (auto split: list.splits)

text \<open>\<^verbatim>\<open>strings.Index\<close>: the first position of a substring, or -1.\<close>

fun index_from :: "int \<Rightarrow> string \<Rightarrow> string \<Rightarrow> int" where
  "index_from i s sub =
     (if take (length sub) s = sub then i else case s of [] \<Rightarrow> -1 | _ # s' \<Rightarrow> index_from (i + 1) s' sub)"

declare index_from.simps [simp del]

definition strings_Index :: "string \<Rightarrow> string \<Rightarrow> int" where
  "strings_Index s sub = index_from 0 s sub"

lemma index_from_range: "index_from i s sub = -1 \<or> i \<le> index_from i s sub"
proof (induction s arbitrary: i)
  case (Cons x s)
  from Cons [of "i + 1"] show ?case by (subst (1 2) index_from.simps) auto
qed (simp add: index_from.simps)

lemma strings_Index_prefix: "strings_Index s sub = 0 \<longleftrightarrow> take (length sub) s = sub"
proof (cases s)
  case (Cons x xs)
  then show ?thesis
    using index_from_range [of 1 xs sub] unfolding strings_Index_def by (subst index_from.simps) auto
qed (simp add: strings_Index_def index_from.simps)

end
