(* ===== verification/Context.thy ===== *)
theory Context
  imports Decimal
begin

text \<open>
  Request contexts: \<^verbatim>\<open>pkg/net/context/context.go\<close>, \<^verbatim>\<open>pkg/net/transport.go\<close> and the development
  middleware \<^verbatim>\<open>pkg/net/middleware/dev/middleware.go\<close>.

  A context is a value of type \<open>'c\<close>. The metadata functions of the framework are the parameter
  \<open>M\<close>: \<open>append_client\<close> is \<^verbatim>\<open>metadata.AppendToClientContext\<close>, \<open>from_server\<close> is
  \<^verbatim>\<open>metadata.FromServerContext\<close>, whose metadata is the function \<^verbatim>\<open>Get\<close>. Log lines are left out.
\<close>

section \<open>Keys and accessors\<close>

record 'c md_ops =
  append_client :: "'c \<Rightarrow> string \<Rightarrow> string \<Rightarrow> 'c"
  from_server :: "'c \<Rightarrow> (string \<Rightarrow> string) option"

definition CtxSID :: string where "CtxSID = ''x-md-global-sid''"
definition CtxUID :: string where "CtxUID = ''x-md-global-uid''"
definition CtxOID :: string where "CtxOID = ''x-md-global-oid''"
definition CtxColor :: string where "CtxColor = ''x-md-global-color''"
definition CtxStatus :: string where "CtxStatus = ''x-md-global-status''"
definition CtxReferer :: string where "CtxReferer = ''x-md-global-referer''"
definition CtxClientIP :: string where "CtxClientIP = ''x-md-global-client-ip''"
definition CtxGateReferer :: string where "CtxGateReferer = ''x-md-global-gate-referer''"

lemmas ctx_keys = CtxSID_def CtxUID_def CtxOID_def CtxColor_def CtxStatus_def CtxReferer_def CtxClientIP_def CtxGateReferer_def

definition Keys :: "string list" where
  "Keys = [CtxSID, CtxUID, CtxOID, CtxStatus, CtxColor, CtxReferer, CtxClientIP, CtxGateReferer]"

definition SetColor_ctx :: "'c md_ops \<Rightarrow> 'c \<Rightarrow> string \<Rightarrow> 'c" where
  "SetColor_ctx M ctx color = append_client M ctx CtxColor color"

definition Color_ctx :: "'c md_ops \<Rightarrow> 'c \<Rightarrow> string" where
  "Color_ctx M ctx = (case from_server M ctx of Some md \<Rightarrow> md CtxColor | None \<Rightarrow> [])"

definition SetUID_ctx :: "'c md_ops \<Rightarrow> 'c \<Rightarrow> int64 \<Rightarrow> 'c" where
  "SetUID_ctx M ctx i = append_client M ctx CtxUID (FormatInt (sint i))"

definition UID_ctx :: "'c md_ops \<Rightarrow> 'c \<Rightarrow> int64 res" where
  "UID_ctx M ctx =
     (case from_server M ctx of
        None \<Rightarrow> Fail (Err ''metadata not in context'' [])
      | Some md \<Rightarrow>
          let str = md CtxUID in
          case ParseInt64 str of
            Fail e \<Rightarrow> Fail (Wrap ''uid must be int64, uid=%s'' [AStr str] e)
          | r \<Rightarrow> r)"

definition SetOID_ctx :: "'c md_ops \<Rightarrow> 'c \<Rightarrow> int64 \<Rightarrow> 'c" where
  "SetOID_ctx M ctx i = append_client M ctx CtxOID (FormatInt (sint i))"

definition OID_ctx :: "'c md_ops \<Rightarrow> 'c \<Rightarrow> int64 res" where
  "OID_ctx M ctx =
     (case from_server M ctx of
        None \<Rightarrow> Fail (Err ''metadata not in context'' [])
      | Some md \<Rightarrow>
          let str = md CtxOID in
          case ParseInt64 str of
            Fail e \<Rightarrow> Fail (Wrap ''oid must be int64, oid=%s'' [AStr str] e)
          | r \<Rightarrow> r)"

definition SetSID_ctx :: "'c md_ops \<Rightarrow> 'c \<Rightarrow> int64 \<Rightarrow> 'c" where
  "SetSID_ctx M ctx i = append_client M ctx CtxSID (FormatInt (sint i))"

definition SID_ctx :: "'c md_ops \<Rightarrow> 'c \<Rightarrow> int64 res" where
  "SID_ctx M ctx =
     (case from_server M ctx of
        None \<Rightarrow> Fail (Err ''metadata not in context'' [])
      | Some md \<Rightarrow>
          let str = md CtxSID in
          case ParseInt64 str of
            Fail e \<Rightarrow> Fail (Wrap ''sid must be int64, sid=%s'' [AStr str] e)
          | r \<Rightarrow> r)"

definition SetStatus_ctx :: "'c md_ops \<Rightarrow> 'c \<Rightarrow> int64 \<Rightarrow> 'c" where
  "SetStatus_ctx M ctx status =
     (if status = 0 then ctx else append_client M ctx CtxStatus (FormatInt (sint status)))"

definition Status_ctx :: "'c md_ops \<Rightarrow> 'c \<Rightarrow> int64" where
  "Status_ctx M ctx =
     (case from_server M ctx of
        Some md \<Rightarrow> (case ParseInt64 (md CtxStatus) of Ok status \<Rightarrow> status | _ \<Rightarrow> 0)
      | None \<Rightarrow> 0)"

definition SetClientIP_ctx :: "'c md_ops \<Rightarrow> 'c \<Rightarrow> string \<Rightarrow> 'c" where
  "SetClientIP_ctx M ctx ip =
     (if length ip = 0 then ctx else append_client M ctx CtxClientIP (split_at (CHR '':'') ip ! 0))"

definition ClientIP_ctx :: "'c md_ops \<Rightarrow> 'c \<Rightarrow> string" where
  "ClientIP_ctx M ctx = (case from_server M ctx of Some md \<Rightarrow> md CtxClientIP | None \<Rightarrow> [])"

definition SetGateReferer_ctx :: "'c md_ops \<Rightarrow> 'c \<Rightarrow> string \<Rightarrow> uint64 \<Rightarrow> 'c" where
  "SetGateReferer_ctx M ctx server wid =
     (if length server = 0 then ctx
      else append_client M ctx CtxGateReferer (server @ CHR ''#'' # dec (unat wid)))"

definition GateReferer_ctx :: "'c md_ops \<Rightarrow> 'c \<Rightarrow> string" where
  "GateReferer_ctx M ctx = (case from_server M ctx of Some md \<Rightarrow> md CtxGateReferer | None \<Rightarrow> [])"

text \<open>A connection or its address may be nil.\<close>

definition RemoteAddr :: "string option option \<Rightarrow> string" where
  "RemoteAddr conn = (case conn of None \<Rightarrow> [] | Some addr \<Rightarrow> (case addr of None \<Rightarrow> [] | Some s \<Rightarrow> s))"

definition LocalAddr :: "string option option \<Rightarrow> string" where
  "LocalAddr conn = (case conn of None \<Rightarrow> [] | Some addr \<Rightarrow> (case addr of None \<Rightarrow> [] | Some s \<Rightarrow> s))"

text \<open>
  The helpers that end a connection later. Each starts a goroutine; what it does when it runs is
  given here, \<open>None\<close> as long as it waits. \<open>ctx\<close> is the error of the context once it is done, \<open>d\<close> the
  call that sets the deadline to the present moment or closes; its error is only logged.
\<close>

definition SetDeadlineWithContext :: "gerr option \<Rightarrow> ('d \<Rightarrow> unit res \<times> 'd) \<Rightarrow> 'd \<Rightarrow> 'd option" where
  "SetDeadlineWithContext ctx SetDeadline d = (case ctx of None \<Rightarrow> None | Some _ \<Rightarrow> Some (snd (SetDeadline d)))"

definition CloseOnCancel :: "gerr option \<Rightarrow> ('d \<Rightarrow> unit res \<times> 'd) \<Rightarrow> 'd \<Rightarrow> 'd option" where
  "CloseOnCancel ctx closer_Close d = (case ctx of None \<Rightarrow> None | Some _ \<Rightarrow> Some (snd (closer_Close d)))"

text \<open>\<open>elapsed\<close> is the time since the timer was made.\<close>

definition SetDeadlineWithTimeout :: "int \<Rightarrow> int \<Rightarrow> ('d \<Rightarrow> unit res \<times> 'd) \<Rightarrow> 'd \<Rightarrow> 'd option" where
  "SetDeadlineWithTimeout elapsed timeout SetDeadline d = (if elapsed < timeout then None else Some (snd (SetDeadline d)))"

text \<open>The context with which the loops of a worker run (\<^verbatim>\<open>Worker.Run\<close>).\<close>

definition run_ctx ::
  "'c md_ops \<Rightarrow> int64 \<Rightarrow> int64 \<Rightarrow> string \<Rightarrow> int64 \<Rightarrow> string \<Rightarrow> uint64 \<Rightarrow> string \<Rightarrow> 'c \<Rightarrow> 'c" where
  "run_ctx M uid sid color status referer wid ip ctx =
     (let ctx = SetUID_ctx M ctx uid;
          ctx = SetSID_ctx M ctx sid;
          ctx = SetColor_ctx M ctx color;
          ctx = SetStatus_ctx M ctx status;
          ctx = SetGateReferer_ctx M ctx referer wid;
          ctx = SetClientIP_ctx M ctx ip in ctx)"

lemmas ctx_defs = SetColor_ctx_def Color_ctx_def SetUID_ctx_def UID_ctx_def SetOID_ctx_def OID_ctx_def SetSID_ctx_def
  SID_ctx_def SetStatus_ctx_def Status_ctx_def SetClientIP_ctx_def ClientIP_ctx_def SetGateReferer_ctx_def
  GateReferer_ctx_def

section \<open>What a server reads of the context a client sent\<close>

text \<open>
  The documented behaviour of the framework: \<open>deliver\<close> turns the context of a client into that
  of the server it calls, and a global key appended to the one is read from the other; the keys
  that were there before keep their values. Appending an empty value changes nothing.
\<close>

definition md_at :: "'c md_ops \<Rightarrow> ('c \<Rightarrow> 'c) \<Rightarrow> 'c \<Rightarrow> string \<Rightarrow> string" where
  "md_at M deliver c k = (case from_server M (deliver c) of None \<Rightarrow> [] | Some md \<Rightarrow> md k)"

definition md_carries :: "'c md_ops \<Rightarrow> ('c \<Rightarrow> 'c) \<Rightarrow> bool" where
  "md_carries M deliver \<longleftrightarrow>
     (\<forall>c k v. k \<in> set Keys \<longrightarrow>
        from_server M (deliver (append_client M c k v)) =
          Some (if v = [] then md_at M deliver c else (md_at M deliver c)(k := v)))"

lemma md_at_append:
  assumes "md_carries M deliver" and "k \<in> set Keys"
  shows "md_at M deliver (append_client M c k v) = (if v = [] then md_at M deliver c else (md_at M deliver c)(k := v))"
    and "from_server M (deliver (append_client M c k v)) \<noteq> None"
  using assms by (auto simp: md_carries_def md_at_def fun_eq_iff)

lemma append_at:
  "md_carries M deliver \<Longrightarrow> k \<in> set Keys \<Longrightarrow>
    md_at M deliver (append_client M c k v) j = (if j = k \<and> v \<noteq> [] then v else md_at M deliver c j)"
  by (simp add: md_at_append(1))

lemma read_back:
  assumes "from_server M (deliver c) \<noteq> None"
  shows "Color_ctx M (deliver c) = md_at M deliver c CtxColor"
    and "ClientIP_ctx M (deliver c) = md_at M deliver c CtxClientIP"
    and "GateReferer_ctx M (deliver c) = md_at M deliver c CtxGateReferer"
    and "ParseInt64 (md_at M deliver c CtxUID) = Ok i \<Longrightarrow> UID_ctx M (deliver c) = Ok i"
    and "ParseInt64 (md_at M deliver c CtxSID) = Ok i \<Longrightarrow> SID_ctx M (deliver c) = Ok i"
    and "ParseInt64 (md_at M deliver c CtxOID) = Ok i \<Longrightarrow> OID_ctx M (deliver c) = Ok i"
    and "ParseInt64 (md_at M deliver c CtxStatus) = Ok i \<Longrightarrow> Status_ctx M (deliver c) = i"
  using assms by (auto simp: ctx_defs md_at_def)

lemma keys_in [simp]:
  "CtxSID \<in> set Keys" "CtxUID \<in> set Keys" "CtxOID \<in> set Keys" "CtxStatus \<in> set Keys" "CtxColor \<in> set Keys"
  "CtxReferer \<in> set Keys" "CtxClientIP \<in> set Keys" "CtxGateReferer \<in> set Keys"
  by (simp_all add: Keys_def)

lemma run_ctx_present:
  assumes "md_carries M deliver"
  shows "from_server M (deliver (run_ctx M uid sid color status referer wid ip c)) \<noteq> None"
  using md_at_append(2) [OF assms] by (simp add: run_ctx_def ctx_defs Let_def)

lemma run_ctx_at:
  fixes uid sid status :: int64 and color referer ip :: string and wid :: uint64 and c :: 'c
  assumes "md_carries M deliver"
  defines "f \<equiv> md_at M deliver (run_ctx M uid sid color status referer wid ip c)"
  shows "f CtxUID = FormatInt (sint uid)" and "f CtxSID = FormatInt (sint sid)" and "f CtxColor = (if color \<noteq> [] then color else md_at M deliver c CtxColor)"
    and "f CtxStatus = (if status \<noteq> 0 then FormatInt (sint status) else md_at M deliver c CtxStatus)"
    and "f CtxGateReferer = (if referer \<noteq> [] then referer @ CHR ''#'' # dec (unat wid) else md_at M deliver c CtxGateReferer)"
    and "f CtxClientIP = (if takeWhile (\<lambda>x. x \<noteq> CHR '':'') ip \<noteq> [] then takeWhile (\<lambda>x. x \<noteq> CHR '':'') ip else md_at M deliver c CtxClientIP)"
proof -
  have d: "CtxSID \<noteq> CtxUID" "CtxColor \<noteq> CtxUID" "CtxStatus \<noteq> CtxUID" "CtxGateReferer \<noteq> CtxUID" "CtxClientIP \<noteq> CtxUID"
    "CtxColor \<noteq> CtxSID" "CtxStatus \<noteq> CtxSID" "CtxGateReferer \<noteq> CtxSID" "CtxClientIP \<noteq> CtxSID"
    "CtxStatus \<noteq> CtxColor" "CtxGateReferer \<noteq> CtxColor" "CtxClientIP \<noteq> CtxColor"
    "CtxGateReferer \<noteq> CtxStatus" "CtxClientIP \<noteq> CtxStatus" "CtxClientIP \<noteq> CtxGateReferer"
    by (simp_all add: ctx_keys)
  note e = d [symmetric]
  show "f CtxUID = FormatInt (sint uid)" "f CtxSID = FormatInt (sint sid)"
    "f CtxColor = (if color \<noteq> [] then color else md_at M deliver c CtxColor)"
    "f CtxStatus = (if status \<noteq> 0 then FormatInt (sint status) else md_at M deliver c CtxStatus)"
    "f CtxGateReferer = (if referer \<noteq> [] then referer @ CHR ''#'' # dec (unat wid) else md_at M deliver c CtxGateReferer)"
    "f CtxClientIP = (if takeWhile (\<lambda>x. x \<noteq> CHR '':'') ip \<noteq> [] then takeWhile (\<lambda>x. x \<noteq> CHR '':'') ip else md_at M deliver c CtxClientIP)"
    by (cases "ip = []"; simp add: f_def run_ctx_def Let_def ctx_defs append_at [OF assms(1)] hd_split_at d e)+
qed


text \<open>A context that is its metadata.\<close>

definition plain_md :: "(string \<Rightarrow> string) md_ops" where
  "plain_md = \<lparr>append_client = (\<lambda>c k v. if v = [] then c else c(k := v)), from_server = Some\<rparr>"

lemma plain_md_carries: "md_carries plain_md id"
  by (simp add: md_carries_def plain_md_def md_at_def [abs_def])



text \<open>
  Clients with IPv6 addresses cannot be told apart. The client address is cut at its first
  colon, which in the bracketed form of an IPv6 address is inside the address: any two addresses
  with the same first group are sent as the same text, an opening bracket and that group.
\<close>

theorem ipv6_client_address_cut:
  assumes "CHR '':'' \<notin> set g"
  shows "SetClientIP_ctx M ctx (CHR ''['' # g @ CHR '':'' # rest) = append_client M ctx CtxClientIP (CHR ''['' # g)"
proof -
  have "takeWhile (\<lambda>x. x \<noteq> CHR '':'') (g @ CHR '':'' # rest) = g"
    using assms by (induction g) auto
  then show ?thesis
    unfolding SetClientIP_ctx_def hd_split_at by simp
qed

theorem ipv6_client_address_cut_witness:
  "SetClientIP_ctx plain_md (\<lambda>_. []) ''[::1]:5566'' CtxClientIP = ''[''"
  using ipv6_client_address_cut [of "[]" plain_md "\<lambda>_. []" "'':1]:5566''"] by (simp add: plain_md_def)


section \<open>Transport and headers\<close>

text \<open>The header map of the RPC library is a value of type \<open>'m\<close> with the operations \<open>H\<close>.\<close>

record 'm header_ops =
  md_Get :: "'m \<Rightarrow> string \<Rightarrow> string list"
  md_Set :: "'m \<Rightarrow> string \<Rightarrow> string list \<Rightarrow> 'm"
  md_Append :: "'m \<Rightarrow> string \<Rightarrow> string list \<Rightarrow> 'm"
  md_keys :: "'m \<Rightarrow> string list"

record 'm transport =
  endpoint :: string
  operation :: string
  requestHeader :: 'm
  replyHeader :: 'm

definition NewTransport :: "string \<Rightarrow> string \<Rightarrow> 'm \<Rightarrow> 'm \<Rightarrow> 'm transport" where
  "NewTransport ep opn req rep = \<lparr>endpoint = ep, operation = opn, requestHeader = req, replyHeader = rep\<rparr>"

definition tr_Kind :: "'m transport \<Rightarrow> string" where "tr_Kind tr = ''grpc''"
definition tr_Endpoint :: "'m transport \<Rightarrow> string" where "tr_Endpoint tr = endpoint tr"
definition tr_Operation :: "'m transport \<Rightarrow> string" where "tr_Operation tr = operation tr"
definition tr_RequestHeader :: "'m transport \<Rightarrow> 'm" where "tr_RequestHeader tr = requestHeader tr"
definition tr_ReplyHeader :: "'m transport \<Rightarrow> 'm" where "tr_ReplyHeader tr = replyHeader tr"

definition hc_Get :: "'m header_ops \<Rightarrow> 'm \<Rightarrow> string \<Rightarrow> string" where
  "hc_Get H mc key = (let vals = md_Get H mc key in if length vals > 0 then vals ! 0 else [])"

definition hc_Set :: "'m header_ops \<Rightarrow> 'm \<Rightarrow> string \<Rightarrow> string \<Rightarrow> 'm" where
  "hc_Set H mc key val = md_Set H mc key [val]"

definition hc_Keys :: "'m header_ops \<Rightarrow> 'm \<Rightarrow> string list" where
  "hc_Keys H mc = foldl (\<lambda>ks k. ks @ [k]) [] (md_keys H mc)"

definition hc_Add :: "'m header_ops \<Rightarrow> 'm \<Rightarrow> string \<Rightarrow> string \<Rightarrow> 'm" where
  "hc_Add H mc key val = md_Append H mc key [val]"

definition hc_Values :: "'m header_ops \<Rightarrow> 'm \<Rightarrow> string \<Rightarrow> string list" where
  "hc_Values H mc key = md_Get H mc key"


section \<open>Development middleware\<close>

text \<open>\<open>tr\<close> is \<^verbatim>\<open>transport.FromServerContext\<close> with the \<^verbatim>\<open>Get\<close> of its request header, \<open>incoming\<close> is
  \<^verbatim>\<open>metadata.NewIncomingContext\<close> of \<^verbatim>\<open>metadata.Pairs\<close>.\<close>

definition TransformContext ::
  "('c \<Rightarrow> (string \<Rightarrow> string) option) \<Rightarrow> ('c \<Rightarrow> string list \<Rightarrow> 'c) \<Rightarrow> 'c \<Rightarrow> 'c" where
  "TransformContext tr incoming ctx =
     (case tr ctx of
        Some get \<Rightarrow>
          let pairs = foldl (\<lambda>ps k. ps @ [k, get k]) [] Keys in incoming ctx pairs
      | None \<Rightarrow> ctx)"

definition dev_Server ::
  "('c \<Rightarrow> (string \<Rightarrow> string) option) \<Rightarrow> ('c \<Rightarrow> string list \<Rightarrow> 'c) \<Rightarrow> ('c \<Rightarrow> 'q \<Rightarrow> 'p) \<Rightarrow> 'c \<Rightarrow> 'q \<Rightarrow> 'p" where
  "dev_Server tr incoming handler ctx req =
     (let ctx = TransformContext tr incoming ctx in handler ctx req)"

text \<open>The transport of a context is absent, another kind than HTTP (\<open>Some None\<close>), or HTTP with
  its request URI.\<close>

definition IsAdminPath :: "('c \<Rightarrow> string option option) \<Rightarrow> 'c \<Rightarrow> bool" where
  "IsAdminPath http_uri ctx =
     (case http_uri ctx of
        None \<Rightarrow> False
      | Some info \<Rightarrow> (case info of None \<Rightarrow> False | Some uri \<Rightarrow> strings_Index uri ''/admin'' = 0))"

lemma foldl_append_pairs: "foldl (\<lambda>ps k. ps @ f k) acc ks = acc @ concat (map f ks)"
  by (induction ks arbitrary: acc) auto

text \<open>
  The development middleware hands a request on with exactly the eight known keys, each
  followed by the value the request header has for it, whatever else the header holds; a request
  without a transport is handed on unchanged. The admin check accepts exactly the HTTP requests
  whose URI starts with /admin.
\<close>

theorem dev_middleware_pairs:
  "dev_Server tr incoming handler ctx req =
     (case tr ctx of
        None \<Rightarrow> handler ctx req
      | Some get \<Rightarrow> handler (incoming ctx (concat (map (\<lambda>k. [k, get k]) Keys))) req) \<and>
   (IsAdminPath http_uri ctx \<longleftrightarrow> (\<exists>uri. http_uri ctx = Some (Some uri) \<and> take 6 uri = ''/admin''))"
proof -
  have "IsAdminPath http_uri ctx \<longleftrightarrow> (\<exists>uri. http_uri ctx = Some (Some uri) \<and> take 6 uri = ''/admin'')"
    by (auto simp: IsAdminPath_def strings_Index_prefix numeral_eq_Suc split: option.splits)
  then show ?thesis
    using foldl_append_pairs [of "\<lambda>k. [k, g k]" "[]" Keys for g]
    by (auto simp: dev_Server_def TransformContext_def Let_def split: option.splits)
qed

end
