(* ===== verification/Conf.thy ===== *)
theory Conf
  imports Decimal Buckets Buf_Reader
begin

text \<open>
  The configuration of the network layer (\<^verbatim>\<open>pkg/net/conf/conf.go\<close>). Durations are integers in
  nanoseconds; \<open>env\<close> is \<^verbatim>\<open>os.Getenv\<close>, \<open>hostname\<close> the result of \<^verbatim>\<open>os.Hostname\<close> and \<open>numCPU\<close> that of
  \<^verbatim>\<open>runtime.NumCPU\<close>. A command line flag is an option; one that was not given has its default.
\<close>

section \<open>Records\<close>

record conf_Env =
  Debug :: bool
  Region :: string
  Zone :: string
  DeployEnv :: string
  Host :: string
  Weight :: int64
  Offline :: bool
  Addrs :: "string list"

record conf_Server =
  sv_WorkerSize :: int
  Bind :: string
  WriteBufSize :: int
  ReadBufSize :: int
  KeepAlive :: bool
  sv_StopTimeout :: int

record conf_Worker =
  ReaderBufSize :: int
  ReplyChanSize :: int
  HandshakeTimeout :: int
  RequestIdleTimeout :: int
  WaitMainTunnelTimeout :: int
  wk_StopTimeout :: int

record conf_Bucket =
  BucketSize :: int
  bk_WorkerSize :: int

record config =
  c_Env :: conf_Env
  c_Server :: conf_Server
  c_Worker :: conf_Worker
  c_Bucket :: conf_Bucket

record conf_vars =
  region :: string
  zone :: string
  deployEnv :: string
  host :: string
  addrs :: string
  weight :: int64
  offline :: bool


section \<open>Flags and environment\<close>

text \<open>The value part of \<^verbatim>\<open>strconv.ParseInt(s, 10, 32)\<close>: 0 on a syntax error, the nearest bound when
  the number is out of range.\<close>

definition ParseInt32_value :: "string \<Rightarrow> int" where
  "ParseInt32_value s =
     (case split_sign s of
        (neg, ds) \<Rightarrow>
          if ds = [] \<or> \<not> list_all is_digit ds then 0
          else if \<not> neg \<and> undec ds \<ge> 2 ^ 31 then 2 ^ 31 - 1
          else if neg \<and> undec ds > 2 ^ 31 then - (2 ^ 31)
          else if neg then - int (undec ds) else int (undec ds))"

definition ParseBool_value :: "string \<Rightarrow> bool" where
  "ParseBool_value s \<longleftrightarrow> s \<in> set [''1'', ''t'', ''T'', ''true'', ''TRUE'', ''True'']"

record conf_flags =
  f_region :: "string option"
  f_zone :: "string option"
  f_deployEnv :: "string option"
  f_host :: "string option"
  f_addrs :: "string option"
  f_weight :: "int64 option"
  f_offline :: "bool option"

definition flag_or :: "'a option \<Rightarrow> 'a \<Rightarrow> 'a" where
  "flag_or f d = (case f of Some v \<Rightarrow> v | None \<Rightarrow> d)"

definition conf_init :: "(string \<Rightarrow> string) \<Rightarrow> string \<Rightarrow> conf_flags \<Rightarrow> conf_vars" where
  "conf_init env hostname fl =
     (let defHost = hostname;
          defAddrs = env ''ADDRS'';
          defWeight = of_int (ParseInt32_value (env ''WEIGHT''));
          defOffline = ParseBool_value (env ''OFFLINE'') in
      \<lparr>region = flag_or (f_region fl) (env ''REGION''),
       zone = flag_or (f_zone fl) (env ''ZONE''),
       deployEnv = flag_or (f_deployEnv fl) (env ''DEPLOY_ENV''),
       host = flag_or (f_host fl) defHost,
       addrs = flag_or (f_addrs fl) defAddrs,
       weight = flag_or (f_weight fl) defWeight,
       offline = flag_or (f_offline fl) defOffline\<rparr>)"

definition time_Second :: int where "time_Second = 1000000000"

definition conf_Default :: "int \<Rightarrow> conf_Env \<Rightarrow> config" where
  "conf_Default numCPU env =
     (let tcp = \<lparr>sv_WorkerSize = numCPU, Bind = '':7000'', WriteBufSize = 30000, ReadBufSize = 30000, KeepAlive = True,
                 sv_StopTimeout = time_Second * 30\<rparr>;
          protocol = \<lparr>ReaderBufSize = 8192, ReplyChanSize = 1024, HandshakeTimeout = time_Second * 10,
                      RequestIdleTimeout = time_Second * 60, WaitMainTunnelTimeout = time_Second * 30,
                      wk_StopTimeout = time_Second * 3\<rparr>;
          bucket = \<lparr>BucketSize = 32, bk_WorkerSize = 1024\<rparr> in
      \<lparr>c_Env = env, c_Server = tcp, c_Worker = protocol, c_Bucket = bucket\<rparr>)"

definition conf_Init :: "int \<Rightarrow> conf_vars \<Rightarrow> config" where
  "conf_Init numCPU v =
     conf_Default numCPU
       \<lparr>Debug = False, Region = region v, Zone = zone v, DeployEnv = deployEnv v, Host = host v, Weight = weight v,
        Offline = offline v, Addrs = split_at (CHR '','') (addrs v)\<rparr>"


section \<open>The defaults are usable\<close>

text \<open>
  The default configuration fits the components it configures: with any environment and
  flags, creating the worker registry succeeds with 32 usable, empty buckets, and creating the
  reader of a connection, in any state of the default buffer pool and for any choice of pooled
  buffer, succeeds with a buffer that delivers the stream of the connection from its start.
\<close>

theorem default_configuration_usable:
  assumes "mem_inv m"
  shows "let cfg = conf_Init n (conf_init env hostname fl) in
    (\<exists>bs. NewBuckets idx (BucketSize (c_Bucket cfg)) = Ok bs \<and> buckets_ok WID bs \<and> (\<forall>k. Worker_of k bs = Ok None)) \<and>
    (\<exists>r m'. NewReader ch c (ReaderBufSize (c_Worker cfg)) m = (Ok r, m') \<and> reader_inv r m' \<and> pending m' r = stream c) \<and>
    0 < ReplyChanSize (c_Worker cfg)"
proof -
  have "\<exists>bs. NewBuckets idx 32 = Ok bs \<and> buckets_ok WID bs \<and> (\<forall>k. Worker_of k bs = Ok None)"
    using NewBuckets_ok [of 32 idx WID] Worker_of_registered by fastforce
  moreover have "\<exists>r m'. NewReader ch c 8192 m = (Ok r, m') \<and> reader_inv r m' \<and> pending m' r = stream c"
    using reader_mem.NewReader_ok [OF assms, of ch c 13] by (simp add: reader_inv_def) blast
  ultimately show ?thesis
    by (simp add: conf_Init_def conf_Default_def Let_def)
qed

theorem default_configuration_usable_witness:
  "\<exists>r m'. NewReader (Some 3) [RData [1, 2]] (ReaderBufSize (c_Worker (conf_Init 8 (conf_init (\<lambda>_. ''a,b'') ''gate1''
     \<lparr>f_region = None, f_zone = None, f_deployEnv = None, f_host = None, f_addrs = None, f_weight = None, f_offline = None\<rparr>))))
     (fresh_mem the_pool) = (Ok r, m') \<and> pending m' r = [1, 2]"
  using default_configuration_usable [OF mem_inv_fresh, of 8 "\<lambda>_. ''a,b''" "''gate1''"
    "\<lparr>f_region = None, f_zone = None, f_deployEnv = None, f_host = None, f_addrs = None, f_weight = None, f_offline = None\<rparr>"
    "[]" "\<lambda>w. 0" "Some 3" "[RData [1, 2]]"]
  by (simp add: Let_def) blast

end
