(* ===== verification/App_Tunnel.thy ===== *)
theory App_Tunnel
  imports Messages Session Tunnel_Holder
begin

text \<open>
  The tunnels from the gate to the player and room services
  (\<^verbatim>\<open>app/gate/internal/intra/net/tunnels/\<close>): the base tunnel, the two kinds of application
  tunnels, and the tunnel object with its channel of messages for the service.

  The state \<open>gate\<close> holds the objects the pointers of the code refer to: sessions, streams and
  tunnels by index, the object pools, and what was handed to the framework. The stopper and the
  countdown of \<^verbatim>\<open>vulcan-pkg-tool/sync\<close> are abstract states \<open>'st\<close> and \<open>'cd\<close> with their operations in
  the parameter \<open>S\<close>. The outcomes of calls into other processes are parameters too: opening a
  stream, sending and receiving on it. Log lines are left out.
\<close>

section \<open>State\<close>

record ('st, 'cd) sync_ops =
  NewStopper :: "int \<Rightarrow> 'st"
  IsStopping :: "'st \<Rightarrow> bool"
  StopTriggered :: "'st \<Rightarrow> bool"
  Stopping_chan :: "'st \<Rightarrow> bool"
  TriggerStop :: "'st \<Rightarrow> 'st"
  DoStop :: "'st \<Rightarrow> bool \<times> 'st"
  NewCountdown :: 'cd
  cd_Reset :: "'cd \<Rightarrow> 'cd"
  SetExpiryTime :: "'cd \<Rightarrow> int64 \<Rightarrow> 'cd"
  ExpiryTime :: "'cd \<Rightarrow> int64"

text \<open>\<open>StopTriggered\<close> and \<open>Stopping_chan\<close> say whether a receive on the channels \<^verbatim>\<open>StopTriggered()\<close> and
  \<^verbatim>\<open>Stopping()\<close> returns. What the code relies on: a new stopper is not stopping, triggering it lets
  the receivers of \<^verbatim>\<open>StopTriggered()\<close> go on, does not undo a stop and does not use it up, and
  \<open>DoStop\<close> lets its function run (first component) at most once and leaves the stopper stopping.\<close>

definition sync_laws :: "('st, 'cd) sync_ops \<Rightarrow> bool" where
  "sync_laws S \<longleftrightarrow>
     (\<forall>d. \<not> IsStopping S (NewStopper S d) \<and> fst (DoStop S (NewStopper S d))) \<and>
     (\<forall>s. StopTriggered S (TriggerStop S s) \<and> (IsStopping S s \<longrightarrow> IsStopping S (TriggerStop S s)) \<and>
        fst (DoStop S (TriggerStop S s)) = fst (DoStop S s)) \<and>
     (\<forall>s. IsStopping S (snd (DoStop S s)) \<and> \<not> fst (DoStop S (snd (DoStop S s))))"

record base_tunnel =
  tunnelType :: int32
  bt_oid :: int64
  bt_session :: nat

text \<open>The interface value \<^verbatim>\<open>AppTunnel\<close>: a player or a room tunnel with its stream.\<close>

datatype app_tunnel = PlayerTunnel base_tunnel nat | RoomTunnel base_tunnel nat

record stream =
  sm_sent :: "message list"
  sm_closed :: bool

text \<open>A value of the interface \<^verbatim>\<open>ForwardMessage\<close>.\<close>

datatype fmsg = FPacket packet | FPlayer message | FRoom message

record 'st tunnel =
  t_stopper :: 'st
  t_app :: app_tunnel
  csChan :: "fmsg list"
  csClosed :: bool

record ('b, 'st, 'cd) gate =
  sessions :: "'b session list"
  pktPool :: "packet list"
  playerMsgs :: "message list"
  roomMsgs :: "message list"
  streams :: "stream list"
  tunnels :: "'st tunnel list"
  countdown :: 'cd
  routeDeletes :: "(string \<times> int64) list"


section \<open>The base tunnel\<close>

definition PlayerTunnelType :: int32 where "PlayerTunnelType = 0"
definition RoomTunnelType :: int32 where "RoomTunnelType = 1"

definition base_NewTunnel :: "int32 \<Rightarrow> int64 \<Rightarrow> nat \<Rightarrow> base_tunnel" where
  "base_NewTunnel tp oid ss = \<lparr>tunnelType = tp, bt_oid = oid, bt_session = ss\<rparr>"

definition base_Type :: "base_tunnel \<Rightarrow> int32" where "base_Type t = tunnelType t"
definition base_OID :: "base_tunnel \<Rightarrow> int64" where "base_OID t = bt_oid t"
definition base_Session :: "base_tunnel \<Rightarrow> nat" where "base_Session t = bt_session t"
definition base_UID :: "('b, 'st, 'cd, 'z) gate_scheme \<Rightarrow> base_tunnel \<Rightarrow> int64" where
  "base_UID g t = UID (sessions g ! bt_session t)"
definition base_Color :: "('b, 'st, 'cd, 'z) gate_scheme \<Rightarrow> base_tunnel \<Rightarrow> string" where
  "base_Color g t = Color (sessions g ! bt_session t)"

fun base_of :: "app_tunnel \<Rightarrow> base_tunnel" where
  "base_of (PlayerTunnel b s) = b"
| "base_of (RoomTunnel b s) = b"

fun stream_of :: "app_tunnel \<Rightarrow> nat" where
  "stream_of (PlayerTunnel b s) = s"
| "stream_of (RoomTunnel b s) = s"


section \<open>Player and room tunnels\<close>

definition new_stream :: "('b, 'st, 'cd, 'z) gate_scheme \<Rightarrow> nat \<times> ('b, 'st, 'cd, 'z) gate_scheme" where
  "new_stream g = (length (streams g), g\<lparr>streams := streams g @ [\<lparr>sm_sent = [], sm_closed = False\<rparr>]\<rparr>)"

text \<open>\<open>err\<close> is the error of \<^verbatim>\<open>cli.Tunnel(ctx)\<close>, if any.\<close>

definition player_NewTunnel :: "('st, 'cd) sync_ops \<Rightarrow> gerr option \<Rightarrow> nat \<Rightarrow> ('b, 'st, 'cd, 'z) gate_scheme \<Rightarrow>
    app_tunnel res \<times> ('b, 'st, 'cd, 'z) gate_scheme" where
  "player_NewTunnel S err ss g =
     (case err of
        Some e \<Rightarrow> (Fail (Wrap ''get tunnel stream failed. uid=%d color=%s %+v''
                     [AInt (sint (UID (sessions g ! ss))), AStr (Color (sessions g ! ss))] e), g)
      | None \<Rightarrow>
          let (s, g1) = new_stream g;
              g2 = g1\<lparr>countdown := cd_Reset S (countdown g1)\<rparr> in
          (Ok (PlayerTunnel (base_NewTunnel PlayerTunnelType (UID (sessions g ! ss)) ss) s), g2))"

definition room_NewTunnel :: "gerr option \<Rightarrow> int64 \<Rightarrow> nat \<Rightarrow> ('b, 'st, 'cd, 'z) gate_scheme \<Rightarrow>
    app_tunnel res \<times> ('b, 'st, 'cd, 'z) gate_scheme" where
  "room_NewTunnel err oid ss g =
     (case err of
        Some e \<Rightarrow> (Fail (Wrap ''get tunnel failed. uid=%d color=%s oid=%d %+v''
                     [AInt (sint (UID (sessions g ! ss))), AStr (Color (sessions g ! ss)), AInt (sint oid)] e), g)
      | None \<Rightarrow>
          let (s, g1) = new_stream g in
          (Ok (RoomTunnel (base_NewTunnel RoomTunnelType oid ss) s), g1))"

definition fill_message :: "packet \<Rightarrow> message \<Rightarrow> message" where
  "fill_message p m = m\<lparr>m_Mod := Mod p, m_Seq := Seq p, m_Obj := Obj p, m_Data := Data p, m_DataVersion := DataVersion p\<rparr>"

fun player_TransformMessage :: "nat option \<Rightarrow> packet \<Rightarrow> ('b, 'st, 'cd, 'z) gate_scheme \<Rightarrow> fmsg \<times> ('b, 'st, 'cd, 'z) gate_scheme" where
  "player_TransformMessage ch p g =
     (let (msg, pl) = player_getMessage ch (playerMsgs g) in (FPlayer (fill_message p msg), g\<lparr>playerMsgs := pl\<rparr>))"

fun room_TransformMessage :: "nat option \<Rightarrow> packet \<Rightarrow> ('b, 'st, 'cd, 'z) gate_scheme \<Rightarrow> fmsg \<times> ('b, 'st, 'cd, 'z) gate_scheme" where
  "room_TransformMessage ch p g =
     (let (msg, pl) = room_getMessage ch (roomMsgs g) in (FRoom (fill_message p msg), g\<lparr>roomMsgs := pl\<rparr>))"

text \<open>The methods of the interface \<^verbatim>\<open>AppTunnel\<close> are those of the kind of tunnel.\<close>

fun TransformMessage :: "nat option \<Rightarrow> app_tunnel \<Rightarrow> packet \<Rightarrow> ('b, 'st, 'cd, 'z) gate_scheme \<Rightarrow>
    fmsg \<times> ('b, 'st, 'cd, 'z) gate_scheme" where
  "TransformMessage ch (PlayerTunnel _ _) p g = player_TransformMessage ch p g"
| "TransformMessage ch (RoomTunnel _ _) p g = room_TransformMessage ch p g"

definition stream_Send :: "nat \<Rightarrow> message \<Rightarrow> ('b, 'st, 'cd, 'z) gate_scheme \<Rightarrow> ('b, 'st, 'cd, 'z) gate_scheme" where
  "stream_Send s m g = g\<lparr>streams := (streams g)[s := (streams g ! s)\<lparr>sm_sent := sm_sent (streams g ! s) @ [m]\<rparr>]\<rparr>"

text \<open>\<open>err\<close> is the error of \<^verbatim>\<open>stream.Send\<close>, if any; the deferred call returns the message to its
  pool on both paths. A message of another type fails the type assertion.\<close>

fun player_CSHandle :: "gerr option \<Rightarrow> nat \<Rightarrow> fmsg \<Rightarrow> ('b, 'st, 'cd, 'z) gate_scheme \<Rightarrow>
    unit res \<times> ('b, 'st, 'cd, 'z) gate_scheme" where
  "player_CSHandle err s (FPlayer m) g =
     (let g1 = (case err of None \<Rightarrow> stream_Send s m g | Some _ \<Rightarrow> g);
          g2 = g1\<lparr>playerMsgs := player_putMessage (Some m) (playerMsgs g1)\<rparr> in
      (case err of None \<Rightarrow> Ok () | Some e \<Rightarrow> Fail (Wrap ''stream send failed'' [] e), g2))"
| "player_CSHandle err s _ g = (Panic ''interface conversion'', g)"

fun room_CSHandle :: "gerr option \<Rightarrow> nat \<Rightarrow> fmsg \<Rightarrow> ('b, 'st, 'cd, 'z) gate_scheme \<Rightarrow>
    unit res \<times> ('b, 'st, 'cd, 'z) gate_scheme" where
  "room_CSHandle err s (FRoom m) g =
     (let g1 = (case err of None \<Rightarrow> stream_Send s m g | Some _ \<Rightarrow> g);
          g2 = g1\<lparr>roomMsgs := room_putMessage (Some m) (roomMsgs g1)\<rparr> in
      (case err of None \<Rightarrow> Ok () | Some e \<Rightarrow> Fail (Wrap ''stream send failed'' [] e), g2))"
| "room_CSHandle err s _ g = (Panic ''interface conversion'', g)"

fun CSHandle :: "gerr option \<Rightarrow> app_tunnel \<Rightarrow> fmsg \<Rightarrow> ('b, 'st, 'cd, 'z) gate_scheme \<Rightarrow>
    unit res \<times> ('b, 'st, 'cd, 'z) gate_scheme" where
  "CSHandle err (PlayerTunnel _ s) msg g = player_CSHandle err s msg g"
| "CSHandle err (RoomTunnel _ s) msg g = room_CSHandle err s msg g"

text \<open>\<open>rv\<close> is the result of \<^verbatim>\<open>stream.Recv\<close>.\<close>

fun player_SCHandle :: "message res \<Rightarrow> fmsg res" where
  "player_SCHandle (Ok out) = Ok (FPlayer out)"
| "player_SCHandle (Fail e) = Fail (Wrap ''stream receive failed'' [] e)"
| "player_SCHandle (Panic p) = Panic p"

fun room_SCHandle :: "message res \<Rightarrow> fmsg res" where
  "room_SCHandle (Ok out) = Ok (FRoom out)"
| "room_SCHandle (Fail e) = Fail (Wrap ''stream receive failed'' [] e)"
| "room_SCHandle (Panic p) = Panic p"

fun SCHandle :: "app_tunnel \<Rightarrow> message res \<Rightarrow> fmsg res" where
  "SCHandle (PlayerTunnel _ _) rv = player_SCHandle rv"
| "SCHandle (RoomTunnel _ _) rv = room_SCHandle rv"

definition CloseSend :: "nat \<Rightarrow> ('b, 'st, 'cd, 'z) gate_scheme \<Rightarrow> ('b, 'st, 'cd, 'z) gate_scheme" where
  "CloseSend s g = g\<lparr>streams := (streams g)[s := (streams g ! s)\<lparr>sm_closed := True\<rparr>]\<rparr>"

text \<open>The errors of \<^verbatim>\<open>DelDelay\<close> and \<^verbatim>\<open>CloseSend\<close> are only logged.\<close>

fun player_OnStop :: "base_tunnel \<Rightarrow> nat \<Rightarrow> ('b, 'st, 'cd, 'z) gate_scheme \<Rightarrow> ('b, 'st, 'cd, 'z) gate_scheme" where
  "player_OnStop b s g = CloseSend s (g\<lparr>routeDeletes := routeDeletes g @ [(base_Color g b, base_UID g b)]\<rparr>)"

fun room_OnStop :: "nat \<Rightarrow> ('b, 'st, 'cd, 'z) gate_scheme \<Rightarrow> ('b, 'st, 'cd, 'z) gate_scheme" where
  "room_OnStop s g = CloseSend s g"

fun OnStop :: "app_tunnel \<Rightarrow> ('b, 'st, 'cd, 'z) gate_scheme \<Rightarrow> ('b, 'st, 'cd, 'z) gate_scheme" where
  "OnStop (PlayerTunnel b s) g = player_OnStop b s g"
| "OnStop (RoomTunnel b s) g = room_OnStop s g"

fun player_OnGroupStop :: "('st, 'cd) sync_ops \<Rightarrow> int64 \<Rightarrow> ('b, 'st, 'cd, 'z) gate_scheme \<Rightarrow> ('b, 'st, 'cd, 'z) gate_scheme" where
  "player_OnGroupStop S now g = g\<lparr>countdown := SetExpiryTime S (countdown g) now\<rparr>"

text \<open>That of the room tunnel only logs.\<close>

fun room_OnGroupStop :: "('b, 'st, 'cd, 'z) gate_scheme \<Rightarrow> ('b, 'st, 'cd, 'z) gate_scheme" where
  "room_OnGroupStop g = g"

fun OnGroupStop :: "('st, 'cd) sync_ops \<Rightarrow> int64 \<Rightarrow> app_tunnel \<Rightarrow> ('b, 'st, 'cd, 'z) gate_scheme \<Rightarrow>
    ('b, 'st, 'cd, 'z) gate_scheme" where
  "OnGroupStop S now (PlayerTunnel b s) g = player_OnGroupStop S now g"
| "OnGroupStop S now (RoomTunnel b s) g = room_OnGroupStop g"

text \<open>\<^verbatim>\<open>ResetMessage\<close> of the room tunnel.\<close>

fun room_ResetMessage :: "fmsg \<Rightarrow> message list \<Rightarrow> message list" where
  "room_ResetMessage (FRoom m) pl = room_putMessage (Some m) pl"
| "room_ResetMessage _ pl = pl"

text \<open>
  \<^verbatim>\<open>Session()\<close> of both kinds calls itself, not the method of the embedded base tunnel; \<open>None\<close> is
  a call that does not return.
\<close>

partial_function (option) player_Session :: "app_tunnel \<Rightarrow> nat option" where
  "player_Session t = player_Session t"

partial_function (option) room_Session :: "app_tunnel \<Rightarrow> nat option" where
  "room_Session t = room_Session t"

definition app_Session :: "app_tunnel \<Rightarrow> nat option" where
  "app_Session t = (case t of PlayerTunnel _ _ \<Rightarrow> player_Session t | RoomTunnel _ _ \<Rightarrow> room_Session t)"


section \<open>The tunnel object\<close>

definition second :: int where "second = 1000000000"

definition ErrTunnelStopped :: gerr where "ErrTunnelStopped = Err ''tunnel stopped'' []"

text \<open>The tunnel is a new object; \<^verbatim>\<open>start\<close> runs \<^verbatim>\<open>run\<close> (theory \<open>Tunnel_Run\<close>) in a
  goroutine of its own.\<close>

definition NewTunnel :: "('st, 'cd) sync_ops \<Rightarrow> app_tunnel \<Rightarrow> ('b, 'st, 'cd, 'z) gate_scheme \<Rightarrow>
    nat \<times> ('b, 'st, 'cd, 'z) gate_scheme" where
  "NewTunnel S app g =
     (length (tunnels g),
      g\<lparr>tunnels := tunnels g @ [\<lparr>t_stopper = NewStopper S (second * 10), t_app = app, csChan = [], csClosed = False\<rparr>]\<rparr>)"

definition t_Type :: "nat \<Rightarrow> ('b, 'st, 'cd, 'z) gate_scheme \<Rightarrow> int32" where
  "t_Type t g = base_Type (base_of (t_app (tunnels g ! t)))"

definition t_transform :: "nat option \<Rightarrow> nat \<Rightarrow> fmsg \<Rightarrow> ('b, 'st, 'cd, 'z) gate_scheme \<Rightarrow>
    fmsg res \<times> ('b, 'st, 'cd, 'z) gate_scheme" where
  "t_transform ch t from g =
     (case from of
        FPacket p \<Rightarrow> (case TransformMessage ch (t_app (tunnels g ! t)) p g of (msg, g1) \<Rightarrow> (Ok msg, g1))
      | _ \<Rightarrow> (Fail (Err ''invalid packet type'' []), g))"

text \<open>Sending on the channel panics when it is closed and blocks (\<open>None\<close>) when it is full.\<close>

definition csChan_send :: "nat \<Rightarrow> fmsg \<Rightarrow> ('b, 'st, 'cd, 'z) gate_scheme \<Rightarrow>
    (unit res \<times> ('b, 'st, 'cd, 'z) gate_scheme) option" where
  "csChan_send t msg g =
     (let tn = tunnels g ! t in
      if csClosed tn then Some (Panic ''send on closed channel'', g)
      else if length (csChan tn) \<ge> 1024 then None
      else Some (Ok (), g\<lparr>tunnels := (tunnels g)[t := tn\<lparr>csChan := csChan tn @ [msg]\<rparr>]\<rparr>))"

definition Forward :: "('st, 'cd) sync_ops \<Rightarrow> nat option \<Rightarrow> nat \<Rightarrow> fmsg \<Rightarrow> ('b, 'st, 'cd, 'z) gate_scheme \<Rightarrow>
    (unit res \<times> ('b, 'st, 'cd, 'z) gate_scheme) option" where
  "Forward S ch t p g =
     (if IsStopping S (t_stopper (tunnels g ! t)) then Some (Fail ErrTunnelStopped, g)
      else case t_transform ch t p g of
             (Fail e, g1) \<Rightarrow> Some (Fail e, g1)
           | (Panic q, g1) \<Rightarrow> Some (Panic q, g1)
           | (Ok msg, g1) \<Rightarrow> csChan_send t msg g1)"

text \<open>\<open>Push\<close> is that of the embedded \<^verbatim>\<open>Pusher\<close>, the worker: a parameter over the same state, which
  may block. The getters of the message are those of its struct.\<close>

type_synonym 'g pusher = "bytes \<Rightarrow> 'g \<Rightarrow> (unit res \<times> 'g) option"

fun fm_header :: "fmsg \<Rightarrow> int32 \<times> int32 \<times> int64" where
  "fm_header (FPacket p) = (GetMod (Some p), GetSeq (Some p), GetObj (Some p))"
| "fm_header (FPlayer m) = (m_GetMod (Some m), m_GetSeq (Some m), m_GetObj (Some m))"
| "fm_header (FRoom m) = (rm_GetMod (Some m), rm_GetSeq (Some m), rm_GetObj (Some m))"

definition t_push ::
  "(bytes \<Rightarrow> (bytes \<times> bool) res) \<Rightarrow> (packet \<Rightarrow> bytes res) \<Rightarrow> ('b, 'st, 'cd, 'z) gate_scheme pusher \<Rightarrow>
   (app_tunnel \<Rightarrow> nat option) \<Rightarrow> nat option \<Rightarrow> nat \<Rightarrow> fmsg \<Rightarrow> ('b, 'st, 'cd, 'z) gate_scheme \<Rightarrow>
   (unit res \<times> ('b, 'st, 'cd, 'z) gate_scheme) option" where
  "t_push compress_Compress proto_Marshal Push Session ch t sc g =
     (let (p0, pl) = GetPacket ch (pktPool g);
          g1 = g\<lparr>pktPool := pl\<rparr>;
          put = (\<lambda>p g. g\<lparr>pktPool := PutPacket (Some p) (pktPool g)\<rparr>);
          (md, sq, ob) = fm_header sc;
          p1 = p0\<lparr>Mod := md, Seq := sq, Obj := ob\<rparr> in
      case compress_Compress (Data p1) of
        Fail e \<Rightarrow> Some (Fail e, put p1 g1)
      | Panic q \<Rightarrow> Some (Panic q, put p1 g1)
      | Ok (newData, compressed) \<Rightarrow>
          Option.bind (Session (t_app (tunnels g ! t))) (\<lambda>sr.
            let p2 = p1\<lparr>Data := newData, Compress := compressed\<rparr>;
                (i, ss) = IncreaseSCIndex (sessions g1 ! sr);
                g2 = g1\<lparr>sessions := (sessions g1)[sr := ss]\<rparr>;
                p3 = p2\<lparr>Index := ucast i\<rparr> in
            case proto_Marshal p3 of
              Fail e \<Rightarrow> Some (Fail (Wrap ''packet marshal failed'' [] e), put p3 g2)
            | Panic q \<Rightarrow> Some (Panic q, put p3 g2)
            | Ok bytes \<Rightarrow>
                Option.bind (Push bytes g2) (\<lambda>(r, g3). Some (r, put p3 g3))))"

text \<open>One round of the loop from the service to the client: receive, then push; an error of the
  push is only logged. \<open>Ok ()\<close> goes on with the next round.\<close>

definition scLoop_round ::
  "(bytes \<Rightarrow> (bytes \<times> bool) res) \<Rightarrow> (packet \<Rightarrow> bytes res) \<Rightarrow> ('b, 'st, 'cd, 'z) gate_scheme pusher \<Rightarrow>
   (app_tunnel \<Rightarrow> nat option) \<Rightarrow> nat option \<Rightarrow> nat \<Rightarrow> message res \<Rightarrow> ('b, 'st, 'cd, 'z) gate_scheme \<Rightarrow>
   (unit res \<times> ('b, 'st, 'cd, 'z) gate_scheme) option" where
  "scLoop_round cmp mar Push Session ch t rv g =
     (case SCHandle (t_app (tunnels g ! t)) rv of
        Fail e \<Rightarrow> Some (Fail e, g)
      | Panic q \<Rightarrow> Some (Panic q, g)
      | Ok msg \<Rightarrow>
          (case t_push cmp mar Push Session ch t msg g of
             None \<Rightarrow> None
           | Some (Panic q, g1) \<Rightarrow> Some (Panic q, g1)
           | Some (_, g1) \<Rightarrow> Some (Ok (), g1)))"

text \<open>One round of the loop from the client to the service, by the case that \<^verbatim>\<open>select\<close> takes:
  the context is done (with its error), the stop was triggered, or a message was received.
  \<open>None\<close>: the case is not ready.\<close>

datatype cs_case = CtxDone gerr | StopSign | CSMsg "gerr option"

definition GroupStopping :: gerr where "GroupStopping = Err ''group stopping'' []"

fun csLoop_round :: "cs_case \<Rightarrow> nat \<Rightarrow> ('b, 'st, 'cd, 'z) gate_scheme \<Rightarrow>
    (unit res \<times> ('b, 'st, 'cd, 'z) gate_scheme) option" where
  "csLoop_round (CtxDone e) t g = Some (Fail e, g)"
| "csLoop_round StopSign t g = Some (Fail GroupStopping, g)"
| "csLoop_round (CSMsg err) t g =
     (let tn = tunnels g ! t in
      case csChan tn of
        cs # rest \<Rightarrow>
          Some (CSHandle err (t_app tn) cs (g\<lparr>tunnels := (tunnels g)[t := tn\<lparr>csChan := rest\<rparr>]\<rparr>))
      | [] \<Rightarrow> if csClosed tn then Some (Panic ''interface conversion'', g) else None)"

definition tunnel_stop :: "('st, 'cd) sync_ops \<Rightarrow> nat \<Rightarrow> ('b, 'st, 'cd, 'z) gate_scheme \<Rightarrow> ('b, 'st, 'cd, 'z) gate_scheme" where
  "tunnel_stop S t g =
     (let tn = tunnels g ! t; (go, st) = DoStop S (t_stopper tn) in
      if go then OnStop (t_app tn) (g\<lparr>tunnels := (tunnels g)[t := tn\<lparr>t_stopper := st, csClosed := True\<rparr>]\<rparr>)
      else g\<lparr>tunnels := (tunnels g)[t := tn\<lparr>t_stopper := st\<rparr>]\<rparr>)"

text \<open>The end of \<^verbatim>\<open>run\<close>: what follows \<^verbatim>\<open>eg.Wait()\<close>, with the error it returns.\<close>

definition run_end :: "('st, 'cd) sync_ops \<Rightarrow> int64 \<Rightarrow> gerr option \<Rightarrow> nat \<Rightarrow> ('b, 'st, 'cd, 'z) gate_scheme \<Rightarrow> ('b, 'st, 'cd, 'z) gate_scheme" where
  "run_end S now err t g =
     tunnel_stop S t (case err of Some e \<Rightarrow> OnGroupStop S now (t_app (tunnels g ! t)) g | None \<Rightarrow> g)"



section \<open>Messages keep their order and content\<close>

text \<open>The message of a packet, and all messages a tunnel has accepted: those on the stream and
  those still in the channel.\<close>

definition packet_message :: "packet \<Rightarrow> message" where
  "packet_message p = \<lparr>m_Mod = Mod p, m_Seq = Seq p, m_Obj = Obj p, m_Data = Data p, m_DataVersion = DataVersion p\<rparr>"

fun fm_message :: "fmsg \<Rightarrow> message" where
  "fm_message (FPacket p) = packet_message p"
| "fm_message (FPlayer m) = m"
| "fm_message (FRoom m) = m"

definition accepted :: "('b, 'st, 'cd, 'z) gate_scheme \<Rightarrow> nat \<Rightarrow> message list" where
  "accepted g t = sm_sent (streams g ! stream_of (t_app (tunnels g ! t))) @ map fm_message (csChan (tunnels g ! t))"

fun fits :: "app_tunnel \<Rightarrow> fmsg \<Rightarrow> bool" where
  "fits (PlayerTunnel _ _) (FPlayer _) = True"
| "fits (RoomTunnel _ _) (FRoom _) = True"
| "fits _ _ = False"

text \<open>A live tunnel over blank pools.\<close>

definition pools_blank :: "('b, 'st, 'cd, 'z) gate_scheme \<Rightarrow> bool" where
  "pools_blank g \<longleftrightarrow> blank zero_packet (pktPool g) \<and> blank zero_message (playerMsgs g) \<and> blank zero_message (roomMsgs g)"

definition tunnel_live :: "('st, 'cd) sync_ops \<Rightarrow> ('b, 'st, 'cd, 'z) gate_scheme \<Rightarrow> nat \<Rightarrow> bool" where
  "tunnel_live S g t \<longleftrightarrow>
     t < length (tunnels g) \<and> stream_of (t_app (tunnels g ! t)) < length (streams g) \<and>
     \<not> IsStopping S (t_stopper (tunnels g ! t)) \<and> \<not> csClosed (tunnels g ! t) \<and>
     length (csChan (tunnels g ! t)) \<le> 1024 \<and> list_all (fits (t_app (tunnels g ! t))) (csChan (tunnels g ! t))"

lemma TransformMessage_blank:
  assumes "pools_blank g"
  shows "\<exists>f g1. TransformMessage ch app p g = (f, g1) \<and> fits app f \<and> fm_message f = packet_message p \<and>
    tunnels g1 = tunnels g \<and> streams g1 = streams g \<and> pools_blank g1"
proof (cases app)
  case (PlayerTunnel b s)
  from assms obtain pl where "player_getMessage ch (playerMsgs g) = (zero_message, pl)" "blank zero_message pl"
    unfolding pools_blank_def by (metis player_pool.get_zero)
  with PlayerTunnel assms show ?thesis
    by (auto simp: pools_blank_def fill_message_def zero_message_def packet_message_def)
next
  case (RoomTunnel b s)
  from assms obtain pl where "room_getMessage ch (roomMsgs g) = (zero_message, pl)" "blank zero_message pl"
    unfolding pools_blank_def by (metis room_pool.get_zero)
  with RoomTunnel assms show ?thesis
    by (auto simp: pools_blank_def fill_message_def zero_message_def packet_message_def)
qed

lemma Forward_live:
  assumes "tunnel_live S g t" and "pools_blank g" and "length (csChan (tunnels g ! t)) < 1024"
  shows "\<exists>g'. Forward S ch t (FPacket p) g = Some (Ok (), g') \<and> accepted g' t = accepted g t @ [packet_message p] \<and>
    tunnel_live S g' t \<and> pools_blank g'"
proof -
  from TransformMessage_blank [OF assms(2), of ch "t_app (tunnels g ! t)" p] obtain f g1 where
    f: "TransformMessage ch (t_app (tunnels g ! t)) p g = (f, g1)" "fits (t_app (tunnels g ! t)) f"
      "fm_message f = packet_message p" "tunnels g1 = tunnels g" "streams g1 = streams g" "pools_blank g1"
    by blast
  then show ?thesis
    using assms(1,3) by (auto simp: Forward_def t_transform_def csChan_send_def tunnel_live_def accepted_def
      pools_blank_def Let_def)
qed

lemma Forward_full:
  assumes "tunnel_live S g t" and "pools_blank g" and "\<not> length (csChan (tunnels g ! t)) < 1024"
  shows "Forward S ch t (FPacket p) g = None"
proof -
  from TransformMessage_blank [OF assms(2), of ch "t_app (tunnels g ! t)" p] obtain f g1 where
    "TransformMessage ch (t_app (tunnels g ! t)) p g = (f, g1)" "tunnels g1 = tunnels g" by blast
  then show ?thesis
    using assms(1,3) by (auto simp: Forward_def t_transform_def csChan_send_def tunnel_live_def Let_def)
qed

lemma CSHandle_fits:
  assumes "fits app f" and "stream_of app < length (streams g)" and "pools_blank g"
  shows "\<exists>g'. CSHandle None app f g = (Ok (), g') \<and> tunnels g' = tunnels g \<and> pools_blank g' \<and>
    streams g' = (streams g)[stream_of app := (streams g ! stream_of app)
      \<lparr>sm_sent := sm_sent (streams g ! stream_of app) @ [fm_message f]\<rparr>]"
  using assms player_pool.put_blank room_pool.put_blank
  by (cases app; cases f) (auto simp: stream_Send_def pools_blank_def Let_def)

lemma csLoop_round_live:
  assumes "tunnel_live S g t" and "pools_blank g"
  shows "csChan (tunnels g ! t) = [] \<and> csLoop_round (CSMsg None) t g = None \<or>
    (\<exists>g'. csLoop_round (CSMsg None) t g = Some (Ok (), g') \<and> accepted g' t = accepted g t \<and>
      tunnel_live S g' t \<and> pools_blank g' \<and> csChan (tunnels g' ! t) = tl (csChan (tunnels g ! t)))"
proof (cases "csChan (tunnels g ! t)")
  case Nil
  then show ?thesis using assms(1) by (simp add: tunnel_live_def)
next
  case (Cons f rest)
  let ?tn = "tunnels g ! t" and ?g = "g\<lparr>tunnels := (tunnels g)[t := (tunnels g ! t)\<lparr>csChan := rest\<rparr>]\<rparr>"
  have "fits (t_app ?tn) f" "stream_of (t_app ?tn) < length (streams ?g)" "pools_blank ?g"
    using assms Cons by (simp_all add: tunnel_live_def pools_blank_def)
  from CSHandle_fits [OF this] obtain g' where
    g': "CSHandle None (t_app ?tn) f ?g = (Ok (), g')" "tunnels g' = tunnels ?g" "pools_blank g'"
      "streams g' = (streams g)[stream_of (t_app ?tn) := (streams g ! stream_of (t_app ?tn))
        \<lparr>sm_sent := sm_sent (streams g ! stream_of (t_app ?tn)) @ [fm_message f]\<rparr>]"
    by auto
  then show ?thesis
    using assms(1) Cons by (auto simp: tunnel_live_def accepted_def Let_def)
qed

text \<open>Forwarding packets and sending messages in any order. A step that would block has no
  effect; the packets whose forwarding did not block are returned.\<close>

datatype tunnel_op = OpForward "nat option" packet | OpRound

fun tunnel_ops :: "('st, 'cd) sync_ops \<Rightarrow> nat \<Rightarrow> tunnel_op list \<Rightarrow> ('b, 'st, 'cd, 'z) gate_scheme \<Rightarrow>
    packet list \<times> unit res \<times> ('b, 'st, 'cd, 'z) gate_scheme" where
  "tunnel_ops S t [] g = ([], Ok (), g)"
| "tunnel_ops S t (OpForward ch p # ops) g =
     (case Forward S ch t (FPacket p) g of
        None \<Rightarrow> tunnel_ops S t ops g
      | Some (Ok _, g1) \<Rightarrow> (case tunnel_ops S t ops g1 of (ps, r, g2) \<Rightarrow> (p # ps, r, g2))
      | Some (r, g1) \<Rightarrow> ([], r, g1))"
| "tunnel_ops S t (OpRound # ops) g =
     (case csLoop_round (CSMsg None) t g of
        None \<Rightarrow> tunnel_ops S t ops g
      | Some (Ok _, g1) \<Rightarrow> tunnel_ops S t ops g1
      | Some (r, g1) \<Rightarrow> ([], r, g1))"

lemma tunnel_ops_accepts:
  assumes "tunnel_live S g t" and "pools_blank g"
  shows "\<exists>ps g'. tunnel_ops S t ops g = (ps, Ok (), g') \<and> accepted g' t = accepted g t @ map packet_message ps \<and>
    tunnel_live S g' t \<and> pools_blank g'"
  using assms
proof (induction S t ops g rule: tunnel_ops.induct)
  case (2 S t ch p ops g)
  show ?case
  proof (cases "length (csChan (tunnels g ! t)) < 1024")
    case True
    from Forward_live [OF 2(3,4) True, of ch p] obtain g1 where
      g1: "Forward S ch t (FPacket p) g = Some (Ok (), g1)" "accepted g1 t = accepted g t @ [packet_message p]"
        "tunnel_live S g1 t" "pools_blank g1"
      by blast
    from 2(2) [OF g1(1) refl refl g1(3,4)] obtain ps g2 where
      g2: "tunnel_ops S t ops g1 = (ps, Ok (), g2)" "accepted g2 t = accepted g1 t @ map packet_message ps"
        "tunnel_live S g2 t" "pools_blank g2"
      by blast
    have "tunnel_ops S t (OpForward ch p # ops) g = (p # ps, Ok (), g2)"
      by (simp add: g1(1) g2(1))
    moreover have "accepted g2 t = accepted g t @ map packet_message (p # ps)"
      by (simp add: g1(2) g2(2))
    ultimately show ?thesis using g2(3,4) by blast
  next
    case False
    from Forward_full [OF 2(3,4) False, of ch p] 2(1,3,4) show ?thesis by simp
  qed
next
  case (3 S t ops g)
  from csLoop_round_live [OF 3(3,4)] show ?case
  proof
    assume "csChan (tunnels g ! t) = [] \<and> csLoop_round (CSMsg None) t g = None"
    then show ?thesis using 3(1,3,4) by (simp del: csLoop_round.simps)
  next
    assume "\<exists>g'. csLoop_round (CSMsg None) t g = Some (Ok (), g') \<and> accepted g' t = accepted g t \<and>
      tunnel_live S g' t \<and> pools_blank g' \<and> csChan (tunnels g' ! t) = tl (csChan (tunnels g ! t))"
    then obtain g1 where g1: "csLoop_round (CSMsg None) t g = Some (Ok (), g1)" "accepted g1 t = accepted g t"
      "tunnel_live S g1 t" "pools_blank g1" by blast
    have "tunnel_ops S t (OpRound # ops) g = tunnel_ops S t ops g1"
      by (simp add: g1(1) del: csLoop_round.simps)
    then show ?thesis
      using 3(2) [OF g1(1) refl refl g1(3,4)] unfolding g1(2) by simp
  qed
qed simp


text \<open>
  C11: A tunnel forwards exactly what it accepted, in order. For any interleaving of packets
  forwarded into a live tunnel and messages sent out by its loop, and whatever pooled messages
  are reused, no step fails or panics, and the messages on the stream followed by those still
  queued are the earlier ones followed by one message per accepted packet, with the module,
  sequence, object, data and data version of that packet; nothing of an earlier message of this
  or another connection is left in a reused one.
\<close>

theorem tunnel_forwards_in_order:
  assumes "tunnel_live S g t" and "pools_blank g"
  shows "\<exists>ps g'. tunnel_ops S t ops g = (ps, Ok (), g') \<and>
    accepted g' t = accepted g t @ map packet_message ps \<and> tunnel_live S g' t \<and> pools_blank g'"
  using tunnel_ops_accepts [OF assms] .

text \<open>A stopper that is a pair of flags (triggered, stopped) and a countdown that is its expiry time,
  and a gate with one room tunnel.\<close>

definition flag_sync :: "(bool \<times> bool, int64) sync_ops" where
  "flag_sync = \<lparr>NewStopper = (\<lambda>_. (False, False)), IsStopping = snd, StopTriggered = fst, Stopping_chan = snd,
     TriggerStop = (\<lambda>(_, d). (True, d)), DoStop = (\<lambda>(t, d). (\<not> d, (t, True))), NewCountdown = 0, cd_Reset = (\<lambda>_. 0),
     SetExpiryTime = (\<lambda>_ t. t), ExpiryTime = (\<lambda>t. t)\<rparr>"

lemma flag_sync_laws: "sync_laws flag_sync"
  by (auto simp: sync_laws_def flag_sync_def)

definition one_room :: "(unit, bool \<times> bool, int64) gate" where
  "one_room = \<lparr>sessions = [NewSession 7 1 0 None [] True ''red'' 0], pktPool = [zero_packet], playerMsgs = [],
     roomMsgs = [zero_message], streams = [\<lparr>sm_sent = [], sm_closed = False\<rparr>],
     tunnels = [\<lparr>t_stopper = (False, False), t_app = RoomTunnel \<lparr>tunnelType = 1, bt_oid = 9, bt_session = 0\<rparr> 0,
                 csChan = [], csClosed = False\<rparr>],
     countdown = 0, routeDeletes = []\<rparr>"

lemma one_room_live: "tunnel_live flag_sync one_room 0" "pools_blank one_room"
  by (simp_all add: tunnel_live_def flag_sync_def one_room_def pools_blank_def blank_def)

theorem tunnel_forwards_in_order_witness:
  "\<exists>ps g'. tunnel_ops flag_sync 0 [OpForward (Some 0) (zero_packet\<lparr>Data := [1]\<rparr>), OpRound, OpForward (Some 0) zero_packet] one_room
     = (ps, Ok (), g') \<and> accepted g' 0 = accepted one_room 0 @ map packet_message ps"
  using tunnel_forwards_in_order [OF one_room_live,
    of "[OpForward (Some 0) (zero_packet\<lparr>Data := [1]\<rparr>), OpRound, OpForward (Some 0) zero_packet]"] by blast


section \<open>Messages to the client\<close>

lemma player_Session_diverges: "player_Session t = None"
proof -
  have "False" if "player_Session t = Some r" for r
    using that by (rule player_Session.raw_induct [rotated]) blast
  then show ?thesis by (cases "player_Session t") auto
qed

lemma room_Session_diverges: "room_Session t = None"
proof -
  have "False" if "room_Session t = Some r" for r
    using that by (rule room_Session.raw_induct [rotated]) blast
  then show ?thesis by (cases "room_Session t") auto
qed

lemma app_Session_diverges: "app_Session t = None"
  by (simp add: app_Session_def player_Session_diverges room_Session_diverges split: app_tunnel.splits)

text \<open>
  C23: No message of a service reaches a client. For the player and the room tunnel, handling a
  message received from the service never completes: unless compressing fails, the call does not
  return, whatever the message and the worker, because the method that should return the session
  calls itself.
\<close>

theorem service_message_never_returns:
  assumes "pools_blank g" and "cmp [] = Ok x"
  shows "scLoop_round cmp mar Push app_Session ch t (Ok msg) g = None"
proof -
  obtain pl where "GetPacket ch (pktPool g) = (zero_packet, pl)"
    using assms(1) unfolding pools_blank_def by (metis packet_pool.get_zero)
  then have "t_push cmp mar Push app_Session ch t f g = None" for f
    using assms(2) by (simp add: t_push_def app_Session_diverges zero_packet_def Let_def split: prod.splits)
  then show ?thesis
    by (cases "t_app (tunnels g ! t)") (simp_all add: scLoop_round_def)
qed

theorem service_message_never_returns_witness:
  "scLoop_round (\<lambda>d. Ok (d, False)) (\<lambda>p. Ok (Data p)) (\<lambda>b g. Some (Ok (), g)) app_Session None 0
     (Ok (zero_message\<lparr>m_Data := [1, 2]\<rparr>)) one_room = None"
  by (rule service_message_never_returns [OF one_room_live(2)]) simp

text \<open>
  C27: The data of a service message is lost on the way to the client. Even for a tunnel whose
  session method returns, the packet that is marshalled for the client has the module, sequence
  and object of the message and the next server index, but its data is the compressed form of no
  data at all: the data of the message is never read.
\<close>

theorem service_message_data_lost:
  assumes "pools_blank g" and "cmp [] = Ok (d, c)" and "Session (t_app (tunnels g ! t)) = Some sr"
    and "fm_header sc = (md, sq, ob)"
  shows "t_push cmp mar Push Session ch t sc g = t_push cmp mar Push Session ch t (FPlayer
      \<lparr>m_Mod = md, m_Seq = sq, m_Obj = ob, m_Data = [], m_DataVersion = 0\<rparr>) g \<and>
    (\<exists>g'. t_push cmp (\<lambda>p. Fail (probe p)) Push Session ch t sc g =
      Some (Fail (Wrap ''packet marshal failed'' [] (probe \<lparr>Ver = 0, Index = ucast (SCIndex (sessions g ! sr) + 1), Compress = c,
        Mod = md, Seq = sq, Obj = ob, Data = d, DataVersion = 0\<rparr>)), g'))"
proof -
  obtain pl where p: "GetPacket ch (pktPool g) = (zero_packet, pl)"
    using assms(1) unfolding pools_blank_def by (metis packet_pool.get_zero)
  have h: "fm_header (FPlayer \<lparr>m_Mod = md, m_Seq = sq, m_Obj = ob, m_Data = [], m_DataVersion = 0\<rparr>) = fm_header sc"
    by (simp add: assms(4) m_GetMod_def m_GetSeq_def m_GetObj_def)
  have "t_push cmp mar Push Session ch t sc g = t_push cmp mar Push Session ch t (FPlayer
      \<lparr>m_Mod = md, m_Seq = sq, m_Obj = ob, m_Data = [], m_DataVersion = 0\<rparr>) g"
    by (simp only: t_push_def h)
  moreover have "\<exists>g'. t_push cmp (\<lambda>p. Fail (probe p)) Push Session ch t sc g =
      Some (Fail (Wrap ''packet marshal failed'' [] (probe \<lparr>Ver = 0, Index = ucast (SCIndex (sessions g ! sr) + 1), Compress = c,
        Mod = md, Seq = sq, Obj = ob, Data = d, DataVersion = 0\<rparr>)), g')"
    using assms(2,3) by (simp add: t_push_def p assms(4) zero_packet_def Let_def session_defs)
  ultimately show ?thesis ..
qed

theorem service_message_data_lost_witness:
  "\<exists>g'. t_push (\<lambda>x. Ok (x, False)) (\<lambda>p. Fail (Err (if Data p = [] then ''empty'' else ''data'') [])) (\<lambda>b g. None)
     (\<lambda>a. Some (base_Session (base_of a))) None 0 (FRoom (zero_message\<lparr>m_Data := [1, 2]\<rparr>)) one_room
     = Some (Fail (Wrap ''packet marshal failed'' [] (Err ''empty'' [])), g')"
  using service_message_data_lost [of one_room "\<lambda>x. Ok (x, False)" "[]" False "\<lambda>a. Some (base_Session (base_of a))" 0 0
      "FRoom (zero_message\<lparr>m_Data := [1, 2]\<rparr>)" 0 0 0 "\<lambda>p. Ok []" "\<lambda>b g. None" None
      "\<lambda>p. Err (if Data p = [] then ''empty'' else ''data'') []", OF one_room_live(2)]
  by (simp add: one_room_def base_Session_def rm_GetMod_def rm_GetSeq_def rm_GetObj_def zero_message_def)


section \<open>Stopping\<close>

lemma DoStop_once:
  assumes "sync_laws S"
  shows "IsStopping S (snd (DoStop S s))" and "\<not> fst (DoStop S (snd (DoStop S s)))"
  using assms by (simp_all add: sync_laws_def)

text \<open>
  A tunnel is torn down once. However often a tunnel is stopped, its teardown runs at the
  first time only: the channel is closed (closing it again would panic) and the stream is closed
  for sending, and for a player tunnel the route of the user is scheduled for deletion exactly
  once; from then on the tunnel refuses packets with the error for stopped tunnels instead of
  writing to the closed channel.
\<close>

theorem tunnel_stop_once:
  assumes "sync_laws S" and "t < length (tunnels g)" and "fst (DoStop S (t_stopper (tunnels g ! t)))"
    and "stream_of (t_app (tunnels g ! t)) < length (streams g)"
  shows "let g1 = tunnel_stop S t g; g2 = tunnel_stop S t g1; app = t_app (tunnels g ! t) in
    csClosed (tunnels g1 ! t) \<and> sm_closed (streams g1 ! stream_of app) \<and>
    routeDeletes g1 = routeDeletes g @ (case app of PlayerTunnel b s \<Rightarrow> [(base_Color g b, base_UID g b)] | RoomTunnel b s \<Rightarrow> []) \<and>
    routeDeletes g2 = routeDeletes g1 \<and> streams g2 = streams g1 \<and>
    Forward S ch t (FPacket p) g1 = Some (Fail ErrTunnelStopped, g1)"
proof -
  define tn where "tn = tunnels g ! t"
  obtain st where st: "DoStop S (t_stopper tn) = (True, st)"
    using assms(3) by (metis (full_types) prod.collapse tn_def)
  have st2: "IsStopping S st" "\<not> fst (DoStop S st)"
    using DoStop_once [OF assms(1), of "t_stopper tn"] by (simp_all add: st)
  define g0 where "g0 = g\<lparr>tunnels := (tunnels g)[t := tn\<lparr>t_stopper := st, csClosed := True\<rparr>]\<rparr>"
  have g1: "tunnel_stop S t g = OnStop (t_app tn) g0"
    by (simp add: tunnel_stop_def Let_def st tn_def [symmetric] g0_def)
  have tun: "tunnels (OnStop a g0) = tunnels g0" for a
    by (cases a) (simp_all add: CloseSend_def)
  have here: "tunnels g0 ! t = tn\<lparr>t_stopper := st, csClosed := True\<rparr>"
    using assms(2) by (simp add: g0_def)
  have "base_Color g0 b = base_Color g b" "base_UID g0 b = base_UID g b" for b
    by (simp_all add: g0_def base_Color_def base_UID_def)
  then have "routeDeletes (OnStop a g0) = routeDeletes g @ (case a of PlayerTunnel b s \<Rightarrow> [(base_Color g b, base_UID g b)] | RoomTunnel b s \<Rightarrow> [])"
    and "sm_closed (streams (OnStop a g0) ! stream_of a)" if "stream_of a < length (streams g)" for a
    using that by (cases a; simp add: CloseSend_def g0_def)+
  moreover have "tunnel_stop S t (OnStop (t_app tn) g0) = (OnStop (t_app tn) g0)
      \<lparr>tunnels := (tunnels g0)[t := (tunnels g0 ! t)\<lparr>t_stopper := snd (DoStop S st)\<rparr>]\<rparr>"
    using st2(2) by (simp add: tunnel_stop_def Let_def tun here case_prod_unfold)
  ultimately show ?thesis
    using assms(4) st2(1) by (simp add: g1 Let_def tn_def [symmetric] tun here Forward_def)
qed

theorem tunnel_stop_once_witness:
  "csClosed (tunnels (tunnel_stop flag_sync 0 one_room) ! 0) \<and>
   routeDeletes (tunnel_stop flag_sync 0 (tunnel_stop flag_sync 0 one_room)) = []"
  using tunnel_stop_once [OF flag_sync_laws, of 0 one_room None zero_packet]
  by (simp add: Let_def one_room_def flag_sync_def)

end
