(* ===== verification/Service.thy ===== *)
theory Service
  imports App_Tunnel Context
begin

text \<open>
  The service behind a connection: authentication and request handling
  (\<^verbatim>\<open>app/gate/internal/intra/net/service/\<close>) and the key material it uses
  (\<^verbatim>\<open>app/gate/internal/pkg/security/crypto.go\<close>).

  The cryptographic routines, the serialisation and the compression are parameters, collected in
  \<open>crypto_lib\<close> and \<open>codec\<close>; so are the clock (\<open>clock\<close>) and the random key. The effects on pools,
  sessions and tunnels are those of the state \<open>gate\<close>.
\<close>

section \<open>Keys\<close>

record ('k, 'p, 'b) crypto_lib =
  base64_Decode :: "string \<Rightarrow> bytes res"
  x509_Parse :: "bytes \<Rightarrow> 'k option res"
  aes_NewBlock :: "bytes \<Rightarrow> 'b res"
  aes_Decrypt :: "'b aes"
  rsa_Decrypt :: "'k option \<Rightarrow> bytes \<Rightarrow> bytes res"
  rsa_ParsePublicKey :: "bytes \<Rightarrow> 'p res"
  rsa_Encrypt :: "'p \<Rightarrow> bytes \<Rightarrow> bytes res"

record ('k, 'b) secrets =
  handshakePriKey :: "'k option"
  tokenAESKey :: bytes
  tokenAESBlock :: "'b option"

definition str_bytes :: "string \<Rightarrow> bytes" where
  "str_bytes s = map of_char s"

text \<open>\<open>x509_Parse\<close> returns an interface value; \<open>None\<close> stands for a key that is not an RSA key, for
  which the type assertion panics.\<close>

definition security_Init :: "('k, 'p, 'b) crypto_lib \<Rightarrow> string \<Rightarrow> string \<Rightarrow> ('k, 'b) secrets \<Rightarrow> unit res \<times> ('k, 'b) secrets" where
  "security_Init L aesKey priKey sec =
     (case base64_Decode L priKey of
        Fail e \<Rightarrow> (Fail (Wrap ''base64 DecodeString failed.'' [] e), sec)
      | Panic p \<Rightarrow> (Panic p, sec)
      | Ok priKeyBytes \<Rightarrow>
          (case x509_Parse L priKeyBytes of
             Fail e \<Rightarrow> (Fail (Wrap ''x509 ParsePKCS8PrivateKey failed.'' [] e), sec)
           | Panic p \<Rightarrow> (Panic p, sec)
           | Ok None \<Rightarrow> (Panic ''interface conversion'', sec)
           | Ok (Some key) \<Rightarrow>
               let sec1 = sec\<lparr>handshakePriKey := Some key, tokenAESKey := str_bytes aesKey\<rparr> in
               (case aes_NewBlock L (tokenAESKey sec1) of
                  Fail e \<Rightarrow> (Fail (Wrap ''aes NewBlock failed.'' [] e), sec1)
                | Panic p \<Rightarrow> (Panic p, sec1)
                | Ok block \<Rightarrow> (Ok (), sec1\<lparr>tokenAESBlock := Some block\<rparr>))))"

text \<open>\<open>rnd\<close> is the result of \<^verbatim>\<open>rand.RandAlphaNumString(32)\<close>.\<close>

definition InitApiCrypto :: "('k, 'p, 'b) crypto_lib \<Rightarrow> string res \<Rightarrow> ('b \<times> bytes) res" where
  "InitApiCrypto L rnd =
     (case rnd of
        Fail e \<Rightarrow> Fail (Wrap ''xrand RandString failed.'' [] e)
      | Panic p \<Rightarrow> Panic p
      | Ok str \<Rightarrow>
          let key = str_bytes str in
          (case aes_NewBlock L key of
             Fail e \<Rightarrow> Fail (Wrap ''create aes block failed.'' [] e)
           | Panic p \<Rightarrow> Panic p
           | Ok block \<Rightarrow> Ok (block, key)))"

definition DecryptCSHandshake :: "('k, 'p, 'b) crypto_lib \<Rightarrow> ('k, 'b) secrets \<Rightarrow> bytes \<Rightarrow> bytes res" where
  "DecryptCSHandshake L sec secret = rsa_Decrypt L (handshakePriKey sec) secret"

definition DecryptToken :: "('k, 'p, 'b) crypto_lib \<Rightarrow> ('k, 'b) secrets \<Rightarrow> string \<Rightarrow> bytes res" where
  "DecryptToken L sec secret =
     (case base64_Decode L secret of
        Fail e \<Rightarrow> Fail (Wrap ''base64 DecodeString failed.'' [] e)
      | Panic p \<Rightarrow> Panic p
      | Ok ser \<Rightarrow>
          (case aes_Decrypt L (tokenAESKey sec) (tokenAESBlock sec) ser of
             Fail e \<Rightarrow> Fail (Wrap ''aes Decrypt failed.'' [] e)
           | Panic p \<Rightarrow> Panic p
           | Ok origin \<Rightarrow> Ok origin))"


section \<open>Authentication\<close>

record auth_token =
  Location :: int32
  AccountId :: int64
  Rand :: string
  Timeout :: int64
  Unencrypted :: bool
  tk_Color :: string
  tk_Status :: int32

record cs_handshake =
  Token :: string
  ServerId :: int64
  Pub :: bytes

record sc_handshake =
  StartIndex :: int32
  hs_Key :: bytes

record codec =
  un_Packet :: "bytes \<Rightarrow> packet res"
  un_CSHandshake :: "bytes \<Rightarrow> cs_handshake res"
  un_AuthToken :: "bytes \<Rightarrow> auth_token res"
  mar_SCHandshake :: "sc_handshake \<Rightarrow> bytes res"
  mar_Packet :: "packet \<Rightarrow> bytes res"
  Decompress :: "bytes \<Rightarrow> bytes res"

text \<open>The moment of a call: whether it is after a given Unix time, and its Unix seconds.\<close>

record clock =
  now_After :: "int64 \<Rightarrow> bool"
  now_Unix :: int64

definition SystemSeq_Handshake :: int32 where "SystemSeq_Handshake = 1"
definition ModuleID_Room :: int32 where "ModuleID_Room = 6"

definition decryptAccountToken :: "('k, 'p, 'b) crypto_lib \<Rightarrow> ('k, 'b) secrets \<Rightarrow> codec \<Rightarrow> string \<Rightarrow> auth_token res" where
  "decryptAccountToken L sec C token =
     (if length token \<le> 0 then Fail (Err ''token is empty'' [])
      else case DecryptToken L sec token of
             Fail e \<Rightarrow> Fail (Wrap ''token decrypt failed'' [] e)
           | Panic p \<Rightarrow> Panic p
           | Ok bs \<Rightarrow>
               (case un_AuthToken C bs of
                  Fail e \<Rightarrow> Fail (Wrap ''AuthToken proto decode failed'' [] e)
                | r \<Rightarrow> r))"

definition service_auth :: "('k, 'p, 'b) crypto_lib \<Rightarrow> ('k, 'b) secrets \<Rightarrow> codec \<Rightarrow> clock \<Rightarrow> string res \<Rightarrow> bool \<Rightarrow>
    string \<Rightarrow> int64 \<Rightarrow> (bytes \<times> 'b session) res" where
  "service_auth L sec C clk rnd encrypted authToken sid =
     (if length authToken \<le> 0 then Fail (Err ''[net.auth] token is empty'' [])
      else bind_res (decryptAccountToken L sec C authToken) (\<lambda>token.
        if now_After clk (Timeout token) then Fail (Err ''token expired'' [])
        else bind_res (InitApiCrypto L rnd) (\<lambda>(block, key).
          Ok (key, NewSession (AccountId token) sid (now_Unix clk) (Some block) key encrypted
                (tk_Color token) (scast (tk_Status token))))))"

text \<open>The reply packet, from the pool, and the two answers; \<open>ch\<close> chooses the pooled packet.\<close>

definition Auth :: "('k, 'p, 'b) crypto_lib \<Rightarrow> ('k, 'b) secrets \<Rightarrow> codec \<Rightarrow> clock \<Rightarrow> string res \<Rightarrow> bool \<Rightarrow> nat option \<Rightarrow>
    bytes \<Rightarrow> packet list \<Rightarrow> (bytes \<times> 'b session) res \<times> packet list" where
  "Auth L sec C clk rnd encrypted ch inb pl =
     (if length inb \<le> 0 then (Fail (Err ''proto is empty'' []), pl)
      else case (if encrypted then DecryptCSHandshake L sec inb else Ok inb) of
        Fail e \<Rightarrow> (Fail e, pl)
      | Panic p \<Rightarrow> (Panic p, pl)
      | Ok in1 \<Rightarrow>
      (case un_Packet C in1 of
        Fail e \<Rightarrow> (Fail e, pl)
      | Panic p \<Rightarrow> (Panic p, pl)
      | Ok inp \<Rightarrow>
      (if Seq inp \<noteq> SystemSeq_Handshake then (Fail (Err ''not handshake msg'' []), pl)
       else case un_CSHandshake C (Data inp) of
        Fail e \<Rightarrow> (Fail (Wrap ''CSHandshake decode failed'' [] e), pl)
      | Panic p \<Rightarrow> (Panic p, pl)
      | Ok cs \<Rightarrow>
      (case service_auth L sec C clk rnd encrypted (Token cs) (ServerId cs) of
        Fail e \<Rightarrow> (Fail e, pl)
      | Panic p \<Rightarrow> (Panic p, pl)
      | Ok (key, session) \<Rightarrow>
      (let (ci, session1) = IncreaseCSIndex session;
           sc = \<lparr>StartIndex = ucast ci, hs_Key = key\<rparr> in
       case mar_SCHandshake C sc of
        Fail e \<Rightarrow> (Fail (Wrap ''SCHandshake encode failed'' [] e), pl)
      | Panic p \<Rightarrow> (Panic p, pl)
      | Ok data \<Rightarrow>
      (let (oup0, pl1) = GetPacket ch pl;
           (si, session2) = IncreaseSCIndex session1;
           oup = oup0\<lparr>Index := ucast si, Mod := Mod inp, Seq := Seq inp, Data := data\<rparr>;
           pl2 = PutPacket (Some oup) pl1 in
       case mar_Packet C oup of
        Fail e \<Rightarrow> (Fail (Wrap ''Packet encode failed'' [] e), pl2)
      | Panic p \<Rightarrow> (Panic p, pl2)
      | Ok out \<Rightarrow>
      (if encrypted then
         (case rsa_ParsePublicKey L (Pub cs) of
            Fail e \<Rightarrow> (Fail (Wrap ''RSA public key decode failed'' [] e), pl2)
          | Panic p \<Rightarrow> (Panic p, pl2)
          | Ok pub \<Rightarrow>
              (case rsa_Encrypt L pub out of
                 Fail e \<Rightarrow> (Fail (Wrap ''Packet encrypt failed'' [] e), pl2)
               | Panic p \<Rightarrow> (Panic p, pl2)
               | Ok out' \<Rightarrow> (Ok (out', session2), pl2)))
       else (Ok (out, session2), pl2))))))))"

text \<open>\<^verbatim>\<open>OnConnected\<close> and \<^verbatim>\<open>OnDisconnect\<close> only log.\<close>

definition OnConnected :: "'b session \<Rightarrow> unit res" where "OnConnected ss = Ok ()"
definition OnDisconnect :: "'b session \<Rightarrow> unit res" where "OnDisconnect ss = Ok ()"


section \<open>Tunnels of a connection\<close>

definition TunnelType :: "int32 \<Rightarrow> int32 res" where
  "TunnelType md = (if md = ModuleID_Room then Ok RoomTunnelType else Ok PlayerTunnelType)"

text \<open>\<open>open_err\<close> gives the error of opening a stream of a kind, if any.\<close>

definition createAppTunnel :: "('st, 'cd) sync_ops \<Rightarrow> (int32 \<Rightarrow> gerr option) \<Rightarrow> nat \<Rightarrow> int32 \<Rightarrow> int64 \<Rightarrow>
    ('b, 'st, 'cd, 'z) gate_scheme \<Rightarrow> app_tunnel res \<times> ('b, 'st, 'cd, 'z) gate_scheme" where
  "createAppTunnel S open_err ss tp oid g =
     (if tp = PlayerTunnelType then player_NewTunnel S (open_err tp) ss g
      else if tp = RoomTunnelType then room_NewTunnel (open_err tp) oid ss g
      else (Fail (Err ''TunnelType invalid. TunnelType=%d uid=%d color=%s oid=%d''
                   [AInt (sint tp), AInt (sint (UID (sessions g ! ss))), AStr (Color (sessions g ! ss)), AInt (sint oid)]), g))"

definition CreateTunnel :: "('st, 'cd) sync_ops \<Rightarrow> (int32 \<Rightarrow> gerr option) \<Rightarrow> nat \<Rightarrow> int32 \<Rightarrow> int64 \<Rightarrow>
    ('b, 'st, 'cd, 'z) gate_scheme \<Rightarrow> nat res \<times> ('b, 'st, 'cd, 'z) gate_scheme" where
  "CreateTunnel S open_err ss tp oid g =
     (case createAppTunnel S open_err ss tp oid g of
        (Fail e, g1) \<Rightarrow> (Fail e, g1)
      | (Panic p, g1) \<Rightarrow> (Panic p, g1)
      | (Ok app, g1) \<Rightarrow> (case NewTunnel S app g1 of (t, g2) \<Rightarrow> (Ok t, g2)))"



section \<open>Handling requests\<close>

text \<open>
  The holder of tunnels a request is given: \<open>th_Tunnel\<close> (with the context) and \<open>t_Forward\<close> of the
  tunnel it returns, which may block (\<open>None\<close>). \<open>ss\<close> is the session, \<open>ch\<close> the choice of the pooled
  packet. The deferred call puts the packet back on every path that returns.
\<close>

type_synonym ('c, 'g) holder_tunnel = "'c \<Rightarrow> int32 \<Rightarrow> int64 \<Rightarrow> 'g \<Rightarrow> nat res \<times> 'g"
type_synonym 'g forward = "nat \<Rightarrow> fmsg \<Rightarrow> 'g \<Rightarrow> (unit res \<times> 'g) option"

definition put_back :: "packet \<Rightarrow> ('b, 'st, 'cd, 'z) gate_scheme \<Rightarrow> ('b, 'st, 'cd, 'z) gate_scheme" where
  "put_back p g = g\<lparr>pktPool := PutPacket (Some p) (pktPool g)\<rparr>"

definition mod_args :: "packet \<Rightarrow> garg list" where
  "mod_args p = [AInt (sint (Mod p)), AInt (sint (Seq p)), AInt (sint (Obj p))]"

text \<open>The check of the client index, which runs for encrypted sessions only.\<close>

definition check_index :: "nat \<Rightarrow> packet \<Rightarrow> ('b, 'st, 'cd, 'z) gate_scheme \<Rightarrow> unit res \<times> ('b, 'st, 'cd, 'z) gate_scheme" where
  "check_index ss p g =
     (let s = sessions g ! ss in
      if IsCrypto s then
        let index = CSIndex s in
        if index \<noteq> scast (Index p)
        then (Fail (Err ''csindex validation failed. want=%d give=%d'' [AInt (sint index), AInt (sint (Index p))]), g)
        else (Ok (), g\<lparr>sessions := (sessions g)[ss := snd (IncreaseCSIndex s)]\<rparr>)
      else (Ok (), g))"

definition service_handle ::
  "'c md_ops \<Rightarrow> codec \<Rightarrow> ('c, ('b, 'st, 'cd, 'z) gate_scheme) holder_tunnel \<Rightarrow> ('b, 'st, 'cd, 'z) gate_scheme forward \<Rightarrow>
   nat option \<Rightarrow> 'c \<Rightarrow> nat \<Rightarrow> bytes \<Rightarrow> ('b, 'st, 'cd, 'z) gate_scheme \<Rightarrow>
   (unit res \<times> ('b, 'st, 'cd, 'z) gate_scheme) option" where
  "service_handle M C th_Tunnel t_Forward ch ctx ss inb g =
     (case GetPacket ch (pktPool g) of (p0, pl) \<Rightarrow>
      let g0 = g\<lparr>pktPool := pl\<rparr> in
      case un_Packet C inb of
        Fail e \<Rightarrow> Some (Fail (Wrap ''packet unmarshal failed'' [] e), put_back p0 g0)
      | Panic q \<Rightarrow> Some (Panic q, put_back p0 g0)
      | Ok p \<Rightarrow>
      (case check_index ss p g0 of
        (Fail e, g1) \<Rightarrow> Some (Fail e, put_back p g1)
      | (Panic q, g1) \<Rightarrow> Some (Panic q, put_back p g1)
      | (Ok _, g1) \<Rightarrow>
      (case (if Compress p then Decompress C (Data p) else Ok (Data p)) of
        Fail e \<Rightarrow> Some (Fail (Wrap ''mod=%d seq=%d obj=%d'' (mod_args p) e), put_back p g1)
      | Panic q \<Rightarrow> Some (Panic q, put_back p g1)
      | Ok data \<Rightarrow>
      (let p1 = p\<lparr>Data := data\<rparr>;
           p2 = (if Obj p1 = 0 then p1\<lparr>Obj := UID (sessions g1 ! ss)\<rparr> else p1);
           ctx1 = SetOID_ctx M ctx (Obj p2) in
       case th_Tunnel ctx1 (Mod p2) (Obj p2) g1 of
        (Fail e, g2) \<Rightarrow> Some (Fail (Wrap ''mod=%d seq=%d obj=%d'' (mod_args p2) e), put_back p2 g2)
      | (Panic q, g2) \<Rightarrow> Some (Panic q, put_back p2 g2)
      | (Ok t, g2) \<Rightarrow>
          (case t_Forward t (FPacket p2) g2 of
             None \<Rightarrow> None
           | Some (Fail e, g3) \<Rightarrow> Some (Fail (Wrap ''mod=%d seq=%d obj=%d'' (mod_args p2) e), put_back p2 g3)
           | Some (r, g3) \<Rightarrow> Some (r, put_back p2 g3))))))"

definition service_Handle ::
  "'c md_ops \<Rightarrow> codec \<Rightarrow> ('c, ('b, 'st, 'cd, 'z) gate_scheme) holder_tunnel \<Rightarrow> ('b, 'st, 'cd, 'z) gate_scheme forward \<Rightarrow>
   nat option \<Rightarrow> 'c \<Rightarrow> nat \<Rightarrow> bytes \<Rightarrow> ('b, 'st, 'cd, 'z) gate_scheme \<Rightarrow>
   (unit res \<times> ('b, 'st, 'cd, 'z) gate_scheme) option" where
  "service_Handle M C th_Tunnel t_Forward ch ctx ss inb g =
     (case service_handle M C th_Tunnel t_Forward ch ctx ss inb g of
        Some (Fail e, g1) \<Rightarrow>
          Some (Fail (Wrap ''uid=%d color=%s status=%d''
            [AInt (sint (UID (sessions g1 ! ss))), AStr (Color (sessions g1 ! ss)), AInt (sint (Status (sessions g1 ! ss)))] e), g1)
      | r \<Rightarrow> r)"


section \<open>The worker as holder of tunnels\<close>

text \<open>\<^verbatim>\<open>Worker.Tunnel\<close>: the holder of the worker is one more field of its state.\<close>

record ('b, 'st, 'cd) wgate = "('b, 'st, 'cd) gate" +
  w_holder :: "nat holder"

definition tun_stopping :: "('st, 'cd) sync_ops \<Rightarrow> nat \<Rightarrow> ('b, 'st, 'cd, 'z) gate_scheme \<Rightarrow> bool" where
  "tun_stopping S t g \<longleftrightarrow> t < length (tunnels g) \<and> IsStopping S (t_stopper (tunnels g ! t))"

definition tun_triggered :: "('st, 'cd) sync_ops \<Rightarrow> nat \<Rightarrow> ('b, 'st, 'cd, 'z) gate_scheme \<Rightarrow> bool" where
  "tun_triggered S t g \<longleftrightarrow> t < length (tunnels g) \<and> StopTriggered S (t_stopper (tunnels g ! t))"

definition tun_trigger :: "('st, 'cd) sync_ops \<Rightarrow> nat \<Rightarrow> ('b, 'st, 'cd, 'z) gate_scheme \<Rightarrow> ('b, 'st, 'cd, 'z) gate_scheme" where
  "tun_trigger S t g =
     g\<lparr>tunnels := (tunnels g)[t := (tunnels g ! t)\<lparr>t_stopper := TriggerStop S (t_stopper (tunnels g ! t))\<rparr>]\<rparr>"

definition worker_Tunnel :: "('st, 'cd) sync_ops \<Rightarrow> (int32 \<Rightarrow> gerr option) \<Rightarrow> nat \<Rightarrow> int32 \<Rightarrow> int64 \<Rightarrow>
    ('b, 'st, 'cd, 'z) wgate_scheme \<Rightarrow> nat res \<times> ('b, 'st, 'cd, 'z) wgate_scheme" where
  "worker_Tunnel S open_err ss md oid g =
     (case TunnelType md of
        Fail e \<Rightarrow> (Fail e, g)
      | Panic p \<Rightarrow> (Panic p, g)
      | Ok tp \<Rightarrow>
          (case h_tunnel (tun_stopping S) tp oid (w_holder g) g of
             Some t \<Rightarrow> (Ok t, g)
           | None \<Rightarrow>
               (case createTunnel (tun_stopping S) (CreateTunnel S open_err ss) tp oid (w_holder g) g of
                  (r, h, g1) \<Rightarrow> (r, g1\<lparr>w_holder := h\<rparr>))))"



section \<open>One tunnel per key\<close>

lemma createAppTunnel_tunnels: "tunnels (snd (createAppTunnel S open_err ss tp oid g)) = tunnels g"
  by (simp add: createAppTunnel_def player_NewTunnel_def room_NewTunnel_def new_stream_def Let_def split: option.splits)

lemma CreateTunnel_tunnels:
  "\<exists>ts. tunnels (snd (CreateTunnel S open_err ss tp oid g)) = tunnels g @ ts"
  using createAppTunnel_tunnels [of S open_err ss tp oid g]
  by (auto simp: CreateTunnel_def NewTunnel_def split: res.splits prod.splits)

interpretation gate_factory: tunnel_factory "tun_stopping S" "CreateTunnel S open_err ss" for S open_err ss
proof
  show "tun_stopping S t (snd (CreateTunnel S open_err ss tp oid w))" if "tun_stopping S t w" for t w tp oid
    using that CreateTunnel_tunnels [of S open_err ss tp oid w] by (auto simp: tun_stopping_def nth_append)
qed

interpretation gate_stoppable: stoppable_tunnels "tun_triggered S" "tun_trigger S" "\<lambda>t g. sync_laws S \<and> t < length (tunnels g)" for S
proof (unfold_locales, goal_cases)
  case (1 t w)
  then show ?case by (simp add: tun_triggered_def tun_trigger_def sync_laws_def)
next
  case (2 t w u)
  then show ?case by (cases "u = t") (simp_all add: tun_triggered_def tun_trigger_def sync_laws_def)
next
  case (3 t w u)
  then show ?case by (simp add: tun_trigger_def)
qed

text \<open>
  C18: At most one live tunnel per type and object. However the requests of a connection for
  tunnels interleave, each looking up under the read lock and then creating under the write
  lock, and whenever tunnels start to stop in between: two requests for the same type and object
  that both hold a tunnel that is not stopping hold the same tunnel.
\<close>

theorem one_live_tunnel_per_key:
  assumes "(tunnel_step (tun_stopping S) (CreateTunnel S open_err ss))\<^sup>*\<^sup>* (tunnel_start g ks) s"
    and "((tp, oid), Got t) \<in> set (ts_reqs s)" and "((tp, oid), Got u) \<in> set (ts_reqs s)"
    and "\<not> tun_stopping S t (ts_world s)" and "\<not> tun_stopping S u (ts_world s)"
  shows "t = u"
  using gate_factory.one_live_tunnel [OF assms] .


definition empty_gate :: "(unit, bool \<times> bool, int64) gate" where
  "empty_gate = \<lparr>sessions = [NewSession 7 1 0 None [] True ''red'' 0], pktPool = [], playerMsgs = [], roomMsgs = [],
     streams = [], tunnels = [], countdown = 0, routeDeletes = []\<rparr>"

theorem one_live_tunnel_per_key_witness:
  "\<exists>s t u. (tunnel_step (tun_stopping flag_sync) (CreateTunnel flag_sync (\<lambda>_. None) 0))\<^sup>*\<^sup>*
       (tunnel_start empty_gate [(1, 9), (1, 9)]) s \<and>
     ts_reqs s = [((1, 9), Got t), ((1, 9), Got u)] \<and> \<not> tun_stopping flag_sync t (ts_world s) \<and> t = u"
proof -
  let ?st = "tunnel_step (tun_stopping flag_sync) (CreateTunnel flag_sync (\<lambda>_. None) 0)"
  let ?h = "newTunnelHolder :: nat holder"
  obtain h1 g1 where c: "createTunnel (tun_stopping flag_sync) (CreateTunnel flag_sync (\<lambda>_. None) 0) 1 9 ?h empty_gate
      = (Ok 0, h1, g1)" "held h1 1 9 = Some 0" "\<not> tun_stopping flag_sync 0 g1"
    by (simp add: createTunnel_def ensure_group_def newTunnelHolder_def CreateTunnel_def createAppTunnel_def
      room_NewTunnel_def new_stream_def NewTunnel_def empty_gate_def PlayerTunnelType_def RoomTunnelType_def Let_def
      held_def tun_stopping_def flag_sync_def)
  from createTunnel_live [where IsStopping = "tun_stopping flag_sync" and create = "CreateTunnel flag_sync (\<lambda>_. None) 0", OF c(2,3)]
  obtain h2 where d: "createTunnel (tun_stopping flag_sync) (CreateTunnel flag_sync (\<lambda>_. None) 0) 1 9 h1 g1 = (Ok 0, h2, g1)"
    by blast
  let ?s0 = "tunnel_start empty_gate [(1, 9), (1, 9)]"
  let ?s1 = "\<lparr>ts_holder = ?h, ts_world = empty_gate, ts_reqs = [((1, 9), Missed), ((1, 9), Asking)]\<rparr>"
  let ?s2 = "\<lparr>ts_holder = ?h, ts_world = empty_gate, ts_reqs = [((1, 9), Missed), ((1, 9), Missed)]\<rparr>"
  let ?s3 = "\<lparr>ts_holder = h1, ts_world = g1, ts_reqs = [((1, 9), Got 0), ((1, 9), Missed)]\<rparr>"
  let ?s4 = "\<lparr>ts_holder = h2, ts_world = g1, ts_reqs = [((1, 9), Got 0), ((1, 9), Got 0)]\<rparr>"
  have "?st ?s0 ?s1"
    using tunnel_step.miss [of 0 ?s0 1 9 "tun_stopping flag_sync"] by (simp add: tunnel_start_def h_tunnel_held)
  moreover have "?st ?s1 ?s2"
    using tunnel_step.miss [of 1 ?s1 1 9 "tun_stopping flag_sync"] by (simp add: h_tunnel_held)
  moreover have "?st ?s2 ?s3"
    using tunnel_step.made [of 0 ?s2 1 9 "tun_stopping flag_sync", OF _ _ _] c(1) by (simp add: tunnel_step.made)
  moreover have "?st ?s3 ?s4"
    using tunnel_step.made [of 1 ?s3 1 9 "tun_stopping flag_sync" _ 0 h2 g1] d by simp
  ultimately have r: "?st\<^sup>*\<^sup>* ?s0 ?s4"
    by (meson converse_rtranclp_into_rtranclp rtranclp.rtrancl_refl)
  from one_live_tunnel_per_key [OF r, of 1 9 0 0] r c(3) show ?thesis by force
qed



section \<open>The client index\<close>

text \<open>What the handling of a request relies on: looking up or creating a tunnel and forwarding to
  it leave the sessions alone.\<close>

locale session_keeper =
  fixes th_Tunnel :: "('c, ('b, 'st, 'cd, 'z) gate_scheme) holder_tunnel"
    and t_Forward :: "('b, 'st, 'cd, 'z) gate_scheme forward"
  assumes tunnel_sessions: "sessions (snd (th_Tunnel c md oid g)) = sessions g"
    and forward_sessions: "t_Forward t f g = Some (r, g') \<Longrightarrow> sessions g' = sessions g"
begin

text \<open>Either the index matched and the counter went up, or the request was refused and the
  sessions are unchanged.\<close>

lemma handle_sessions:
  assumes "service_Handle M C th_Tunnel t_Forward ch ctx ss inb g = Some (r, g')" and "IsCrypto (sessions g ! ss)"
  shows "(\<exists>p. un_Packet C inb = Ok p \<and> scast (Index p) = CSIndex (sessions g ! ss) \<and>
      sessions g' = (sessions g)[ss := snd (IncreaseCSIndex (sessions g ! ss))]) \<or>
    (\<forall>x. r \<noteq> Ok x) \<and> sessions g' = sessions g \<and>
      (\<forall>p. un_Packet C inb = Ok p \<longrightarrow> scast (Index p) \<noteq> CSIndex (sessions g ! ss))"
proof -
  obtain r0 where h: "service_handle M C th_Tunnel t_Forward ch ctx ss inb g = Some (r0, g')" "(\<exists>x. r = Ok x) \<longrightarrow> (\<exists>x. r0 = Ok x)"
    using assms(1) by (auto simp: service_Handle_def split: option.splits res.splits prod.splits)
  obtain p0 pl where gp: "GetPacket ch (pktPool g) = (p0, pl)" by fastforce
  let ?g0 = "g\<lparr>pktPool := pl\<rparr>"
  show ?thesis
  proof (cases "un_Packet C inb")
    case (Ok p)
    show ?thesis
    proof (cases "scast (Index p) = CSIndex (sessions g ! ss)")
      case True
      let ?g1 = "?g0\<lparr>sessions := (sessions g)[ss := snd (IncreaseCSIndex (sessions g ! ss))]\<rparr>"
      have c: "check_index ss p ?g0 = (Ok (), ?g1)"
        using True assms(2) by (simp add: check_index_def Let_def)
      have keep: "sessions g' = sessions ?g1"
        using h(1) tunnel_sessions [where g = ?g1] forward_sessions
        unfolding service_handle_def gp prod.case Let_def Ok c res.case
        by (auto simp: put_back_def split: res.splits prod.splits option.splits if_splits) (metis snd_conv)+
      with Ok True show ?thesis by auto
    next
      case False
      then have "fst (check_index ss p ?g0) \<noteq> Ok ()" "snd (check_index ss p ?g0) = ?g0"
        using assms(2) by (auto simp: check_index_def Let_def)
      then obtain e where "check_index ss p ?g0 = (Fail e, ?g0)"
        using False assms(2) by (auto simp: check_index_def Let_def)
      then show ?thesis
        using h Ok False by (auto simp: service_handle_def gp Let_def put_back_def)
    qed
  next
    case (Fail e)
    then show ?thesis using h by (auto simp: service_handle_def gp Let_def put_back_def)
  next
    case (Panic q)
    then show ?thesis using h by (auto simp: service_handle_def gp Let_def put_back_def)
  qed
qed

end

text \<open>Handling requests one after the other until one is not accepted; each request has its
  context and its choice of pooled packet.\<close>

fun handle_all :: "('q \<Rightarrow> 'g \<Rightarrow> (unit res \<times> 'g) option) \<Rightarrow> 'q list \<Rightarrow> 'g \<Rightarrow> 'g option" where
  "handle_all h [] g = Some g"
| "handle_all h (x # xs) g =
     (case h x g of Some (Ok _, g1) \<Rightarrow> handle_all h xs g1 | _ \<Rightarrow> None)"

context session_keeper
begin

lemma handle_all_indices:
  assumes "handle_all (\<lambda>(ch, ctx, inb). service_Handle M C th_Tunnel t_Forward ch ctx ss inb) qs g = Some g'"
    and "IsCrypto (sessions g ! ss)" and "ss < length (sessions g)"
  shows "\<forall>i < length qs. \<exists>p. un_Packet C (snd (snd (qs ! i))) = Ok p \<and>
      scast (Index p) = CSIndex (sessions g ! ss) + of_nat i"
  using assms
proof (induction qs arbitrary: g)
  case (Cons q qs)
  obtain ch ctx inb where q: "q = (ch, ctx, inb)" by (metis prod.collapse)
  from Cons.prems(1) q obtain x g1 where
    h: "service_Handle M C th_Tunnel t_Forward ch ctx ss inb g = Some (Ok x, g1)"
    and r: "handle_all (\<lambda>(ch, ctx, inb). service_Handle M C th_Tunnel t_Forward ch ctx ss inb) qs g1 = Some g'"
    by (auto split: option.splits res.splits prod.splits)
  from handle_sessions [OF h Cons.prems(2)] obtain p where
    p: "un_Packet C inb = Ok p" "scast (Index p) = CSIndex (sessions g ! ss)"
      "sessions g1 = (sessions g)[ss := snd (IncreaseCSIndex (sessions g ! ss))]"
    by auto
  have s1: "IsCrypto (sessions g1 ! ss)" "ss < length (sessions g1)"
    "CSIndex (sessions g1 ! ss) = CSIndex (sessions g ! ss) + 1"
    using Cons.prems(2,3) by (simp_all add: p(3) session_defs)
  show ?case
  proof (intro allI impI)
    fix i
    assume i: "i < length (q # qs)"
    show "\<exists>p. un_Packet C (snd (snd ((q # qs) ! i))) = Ok p \<and> scast (Index p) = CSIndex (sessions g ! ss) + of_nat i"
    proof (cases i)
      case 0
      then show ?thesis using p q by simp
    next
      case (Suc j)
      with Cons.IH [OF r s1(1,2)] i s1(3) show ?thesis by (auto simp: ac_simps)
    qed
  qed
qed simp

end

lemma CreateTunnel_sessions: "sessions (snd (CreateTunnel S open_err ss tp oid g)) = sessions g"
  by (simp add: CreateTunnel_def createAppTunnel_def player_NewTunnel_def room_NewTunnel_def new_stream_def NewTunnel_def Let_def
    split: res.splits prod.splits option.splits)

lemma worker_Tunnel_sessions: "sessions (snd (worker_Tunnel S open_err ss md oid g)) = sessions g"
proof -
  have "sessions (snd (snd (createTunnel (tun_stopping S) (CreateTunnel S open_err ss) tp oid h g))) = sessions g" for tp h
    using CreateTunnel_sessions [of S open_err ss tp oid g]
      createTunnel_world [of "tun_stopping S" "CreateTunnel S open_err ss" tp oid h g] by auto
  then show ?thesis
    by (auto simp: worker_Tunnel_def split: res.splits option.splits prod.splits) (metis snd_conv)
qed

lemma Forward_sessions: "Forward S ch t f g = Some (r, g') \<Longrightarrow> sessions g' = sessions g"
proof -
  assume f: "Forward S ch t f g = Some (r, g')"
  have "sessions (snd (TransformMessage ch a p g)) = sessions g" for a p
    by (cases a) (simp_all add: Let_def split: prod.splits)
  then have "sessions (snd (t_transform ch t f g)) = sessions g"
    by (simp add: t_transform_def split: fmsg.splits prod.splits) (metis snd_conv)
  with f show ?thesis
    by (auto simp: Forward_def csChan_send_def Let_def split: if_splits res.splits prod.splits)
qed

interpretation worker_keeper: session_keeper "\<lambda>_. worker_Tunnel S open_err ss" "Forward S ch" for S open_err ss ch
  by unfold_locales (auto simp: worker_Tunnel_sessions dest: Forward_sessions)

lemma index_below: "sint (scast (x :: int32) :: int64) < 2 ^ 31"
proof -
  have r: "- (2 ^ 31) \<le> sint x" "sint x < 2 ^ 31"
    using sint_greater_eq [of x] sint_less [of x] by simp_all
  then have "signed_take_bit 63 (sint x) = sint x"
    by (intro signed_take_bit_int_eq_self) simp_all
  then show ?thesis
    using r by (simp add: signed_scast_eq signed_take_bit_int_eq_self)
qed

text \<open>
  C14: An encrypted session accepts every client packet at most once and in order. If a worker
  accepts a sequence of requests, then the i-th of them (from 0) is a packet whose index is the
  client index of the session plus i. So no packet is accepted twice, and none is skipped. And
  since the index of a packet has 32 bits while the counter has 64, a session that starts at
  index 1 never accepts more than 2 ^ 31 - 1 packets: after that every further packet is refused.
\<close>

theorem accepted_packets_consecutive:
  assumes "handle_all (\<lambda>(ch, ctx, inb). service_Handle M C (\<lambda>_. worker_Tunnel S open_err ss) (Forward S fch) ch ctx ss inb) qs g = Some g'"
    and "IsCrypto (sessions g ! ss)" and "ss < length (sessions g)" and "CSIndex (sessions g ! ss) = 1"
  shows "(\<forall>i < length qs. \<exists>p. un_Packet C (snd (snd (qs ! i))) = Ok p \<and> scast (Index p) = (1 :: int64) + of_nat i) \<and>
    distinct (map (snd \<circ> snd) qs) \<and> length qs \<le> 2 ^ 31 - 1"
proof -
  note idx = worker_keeper.handle_all_indices [OF assms(1-3), unfolded assms(4)]
  have len: "length qs \<le> 2 ^ 31 - 1"
  proof (rule ccontr)
    assume "\<not> length qs \<le> 2 ^ 31 - 1"
    then have "(2 :: nat) ^ 31 - 1 < length qs" by simp
    with idx obtain p :: packet where "scast (Index p) = (1 :: int64) + of_nat (2 ^ 31 - 1)" by blast
    then have "sint (scast (Index p) :: int64) = 2 ^ 31" by simp
    with index_below [of "Index p"] show False by simp
  qed
  have "distinct (map (snd \<circ> snd) qs)"
    unfolding distinct_conv_nth
  proof (intro allI impI notI)
    fix i j
    assume ij: "i < length (map (snd \<circ> snd) qs)" "j < length (map (snd \<circ> snd) qs)" "i \<noteq> j"
      and eq: "map (snd \<circ> snd) qs ! i = map (snd \<circ> snd) qs ! j"
    from idx ij(1) obtain p where p: "un_Packet C (snd (snd (qs ! i))) = Ok p" "scast (Index p) = (1 :: int64) + of_nat i" by auto
    from idx ij(2) obtain q where q: "un_Packet C (snd (snd (qs ! j))) = Ok q" "scast (Index q) = (1 :: int64) + of_nat j" by auto
    have "snd (snd (qs ! i)) = snd (snd (qs ! j))" using eq ij by simp
    with p q have "(of_nat i :: int64) = of_nat j" by simp
    moreover have "i < 2 ^ 64" "j < 2 ^ 64" using ij len by auto
    ultimately have "i = j" by (simp add: word_of_nat_eq_iff take_bit_nat_eq_self)
    with ij(3) show False by blast
  qed
  with idx len show ?thesis by blast
qed


text \<open>A codec whose packets are two bytes (index and data), and the state of a worker right after
  the handshake of an encrypted session.\<close>

definition tiny_codec :: codec where
  "tiny_codec = \<lparr>un_Packet = (\<lambda>b. case b of [i, d] \<Rightarrow> Ok (zero_packet\<lparr>Index := ucast i, Data := [d]\<rparr>) | _ \<Rightarrow> Fail (Err ''bad'' [])),
     un_CSHandshake = (\<lambda>b. Ok \<lparr>Token = ''t'', ServerId = 3, Pub = []\<rparr>),
     un_AuthToken = (\<lambda>b. Ok \<lparr>Location = 0, AccountId = 7, Rand = [], Timeout = 100, Unencrypted = False, tk_Color = ''red'', tk_Status = 1\<rparr>),
     mar_SCHandshake = (\<lambda>h. Ok (be32 (StartIndex h) @ hs_Key h)), mar_Packet = (\<lambda>p. Ok (be32 (Index p) @ Data p)),
     Decompress = Ok\<rparr>"

definition after_handshake :: "(unit, bool \<times> bool, int64) wgate" where
  "after_handshake = \<lparr>sessions = [snd (IncreaseCSIndex (NewSession 7 1 0 None [] True ''red'' 0))], pktPool = [], playerMsgs = [],
     roomMsgs = [], streams = [], tunnels = [], countdown = 0, routeDeletes = [], w_holder = newTunnelHolder\<rparr>"

lemmas handle_eval = service_Handle_def service_handle_def check_index_def worker_Tunnel_def TunnelType_def h_tunnel_def
  createTunnel_def ensure_group_def newTunnelHolder_def CreateTunnel_def createAppTunnel_def player_NewTunnel_def new_stream_def
  NewTunnel_def Forward_def t_transform_def csChan_send_def GetPacket_def pool_get_def put_back_def PutPacket_def pool_put_def
  player_getMessage_def fill_message_def tun_stopping_def PlayerTunnelType_def ModuleID_Room_def base_NewTunnel_def session_defs NewSession_def
  newIndexInfo_def

theorem accepted_packets_consecutive_witness:
  "\<exists>g'. handle_all (\<lambda>(ch, ctx, inb). service_Handle plain_md tiny_codec (\<lambda>_. worker_Tunnel flag_sync (\<lambda>_. None) 0) (Forward flag_sync None) ch ctx 0 inb)
      [(None, \<lambda>_. [], [1, 5]), (None, \<lambda>_. [], [2, 5])] after_handshake = Some g' \<and>
    distinct (map (snd \<circ> snd) [(None :: nat option, \<lambda>_ :: string. [] :: string, [1, 5] :: bytes), (None, \<lambda>_. [], [2, 5])])"
proof -
  let ?qs = "[(None :: nat option, \<lambda>_ :: string. [] :: string, [1, 5] :: bytes), (None, \<lambda>_. [], [2, 5])]"
  obtain g' where "handle_all (\<lambda>(ch, ctx, inb). service_Handle plain_md tiny_codec (\<lambda>_. worker_Tunnel flag_sync (\<lambda>_. None) 0) (Forward flag_sync None) ch ctx 0 inb)
      ?qs after_handshake = Some g'"
    by (simp add: handle_eval after_handshake_def tiny_codec_def flag_sync_def zero_packet_def plain_md_def SetOID_ctx_def Let_def)
  moreover have "IsCrypto (sessions after_handshake ! 0)" "0 < length (sessions after_handshake)" "CSIndex (sessions after_handshake ! 0) = 1"
    by (simp_all add: after_handshake_def session_defs NewSession_def newIndexInfo_def)
  ultimately show ?thesis
    using accepted_packets_consecutive [of plain_md tiny_codec flag_sync "\<lambda>_. None" 0 None ?qs after_handshake g'] by blast
qed



section \<open>What authentication guarantees\<close>

lemma service_auth_Ok:
  assumes "service_auth L sec C clk rnd enc tok sid = Ok (key, ss)"
  obtains token block where "decryptAccountToken L sec C tok = Ok token" and "\<not> now_After clk (Timeout token)"
    and "InitApiCrypto L rnd = Ok (block, key)"
    and "ss = NewSession (AccountId token) sid (now_Unix clk) (Some block) key enc (tk_Color token) (scast (tk_Status token))"
  using assms by (auto simp: service_auth_def bind_res_Ok_conv split: if_splits)

lemma Auth_Ok:
  assumes "Auth L sec C clk rnd enc ch inb pl = (Ok (out, ss), pl')" and "blank zero_packet pl"
  shows "\<exists>in1 inp cs token block key data reply.
    (if enc then rsa_Decrypt L (handshakePriKey sec) inb = Ok in1 else in1 = inb) \<and>
    un_Packet C in1 = Ok inp \<and> Seq inp = SystemSeq_Handshake \<and> un_CSHandshake C (Data inp) = Ok cs \<and>
    decryptAccountToken L sec C (Token cs) = Ok token \<and> \<not> now_After clk (Timeout token) \<and>
    InitApiCrypto L rnd = Ok (block, key) \<and>
    UID ss = AccountId token \<and> SID ss = ServerId cs \<and> Color ss = tk_Color token \<and> Status ss = scast (tk_Status token) \<and>
    IsCrypto ss = enc \<and> Key ss = key \<and> Block ss = Some block \<and> CSIndex ss = 1 \<and> SCIndex ss = 2 \<and>
    mar_SCHandshake C \<lparr>StartIndex = ucast (CSIndex ss), hs_Key = key\<rparr> = Ok data \<and>
    mar_Packet C (zero_packet\<lparr>Index := 2, Mod := Mod inp, Seq := Seq inp, Data := data\<rparr>) = Ok reply \<and>
    (if enc then \<exists>pub. rsa_ParsePublicKey L (Pub cs) = Ok pub \<and> rsa_Encrypt L pub reply = Ok out else out = reply) \<and>
    blank zero_packet pl'"
proof -
  obtain pl1 where gp: "GetPacket ch pl = (zero_packet, pl1)" and b1: "blank zero_packet pl1"
    using packet_pool.get_zero [OF assms(2)] by blast
  have b2: "blank zero_packet (PutPacket q pl1)" for q
    using packet_pool.put_blank [OF b1] .
  obtain in1 where i: "(if enc then DecryptCSHandshake L sec inb else Ok inb) = Ok in1"
    using assms(1) by (auto simp: Auth_def split: if_splits res.splits)
  obtain inp where u: "un_Packet C in1 = Ok inp" "Seq inp = SystemSeq_Handshake"
    using assms(1) i by (auto simp: Auth_def split: if_splits res.splits)
  obtain cs where c: "un_CSHandshake C (Data inp) = Ok cs"
    using assms(1) i u by (auto simp: Auth_def split: if_splits res.splits)
  obtain key s0 where a: "service_auth L sec C clk rnd enc (Token cs) (ServerId cs) = Ok (key, s0)"
    using assms(1) i u c by (auto simp: Auth_def split: if_splits res.splits)
  obtain token block where t: "decryptAccountToken L sec C (Token cs) = Ok token" "\<not> now_After clk (Timeout token)"
    "InitApiCrypto L rnd = Ok (block, key)"
    "s0 = NewSession (AccountId token) (ServerId cs) (now_Unix clk) (Some block) key enc (tk_Color token) (scast (tk_Status token))"
    using service_auth_Ok [OF a] by blast
  obtain data where d: "mar_SCHandshake C \<lparr>StartIndex = 1, hs_Key = key\<rparr> = Ok data"
    using assms(1) i u c a
    by (auto simp: Auth_def session_defs t(4) NewSession_def newIndexInfo_def split: if_splits res.splits)
  obtain reply where m: "mar_Packet C (zero_packet\<lparr>Index := 2, Mod := Mod inp, Seq := Seq inp, Data := data\<rparr>) = Ok reply"
    using assms(1) i u c a d
    by (auto simp: Auth_def session_defs t(4) NewSession_def newIndexInfo_def gp Let_def split: if_splits res.splits)
  have r: "(if enc then \<exists>pub. rsa_ParsePublicKey L (Pub cs) = Ok pub \<and> rsa_Encrypt L pub reply = Ok out else out = reply)"
    "ss = s0\<lparr>csIndex := \<lparr>ix_start = 0, ix_index = 1\<rparr>, scIndex := \<lparr>ix_start = 1, ix_index = 2\<rparr>\<rparr>"
    "pl' = PutPacket (Some (zero_packet\<lparr>Index := 2, Mod := Mod inp, Seq := Seq inp, Data := data\<rparr>)) pl1"
    using assms(1) i u c a d m
    by (auto simp: Auth_def session_defs t(4) NewSession_def newIndexInfo_def gp Let_def split: if_splits res.splits)
  have f: "UID ss = AccountId token" "SID ss = ServerId cs" "Color ss = tk_Color token" "Status ss = scast (tk_Status token)"
    "IsCrypto ss = enc" "Key ss = key" "Block ss = Some block" "CSIndex ss = 1" "SCIndex ss = 2"
    by (simp_all add: r(2) t(4) NewSession_def session_defs)
  have i': "if enc then rsa_Decrypt L (handshakePriKey sec) inb = Ok in1 else in1 = inb"
    using i by (simp add: DecryptCSHandshake_def split: if_splits)
  have d': "mar_SCHandshake C \<lparr>StartIndex = ucast (CSIndex ss), hs_Key = key\<rparr> = Ok data"
    using d by (simp add: f(8))
  show ?thesis
    using i' u c t(1-3) f d' m r(1) b2 r(3) by (intro exI conjI) (assumption | simp)+
qed

text \<open>
  C6: A session is only given to the holder of a valid token. If authentication succeeds, the
  request was a handshake packet (decrypted with the private key of the gate when the gate
  encrypts) whose token decrypts under the token key and is not expired; the session belongs to
  the account of that token, on the server the client asked for, with the color and status of
  the token, a fresh key, client index 1 and server index 2; and the reply that is encoded for
  the client carries that key and, as start index, exactly the client index the session expects
  next.
\<close>

theorem auth_sound:
  assumes "Auth L sec C clk rnd enc ch inb pl = (Ok (out, ss), pl')" and "blank zero_packet pl"
  shows "\<exists>in1 inp cs token block key data reply.
    (if enc then rsa_Decrypt L (handshakePriKey sec) inb = Ok in1 else in1 = inb) \<and>
    un_Packet C in1 = Ok inp \<and> Seq inp = SystemSeq_Handshake \<and> un_CSHandshake C (Data inp) = Ok cs \<and>
    decryptAccountToken L sec C (Token cs) = Ok token \<and> \<not> now_After clk (Timeout token) \<and>
    InitApiCrypto L rnd = Ok (block, key) \<and>
    UID ss = AccountId token \<and> SID ss = ServerId cs \<and> Color ss = tk_Color token \<and> Status ss = scast (tk_Status token) \<and>
    IsCrypto ss = enc \<and> Key ss = key \<and> Block ss = Some block \<and> CSIndex ss = 1 \<and> SCIndex ss = 2 \<and>
    mar_SCHandshake C \<lparr>StartIndex = ucast (CSIndex ss), hs_Key = key\<rparr> = Ok data \<and>
    mar_Packet C (zero_packet\<lparr>Index := 2, Mod := Mod inp, Seq := Seq inp, Data := data\<rparr>) = Ok reply \<and>
    (if enc then \<exists>pub. rsa_ParsePublicKey L (Pub cs) = Ok pub \<and> rsa_Encrypt L pub reply = Ok out else out = reply) \<and>
    blank zero_packet pl'"
  using Auth_Ok [OF assms] .


definition plain_crypto :: "(unit, unit, unit) crypto_lib" where
  "plain_crypto = \<lparr>base64_Decode = (\<lambda>s. Ok (str_bytes s)), x509_Parse = (\<lambda>_. Ok (Some ())), aes_NewBlock = (\<lambda>_. Ok ()),
     aes_Decrypt = (\<lambda>k b x. Ok x), rsa_Decrypt = (\<lambda>k x. Ok x), rsa_ParsePublicKey = (\<lambda>x. Ok ()), rsa_Encrypt = (\<lambda>k x. Ok x)\<rparr>"

theorem auth_sound_witness:
  "\<exists>out ss pl'. Auth plain_crypto \<lparr>handshakePriKey = Some (), tokenAESKey = [], tokenAESBlock = Some ()\<rparr>
      (tiny_codec\<lparr>un_Packet := (\<lambda>b. Ok (zero_packet\<lparr>Seq := 1, Data := b\<rparr>))\<rparr>) \<lparr>now_After = (\<lambda>t. t <s 50), now_Unix = 50\<rparr> (Ok ''k'') True (Some 0) [9] [zero_packet]
     = (Ok (out, ss), pl') \<and> UID ss = 7 \<and> CSIndex ss = 1 \<and> blank zero_packet pl'"
proof -
  let ?C = "tiny_codec\<lparr>un_Packet := (\<lambda>b. Ok (zero_packet\<lparr>Seq := 1, Data := b\<rparr>))\<rparr>"
  let ?sec = "\<lparr>handshakePriKey = Some (), tokenAESKey = [], tokenAESBlock = Some ()\<rparr>"
  let ?clk = "\<lparr>now_After = (\<lambda>t :: int64. t <s 50), now_Unix = 50\<rparr>"
  have "\<exists>out ss pl'. Auth plain_crypto ?sec ?C ?clk (Ok ''k'') True (Some 0) [9] [zero_packet] = (Ok (out, ss), pl')"
    by (simp add: Auth_def tiny_codec_def plain_crypto_def DecryptCSHandshake_def SystemSeq_Handshake_def service_auth_def
      decryptAccountToken_def DecryptToken_def InitApiCrypto_def GetPacket_def pool_get_def session_defs word_sless_alt Let_def)
  then obtain out ss pl' where a: "Auth plain_crypto ?sec ?C ?clk (Ok ''k'') True (Some 0) [9] [zero_packet] = (Ok (out, ss), pl')"
    by blast
  have "blank zero_packet [zero_packet]" by (simp add: blank_def)
  from auth_sound [OF a this] obtain cs token where
    t: "un_CSHandshake ?C (Data (zero_packet\<lparr>Seq := 1, Data := [9]\<rparr>)) = Ok cs" "decryptAccountToken plain_crypto ?sec ?C (Token cs) = Ok token"
      "UID ss = AccountId token" "CSIndex ss = 1" "blank zero_packet pl'"
    by (auto simp: tiny_codec_def)
  then have "UID ss = 7"
    by (auto simp: tiny_codec_def decryptAccountToken_def DecryptToken_def plain_crypto_def)
  with a t(4,5) show ?thesis by blast
qed

end
