(* ===== verification/Worker.thy ===== *)
theory Worker
  imports Frame Service Conf
begin

text \<open>
  The worker of a connection (\<^verbatim>\<open>pkg/net/internal/worker.go\<close>). Its state extends that of its
  tunnels and their holder by the reader with the memory it uses, the bytes written to the
  connection, and the channel of replies.

  Parameters stand for what is outside: the AES routines \<open>E\<close> and \<open>D\<close>, the outcome \<open>wr\<close> of writing to
  the connection, the service (\<open>auth\<close>, \<open>handle\<close>, ...), the filters, and the errors of setting
  deadlines. A result \<open>None\<close> is a call that blocks in that state. Log lines and the deadlines
  themselves are left out.
\<close>

section \<open>State\<close>

record ('b, 'st, 'cd) worker = "('b, 'st, 'cd) wgate" +
  w_conf :: conf_Worker
  w_referer :: string
  w_id :: uint64
  w_remote :: "string option option"
  w_stopper :: 'st
  w_started :: bool
  w_session :: nat
  w_reader :: reader
  w_mem :: mem
  w_sent :: bytes
  w_connClosed :: bool
  replyChan :: "bytes list"
  replyClosed :: bool
  replyChanStarted :: bool
  replyChanCompleted :: bool

text \<open>The object pools are shared by all workers; a new worker is given them as they are.\<close>

definition NewWorker :: "('st, 'cd) sync_ops \<Rightarrow> uint64 \<Rightarrow> string option option \<Rightarrow> conf_Worker \<Rightarrow> string \<Rightarrow>
    packet list \<Rightarrow> message list \<Rightarrow> message list \<Rightarrow> nat option \<Rightarrow> rdev list \<Rightarrow> mem \<Rightarrow> ('b, 'st, 'cd) worker res" where
  "NewWorker S wid remote cfg referer pkts pms rms ch input m =
     (if ReplyChanSize cfg < 0 then Panic ''makechan: size out of range''
      else case NewReader ch input (ReaderBufSize cfg) m of
        (Fail e, _) \<Rightarrow> Fail e
      | (Panic p, _) \<Rightarrow> Panic p
      | (Ok r, m1) \<Rightarrow>
          Ok \<lparr>sessions = [DefaultSession], pktPool = pkts, playerMsgs = pms, roomMsgs = rms, streams = [], tunnels = [],
              countdown = NewCountdown S, routeDeletes = [], w_holder = newTunnelHolder,
              w_conf = cfg, w_referer = referer, w_id = wid, w_remote = remote, w_stopper = NewStopper S (wk_StopTimeout cfg),
              w_started = False, w_session = 0, w_reader = r, w_mem = m1, w_sent = [], w_connClosed = False,
              replyChan = [], replyClosed = False, replyChanStarted = False, replyChanCompleted = False\<rparr>)"

definition cur_session :: "('b, 'st, 'cd, 'z) worker_scheme \<Rightarrow> 'b session" where
  "cur_session w = sessions w ! w_session w"

definition w_UID :: "('b, 'st, 'cd, 'z) worker_scheme \<Rightarrow> int64" where "w_UID w = UID (cur_session w)"
definition w_SID :: "('b, 'st, 'cd, 'z) worker_scheme \<Rightarrow> int64" where "w_SID w = SID (cur_session w)"
definition w_Color :: "('b, 'st, 'cd, 'z) worker_scheme \<Rightarrow> string" where "w_Color w = Color (cur_session w)"
definition w_Status :: "('b, 'st, 'cd, 'z) worker_scheme \<Rightarrow> int64" where "w_Status w = Status (cur_session w)"
definition w_WID :: "('b, 'st, 'cd, 'z) worker_scheme \<Rightarrow> uint64" where "w_WID w = w_id w"
definition IsStarted :: "('b, 'st, 'cd, 'z) worker_scheme \<Rightarrow> bool" where "IsStarted w = w_started w"
definition w_Endpoint :: "('b, 'st, 'cd, 'z) worker_scheme \<Rightarrow> string" where
  "w_Endpoint w = (case w_remote w of None \<Rightarrow> [] | Some a \<Rightarrow> (case a of None \<Rightarrow> [] | Some s \<Rightarrow> s))"

definition SetStopCountDownTime :: "('st, 'cd) sync_ops \<Rightarrow> int64 \<Rightarrow> ('b, 'st, 'cd, 'z) worker_scheme \<Rightarrow> ('b, 'st, 'cd, 'z) worker_scheme" where
  "SetStopCountDownTime S now w =
     w\<lparr>countdown := SetExpiryTime S (countdown w) (now + of_int (WaitMainTunnelTimeout (w_conf w)))\<rparr>"

definition createTunnelFunc :: "('st, 'cd) sync_ops \<Rightarrow> (int32 \<Rightarrow> gerr option) \<Rightarrow> int32 \<Rightarrow> int64 \<Rightarrow>
    ('b, 'st, 'cd, 'z) worker_scheme \<Rightarrow> nat res \<times> ('b, 'st, 'cd, 'z) worker_scheme" where
  "createTunnelFunc S open_err tp oid w =
     (case CreateTunnel S open_err (w_session w) tp oid w of
        (Fail e, w1) \<Rightarrow> (Fail e, w1)
      | (Panic p, w1) \<Rightarrow> (Panic p, w1)
      | (Ok t, w1) \<Rightarrow> (Ok t, w1))"


section \<open>Reading and writing packets\<close>

definition wk_read :: "'b aes \<Rightarrow> nat option \<Rightarrow> nat option \<Rightarrow> ('b, 'st, 'cd, 'z) worker_scheme \<Rightarrow>
    bytes res \<times> ('b, 'st, 'cd, 'z) worker_scheme" where
  "wk_read D ch1 ch2 w =
     (case w_read D ch1 ch2 (cur_session w) (w_reader w) (w_mem w) of
        (res, r, m) \<Rightarrow> (res, w\<lparr>w_reader := r, w_mem := m\<rparr>))"

definition wk_write :: "'b aes \<Rightarrow> conn_write \<Rightarrow> bytes \<Rightarrow> ('b, 'st, 'cd, 'z) worker_scheme \<Rightarrow>
    unit res \<times> ('b, 'st, 'cd, 'z) worker_scheme" where
  "wk_write E wr pack w =
     (case w_write E wr (cur_session w) pack (w_sent w) of (res, sent) \<Rightarrow> (res, w\<lparr>w_sent := sent\<rparr>))"

type_synonym middleware = "(bytes \<Rightarrow> bytes res) \<Rightarrow> bytes \<Rightarrow> bytes res"

definition writeNext :: "bytes \<Rightarrow> bytes res" where
  "writeNext pk = Ok pk"

definition writePack :: "'b aes \<Rightarrow> conn_write \<Rightarrow> middleware option \<Rightarrow> bytes \<Rightarrow> ('b, 'st, 'cd, 'z) worker_scheme \<Rightarrow>
    unit res \<times> ('b, 'st, 'cd, 'z) worker_scheme" where
  "writePack E wr writeFilter pack w =
     (let next = (case writeFilter of None \<Rightarrow> writeNext | Some f \<Rightarrow> f writeNext) in
      case next pack of
        Fail e \<Rightarrow> (Fail e, w)
      | Panic p \<Rightarrow> (Panic p, w)
      | Ok out \<Rightarrow> wk_write E wr out w)"

text \<open>The handler of requests and the filter around it work on the state of the worker; \<open>dl\<close> is
  the error of setting the deadline, which is ignored.\<close>

type_synonym 'w handler = "bytes \<Rightarrow> 'w \<Rightarrow> (unit res \<times> 'w) option"

definition readPack :: "'b aes \<Rightarrow> nat option \<Rightarrow> nat option \<Rightarrow>
    (('b, 'st, 'cd, 'z) worker_scheme handler \<Rightarrow> ('b, 'st, 'cd, 'z) worker_scheme handler) option \<Rightarrow>
    ('b, 'st, 'cd, 'z) worker_scheme handler \<Rightarrow> gerr option \<Rightarrow>
    ('b, 'st, 'cd, 'z) worker_scheme \<Rightarrow> (unit res \<times> ('b, 'st, 'cd, 'z) worker_scheme) option" where
  "readPack D ch1 ch2 readFilter handle dl w =
     (case wk_read D ch1 ch2 w of
        (Fail e, w1) \<Rightarrow> Some (Fail e, w1)
      | (Panic p, w1) \<Rightarrow> Some (Panic p, w1)
      | (Ok inb, w1) \<Rightarrow>
          (let next = (case readFilter of None \<Rightarrow> handle | Some f \<Rightarrow> f handle) in next inb w1))"

definition wk_Push :: "('st, 'cd) sync_ops \<Rightarrow> bytes \<Rightarrow> ('b, 'st, 'cd, 'z) worker_scheme \<Rightarrow>
    (unit res \<times> ('b, 'st, 'cd, 'z) worker_scheme) option" where
  "wk_Push S out w =
     (if IsStopping S (w_stopper w) then Some (Fail (Err ''worker is stopping'' []), w)
      else if length out \<le> 0 then Some (Fail (Err ''push msg len <= 0'' []), w)
      else if replyClosed w then Some (Panic ''send on closed channel'', w)
      else if int (length (replyChan w)) \<ge> ReplyChanSize (w_conf w) then None
      else Some (Ok (), w\<lparr>replyChan := replyChan w @ [out]\<rparr>))"


section \<open>Handshake and start\<close>

text \<open>\<open>auth\<close> is \<^verbatim>\<open>service.Auth\<close> over the pool of packets. The session is replaced after the reply
  was written with the old one.\<close>

definition handshake :: "'b aes \<Rightarrow> 'b aes \<Rightarrow> conn_write \<Rightarrow> (bytes \<Rightarrow> packet list \<Rightarrow> (bytes \<times> 'b session) res \<times> packet list) \<Rightarrow>
    nat option \<Rightarrow> nat option \<Rightarrow> ('b, 'st, 'cd, 'z) worker_scheme \<Rightarrow> unit res \<times> ('b, 'st, 'cd, 'z) worker_scheme" where
  "handshake E D wr auth ch1 ch2 w =
     (case wk_read D ch1 ch2 w of
        (Fail e, w1) \<Rightarrow> (Fail e, w1)
      | (Panic p, w1) \<Rightarrow> (Panic p, w1)
      | (Ok inb, w1) \<Rightarrow>
          (case auth inb (pktPool w1) of
             (Fail e, pl) \<Rightarrow> (Fail e, w1\<lparr>pktPool := pl\<rparr>)
           | (Panic p, pl) \<Rightarrow> (Panic p, w1\<lparr>pktPool := pl\<rparr>)
           | (Ok (out, ss), pl) \<Rightarrow>
               (case wk_write E wr out (w1\<lparr>pktPool := pl\<rparr>) of
                  (Ok _, w2) \<Rightarrow>
                    (Ok (), w2\<lparr>sessions := sessions w2 @ [SetClientIP (RemoteAddr (w_remote w2)) ss],
                               w_session := length (sessions w2)\<rparr>)
                | (r, w2) \<Rightarrow> (r, w2))))"

definition wk_Start :: "'b aes \<Rightarrow> 'b aes \<Rightarrow> conn_write \<Rightarrow> (bytes \<Rightarrow> packet list \<Rightarrow> (bytes \<times> 'b session) res \<times> packet list) \<Rightarrow>
    ('b session \<Rightarrow> unit res) \<Rightarrow> gerr option \<Rightarrow> gerr option \<Rightarrow> nat option \<Rightarrow> nat option \<Rightarrow>
    ('b, 'st, 'cd, 'z) worker_scheme \<Rightarrow> unit res \<times> ('b, 'st, 'cd, 'z) worker_scheme" where
  "wk_Start E D wr auth onConnected dl1 dl2 ch1 ch2 w =
     (case dl1 of
        Some e \<Rightarrow> (Fail (Wrap ''set conn deadline before handshake failed'' [] e), w)
      | None \<Rightarrow>
          (case handshake E D wr auth ch1 ch2 w of
             (Fail e, w1) \<Rightarrow> (Fail e, w1)
           | (Panic p, w1) \<Rightarrow> (Panic p, w1)
           | (Ok _, w1) \<Rightarrow>
               (case onConnected (cur_session w1) of
                  Fail e \<Rightarrow> (Fail e, w1)
                | Panic p \<Rightarrow> (Panic p, w1)
                | Ok _ \<Rightarrow>
                    (case dl2 of
                       Some e \<Rightarrow> (Fail (Wrap ''set conn deadline after handshake failed'' [] e), w1)
                     | None \<Rightarrow> (Ok (), w1\<lparr>w_started := True\<rparr>)))))"



section \<open>The loops\<close>

text \<open>
  One round of a loop: it goes on (\<open>Next\<close>) or returns, with or without an error. \<open>None\<close> is a
  round that blocks. A panic inside \<^verbatim>\<open>sync.RunSafe\<close> becomes an error.
\<close>

datatype round = Next | Return "gerr option"

definition run_safe :: "unit res \<Rightarrow> round" where
  "run_safe r = (case r of Ok _ \<Rightarrow> Next | Fail e \<Rightarrow> Return (Some e) | Panic p \<Rightarrow> Return (Some (Err ''panic: %s'' [AStr p])))"

text \<open>The loop sets \<open>replyChanStarted\<close> when it begins and closes \<open>replyChanCompleted\<close> when it
  returns; \<^verbatim>\<open>range\<close> ends when the channel is closed and empty.\<close>

definition writePackLoop_round :: "'b aes \<Rightarrow> conn_write \<Rightarrow> middleware option \<Rightarrow> ('b, 'st, 'cd, 'z) worker_scheme \<Rightarrow>
    (round \<times> ('b, 'st, 'cd, 'z) worker_scheme) option" where
  "writePackLoop_round E wr flt w0 =
     (let w = w0\<lparr>replyChanStarted := True\<rparr> in
      case replyChan w of
        [] \<Rightarrow> if replyClosed w then Some (Return None, w\<lparr>replyChanCompleted := True\<rparr>) else None
      | pack # rest \<Rightarrow>
          (case writePack E wr flt pack (w\<lparr>replyChan := rest\<rparr>) of
             (r, w1) \<Rightarrow>
               (case run_safe r of
                  Next \<Rightarrow> Some (Next, w1)
                | Return e \<Rightarrow> Some (Return e, w1\<lparr>replyChanCompleted := True\<rparr>))))"

text \<open>The case that \<^verbatim>\<open>select\<close> takes: the context is done, the worker is stopping, or neither.\<close>

datatype read_sel = RCtxDone gerr | RStopping | RDefault

definition readPackLoop_round :: "(('b, 'st, 'cd, 'z) worker_scheme \<Rightarrow> (unit res \<times> ('b, 'st, 'cd, 'z) worker_scheme) option) \<Rightarrow>
    read_sel \<Rightarrow> ('b, 'st, 'cd, 'z) worker_scheme \<Rightarrow> (round \<times> ('b, 'st, 'cd, 'z) worker_scheme) option" where
  "readPackLoop_round rp sel w =
     (case sel of
        RCtxDone e \<Rightarrow> Some (Return (Some e), w)
      | RStopping \<Rightarrow> Some (Return None, w)
      | RDefault \<Rightarrow> (case rp w of None \<Rightarrow> None | Some (r, w1) \<Rightarrow> Some (run_safe r, w1)))"

definition ErrCountdownTimerExpired :: gerr where "ErrCountdownTimerExpired = Err ''countdown timer expired'' []"

text \<open>\<open>now\<close> is the time at a tick of the ticker; time 0 is the zero time.\<close>

datatype tick_sel = TCtxDone gerr | Tick int64

definition tickStopSign_round :: "('st, 'cd) sync_ops \<Rightarrow> tick_sel \<Rightarrow> ('b, 'st, 'cd, 'z) worker_scheme \<Rightarrow>
    round \<times> ('b, 'st, 'cd, 'z) worker_scheme" where
  "tickStopSign_round S sel w =
     (case sel of
        TCtxDone e \<Rightarrow> (Return (Some e), w)
      | Tick now \<Rightarrow>
          (let t = ExpiryTime S (countdown w) in
           if t \<noteq> 0 \<and> t <s now
           then (Return (Some (Wrap ''wid=%d'' [AInt (uint (w_WID w))] ErrCountdownTimerExpired)),
                 w\<lparr>w_stopper := TriggerStop S (w_stopper w)\<rparr>)
           else (Next, w)))"


section \<open>Stopping a worker\<close>

text \<open>
  \<^verbatim>\<open>Stop\<close> in two parts, before and after it waits for the writing loop: \<open>stop_begin\<close> tells whether
  this is the call that runs the function, \<open>stop_end\<close> may go on when the writing loop has never
  started or has completed. The errors of \<^verbatim>\<open>OnDisconnect\<close>, of closing the reader and of closing
  the connection are only logged. The memory is that shared by all readers.
\<close>

definition stop_begin :: "('st, 'cd) sync_ops \<Rightarrow> ('b, 'st, 'cd, 'z) worker_scheme \<Rightarrow> bool \<times> ('b, 'st, 'cd, 'z) worker_scheme" where
  "stop_begin S w =
     (case DoStop S (w_stopper w) of
        (True, st) \<Rightarrow> (True, w\<lparr>w_stopper := st, replyClosed := True\<rparr>)
      | (False, st) \<Rightarrow> (False, w\<lparr>w_stopper := st\<rparr>))"

definition stop_may_end :: "('b, 'st, 'cd, 'z) worker_scheme \<Rightarrow> bool" where
  "stop_may_end w \<longleftrightarrow> \<not> replyChanStarted w \<or> replyChanCompleted w"

definition stop_end :: "('st, 'cd) sync_ops \<Rightarrow> ('b, 'st, 'cd, 'z) worker_scheme \<Rightarrow> ('b, 'st, 'cd, 'z) worker_scheme" where
  "stop_end S w =
     (case Close (w_reader w) (w_mem w) of
        (_, r, m) \<Rightarrow>
          let w1 = w\<lparr>w_reader := r, w_mem := m\<rparr>;
              w2 = h_stop (tun_trigger S) (w_holder w1) w1 in
          w2\<lparr>w_connClosed := True\<rparr>)"


section \<open>Replies are written in order\<close>

text \<open>What a reply becomes on the connection, and all replies of a worker: those written and
  those still queued.\<close>

definition reply_frame :: "'b aes \<Rightarrow> ('b, 'st, 'cd, 'z) worker_scheme \<Rightarrow> bytes \<Rightarrow> bytes" where
  "reply_frame E w pk = (case encrypt E (cur_session w) pk of Ok c \<Rightarrow> frame c | _ \<Rightarrow> [])"

definition encryptable :: "'b aes \<Rightarrow> ('b, 'st, 'cd, 'z) worker_scheme \<Rightarrow> bool" where
  "encryptable E w \<longleftrightarrow> (\<forall>pk. \<exists>c. encrypt E (cur_session w) pk = Ok c)"

definition all_replies :: "'b aes \<Rightarrow> ('b, 'st, 'cd, 'z) worker_scheme \<Rightarrow> bytes" where
  "all_replies E w = w_sent w @ concat (map (reply_frame E w) (replyChan w))"

lemma cur_session_updates [simp]:
  "cur_session (w\<lparr>replyChan := x\<rparr>) = cur_session w" "cur_session (w\<lparr>replyChanStarted := y\<rparr>) = cur_session w"
  "cur_session (w\<lparr>w_sent := z\<rparr>) = cur_session w" "cur_session (w\<lparr>replyChanCompleted := y\<rparr>) = cur_session w"
  "cur_session (w\<lparr>replyClosed := y\<rparr>) = cur_session w" "cur_session (w\<lparr>w_stopper := st\<rparr>) = cur_session w"
  by (simp_all add: cur_session_def)

lemma writePack_plain:
  assumes "encryptable E w"
  shows "writePack E (\<lambda>_. None) None pk w = (Ok (), w\<lparr>w_sent := w_sent w @ reply_frame E w pk\<rparr>)"
proof -
  obtain c where "encrypt E (cur_session w) pk = Ok c"
    using assms unfolding encryptable_def by blast
  then show ?thesis
    by (simp add: writePack_def writeNext_def wk_write_def w_write_def conn_Write_def reply_frame_def)
qed

lemma write_round_cases:
  assumes "encryptable E w" and "writePackLoop_round E (\<lambda>_. None) None w = Some (rd, w')"
  shows "all_replies E w' = all_replies E w \<and> cur_session w' = cur_session w \<and> replyClosed w' = replyClosed w \<and>
    w_stopper w' = w_stopper w \<and>
    (replyChan w \<noteq> [] \<and> rd = Next \<and> replyChan w' = tl (replyChan w) \<or>
     replyChan w = [] \<and> replyClosed w \<and> rd = Return None \<and> replyChan w' = [] \<and> replyChanCompleted w')"
proof (cases "replyChan w")
  case Nil
  then show ?thesis
    using assms(2) by (auto simp: writePackLoop_round_def Let_def all_replies_def reply_frame_def split: if_splits)
next
  case (Cons pk rest)
  have e: "encryptable E (w\<lparr>replyChanStarted := True, replyChan := rest\<rparr>)"
    using assms(1) by (simp add: encryptable_def)
  show ?thesis
    using assms(2) Cons
    by (auto simp: writePackLoop_round_def Let_def writePack_plain [OF e] run_safe_def all_replies_def reply_frame_def [abs_def])
qed


text \<open>Pushes and rounds of the writing loop in any order; a step that blocks has no effect. The
  accepted replies are returned.\<close>

datatype reply_op = OpPush bytes | OpWrite

fun reply_ops :: "('st, 'cd) sync_ops \<Rightarrow> 'b aes \<Rightarrow> reply_op list \<Rightarrow> ('b, 'st, 'cd, 'z) worker_scheme \<Rightarrow>
    bytes list \<times> ('b, 'st, 'cd, 'z) worker_scheme" where
  "reply_ops S E [] w = ([], w)"
| "reply_ops S E (OpPush pk # ops) w =
     (case wk_Push S pk w of
        Some (Ok _, w1) \<Rightarrow> (case reply_ops S E ops w1 of (pks, w2) \<Rightarrow> (pk # pks, w2))
      | Some (_, w1) \<Rightarrow> reply_ops S E ops w1
      | None \<Rightarrow> reply_ops S E ops w)"
| "reply_ops S E (OpWrite # ops) w =
     (case writePackLoop_round E (\<lambda>_. None) None w of
        Some (_, w1) \<Rightarrow> reply_ops S E ops w1
      | None \<Rightarrow> reply_ops S E ops w)"

text \<open>The writing loop on its own, for at most \<open>n\<close> rounds.\<close>

fun drain :: "nat \<Rightarrow> 'b aes \<Rightarrow> ('b, 'st, 'cd, 'z) worker_scheme \<Rightarrow> ('b, 'st, 'cd, 'z) worker_scheme option" where
  "drain 0 E w = None"
| "drain (Suc n) E w =
     (case writePackLoop_round E (\<lambda>_. None) None w of
        Some (Next, w1) \<Rightarrow> drain n E w1
      | Some (Return _, w1) \<Rightarrow> Some w1
      | None \<Rightarrow> None)"

lemma all_replies_push: "all_replies E (w\<lparr>replyChan := replyChan w @ [pk]\<rparr>) = all_replies E w @ reply_frame E w pk"
  by (simp add: all_replies_def reply_frame_def [abs_def])

lemma wk_Push_cases:
  assumes "wk_Push S pk w = Some (r, w')"
  obtains (taken) "r = Ok ()" "w' = w\<lparr>replyChan := replyChan w @ [pk]\<rparr>" | (refused) "\<forall>x. r \<noteq> Ok x" "w' = w"
  using assms by (auto simp: wk_Push_def split: if_splits)

lemma reply_ops_order:
  assumes "encryptable E w"
  shows "\<exists>pks w'. reply_ops S E ops w = (pks, w') \<and> cur_session w' = cur_session w \<and>
    all_replies E w' = all_replies E w @ concat (map (reply_frame E w) pks)"
  using assms
proof (induction ops arbitrary: w)
  case (Cons x ops)
  show ?case
  proof (cases x)
    case (OpPush pk)
    show ?thesis
    proof (cases "wk_Push S pk w")
      case None
      then show ?thesis using Cons OpPush by simp
    next
      case (Some y)
      then obtain r w1 where p: "wk_Push S pk w = Some (r, w1)" by (cases y) auto
      from p show ?thesis
      proof (cases rule: wk_Push_cases)
        case taken
        have e: "encryptable E w1" using Cons.prems taken by (simp add: encryptable_def)
        have f: "reply_frame E w1 = reply_frame E w" using taken by (simp add: reply_frame_def [abs_def])
        from Cons.IH [OF e] obtain pks w2 where
          "reply_ops S E ops w1 = (pks, w2)" "cur_session w2 = cur_session w1"
          "all_replies E w2 = all_replies E w1 @ concat (map (reply_frame E w1) pks)" by blast
        then show ?thesis
          using p f taken OpPush by (simp add: all_replies_push)
      next
        case refused
        then show ?thesis using p Cons OpPush by (cases r) auto
      qed
    qed
  next
    case OpWrite
    show ?thesis
    proof (cases "writePackLoop_round E (\<lambda>_. None) None w")
      case None
      then show ?thesis using Cons OpWrite by simp
    next
      case (Some y)
      then obtain rd w1 where p: "writePackLoop_round E (\<lambda>_. None) None w = Some (rd, w1)" by (cases y) auto
      note c = write_round_cases [OF Cons.prems p]
      have e: "encryptable E w1" and f: "reply_frame E w1 = reply_frame E w"
        using c Cons.prems by (simp_all add: encryptable_def reply_frame_def [abs_def])
      from Cons.IH [OF e] c f p OpWrite show ?thesis by auto
    qed
  qed
qed simp

lemma drain_all:
  assumes "encryptable E w" and "replyClosed w" and "length (replyChan w) < n"
  shows "\<exists>w'. drain n E w = Some w' \<and> w_sent w' = all_replies E w \<and> replyChan w' = [] \<and> replyChanCompleted w'"
  using assms
proof (induction n arbitrary: w)
  case (Suc n)
  have "\<exists>x. writePackLoop_round E (\<lambda>_. None) None w = Some x"
    using Suc.prems(2) by (auto simp: writePackLoop_round_def Let_def split: list.splits prod.splits round.splits)
  then obtain rd w1 where p: "writePackLoop_round E (\<lambda>_. None) None w = Some (rd, w1)" by auto
  note c = write_round_cases [OF Suc.prems(1) p]
  show ?case
  proof (cases "replyChan w")
    case Nil
    with c p show ?thesis by (auto simp: all_replies_def)
  next
    case (Cons pk rest)
    then have "encryptable E w1" "replyClosed w1" "length (replyChan w1) < n" "rd = Next"
      using c Suc.prems by (auto simp: encryptable_def)
    with Suc.IH [of w1] c p show ?thesis by auto
  qed
qed simp

text \<open>
  C19: Replies leave in the order they were accepted, and stopping loses none. For any
  interleaving of pushes with the writing loop over a connection that takes all bytes, what was
  written followed by the frames of what is queued is what there was before followed by one
  frame for every accepted push, in order; and when the worker then stops, the writing loop, on
  its own and after at most as many rounds as replies are queued plus one, writes every queued
  reply and completes, so the wait in the stop ends.
\<close>

theorem replies_in_order:
  assumes "encryptable E w" and "sync_laws S" and "fst (DoStop S (w_stopper (snd (reply_ops S E ops w))))"
  shows "\<exists>pks w1 w2 w3. reply_ops S E ops w = (pks, w1) \<and>
    all_replies E w1 = all_replies E w @ concat (map (reply_frame E w) pks) \<and>
    stop_begin S w1 = (True, w2) \<and> drain (length (replyChan w1) + 1) E w2 = Some w3 \<and>
    w_sent w3 = all_replies E w @ concat (map (reply_frame E w) pks) \<and> stop_may_end w3"
proof -
  from reply_ops_order [OF assms(1), of S ops] obtain pks w1 where
    r: "reply_ops S E ops w = (pks, w1)" "cur_session w1 = cur_session w"
      "all_replies E w1 = all_replies E w @ concat (map (reply_frame E w) pks)" by blast
  obtain st where st: "DoStop S (w_stopper w1) = (True, st)"
    using assms(3) r(1) by (metis (full_types) prod.collapse snd_conv)
  let ?w2 = "w1\<lparr>w_stopper := st, replyClosed := True\<rparr>"
  have b: "stop_begin S w1 = (True, ?w2)"
    by (simp add: stop_begin_def st)
  have "encryptable E ?w2" using assms(1) r(2) by (simp add: encryptable_def)
  from drain_all [OF this, of "length (replyChan w1) + 1"] obtain w3 where
    d: "drain (length (replyChan w1) + 1) E ?w2 = Some w3" "w_sent w3 = all_replies E ?w2" "replyChanCompleted w3"
    by auto
  have "all_replies E ?w2 = all_replies E w1"
    by (simp add: all_replies_def reply_frame_def [abs_def])
  with r b d show ?thesis by (auto simp: stop_may_end_def)
qed


text \<open>A worker over an unencrypted session that has read and written nothing.\<close>

definition plain_worker :: "(unit, bool \<times> bool, int64) worker" where
  "plain_worker =
     \<lparr>sessions = [DefaultSession], pktPool = [], playerMsgs = [], roomMsgs = [], streams = [], tunnels = [],
      countdown = 0, routeDeletes = [], w_holder = newTunnelHolder,
      w_conf = c_Worker (conf_Default 8 \<lparr>Debug = False, Region = [], Zone = [], DeployEnv = [], Host = [], Weight = 0, Offline = False, Addrs = []\<rparr>),
      w_referer = ''gate'', w_id = 1, w_remote = Some (Some ''1.2.3.4:5''), w_stopper = (False, False),
      w_started = True, w_session = 0, w_reader = \<lparr>conn = [], rbuf = None, rw = 0, rr = 0, cleanedUp = False\<rparr>,
      w_mem = fresh_mem the_pool, w_sent = [], w_connClosed = False,
      replyChan = [], replyClosed = False, replyChanStarted = False, replyChanCompleted = False\<rparr>"

lemma plain_worker_facts:
  "encryptable E plain_worker" "IsStopping flag_sync (w_stopper plain_worker) = False" "replyClosed plain_worker = False"
  "replyChan plain_worker = []" "ReplyChanSize (w_conf plain_worker) = 1024" "w_stopper plain_worker = (False, False)"
  by (simp_all add: plain_worker_def encryptable_def cur_session_def encrypt_def IsCrypto_def DefaultSession_def flag_sync_def
    conf_Default_def Let_def)

theorem replies_in_order_witness:
  "\<exists>pks w1 w2 w3. reply_ops flag_sync (\<lambda>k b x. Ok x) [OpPush [1, 2], OpPush [3]] plain_worker = (pks, w1) \<and>
     stop_begin flag_sync w1 = (True, w2) \<and> drain (length (replyChan w1) + 1) (\<lambda>k b x. Ok x) w2 = Some w3 \<and> stop_may_end w3"
proof -
  have "fst (DoStop flag_sync (w_stopper (snd (reply_ops flag_sync (\<lambda>k b x. Ok x) [OpPush [1, 2], OpPush [3]] plain_worker))))"
    using plain_worker_facts by (simp add: wk_Push_def) (simp add: flag_sync_def)
  from replies_in_order [OF plain_worker_facts(1) flag_sync_laws this] show ?thesis by blast
qed


section \<open>Running a worker\<close>

text \<open>
  \<^verbatim>\<open>Run\<close> starts four functions in an error group and waits for all of them. The state of a run:
  the worker, the error of the group's context once it is done, the first error returned, and
  for each function whether and with what it returned. By the documentation of the group, the
  first function that returns an error ends the context of the group, and \<^verbatim>\<open>Wait\<close> returns that
  first error after all functions returned.
\<close>

datatype goroutine = Running | Returned "gerr option"

record ('b, 'st, 'cd) run =
  r_worker :: "('b, 'st, 'cd) worker"
  r_ctx :: "gerr option"
  r_err :: "gerr option"
  r_watch :: goroutine
  r_write :: goroutine
  r_read :: goroutine
  r_tick :: goroutine

definition Canceled :: gerr where "Canceled = Err ''context canceled'' []"

definition group_error :: "gerr option \<Rightarrow> ('b, 'st, 'cd) run \<Rightarrow> ('b, 'st, 'cd) run" where
  "group_error e s =
     (case e of
        None \<Rightarrow> s
      | Some x \<Rightarrow> s\<lparr>r_err := (case r_err s of None \<Rightarrow> Some x | y \<Rightarrow> y),
                   r_ctx := (case r_ctx s of None \<Rightarrow> Some Canceled | y \<Rightarrow> y)\<rparr>)"

definition run_start :: "('b, 'st, 'cd) worker \<Rightarrow> ('b, 'st, 'cd) run" where
  "run_start w = \<lparr>r_worker = w, r_ctx = None, r_err = None, r_watch = Running, r_write = Running, r_read = Running, r_tick = Running\<rparr>"

definition run_finished :: "('b, 'st, 'cd) run \<Rightarrow> bool" where
  "run_finished s \<longleftrightarrow> r_watch s \<noteq> Running \<and> r_write s \<noteq> Running \<and> r_read s \<noteq> Running \<and> r_tick s \<noteq> Running"

text \<open>The result of \<^verbatim>\<open>Run\<close>.\<close>

definition run_result :: "('b, 'st, 'cd) run \<Rightarrow> unit res" where
  "run_result s =
     (case r_err s of
        None \<Rightarrow> Ok ()
      | Some e \<Rightarrow> Fail (Wrap ''uid=%d color=%s'' [AInt (sint (w_UID (r_worker s))), AStr (w_Color (r_worker s))] e))"

text \<open>
  The steps: the function that watches for the stop sign, rounds of the three loops, and what
  the rest of the program may do meanwhile: end the context, push a reply, trigger the stop, or
  set the countdown. \<open>rp\<close> is \<^verbatim>\<open>readPack\<close> with its parameters.
\<close>

inductive run_step ::
  "('st, 'cd) sync_ops \<Rightarrow> 'b aes \<Rightarrow> conn_write \<Rightarrow> middleware option \<Rightarrow>
   (('b, 'st, 'cd) worker \<Rightarrow> (unit res \<times> ('b, 'st, 'cd) worker) option) \<Rightarrow> ('b, 'st, 'cd) run \<Rightarrow> ('b, 'st, 'cd) run \<Rightarrow> bool"
  for S E wr flt rp where
  watch_stop: "r_watch s = Running \<Longrightarrow> StopTriggered S (w_stopper (r_worker s)) \<Longrightarrow>
    run_step S E wr flt rp s (group_error (Some GroupStopping) (s\<lparr>r_watch := Returned (Some GroupStopping)\<rparr>))"
| watch_ctx: "r_watch s = Running \<Longrightarrow> r_ctx s = Some e \<Longrightarrow>
    run_step S E wr flt rp s (group_error (Some e) (s\<lparr>r_watch := Returned (Some e)\<rparr>))"
| write_next: "r_write s = Running \<Longrightarrow> writePackLoop_round E wr flt (r_worker s) = Some (Next, w) \<Longrightarrow>
    run_step S E wr flt rp s (s\<lparr>r_worker := w\<rparr>)"
| write_return: "r_write s = Running \<Longrightarrow> writePackLoop_round E wr flt (r_worker s) = Some (Return e, w) \<Longrightarrow>
    run_step S E wr flt rp s (group_error e (s\<lparr>r_worker := w, r_write := Returned e\<rparr>))"
| read_next: "r_read s = Running \<Longrightarrow> r_ctx s = None \<Longrightarrow>
    readPackLoop_round rp RDefault (r_worker s) = Some (Next, w) \<Longrightarrow>
    run_step S E wr flt rp s (s\<lparr>r_worker := w\<rparr>)"
| read_return: "r_read s = Running \<Longrightarrow> (case sel of RCtxDone e \<Rightarrow> r_ctx s = Some e | RStopping \<Rightarrow> Stopping_chan S (w_stopper (r_worker s)) | RDefault \<Rightarrow> r_ctx s = None) \<Longrightarrow>
    readPackLoop_round rp sel (r_worker s) = Some (Return e, w) \<Longrightarrow>
    run_step S E wr flt rp s (group_error e (s\<lparr>r_worker := w, r_read := Returned e\<rparr>))"
| tick_next: "r_tick s = Running \<Longrightarrow> tickStopSign_round S (Tick now) (r_worker s) = (Next, w) \<Longrightarrow>
    run_step S E wr flt rp s (s\<lparr>r_worker := w\<rparr>)"
| tick_return: "r_tick s = Running \<Longrightarrow> (case sel of TCtxDone e \<Rightarrow> r_ctx s = Some e | Tick now \<Rightarrow> True) \<Longrightarrow>
    tickStopSign_round S sel (r_worker s) = (Return e, w) \<Longrightarrow>
    run_step S E wr flt rp s (group_error e (s\<lparr>r_worker := w, r_tick := Returned e\<rparr>))"
| parent_done: "r_ctx s = None \<Longrightarrow> run_step S E wr flt rp s (s\<lparr>r_ctx := Some e\<rparr>)"
| pushed: "wk_Push S pk (r_worker s) = Some (r, w) \<Longrightarrow> run_step S E wr flt rp s (s\<lparr>r_worker := w\<rparr>)"
| triggered: "run_step S E wr flt rp s (s\<lparr>r_worker := (r_worker s)\<lparr>w_stopper := TriggerStop S (w_stopper (r_worker s))\<rparr>\<rparr>)"
| counted: "run_step S E wr flt rp s (s\<lparr>r_worker := (r_worker s)\<lparr>countdown := cd\<rparr>\<rparr>)"

inductive_simps run_step_simps: "run_step S E wr flt rp s s'"

lemma group_error_simps [simp]:
  "r_worker (group_error e s) = r_worker s" "r_write (group_error e s) = r_write s" "r_watch (group_error e s) = r_watch s"
  "r_read (group_error e s) = r_read s" "r_tick (group_error e s) = r_tick s"
  by (simp_all add: group_error_def split: option.splits)


lemma writePack_replyClosed: "replyClosed (snd (writePack E wr flt pk w)) = replyClosed w"
  by (simp add: writePack_def wk_write_def split: res.splits prod.splits)

lemma write_round_open:
  fixes w :: "('b, 'st, 'cd) worker"
  assumes "writePackLoop_round E wr flt w = Some (rd, w')" and "\<not> replyClosed w"
    and "\<And>pk (v :: ('b, 'st, 'cd) worker). fst (writePack E wr flt pk v) = Ok ()"
  shows "rd = Next \<and> \<not> replyClosed w'"
proof (cases "replyChan w")
  case Nil
  with assms(1,2) show ?thesis by (simp add: writePackLoop_round_def Let_def)
next
  case (Cons pk rest)
  let ?v = "w\<lparr>replyChanStarted := True, replyChan := rest\<rparr>"
  obtain w1 where w1: "writePack E wr flt pk ?v = (Ok (), w1)"
    using assms(3) [of pk ?v] by (metis prod.collapse)
  moreover have "\<not> replyClosed w1"
    using writePack_replyClosed [of E wr flt pk ?v] assms(2) by (simp add: w1)
  ultimately show ?thesis
    using assms(1) Cons by (simp add: writePackLoop_round_def Let_def run_safe_def)
qed

definition writer_waits :: "('b, 'st, 'cd) run \<Rightarrow> bool" where
  "writer_waits s \<longleftrightarrow> r_write s = Running \<and> \<not> replyClosed (r_worker s)"

lemma run_step_writer_waits:
  fixes s :: "('b, 'st, 'cd) run"
  assumes "run_step S E wr flt rp s s'" and "writer_waits s"
    and "\<And>pk (v :: ('b, 'st, 'cd) worker). fst (writePack E wr flt pk v) = Ok ()" and "\<And>v r v'. rp v = Some (r, v') \<Longrightarrow> replyClosed v' = replyClosed v"
  shows "writer_waits s'"
  using assms(1)
proof cases
  case (write_next w)
  with write_round_open [OF write_next(3) _ assms(3)] assms(2) show ?thesis by (simp add: writer_waits_def)
next
  case (write_return e w)
  with write_round_open [OF write_return(3) _ assms(3)] assms(2) show ?thesis by (simp add: writer_waits_def)
next
  case (read_next w)
  with assms(2,4) show ?thesis
    by (auto simp: writer_waits_def readPackLoop_round_def split: option.splits prod.splits)
next
  case (read_return sel e w)
  with assms(2,4) show ?thesis
    by (auto simp: writer_waits_def readPackLoop_round_def split: option.splits prod.splits read_sel.splits)
next
  case (tick_next now w)
  with assms(2) show ?thesis
    by (auto simp: writer_waits_def tickStopSign_round_def Let_def split: if_splits)
next
  case (tick_return sel e w)
  with assms(2) show ?thesis
    by (auto simp: writer_waits_def tickStopSign_round_def Let_def split: if_splits tick_sel.splits)
next
  case (pushed pk r w)
  with assms(2) show ?thesis
    by (auto simp: writer_waits_def elim: wk_Push_cases)
qed (use assms(2) in \<open>auto simp: writer_waits_def\<close>)

text \<open>
  C21: A run that can still write never ends. As long as writing replies succeeds, the run of a
  worker does not return, whatever else happens: the client closes its end and reading fails,
  the stop is triggered, the countdown expires, or the context ends. The writing loop only ends
  when the channel of replies is closed, which is done by the stop of the worker, which the
  server calls after the run returned.
\<close>

theorem run_never_ends_while_writable:
  fixes w :: "('b, 'st, 'cd) worker"
  assumes "(run_step S E wr flt rp)\<^sup>*\<^sup>* (run_start w) s" and "\<not> replyClosed w"
    and "\<And>pk (v :: ('b, 'st, 'cd) worker). fst (writePack E wr flt pk v) = Ok ()" and "\<And>v r v'. rp v = Some (r, v') \<Longrightarrow> replyClosed v' = replyClosed v"
  shows "r_write s = Running \<and> \<not> run_finished s"
proof -
  have "writer_waits s"
    using assms(1)
  proof induction
    case base
    then show ?case using assms(2) by (simp add: writer_waits_def run_start_def)
  next
    case (step t u)
    then show ?case using run_step_writer_waits assms(3,4) by blast
  qed
  then show ?thesis by (simp add: writer_waits_def run_finished_def)
qed

text \<open>A filter that accepts everything, in front of a session without encryption.\<close>

lemma plain_write_ok: "fst (writePack (\<lambda>k b x. Ok x) (\<lambda>_. None) None pk w) = Ok ()"
  by (simp add: writePack_def writeNext_def wk_write_def w_write_def conn_Write_def encrypt_def)

theorem run_never_ends_while_writable_witness:
  "\<exists>s. (run_step flag_sync (\<lambda>k b x. Ok x) (\<lambda>_. None) None (\<lambda>w. Some (Fail io_EOF, w)))\<^sup>*\<^sup>* (run_start plain_worker) s \<and>
     r_read s = Returned (Some io_EOF) \<and> r_watch s \<noteq> Running \<and> r_tick s \<noteq> Running \<and> \<not> run_finished s"
proof -
  let ?st = "run_step flag_sync (\<lambda>k b x. Ok x) (\<lambda>_. None) None (\<lambda>w. Some (Fail io_EOF, w))"
  let ?s0 = "run_start plain_worker"
  let ?s1 = "group_error (Some io_EOF) (?s0\<lparr>r_read := Returned (Some io_EOF)\<rparr>)"
  let ?s2 = "group_error (Some Canceled) (?s1\<lparr>r_watch := Returned (Some Canceled)\<rparr>)"
  let ?s3 = "group_error (Some Canceled) (?s2\<lparr>r_tick := Returned (Some Canceled)\<rparr>)"
  have "?st ?s0 ?s1"
  proof -
    have "?st ?s0 (group_error (Some io_EOF) (?s0\<lparr>r_worker := plain_worker, r_read := Returned (Some io_EOF)\<rparr>))"
      by (rule run_step.read_return [where sel = RDefault])
        (simp_all add: run_start_def readPackLoop_round_def run_safe_def)
    then show ?thesis by (simp add: run_start_def)
  qed
  moreover have "?st ?s1 ?s2"
    by (rule run_step.watch_ctx) (simp_all add: run_start_def group_error_def)
  moreover have "?st ?s2 (group_error (Some Canceled) (?s2\<lparr>r_worker := plain_worker, r_tick := Returned (Some Canceled)\<rparr>))"
    by (rule run_step.tick_return [where sel = "TCtxDone Canceled"])
      (simp_all add: run_start_def group_error_def tickStopSign_round_def)
  then have "?st ?s2 ?s3" by (simp add: run_start_def group_error_def)
  ultimately have r: "?st\<^sup>*\<^sup>* ?s0 ?s3"
    by (meson converse_rtranclp_into_rtranclp rtranclp.rtrancl_refl)
  have "\<not> run_finished ?s3"
    using run_never_ends_while_writable [OF r] plain_worker_facts(3) plain_write_ok by blast
  with r show ?thesis
    by (intro exI [of _ ?s3]) (simp add: run_start_def)
qed



section \<open>Start and stop\<close>

text \<open>
  C16: A worker that started is authenticated. If starting succeeds, one packet was read, the
  service authenticated exactly its bytes, and the session of the worker is the one the service
  returned, with the address of the client; the reply was written as one frame of exactly the
  bytes of the service, not encrypted with the new session, since the session is only replaced
  afterwards.
\<close>

theorem start_authenticates:
  assumes "wk_Start E D wr auth onC dl1 dl2 ch1 ch2 w = (Ok (), w')" and "\<not> IsCrypto (cur_session w)"
    and "wr = (\<lambda>_. None)"
  shows "\<exists>inb out ss w1 pl. wk_read D ch1 ch2 w = (Ok inb, w1) \<and> auth inb (pktPool w1) = (Ok (out, ss), pl) \<and>
    cur_session w' = SetClientIP (RemoteAddr (w_remote w)) ss \<and> w_sent w' = w_sent w @ frame out \<and> w_started w' \<and>
    onC (cur_session w') = Ok ()"
proof -
  obtain w2 where h: "handshake E D wr auth ch1 ch2 w = (Ok (), w2)" "w' = w2\<lparr>w_started := True\<rparr>" "onC (cur_session w2) = Ok ()"
    using assms(1) by (auto simp: wk_Start_def split: option.splits res.splits prod.splits)
  obtain inb w1 where r: "wk_read D ch1 ch2 w = (Ok inb, w1)"
    using h(1) by (auto simp: handshake_def split: res.splits prod.splits)
  have s1: "cur_session w1 = cur_session w" "w_sent w1 = w_sent w" "w_remote w1 = w_remote w"
    using r by (auto simp: wk_read_def cur_session_def split: prod.splits)
  obtain out ss pl where a: "auth inb (pktPool w1) = (Ok (out, ss), pl)"
    using h(1) r by (auto simp: handshake_def split: res.splits prod.splits)
  have c: "cur_session (w1\<lparr>pktPool := pl\<rparr>) = cur_session w"
    using s1(1) by (simp add: cur_session_def)
  have wr: "wk_write E wr out (w1\<lparr>pktPool := pl\<rparr>) = (Ok (), w1\<lparr>pktPool := pl, w_sent := w_sent w @ frame out\<rparr>)"
    using assms(2,3) c s1(2) by (simp add: wk_write_def w_write_def encrypt_def conn_Write_def)
  have "w2 = w1\<lparr>pktPool := pl, w_sent := w_sent w @ frame out,
      sessions := sessions w1 @ [SetClientIP (RemoteAddr (w_remote w)) ss], w_session := length (sessions w1)\<rparr>"
    using h(1) r a wr s1(3) by (simp add: handshake_def)
  then have "cur_session w' = SetClientIP (RemoteAddr (w_remote w)) ss" "w_sent w' = w_sent w @ frame out" "w_started w'"
    "cur_session w' = cur_session w2"
    using h(2) by (simp_all add: cur_session_def)
  with r a h(3) show ?thesis by auto
qed

theorem start_authenticates_witness:
  "\<exists>r m w'. wk_Start (\<lambda>k b x. Ok x) (\<lambda>k b x. Ok x) (\<lambda>_. None) (\<lambda>i pl. (Ok ([9], NewSession 7 1 0 None [] True [] 0), pl)) OnConnected None None None None
      (plain_worker\<lparr>w_reader := r, w_mem := m\<rparr>) = (Ok (), w') \<and> w_sent w' = frame [9] \<and> UID (cur_session w') = 7"
proof -
  let ?E = "\<lambda>k b x. Ok x :: bytes res" and ?auth = "\<lambda>(i :: bytes) (pl :: packet list). (Ok ([9 :: byte], NewSession 7 1 0 (None :: unit option) [] True [] 0), pl)"
  obtain r m where "reader_inv r m" "pending m r = stream [RData (frame [1])]"
    using fresh_reader by blast
  then have "reader_inv r m" "pending m r = frame [1] @ []" by simp_all
  from gate_source.w_read_frame [OF this, of ?E None None "DefaultSession :: unit session"] obtain r' m' where
    rd: "w_read ?E None None (DefaultSession :: unit session) r m = (Ok [1], r', m')"
    by (auto simp: decrypt_def)
  let ?w = "plain_worker\<lparr>w_reader := r, w_mem := m\<rparr>"
  have cs: "cur_session ?w = DefaultSession" "w_sent ?w = []" "\<not> IsCrypto (cur_session ?w)"
    by (simp_all add: cur_session_def plain_worker_def DefaultSession_def IsCrypto_def)
  have "wk_read ?E None None ?w = (Ok [1], ?w\<lparr>w_reader := r', w_mem := m'\<rparr>)"
    by (simp add: wk_read_def cs rd)
  then have "\<exists>w'. wk_Start ?E ?E (\<lambda>_. None) ?auth OnConnected None None None None ?w = (Ok (), w')"
    by (simp add: wk_Start_def handshake_def OnConnected_def wk_write_def w_write_def encrypt_def conn_Write_def split: prod.splits res.splits)
  then obtain w' where st: "wk_Start ?E ?E (\<lambda>_. None) ?auth OnConnected None None None None ?w = (Ok (), w')" ..
  from start_authenticates [OF st cs(3) refl] cs(2) have "w_sent w' = frame [9]" "UID (cur_session w') = 7"
    by (auto simp: session_defs NewSession_def)
  with st show ?thesis by blast
qed

lemma h_stop_keeps:
  fixes w :: "('b, 'st, 'cd) worker"
  shows "w_reader (h_stop (tun_trigger S) h w) = w_reader w" "w_mem (h_stop (tun_trigger S) h w) = w_mem w"
    "w_stopper (h_stop (tun_trigger S) h w) = w_stopper w"
proof -
  let ?P = "\<lambda>v :: ('b, 'st, 'cd) worker. w_reader v = w_reader w \<and> w_mem v = w_mem w \<and> w_stopper v = w_stopper w"
  have "?P (h_stop (tun_trigger S) h w)"
    unfolding h_stop_def
    by (rule foldl_keeps [where P = ?P]; simp add: case_prod_unfold; rule foldl_keeps [where P = ?P]; simp add: tun_trigger_def)
  then show "w_reader (h_stop (tun_trigger S) h w) = w_reader w" "w_mem (h_stop (tun_trigger S) h w) = w_mem w"
    "w_stopper (h_stop (tun_trigger S) h w) = w_stopper w"
    by simp_all
qed

text \<open>
  Stopping a worker tears everything down, once. After the stop the reader is closed and its
  buffer returned, every tunnel of the worker has been told to stop, the connection is closed,
  and pushes are refused with an error rather than sent to the closed channel; a second stop does
  not run the teardown again.
\<close>

theorem stop_tears_down:
  fixes w :: "('b, 'st, 'cd) worker"
  assumes "sync_laws S" and "stop_begin S w = (True, w1)" and "held (w_holder w) tp oid = Some t" and "t < length (tunnels w)"
  shows "let w2 = stop_end S w1 in
    tun_triggered S t w2 \<and> cleanedUp (w_reader w2) \<and> w_connClosed w2 \<and>
    (\<exists>e. wk_Push S pk w2 = Some (Fail e, w2)) \<and> \<not> fst (stop_begin S w2)"
proof -
  obtain st where st: "DoStop S (w_stopper w) = (True, st)" "w1 = w\<lparr>w_stopper := st, replyClosed := True\<rparr>"
    using assms(2) by (auto simp: stop_begin_def split: prod.splits bool.splits)
  have s2: "IsStopping S st" "\<not> fst (DoStop S st)"
    using DoStop_once [OF assms(1), of "w_stopper w"] by (simp_all add: st)
  obtain cr r m where c: "Close (w_reader w1) (w_mem w1) = (cr, r, m)" by (metis prod.collapse)
  have cl: "cleanedUp r"
    using c by (auto simp: Close_def split: if_splits)
  let ?v = "w1\<lparr>w_reader := r, w_mem := m\<rparr>"
  have e: "stop_end S w1 = (h_stop (tun_trigger S) (w_holder ?v) ?v)\<lparr>w_connClosed := True\<rparr>"
    by (simp add: stop_end_def c Let_def)
  have "tun_triggered S t (h_stop (tun_trigger S) (w_holder ?v) ?v)"
    by (rule gate_stoppable.stop_stops_held [of _ tp oid]) (use assms(1,3,4) st(2) in simp_all)
  then have "tun_triggered S t (stop_end S w1)"
    by (simp add: e tun_triggered_def)
  moreover have "cleanedUp (w_reader (stop_end S w1))" "w_stopper (stop_end S w1) = st" "w_connClosed (stop_end S w1)"
    unfolding e by (simp_all add: h_stop_keeps cl) (simp add: st(2))
  moreover from this(2) s2(1) have "\<exists>e. wk_Push S pk (stop_end S w1) = Some (Fail e, stop_end S w1)"
    by (simp add: wk_Push_def)
  moreover have "\<not> fst (stop_begin S (stop_end S w1))"
    using calculation(3) s2(2) by (auto simp: stop_begin_def split: prod.splits bool.splits)
  ultimately show ?thesis by (simp add: Let_def)
qed

definition worker_with_room :: "(unit, bool \<times> bool, int64) worker" where
  "worker_with_room = plain_worker\<lparr>streams := streams one_room, tunnels := tunnels one_room,
     w_holder := \<lparr>tunnelGroups = [(1, [(9, 0)])]\<rparr>\<rparr>"

theorem stop_tears_down_witness:
  "\<exists>w1. stop_begin flag_sync worker_with_room = (True, w1) \<and> tun_triggered flag_sync 0 (stop_end flag_sync w1) \<and>
     cleanedUp (w_reader (stop_end flag_sync w1))"
proof -
  have "\<exists>w1. stop_begin flag_sync worker_with_room = (True, w1)"
    by (simp add: stop_begin_def worker_with_room_def flag_sync_def plain_worker_def)
  then obtain w1 where b: "stop_begin flag_sync worker_with_room = (True, w1)" ..
  have "held (w_holder worker_with_room) 1 9 = Some 0" "0 < length (tunnels worker_with_room)"
    by (simp_all add: worker_with_room_def held_def one_room_def)
  from stop_tears_down [OF flag_sync_laws b this] b show ?thesis by (auto simp: Let_def)
qed

end
