(* ===== verification/Request_Path.thy ===== *)
theory Request_Path
  imports Worker
begin

text \<open>
  The way of a request from the bytes of a client to the stream of a service, through all the parts
  that handle it: the frames on the connection, the buffered reader, decryption
  (\<^verbatim>\<open>Worker.read\<close>), the reading loop and \<^verbatim>\<open>Worker.handle\<close> (\<^verbatim>\<open>pkg/net/internal/worker.go\<close>), the service with
  its check of the packet index and its decompression, the holder that finds or creates the tunnel,
  \<^verbatim>\<open>Tunnel.Forward\<close> and the loops of the tunnels that send to the services.
\<close>

section \<open>The composed program\<close>

text \<open>\<open>ch\<close> and \<open>chf\<close> choose the pooled packet and message.\<close>

definition wk_handle :: "('st, 'cd) sync_ops \<Rightarrow> 'c md_ops \<Rightarrow> codec \<Rightarrow> (int32 \<Rightarrow> gerr option) \<Rightarrow> nat option \<Rightarrow> nat option \<Rightarrow> 'c \<Rightarrow>
    ('b, 'st, 'cd, 'z) worker_scheme handler" where
  "wk_handle S M C open_err ch chf ctx req w =
     service_Handle M C (\<lambda>_. worker_Tunnel S open_err (w_session w)) (Forward S chf) ch ctx (w_session w) req w"

text \<open>Rounds of the reading loop (\<open>Request\<close>, with the choices of the pools) and of the sending loop of a
  tunnel (\<open>Send\<close>) in any order. A sending loop with nothing to send waits; every other round that
  does not go on is \<open>None\<close>.\<close>

datatype 'c path_ev = Request "nat option" "nat option" "nat option" "nat option" 'c | Send nat

fun is_request :: "'c path_ev \<Rightarrow> bool" where
  "is_request (Request _ _ _ _ _) = True"
| "is_request (Send _) = False"

fun path_run :: "('st, 'cd) sync_ops \<Rightarrow> 'c md_ops \<Rightarrow> codec \<Rightarrow> (int32 \<Rightarrow> gerr option) \<Rightarrow> 'b aes \<Rightarrow> 'c path_ev list \<Rightarrow>
    ('b, 'st, 'cd, 'z) worker_scheme \<Rightarrow> ('b, 'st, 'cd, 'z) worker_scheme option" where
  "path_run S M C open_err D [] w = Some w"
| "path_run S M C open_err D (Request ch1 ch2 ch chf ctx # es) w =
     (case readPackLoop_round (readPack D ch1 ch2 None (wk_handle S M C open_err ch chf ctx) None) RDefault w of
        Some (Next, w1) \<Rightarrow> path_run S M C open_err D es w1
      | _ \<Rightarrow> None)"
| "path_run S M C open_err D (Send t # es) w =
     (if length (tunnels w) \<le> t then path_run S M C open_err D es w
      else case csLoop_round (CSMsg None) t w of
        None \<Rightarrow> path_run S M C open_err D es w
      | Some (Ok _, w1) \<Rightarrow> path_run S M C open_err D es w1
      | Some _ \<Rightarrow> None)"


section \<open>What is to be delivered\<close>

text \<open>The packet a client means by the bytes it sends, for the state of its session: with its index
  in order, its data decompressed, and addressed to the user when it names no object.\<close>

definition next_session :: "'b session \<Rightarrow> 'b session" where
  "next_session s = (if IsCrypto s then snd (IncreaseCSIndex s) else s)"

definition decode :: "codec \<Rightarrow> 'b session \<Rightarrow> bytes \<Rightarrow> packet option" where
  "decode C s b =
     (case un_Packet C b of
        Ok p \<Rightarrow>
          if IsCrypto s \<and> CSIndex s \<noteq> scast (Index p) then None
          else (case if Compress p then Decompress C (Data p) else Ok (Data p) of
                  Ok d \<Rightarrow> Some (if Obj p = 0 then p\<lparr>Data := d, Obj := UID s\<rparr> else p\<lparr>Data := d\<rparr>)
                | _ \<Rightarrow> None)
      | _ \<Rightarrow> None)"

fun decode_all :: "codec \<Rightarrow> 'b session \<Rightarrow> bytes list \<Rightarrow> packet list option" where
  "decode_all C s [] = Some []"
| "decode_all C s (b # bs) =
     (case decode C s b of
        None \<Rightarrow> None
      | Some q \<Rightarrow> map_option ((#) q) (decode_all C (next_session s) bs))"

text \<open>The service and object a packet goes to, and the messages of each of them.\<close>

definition addressee :: "packet \<Rightarrow> int32 \<times> int64" where
  "addressee q = (if Mod q = ModuleID_Room then RoomTunnelType else PlayerTunnelType, Obj q)"

definition deliver :: "packet \<Rightarrow> (int32 \<times> int64 \<Rightarrow> message list) \<Rightarrow> int32 \<times> int64 \<Rightarrow> message list" where
  "deliver q f = f(addressee q := f (addressee q) @ [packet_message q])"

definition delivered :: "('b, 'st, 'cd, 'z) wgate_scheme \<Rightarrow> int32 \<times> int64 \<Rightarrow> message list" where
  "delivered g k = (case held (w_holder g) (fst k) (snd k) of None \<Rightarrow> [] | Some t \<Rightarrow> accepted g t)"

text \<open>A worker whose tunnels are live, each with a stream of its own, at most one per key.\<close>

definition serving :: "('st, 'cd) sync_ops \<Rightarrow> ('b, 'st, 'cd, 'z) wgate_scheme \<Rightarrow> bool" where
  "serving S g \<longleftrightarrow> pools_blank g \<and> (\<forall>t < length (tunnels g). tunnel_live S g t) \<and>
     distinct (map (\<lambda>tn. stream_of (t_app tn)) (tunnels g)) \<and>
     (\<forall>tp oid t. held (w_holder g) tp oid = Some t \<longrightarrow> t < length (tunnels g)) \<and>
     (\<forall>tp oid tp' oid' t. held (w_holder g) tp oid = Some t \<and> held (w_holder g) tp' oid' = Some t \<longrightarrow> tp = tp' \<and> oid = oid')"

definition room_for :: "nat \<Rightarrow> ('b, 'st, 'cd, 'z) gate_scheme \<Rightarrow> bool" where
  "room_for n g \<longleftrightarrow> n \<le> 1024 \<and> (\<forall>t < length (tunnels g). length (csChan (tunnels g ! t)) + n \<le> 1024)"


section \<open>Steps\<close>

text \<open>The pooled message a packet becomes.\<close>

lemma TransformMessage_at:
  assumes "pools_blank g"
  obtains f pm rm where "TransformMessage ch app p g = (f, g\<lparr>playerMsgs := pm, roomMsgs := rm\<rparr>)"
    and "fits app f" and "fm_message f = packet_message p" and "blank zero_message pm" and "blank zero_message rm"
proof (cases app)
  case (PlayerTunnel b s)
  from assms obtain pl where "player_getMessage ch (playerMsgs g) = (zero_message, pl)" "blank zero_message pl"
    unfolding pools_blank_def by (metis player_pool.get_zero)
  with PlayerTunnel assms show thesis
    by (intro that [where f = "FPlayer (fill_message p zero_message)" and pm = pl and rm = "roomMsgs g"])
      (simp_all add: pools_blank_def fill_message_def zero_message_def packet_message_def)
next
  case (RoomTunnel b s)
  from assms obtain pl where "room_getMessage ch (roomMsgs g) = (zero_message, pl)" "blank zero_message pl"
    unfolding pools_blank_def by (metis room_pool.get_zero)
  with RoomTunnel assms show thesis
    by (intro that [where f = "FRoom (fill_message p zero_message)" and pm = "playerMsgs g" and rm = pl])
      (simp_all add: pools_blank_def fill_message_def zero_message_def packet_message_def)
qed

lemma Forward_serving:
  assumes "serving S g" and "t < length (tunnels g)" and "room_for (Suc n) g"
  obtains f pm rm where "Forward S ch t (FPacket p) g = Some (Ok (), g\<lparr>playerMsgs := pm, roomMsgs := rm,
      tunnels := (tunnels g)[t := (tunnels g ! t)\<lparr>csChan := csChan (tunnels g ! t) @ [f]\<rparr>]\<rparr>)"
    and "fits (t_app (tunnels g ! t)) f" and "fm_message f = packet_message p" and "blank zero_message pm" and "blank zero_message rm"
proof -
  have live: "tunnel_live S g t" "pools_blank g" "length (csChan (tunnels g ! t)) < 1024"
    using assms by (auto simp: serving_def room_for_def)
  obtain f pm rm where f: "TransformMessage ch (t_app (tunnels g ! t)) p g = (f, g\<lparr>playerMsgs := pm, roomMsgs := rm\<rparr>)"
    "fits (t_app (tunnels g ! t)) f" "fm_message f = packet_message p" "blank zero_message pm" "blank zero_message rm"
    using TransformMessage_at [OF live(2)] by metis
  then show thesis
    using live by (intro that [where f = f and pm = pm and rm = rm]) (simp_all add: Forward_def t_transform_def csChan_send_def tunnel_live_def Let_def)
qed

lemma serving_same:
  fixes g g' :: "('b, 'st, 'cd, 'z) wgate_scheme"
  assumes "serving S g" and "pools_blank g'" and "tunnels g' = tunnels g" and "streams g' = streams g" and "w_holder g' = w_holder g"
  shows "serving S g'" and "delivered g' = delivered g"
proof -
  show "serving S g'" using assms by (simp add: serving_def tunnel_live_def)
  have "accepted g' = accepted g" using assms(3,4) by (simp add: accepted_def fun_eq_iff)
  then show "delivered g' = delivered g" using assms(5) by (intro ext) (simp add: delivered_def split: option.splits)
qed

text \<open>A change of one tunnel that keeps it live keeps the worker serving.\<close>

lemma serving_change:
  assumes "serving S g" and "t < length (tunnels g)" and "pools_blank g'" and "w_holder g' = w_holder g"
    and "length (streams g') = length (streams g)"
    and "tunnels g' = (tunnels g)[t := (tunnels g ! t)\<lparr>csChan := q\<rparr>]"
    and "length q \<le> 1024" and "list_all (fits (t_app (tunnels g ! t))) q"
  shows "serving S g'"
proof -
  have "tunnel_live S g' u" if "u < length (tunnels g)" for u
    using assms that by (cases "u = t") (auto simp: serving_def tunnel_live_def)
  moreover have "map (\<lambda>tn. stream_of (t_app tn)) (tunnels g') = map (\<lambda>tn. stream_of (t_app tn)) (tunnels g)"
    using assms(2) unfolding assms(6) by (intro nth_equalityI) (auto simp: nth_list_update)
  ultimately show ?thesis using assms unfolding serving_def by simp
qed

lemma delivered_change:
  assumes "serving S g" and "w_holder g' = w_holder g" and "held (w_holder g) tp oid = Some t"
    and "\<And>u. u < length (tunnels g) \<Longrightarrow> accepted g' u = (if u = t then accepted g t @ ms else accepted g u)"
  shows "delivered g' = (delivered g)((tp, oid) := delivered g (tp, oid) @ ms)"
proof (rule ext)
  fix k
  show "delivered g' k = ((delivered g)((tp, oid) := delivered g (tp, oid) @ ms)) k"
  proof (cases "held (w_holder g) (fst k) (snd k)")
    case None
    then show ?thesis using assms(2,3) by (auto simp: delivered_def)
  next
    case (Some u)
    then have "u < length (tunnels g)" "u = t \<longleftrightarrow> k = (tp, oid)"
      using assms(1,3) unfolding serving_def by (blast, metis prod.collapse fst_conv snd_conv option.inject)
    then show ?thesis using Some assms(2-4) by (auto simp: delivered_def)
  qed
qed

lemma Forward_delivers:
  fixes g :: "('b, 'st, 'cd, 'z) wgate_scheme"
  assumes "serving S g" and "held (w_holder g) tp oid = Some t" and "room_for (Suc n) g"
  obtains pm rm ts where "Forward S ch t (FPacket p) g = Some (Ok (), g\<lparr>playerMsgs := pm, roomMsgs := rm, tunnels := ts\<rparr>)"
    and "serving S (g\<lparr>playerMsgs := pm, roomMsgs := rm, tunnels := ts\<rparr>)" and "room_for n (g\<lparr>playerMsgs := pm, roomMsgs := rm, tunnels := ts\<rparr>)"
    and "delivered (g\<lparr>playerMsgs := pm, roomMsgs := rm, tunnels := ts\<rparr>) =
      (delivered g)((tp, oid) := delivered g (tp, oid) @ [packet_message p])"
proof -
  have t: "t < length (tunnels g)" using assms(1,2) unfolding serving_def by blast
  let ?tn = "tunnels g ! t"
  obtain f pm rm where f: "Forward S ch t (FPacket p) g = Some (Ok (), g\<lparr>playerMsgs := pm, roomMsgs := rm,
      tunnels := (tunnels g)[t := ?tn\<lparr>csChan := csChan ?tn @ [f]\<rparr>]\<rparr>)"
    "fits (t_app ?tn) f" "fm_message f = packet_message p" "blank zero_message pm" "blank zero_message rm"
    using Forward_serving [OF assms(1) t assms(3)] by metis
  define g' where "g' = g\<lparr>playerMsgs := pm, roomMsgs := rm, tunnels := (tunnels g)[t := ?tn\<lparr>csChan := csChan ?tn @ [f]\<rparr>]\<rparr>"
  have live: "length (csChan ?tn) < 1024" "list_all (fits (t_app ?tn)) (csChan ?tn)" "blank zero_packet (pktPool g)"
    using assms(1,3) t by (auto simp: serving_def tunnel_live_def room_for_def pools_blank_def)
  have "serving S g'"
    by (rule serving_change [OF assms(1) t, where q = "csChan ?tn @ [f]"])
      (use live f(2,4,5) in \<open>simp_all add: g'_def pools_blank_def\<close>)
  moreover have "room_for n g'"
    using assms(3) t by (auto simp: room_for_def g'_def nth_list_update)
  moreover have "delivered g' = (delivered g)((tp, oid) := delivered g (tp, oid) @ [packet_message p])"
    by (rule delivered_change [OF assms(1) _ assms(2)]) (use t f(3) in \<open>simp_all add: g'_def accepted_def\<close>)
  ultimately show thesis using f(1) that unfolding g'_def by blast
qed

text \<open>A tunnel that is created is new, with a stream of its own.\<close>

lemma CreateTunnel_at:
  assumes "\<forall>tp. open_err tp = None" and "tp = PlayerTunnelType \<or> tp = RoomTunnelType"
  obtains app cd where "CreateTunnel S open_err ss tp oid g = (Ok (length (tunnels g)),
      g\<lparr>streams := streams g @ [\<lparr>sm_sent = [], sm_closed = False\<rparr>], countdown := cd,
        tunnels := tunnels g @ [\<lparr>t_stopper = NewStopper S (second * 10), t_app = app, csChan = [], csClosed = False\<rparr>]\<rparr>)"
    and "stream_of app = length (streams g)"
proof (cases "tp = PlayerTunnelType")
  case True
  then show thesis
    using assms(1)
    by (intro that [where app = "PlayerTunnel (base_NewTunnel PlayerTunnelType (UID (sessions g ! ss)) ss) (length (streams g))"
          and cd = "cd_Reset S (countdown g)"])
      (simp_all add: CreateTunnel_def createAppTunnel_def player_NewTunnel_def new_stream_def NewTunnel_def)
next
  case False
  then show thesis
    using assms
    by (intro that [where app = "RoomTunnel (base_NewTunnel RoomTunnelType oid ss) (length (streams g))" and cd = "countdown g"])
      (simp_all add: CreateTunnel_def createAppTunnel_def room_NewTunnel_def new_stream_def NewTunnel_def)
qed

lemma serving_new:
  assumes "serving S g" and "sync_laws S" and "stream_of app = length (streams g)"
    and "g' = g\<lparr>streams := streams g @ [\<lparr>sm_sent = [], sm_closed = False\<rparr>], countdown := cd,
        tunnels := tunnels g @ [\<lparr>t_stopper = NewStopper S d, t_app = app, csChan = [], csClosed = False\<rparr>], w_holder := h\<rparr>"
    and "held (w_holder g) tp oid = None"
    and h: "held h = (\<lambda>tp' oid'. if tp' = tp \<and> oid' = oid then Some (length (tunnels g)) else held (w_holder g) tp' oid')"
  shows "serving S g'" and "delivered g' = delivered g"
proof -
  have live: "stream_of (t_app (tunnels g ! t)) < length (streams g)" if "t < length (tunnels g)" for t
    using assms(1) that by (simp add: serving_def tunnel_live_def)
  have lv: "tunnel_live S g' t" if "t < length (tunnels g')" for t
    using assms(1-4) that by (auto simp: serving_def tunnel_live_def nth_append sync_laws_def less_Suc_eq)
  have "length (streams g) \<notin> set (map (\<lambda>tn. stream_of (t_app tn)) (tunnels g))"
    using live by (fastforce simp: in_set_conv_nth)
  then have ds: "distinct (map (\<lambda>tn. stream_of (t_app tn)) (tunnels g'))"
    using assms(1,3,4) by (simp add: serving_def)
  have bound: "t < length (tunnels g)" if "held (w_holder g) tp' oid' = Some t" for tp' oid' t
    using assms(1) that unfolding serving_def by blast
  have bd: "t < length (tunnels g')" if "held (w_holder g') tp' oid' = Some t" for tp' oid' t
    using that bound [of tp' oid' t] by (auto simp: h assms(4) split: if_splits)
  have ij: "tp1 = tp2 \<and> oid1 = oid2" if "held (w_holder g') tp1 oid1 = Some t" "held (w_holder g') tp2 oid2 = Some t" for tp1 oid1 tp2 oid2 t
  proof (cases "t = length (tunnels g)")
    case True
    then show ?thesis using that bound [of tp1 oid1 t] bound [of tp2 oid2 t] by (simp add: h assms(4) split: if_splits)
  next
    case False
    then have "held (w_holder g) tp1 oid1 = Some t" "held (w_holder g) tp2 oid2 = Some t"
      using that by (auto simp: h assms(4) split: if_splits)
    then show ?thesis using assms(1) unfolding serving_def by blast
  qed
  have "pools_blank g'" using assms(1,4) by (simp add: serving_def pools_blank_def)
  then show "serving S g'" unfolding serving_def using lv ds bd ij by blast
  have old: "accepted g' t = accepted g t" if "t < length (tunnels g)" for t
    using that live [OF that] assms(4) by (simp add: accepted_def nth_append)
  have new: "accepted g' (length (tunnels g)) = []"
    using assms(3,4) by (simp add: accepted_def)
  show "delivered g' = delivered g"
  proof (rule ext)
    fix k
    show "delivered g' k = delivered g k"
      using assms(1,4,5) old new by (auto simp: delivered_def h serving_def split: option.splits)
  qed
qed

lemma Tunnel_serving:
  fixes g :: "('b, 'st, 'cd, 'z) wgate_scheme"
  assumes "serving S g" and "sync_laws S" and "\<forall>tp. open_err tp = None" and "room_for n g"
  obtains t st cd ts h where "worker_Tunnel S open_err ss md oid g =
      (Ok t, g\<lparr>streams := st, countdown := cd, tunnels := ts, w_holder := h\<rparr>)"
    and "held h (if md = ModuleID_Room then RoomTunnelType else PlayerTunnelType) oid = Some t"
    and "serving S (g\<lparr>streams := st, countdown := cd, tunnels := ts, w_holder := h\<rparr>)"
    and "room_for n (g\<lparr>streams := st, countdown := cd, tunnels := ts, w_holder := h\<rparr>)"
    and "delivered (g\<lparr>streams := st, countdown := cd, tunnels := ts, w_holder := h\<rparr>) = delivered g"
proof -
  define tp where "tp = (if md = ModuleID_Room then RoomTunnelType else PlayerTunnelType)"
  have tt: "TunnelType md = Ok tp" "tp = PlayerTunnelType \<or> tp = RoomTunnelType"
    by (simp_all add: tp_def TunnelType_def)
  show thesis
  proof (cases "held (w_holder g) tp oid")
    case (Some t)
    then have "\<not> tun_stopping S t g"
      using assms(1) by (auto simp: serving_def tunnel_live_def tun_stopping_def)
    then have "worker_Tunnel S open_err ss md oid g = (Ok t, g)"
      using Some by (simp add: worker_Tunnel_def tt(1) h_tunnel_held)
    with Some assms(1,4) show thesis
      by (intro that [where t = t and st = "streams g" and cd = "countdown g" and ts = "tunnels g" and h = "w_holder g"])
        (simp_all add: tp_def)
  next
    case None
    let ?t = "length (tunnels g)"
    obtain app cd where c: "CreateTunnel S open_err ss tp oid g = (Ok ?t,
        g\<lparr>streams := streams g @ [\<lparr>sm_sent = [], sm_closed = False\<rparr>], countdown := cd,
          tunnels := tunnels g @ [\<lparr>t_stopper = NewStopper S (second * 10), t_app = app, csChan = [], csClosed = False\<rparr>]\<rparr>)"
      "stream_of app = length (streams g)"
      using CreateTunnel_at [OF assms(3) tt(2)] by metis
    from createTunnel_new [of "w_holder g" tp oid "tun_stopping S" g "CreateTunnel S open_err ss"] None c(1) obtain h where
      h: "createTunnel (tun_stopping S) (CreateTunnel S open_err ss) tp oid (w_holder g) g = (Ok ?t, h, snd (CreateTunnel S open_err ss tp oid g))"
        "held h = (\<lambda>tp' oid'. if tp' = tp \<and> oid' = oid then Some ?t else held (w_holder g) tp' oid')"
      by auto
    let ?g = "g\<lparr>streams := streams g @ [\<lparr>sm_sent = [], sm_closed = False\<rparr>], countdown := cd,
      tunnels := tunnels g @ [\<lparr>t_stopper = NewStopper S (second * 10), t_app = app, csChan = [], csClosed = False\<rparr>], w_holder := h\<rparr>"
    have "worker_Tunnel S open_err ss md oid g = (Ok ?t, ?g)"
      using None h(1) c(1) by (simp add: worker_Tunnel_def tt(1) h_tunnel_held)
    moreover have "room_for n ?g" using assms(4) by (auto simp: room_for_def nth_append)
    moreover note serving_new [OF assms(1,2) c(2) refl [of ?g] None h(2)]
    ultimately show thesis
      by (intro that [where t = ?t and st = "streams ?g" and cd = cd and ts = "tunnels ?g" and h = h]) (simp_all add: h(2) tp_def)
  qed
qed

text \<open>Handling a request.\<close>

lemma next_session_same [simp]:
  "UID (next_session s) = UID s" "encrypt E (next_session s) = encrypt E s" "wire_ok E (next_session s) = wire_ok E s"
  "IsCrypto (next_session s) = IsCrypto s" "CSIndex (next_session s) = (if IsCrypto s then CSIndex s + 1 else CSIndex s)"
  by (simp_all add: next_session_def session_defs encrypt_def wire_ok_def w_write_def fun_eq_iff)

lemma check_index_at:
  assumes "ss < length (sessions g)" and "decode C (sessions g ! ss) b = Some q" and "un_Packet C b = Ok p"
  shows "check_index ss p g = (Ok (), g\<lparr>sessions := (sessions g)[ss := next_session (sessions g ! ss)]\<rparr>)"
  using assms by (auto simp: check_index_def decode_def next_session_def Let_def split: if_splits res.splits)

lemma handle_serving:
  fixes w :: "('b, 'st, 'cd, 'z) worker_scheme"
  assumes "serving S w" and "sync_laws S" and "\<forall>tp. open_err tp = None" and "room_for (Suc n) w"
    and "w_session w < length (sessions w)" and dec: "decode C (cur_session w) b = Some q"
  obtains w' where "wk_handle S M C open_err ch chf ctx b w = Some (Ok (), w')" and "serving S w'" and "room_for n w'"
    and "delivered w' = deliver q (delivered w)" and "w_reader w' = w_reader w" and "w_mem w' = w_mem w"
    and "w_session w' = w_session w" and "sessions w' = (sessions w)[w_session w := next_session (cur_session w)]"
proof -
  let ?ss = "w_session w"
  obtain p d where p: "un_Packet C b = Ok p" "(if Compress p then Decompress C (Data p) else Ok (Data p)) = Ok d"
    "q = (if Obj p = 0 then p\<lparr>Data := d, Obj := UID (cur_session w)\<rparr> else p\<lparr>Data := d\<rparr>)"
    using dec by (auto simp: decode_def split: res.splits if_splits)
  have bl: "blank zero_packet (pktPool w)" using assms(1) by (simp add: serving_def pools_blank_def)
  obtain pl where pl: "GetPacket ch (pktPool w) = (zero_packet, pl)" "blank zero_packet pl"
    using packet_pool.get_zero [OF bl] by metis
  define w1 where "w1 = w\<lparr>pktPool := pl, sessions := (sessions w)[?ss := next_session (cur_session w)]\<rparr>"
  have ci: "check_index ?ss p (w\<lparr>pktPool := pl\<rparr>) = (Ok (), w1)"
    using check_index_at [of ?ss "w\<lparr>pktPool := pl\<rparr>" C b q p] assms(5) dec p(1) by (simp add: w1_def cur_session_def)
  have uid: "UID (sessions w1 ! ?ss) = UID (cur_session w)" using assms(5) by (simp add: w1_def)
  have pb: "pools_blank w1" "room_for (Suc n) w1"
    using assms(1,4) pl(2) by (simp_all add: w1_def serving_def pools_blank_def room_for_def)
  have s1: "serving S w1" "delivered w1 = delivered w"
    using serving_same [OF assms(1) pb(1)] by (simp_all add: w1_def)
  obtain t st cd ts h where t: "worker_Tunnel S open_err ?ss (Mod q) (Obj q) w1 = (Ok t, w1\<lparr>streams := st, countdown := cd, tunnels := ts, w_holder := h\<rparr>)"
    "held h (fst (addressee q)) (snd (addressee q)) = Some t"
    "serving S (w1\<lparr>streams := st, countdown := cd, tunnels := ts, w_holder := h\<rparr>)"
    "room_for (Suc n) (w1\<lparr>streams := st, countdown := cd, tunnels := ts, w_holder := h\<rparr>)"
    "delivered (w1\<lparr>streams := st, countdown := cd, tunnels := ts, w_holder := h\<rparr>) = delivered w1"
    using Tunnel_serving [OF s1(1) assms(2,3) pb(2)] by (simp add: addressee_def) metis
  define w2 where "w2 = w1\<lparr>streams := st, countdown := cd, tunnels := ts, w_holder := h\<rparr>"
  have w2: "serving S w2" "room_for (Suc n) w2" "delivered w2 = delivered w" "held (w_holder w2) (fst (addressee q)) (snd (addressee q)) = Some t"
    using t s1(2) by (simp_all add: w2_def)
  obtain pm rm us where f: "Forward S chf t (FPacket q) w2 = Some (Ok (), w2\<lparr>playerMsgs := pm, roomMsgs := rm, tunnels := us\<rparr>)"
    "serving S (w2\<lparr>playerMsgs := pm, roomMsgs := rm, tunnels := us\<rparr>)" "room_for n (w2\<lparr>playerMsgs := pm, roomMsgs := rm, tunnels := us\<rparr>)"
    "delivered (w2\<lparr>playerMsgs := pm, roomMsgs := rm, tunnels := us\<rparr>) = deliver q (delivered w2)"
    using Forward_delivers [OF w2(1,4,2)] unfolding deliver_def by (metis prod.collapse)
  define w3 where "w3 = w2\<lparr>playerMsgs := pm, roomMsgs := rm, tunnels := us\<rparr>"
  have pb3: "pools_blank (put_back q w3)"
    using f(2) packet_pool.put_blank by (simp add: w3_def put_back_def serving_def pools_blank_def)
  have fin: "serving S (put_back q w3)" "delivered (put_back q w3) = delivered w3"
    using serving_same [OF f(2) [folded w3_def] pb3] by (simp_all add: put_back_def)
  have "service_handle M C (\<lambda>_. worker_Tunnel S open_err ?ss) (Forward S chf) ch ctx ?ss b w = Some (Ok (), put_back q w3)"
  proof (cases "Obj p = 0")
    case True
    then have "q = p\<lparr>Data := d, Obj := UID (cur_session w)\<rparr>" by (simp add: p(3))
    with True t(1) [folded w2_def] f(1) show ?thesis
      by (simp add: service_handle_def Let_def pl(1) p(1,2) ci uid w3_def)
  next
    case False
    then have "q = p\<lparr>Data := d\<rparr>" by (simp add: p(3))
    with False t(1) [folded w2_def] f(1) show ?thesis
      by (simp add: service_handle_def Let_def pl(1) p(1,2) ci w3_def)
  qed
  then have "wk_handle S M C open_err ch chf ctx b w = Some (Ok (), put_back q w3)"
    by (simp add: wk_handle_def service_Handle_def)
  then show thesis
    by (rule that) (use fin f(3,4) w2(3) in \<open>simp_all add: put_back_def w1_def w2_def w3_def room_for_def\<close>)
qed

lemma cur_session_reading [simp]: "cur_session (w\<lparr>w_reader := r\<rparr>) = cur_session w" "cur_session (w\<lparr>w_mem := m\<rparr>) = cur_session w"
  by (simp_all add: cur_session_def)

text \<open>A round of the reading loop takes one frame.\<close>

lemma request_round:
  fixes w :: "('b, 'st, 'cd, 'z) worker_scheme"
  assumes "serving S w" and "sync_laws S" and "\<forall>tp. open_err tp = None" and "room_for (Suc n) w"
    and "w_session w < length (sessions w)" and "decode C (cur_session w) b = Some q"
    and "aes_inverse E D" and "reader_inv (w_reader w) (w_mem w)" and "wire_ok E (cur_session w) b wb"
    and "pending (w_mem w) (w_reader w) = wb @ rest"
  obtains w' where "readPackLoop_round (readPack D ch1 ch2 None (wk_handle S M C open_err ch chf ctx) None) RDefault w = Some (Next, w')"
    and "serving S w'" and "room_for n w'" and "delivered w' = deliver q (delivered w)" and "reader_inv (w_reader w') (w_mem w')"
    and "pending (w_mem w') (w_reader w') = rest" and "w_session w' < length (sessions w')"
    and "cur_session w' = next_session (cur_session w)"
proof -
  obtain c where c: "wb = frame c" "0 < length c" "length c \<le> 2 ^ 14" "decrypt D (cur_session w) c = Ok b"
    using wire_ok_frame [OF assms(7,9)] by blast
  from gate_source.w_read_frame [OF assms(8) assms(10) [unfolded c(1)] c(2,3), of D ch1 ch2 "cur_session w"] obtain r m where
    r: "w_read D ch1 ch2 (cur_session w) (w_reader w) (w_mem w) = (Ok b, r, m)" "pending m r = rest" "reader_inv r m"
    using c(4) by auto
  define w1 where "w1 = w\<lparr>w_reader := r, w_mem := m\<rparr>"
  have "serving S w1" "delivered w1 = delivered w"
    using serving_same [OF assms(1), of w1] assms(1) by (simp_all add: w1_def serving_def pools_blank_def)
  moreover have "room_for (Suc n) w1" "w_session w1 < length (sessions w1)" "decode C (cur_session w1) b = Some q"
    using assms(4-6) by (simp_all add: w1_def room_for_def)
  ultimately obtain w' where w': "wk_handle S M C open_err ch chf ctx b w1 = Some (Ok (), w')" "serving S w'" "room_for n w'"
    "delivered w' = deliver q (delivered w)" "w_reader w' = r" "w_mem w' = m" "w_session w' = w_session w"
    "sessions w' = (sessions w)[w_session w := next_session (cur_session w)]"
    using handle_serving [of S w1 open_err n C b q M ch chf ctx] assms(2,3) by (auto simp: w1_def)
  have "readPackLoop_round (readPack D ch1 ch2 None (wk_handle S M C open_err ch chf ctx) None) RDefault w = Some (Next, w')"
    using r(1) w'(1) by (simp add: readPackLoop_round_def readPack_def wk_read_def run_safe_def w1_def)
  then show thesis
    by (rule that) (use w' r assms(5) in \<open>simp_all add: cur_session_def\<close>)
qed

text \<open>A round of the sending loop of a tunnel moves a message to the stream.\<close>

lemma CSHandle_at:
  assumes "fits app f" and "pools_blank g"
  obtains pm rm where "CSHandle None app f g = (Ok (), g\<lparr>streams := (streams g)[stream_of app := (streams g ! stream_of app)
      \<lparr>sm_sent := sm_sent (streams g ! stream_of app) @ [fm_message f]\<rparr>], playerMsgs := pm, roomMsgs := rm\<rparr>)"
    and "blank zero_message pm" and "blank zero_message rm"
proof (cases app; cases f)
  fix b s m
  assume "app = PlayerTunnel b s" "f = FPlayer m"
  then show thesis
    using assms(2) player_pool.put_blank
    by (intro that [where pm = "player_putMessage (Some m) (playerMsgs g)" and rm = "roomMsgs g"])
      (simp_all add: stream_Send_def pools_blank_def Let_def)
next
  fix b s m
  assume "app = RoomTunnel b s" "f = FRoom m"
  then show thesis
    using assms(2) room_pool.put_blank
    by (intro that [where pm = "playerMsgs g" and rm = "room_putMessage (Some m) (roomMsgs g)"])
      (simp_all add: stream_Send_def pools_blank_def Let_def)
qed (use assms(1) in simp_all)

lemma send_round:
  fixes w :: "('b, 'st, 'cd, 'z) worker_scheme"
  assumes "serving S w" and "t < length (tunnels w)" and "csLoop_round (CSMsg None) t w = Some x"
  obtains w' where "x = (Ok (), w')" and "serving S w'" and "delivered w' = delivered w" and "\<And>n. room_for n w \<Longrightarrow> room_for n w'"
    and "w_reader w' = w_reader w" and "w_mem w' = w_mem w" and "w_session w' = w_session w" and "sessions w' = sessions w"
proof -
  let ?tn = "tunnels w ! t" and ?s = "stream_of (t_app (tunnels w ! t))"
  have live: "tunnel_live S w t" "pools_blank w" "distinct (map (\<lambda>tn. stream_of (t_app tn)) (tunnels w))"
    using assms(1,2) by (simp_all add: serving_def)
  then obtain f rest where q: "csChan ?tn = f # rest"
    using assms(3) by (cases "csChan ?tn") (auto simp: tunnel_live_def)
  let ?w = "w\<lparr>tunnels := (tunnels w)[t := ?tn\<lparr>csChan := rest\<rparr>]\<rparr>"
  have fr: "fits (t_app ?tn) f" "pools_blank ?w" "?s < length (streams w)" "length rest \<le> 1024" "list_all (fits (t_app ?tn)) rest"
    using live q by (simp_all add: tunnel_live_def pools_blank_def)
  obtain pm rm where c: "CSHandle None (t_app ?tn) f ?w = (Ok (), ?w\<lparr>streams := (streams ?w)[?s := (streams ?w ! ?s)
      \<lparr>sm_sent := sm_sent (streams ?w ! ?s) @ [fm_message f]\<rparr>], playerMsgs := pm, roomMsgs := rm\<rparr>)"
    "blank zero_message pm" "blank zero_message rm"
    using CSHandle_at [OF fr(1,2)] .
  define w' where "w' = ?w\<lparr>streams := (streams w)[?s := (streams w ! ?s)
      \<lparr>sm_sent := sm_sent (streams w ! ?s) @ [fm_message f]\<rparr>], playerMsgs := pm, roomMsgs := rm\<rparr>"
  have sv: "serving S w'"
    by (rule serving_change [OF assms(1,2), where q = rest]) (use fr c(2,3) live(2) in \<open>simp_all add: w'_def pools_blank_def\<close>)
  have "accepted w' u = accepted w u" if "u < length (tunnels w)" for u
  proof (cases "u = t")
    case True
    then show ?thesis using assms(2) fr(3) q by (simp add: w'_def accepted_def)
  next
    case False
    then have "stream_of (t_app (tunnels w ! u)) \<noteq> ?s"
      using live(3) assms(2) that nth_eq_iff_index_eq [OF live(3), of u t] by simp
    then show ?thesis using False by (simp add: w'_def accepted_def)
  qed
  then have dl: "delivered w' = delivered w"
    using assms(1) by (intro ext) (auto simp: delivered_def w'_def serving_def split: option.splits)
  have rf: "room_for n w'" if "room_for n w" for n
    using that assms(2) q by (auto simp: room_for_def w'_def nth_list_update)
  have "x = (Ok (), w')" using assms(3) q c(1) by (simp add: w'_def Let_def)
  then show thesis by (rule that [OF _ sv dl rf]) (simp_all add: w'_def)
qed


section \<open>Requests reach the services\<close>

lemma path_delivers:
  fixes w :: "('b, 'st, 'cd, 'z) worker_scheme"
  assumes "sync_laws S" and "\<forall>tp. open_err tp = None" and "aes_inverse E D"
    and "serving S w" and "reader_inv (w_reader w) (w_mem w)" and "w_session w < length (sessions w)"
    and "list_all2 (wire_ok E (cur_session w)) bs ws" and "pending (w_mem w) (w_reader w) = concat ws @ rest"
    and "decode_all C (cur_session w) bs = Some qs" and "room_for (length bs) w" and "length (filter is_request evs) = length bs"
  shows "\<exists>w'. path_run S M C open_err D evs w = Some w' \<and> delivered w' = fold deliver qs (delivered w) \<and>
    pending (w_mem w') (w_reader w') = rest \<and> serving S w' \<and> reader_inv (w_reader w') (w_mem w') \<and>
    w_session w' < length (sessions w') \<and> cur_session w' = (next_session ^^ length bs) (cur_session w)"
  using assms(4-)
proof (induction evs arbitrary: w bs ws qs)
  case (Cons e evs)
  show ?case
  proof (cases e)
    case (Request ch1 ch2 ch chf ctx)
    then obtain b bs' where bs: "bs = b # bs'" using Cons.prems(8) by (cases bs) auto
    obtain wb ws' where ws: "ws = wb # ws'" "wire_ok E (cur_session w) b wb" "list_all2 (wire_ok E (cur_session w)) bs' ws'"
      using Cons.prems(4) by (auto simp: bs list_all2_Cons1)
    obtain q qs' where q: "decode C (cur_session w) b = Some q" "decode_all C (next_session (cur_session w)) bs' = Some qs'" "qs = q # qs'"
      using Cons.prems(6) by (auto simp: bs split: option.splits)
    have rm: "room_for (Suc (length bs')) w" and pd: "pending (w_mem w) (w_reader w) = wb @ (concat ws' @ rest)"
      using Cons.prems(5,7) by (simp_all add: bs ws(1))
    obtain w1 where w1: "readPackLoop_round (readPack D ch1 ch2 None (wk_handle S M C open_err ch chf ctx) None) RDefault w = Some (Next, w1)"
      "serving S w1" "room_for (length bs') w1" "delivered w1 = deliver q (delivered w)" "reader_inv (w_reader w1) (w_mem w1)"
      "pending (w_mem w1) (w_reader w1) = concat ws' @ rest" "w_session w1 < length (sessions w1)"
      "cur_session w1 = next_session (cur_session w)"
      by (rule request_round [OF Cons.prems(1) assms(1,2) rm Cons.prems(3) q(1) assms(3) Cons.prems(2) ws(2) pd])
    from Cons.IH [OF w1(2,5,7), of bs' ws' qs'] w1 q ws(3) Cons.prems(8) show ?thesis
      by (simp add: Request bs funpow_swap1)
  next
    case (Send t)
    have n: "length (filter is_request evs) = length bs" using Cons.prems(8) Send by simp
    show ?thesis
    proof (cases "t < length (tunnels w) \<and> csLoop_round (CSMsg None) t w \<noteq> None")
      case True
      then obtain x where x: "csLoop_round (CSMsg None) t w = Some x" by auto
      obtain w1 where w1: "x = (Ok (), w1)" "serving S w1" "delivered w1 = delivered w" "\<And>n. room_for n w \<Longrightarrow> room_for n w1"
        "w_reader w1 = w_reader w" "w_mem w1 = w_mem w" "w_session w1 = w_session w" "sessions w1 = sessions w"
        using send_round [OF Cons.prems(1) _ x] True by blast
      then have cs: "cur_session w1 = cur_session w" by (simp add: cur_session_def)
      from Cons.IH [OF w1(2), of bs ws qs] w1 cs Cons.prems n x True show ?thesis
        by (simp add: Send del: csLoop_round.simps)
    next
      case False
      then have "length (tunnels w) \<le> t \<or> csLoop_round (CSMsg None) t w = None"
        by (auto simp del: csLoop_round.simps)
      then have "path_run S M C open_err D (e # evs) w = path_run S M C open_err D evs w"
        unfolding Send path_run.simps by (rule disjE) simp_all
      with Cons.IH [OF Cons.prems(1-7) n] show ?thesis by simp
    qed
  qed
qed simp

text \<open>
  C1: The requests of a client reach the services. Let the stream of a worker whose tunnels are live
  start with the frames a client wrote under the session of the worker, with packet indexes in order
  when the session is encrypted, and let opening streams to the services succeed. However the
  network splits the bytes, whichever pooled buffers, packets and messages are used, and however
  the rounds of the reading loop are interleaved with the sending loops of the tunnels: every
  round of the reading loop goes on, and afterwards each service has been given, on its stream or
  still in the channel of its tunnel, exactly the messages of the packets addressed to it, in the
  order in which the client sent them, with their data decompressed and the user as the object when
  none is named. The bytes behind the frames are left. The channels of the tunnels are assumed to
  have room for the requests even if nothing is sent.
\<close>

theorem requests_reach_services:
  fixes w :: "('b, 'st, 'cd, 'z) worker_scheme"
  assumes "sync_laws S" and "\<forall>tp. open_err tp = None" and "aes_inverse E D"
    and "serving S w" and "reader_inv (w_reader w) (w_mem w)" and "w_session w < length (sessions w)"
    and "list_all2 (wire_ok E (cur_session w)) bs ws" and "pending (w_mem w) (w_reader w) = concat ws @ rest"
    and "decode_all C (cur_session w) bs = Some qs" and "room_for (length bs) w" and "length (filter is_request evs) = length bs"
  shows "\<exists>w'. path_run S M C open_err D evs w = Some w' \<and> delivered w' = fold deliver qs (delivered w) \<and>
    pending (w_mem w') (w_reader w') = rest \<and> serving S w'"
  using path_delivers [OF assms, of M] by blast

theorem requests_reach_services_witness:
  "\<exists>w w'. pending (w_mem w) (w_reader w) = frame [13, 1, 5] @ frame [13, 2, 6] \<and>
     path_run flag_sync plain_md tiny_codec (\<lambda>_. None) (\<lambda>k b x. Ok (tl x))
       [Request None None None None (\<lambda>_. []), Send 0, Request None None (Some 0) (Some 0) (\<lambda>_. [])] (w :: (unit, bool \<times> bool, int64) worker) = Some w' \<and>
     map m_Data (delivered w' (PlayerTunnelType, 7)) = [[5], [6]]"
proof -
  let ?E = "\<lambda>k b x. Ok (13 # x) :: bytes res" and ?D = "\<lambda>k b x. Ok (tl x) :: bytes res"
  let ?ws = "[frame [13, 1, 5], frame [13, 2, 6]]"
  let ?ss = "snd (IncreaseCSIndex (NewSession 7 1 0 (None :: unit option) [] True ''red'' 0))"
  obtain r m where r: "reader_inv r m" "pending m r = stream [RData (concat ?ws)]"
    using fresh_reader by blast
  define w where "w = plain_worker\<lparr>sessions := [?ss], w_reader := r, w_mem := m\<rparr>"
  have pd: "pending (w_mem w) (w_reader w) = concat ?ws @ []" using r(2) by (simp add: w_def)
  have d: "decode_all tiny_codec (cur_session w) [[1, 5], [2, 6]] =
      Some [zero_packet\<lparr>Index := 1, Data := [5], Obj := 7\<rparr>, zero_packet\<lparr>Index := 2, Data := [6], Obj := 7\<rparr>]"
    by (simp add: w_def cur_session_def plain_worker_def tiny_codec_def decode_def next_session_def session_defs NewSession_def
        newIndexInfo_def zero_packet_def)
  have wo: "list_all2 (wire_ok ?E (cur_session w)) [[1, 5], [2, 6]] ?ws"
    by (simp add: w_def cur_session_def plain_worker_def wire_ok_def w_write_def conn_Write_def encrypt_def session_defs NewSession_def frame_def)
  have sv: "serving flag_sync w" "w_session w < length (sessions w)" "room_for (length [[1, 5], [2, 6]]) w" "delivered w = (\<lambda>_. [])"
    by (simp_all add: serving_def room_for_def delivered_def fun_eq_iff w_def plain_worker_def pools_blank_def blank_def)
  have inv: "aes_inverse ?E ?D" "reader_inv (w_reader w) (w_mem w)" using r(1) by (simp_all add: aes_inverse_def w_def)
  let ?evs = "[Request None None None None (\<lambda>_. []), Send 0, Request None None (Some 0) (Some 0) (\<lambda>_. [])]"
  have n: "length (filter is_request ?evs) = length [[1, 5], [2, 6] :: bytes]" by simp
  from requests_reach_services [OF flag_sync_laws _ inv(1) sv(1) inv(2) sv(2) wo pd d _ n, of "\<lambda>_. None" plain_md] sv(3,4) obtain w' where
    w': "path_run flag_sync plain_md tiny_codec (\<lambda>_. None) ?D ?evs w = Some w'"
      "delivered w' = fold deliver [zero_packet\<lparr>Index := 1, Data := [5], Obj := 7\<rparr>, zero_packet\<lparr>Index := 2, Data := [6], Obj := 7\<rparr>] (\<lambda>_. [])"
    by (auto simp del: path_run.simps fold_simps)
  have "map m_Data (delivered w' (PlayerTunnelType, 7)) = [[5], [6]]"
    by (simp add: w'(2) deliver_def addressee_def packet_message_def zero_packet_def ModuleID_Room_def)
  with w'(1) pd show ?thesis by (intro exI [of _ w] exI [of _ w']) simp
qed

end
