(* ===== verification/Whole_Session.thy ===== *)
theory Whole_Session
  imports Request_Path
begin

text \<open>
  A connection from its first byte: \<^verbatim>\<open>NewWorker\<close> and \<^verbatim>\<open>Worker.Start\<close>
  (\<^verbatim>\<open>pkg/net/internal/worker.go\<close>) with \<^verbatim>\<open>Service.Auth\<close>
  (\<^verbatim>\<open>app/gate/internal/intra/net/service/auth.go\<close>), followed by the requests of \<open>Request_Path\<close>; and the
  requests that are refused.
\<close>

section \<open>The start of a connection\<close>

text \<open>What a start that succeeds has done.\<close>

lemma wk_Start_Ok:
  assumes "wk_Start E D wr auth onC dl1 dl2 ch1 ch2 w = (Ok (), w')"
  obtains inb r m out ss pl sent where "w_read D ch1 ch2 (cur_session w) (w_reader w) (w_mem w) = (Ok inb, r, m)"
    and "auth inb (pktPool w) = (Ok (out, ss), pl)"
    and "w' = w\<lparr>w_reader := r, w_mem := m, pktPool := pl, w_sent := sent,
      sessions := sessions w @ [SetClientIP (RemoteAddr (w_remote w)) ss], w_session := length (sessions w), w_started := True\<rparr>"
proof -
  obtain w2 where h: "handshake E D wr auth ch1 ch2 w = (Ok (), w2)" "w' = w2\<lparr>w_started := True\<rparr>"
    using assms by (auto simp: wk_Start_def split: option.splits res.splits prod.splits)
  obtain inb r m where r: "w_read D ch1 ch2 (cur_session w) (w_reader w) (w_mem w) = (Ok inb, r, m)"
    using h(1) by (auto simp: handshake_def wk_read_def split: res.splits prod.splits)
  let ?w1 = "w\<lparr>w_reader := r, w_mem := m\<rparr>"
  have rd: "wk_read D ch1 ch2 w = (Ok inb, ?w1)" by (simp add: wk_read_def r)
  obtain out ss pl where a: "auth inb (pktPool w) = (Ok (out, ss), pl)"
    using h(1) rd by (auto simp: handshake_def split: res.splits prod.splits)
  obtain sent where "wk_write E wr out (?w1\<lparr>pktPool := pl\<rparr>) = (Ok (), ?w1\<lparr>pktPool := pl, w_sent := sent\<rparr>)"
    using h(1) rd a by (auto simp: handshake_def wk_write_def split: res.splits prod.splits)
  then have "w2 = ?w1\<lparr>pktPool := pl, w_sent := sent, sessions := sessions w @ [SetClientIP (RemoteAddr (w_remote w)) ss],
      w_session := length (sessions w)\<rparr>"
    using h(1) rd a by (simp add: handshake_def)
  with r a h(2) show thesis
    by (intro that [where inb = inb and r = r and m = m and out = out and ss = ss and pl = pl and sent = sent]) simp_all
qed

lemma NewWorker_Ok:
  assumes "NewWorker S wid remote cfg referer pks pms rms ch input m = Ok w" and "mem_inv m" and "ReaderBufSize cfg = 2 ^ k"
  shows "reader_inv (w_reader w) (w_mem w)" and "pending (w_mem w) (w_reader w) = stream input"
    and "tunnels w = []" and "w_holder w = newTunnelHolder" and "pktPool w = pks" and "playerMsgs w = pms" and "roomMsgs w = rms"
    and "sessions w = [DefaultSession]" and "w_session w = 0" and "w_remote w = remote"
proof -
  from reader_mem.NewReader_ok [OF assms(2), of ch input k] obtain r m1 where
    r: "NewReader ch input (2 ^ k) m = (Ok r, m1)" "reader_inv r m1" "pending m1 r = stream input"
    by (auto simp: reader_inv_def)
  then show "reader_inv (w_reader w) (w_mem w)" "pending (w_mem w) (w_reader w) = stream input"
    "tunnels w = []" "w_holder w = newTunnelHolder" "pktPool w = pks" "playerMsgs w = pms" "roomMsgs w = rms"
    "sessions w = [DefaultSession]" "w_session w = 0" "w_remote w = remote"
    using assms(1,3) by (auto simp: NewWorker_def split: if_splits)
qed

text \<open>After the start the worker has no tunnels yet, has read exactly the first frame, and its
  session is that of the account of the token in it.\<close>

lemma started_connection:
  assumes new: "NewWorker S wid remote cfg referer pks pms rms chr input m = Ok w0" and "mem_inv m" and "ReaderBufSize cfg = 2 ^ k"
    and pools: "blank zero_packet pks" "blank zero_message pms" "blank zero_message rms"
    and start: "wk_Start E D wr (Auth L sec C clk rnd enc cha) onC dl1 dl2 ch1 ch2 w0 = (Ok (), w)"
    and input: "stream input = frame hs @ rest" "0 < length hs" "length hs \<le> 2 ^ 14"
  obtains in1 inp cs token where "if enc then rsa_Decrypt L (handshakePriKey sec) hs = Ok in1 else in1 = hs"
    and "un_Packet C in1 = Ok inp" and "un_CSHandshake C (Data inp) = Ok cs"
    and "decryptAccountToken L sec C (Token cs) = Ok token" and "\<not> now_After clk (Timeout token)"
    and "UID (cur_session w) = AccountId token" and "IsCrypto (cur_session w) = enc" and "CSIndex (cur_session w) = 1"
    and "serving S w" and "delivered w = (\<lambda>_. [])" and "room_for 1024 w" and "w_session w < length (sessions w)"
    and "reader_inv (w_reader w) (w_mem w)" and "pending (w_mem w) (w_reader w) = rest"
proof -
  note n = NewWorker_Ok [OF new assms(2,3)]
  obtain inb r1 m1 out ss pl sent where s: "w_read D ch1 ch2 (cur_session w0) (w_reader w0) (w_mem w0) = (Ok inb, r1, m1)"
    "Auth L sec C clk rnd enc cha inb pks = (Ok (out, ss), pl)"
    "w = w0\<lparr>w_reader := r1, w_mem := m1, pktPool := pl, w_sent := sent,
      sessions := sessions w0 @ [SetClientIP (RemoteAddr (w_remote w0)) ss], w_session := length (sessions w0), w_started := True\<rparr>"
    using wk_Start_Ok [OF start] unfolding n(5) by metis
  have "\<not> IsCrypto (cur_session w0)" by (simp add: cur_session_def n(8,9) DefaultSession_def IsCrypto_def)
  then have "decrypt D (cur_session w0) hs = Ok hs" by (simp add: decrypt_def)
  then have rd: "inb = hs" "pending m1 r1 = rest" "reader_inv r1 m1"
    using gate_source.w_read_frame [OF n(1) _ input(2,3), of rest D ch1 ch2 "cur_session w0"] n(2) input(1) s(1) by auto
  obtain in1 inp cs token where a: "if enc then rsa_Decrypt L (handshakePriKey sec) hs = Ok in1 else in1 = hs"
    "un_Packet C in1 = Ok inp" "un_CSHandshake C (Data inp) = Ok cs"
    "decryptAccountToken L sec C (Token cs) = Ok token" "\<not> now_After clk (Timeout token)"
    "UID ss = AccountId token" "IsCrypto ss = enc" "CSIndex ss = 1" "blank zero_packet pl"
    using Auth_Ok [OF s(2) pools(1)] rd(1) by auto
  have cs: "cur_session w = SetClientIP (RemoteAddr (w_remote w0)) ss" by (simp add: s(3) cur_session_def)
  have "UID (cur_session w) = AccountId token" "IsCrypto (cur_session w) = enc" "CSIndex (cur_session w) = 1"
    using a(6-8) by (simp_all add: cs session_defs)
  moreover have "serving S w" "delivered w = (\<lambda>_. [])" "room_for 1024 w"
    using a(9) pools(2,3) n(3-7) by (simp_all add: s(3) serving_def pools_blank_def delivered_def fun_eq_iff room_for_def)
  moreover have "w_session w < length (sessions w)" "reader_inv (w_reader w) (w_mem w)" "pending (w_mem w) (w_reader w) = rest"
    using rd by (simp_all add: s(3))
  ultimately show thesis using that a(1-5) by blast
qed

text \<open>
  C2: A connection serves an authenticated client from its first byte. Let a worker be created for
  a connection on which a client sends a handshake and then, under the session the handshake
  establishes, requests whose indexes count from 1 when the gate encrypts. If the start of the
  worker succeeds, the handshake carried a token that decrypts under the token key and has not
  expired; and then, for every splitting of the stream, every use of the pools and every
  interleaving of the reading loop with the sending loops of the tunnels (for up to as many
  requests as the channel of a tunnel holds), the services are given exactly the messages of the
  requests, in order, addressed to the account of that token where the client names no object,
  and nothing else.
\<close>

theorem new_connection_serves:
  assumes "sync_laws S" and "\<forall>tp. open_err tp = None" and "aes_inverse E D"
    and "NewWorker S wid remote cfg referer pks pms rms chr input m = Ok w0" and "mem_inv m" and "ReaderBufSize cfg = 2 ^ k"
    and "blank zero_packet pks" and "blank zero_message pms" and "blank zero_message rms"
    and "wk_Start E D wr (Auth L sec C clk rnd enc cha) onC dl1 dl2 ch1 ch2 w0 = (Ok (), w)"
    and "stream input = frame hs @ concat ws @ rest" and "0 < length hs" and "length hs \<le> 2 ^ 14"
    and "list_all2 (wire_ok E (cur_session w)) bs ws" and "decode_all C (cur_session w) bs = Some qs"
    and "length bs \<le> 1024" and "length (filter is_request evs) = length bs"
  shows "\<exists>w' in1 inp cs token. path_run S M C open_err D evs w = Some w' \<and> delivered w' = fold deliver qs (\<lambda>_. []) \<and>
    pending (w_mem w') (w_reader w') = rest \<and>
    (if enc then rsa_Decrypt L (handshakePriKey sec) hs = Ok in1 else in1 = hs) \<and> un_Packet C in1 = Ok inp \<and>
    un_CSHandshake C (Data inp) = Ok cs \<and> decryptAccountToken L sec C (Token cs) = Ok token \<and> \<not> now_After clk (Timeout token) \<and>
    UID (cur_session w) = AccountId token \<and> IsCrypto (cur_session w) = enc \<and> CSIndex (cur_session w) = 1"
proof -
  obtain in1 inp cs token where c: "if enc then rsa_Decrypt L (handshakePriKey sec) hs = Ok in1 else in1 = hs"
    "un_Packet C in1 = Ok inp" "un_CSHandshake C (Data inp) = Ok cs"
    "decryptAccountToken L sec C (Token cs) = Ok token" "\<not> now_After clk (Timeout token)"
    "UID (cur_session w) = AccountId token" "IsCrypto (cur_session w) = enc" "CSIndex (cur_session w) = 1"
    and w: "serving S w" "delivered w = (\<lambda>_. [])" "room_for 1024 w" "w_session w < length (sessions w)"
      "reader_inv (w_reader w) (w_mem w)" "pending (w_mem w) (w_reader w) = concat ws @ rest"
    by (rule started_connection [OF assms(4-13)])
  have "room_for (length bs) w" using w(3) assms(16) by (auto simp: room_for_def)
  from path_delivers [OF assms(1-3) w(1,5,4) assms(14) w(6) assms(15) this assms(17), of M] c w(2) show ?thesis by auto
qed


text \<open>A codec that reads pairs of bytes as requests and everything else as a handshake.\<close>

definition pair_codec :: codec where
  "pair_codec = tiny_codec\<lparr>un_Packet := (\<lambda>b. case b of [i, d] \<Rightarrow> Ok (zero_packet\<lparr>Index := ucast i, Data := [d]\<rparr>)
     | _ \<Rightarrow> Ok (zero_packet\<lparr>Seq := 1, Data := b\<rparr>))\<rparr>"

definition small_conf :: conf_Worker where
  "small_conf = \<lparr>ReaderBufSize = 4096, ReplyChanSize = 1024, HandshakeTimeout = 0, RequestIdleTimeout = 0,
     WaitMainTunnelTimeout = 0, wk_StopTimeout = 0\<rparr>"

definition pair_auth :: "bytes \<Rightarrow> packet list \<Rightarrow> (bytes \<times> unit session) res \<times> packet list" where
  "pair_auth = Auth plain_crypto \<lparr>handshakePriKey = Some (), tokenAESKey = [], tokenAESBlock = Some ()\<rparr> pair_codec
     \<lparr>now_After = (\<lambda>t. t <s 50), now_Unix = 50\<rparr> (Ok ''k'') True None"

lemma pair_auth_Ok: "\<exists>out ss pl. pair_auth [9] [] = (Ok (out, ss), pl)"
  by (simp add: pair_auth_def pair_codec_def Auth_def tiny_codec_def plain_crypto_def DecryptCSHandshake_def SystemSeq_Handshake_def
      service_auth_def decryptAccountToken_def DecryptToken_def InitApiCrypto_def GetPacket_def pool_get_def session_defs word_sless_alt Let_def)

lemma started_pair:
  fixes rest :: bytes
  obtains w0 w :: "(unit, bool \<times> bool, int64) worker" where
    "NewWorker flag_sync 1 None small_conf [] [] [] [] None [RData (frame [9] @ rest)] (fresh_mem the_pool) = Ok w0"
    and "wk_Start (\<lambda>k b x. Ok (13 # x)) (\<lambda>k b x. Ok (tl x)) (\<lambda>_. None) pair_auth OnConnected None None None None w0 = (Ok (), w)"
    and "UID (cur_session w) = 7" and "IsCrypto (cur_session w)" and "CSIndex (cur_session w) = 1"
proof -
  let ?E = "\<lambda>k b x. Ok (13 # x) :: bytes res" and ?D = "\<lambda>k b x. Ok (tl x) :: bytes res"
  from reader_mem.NewReader_ok [OF mem_inv_fresh, of None "[RData (frame [9] @ rest)]" 12] obtain r0 m0 where
    "NewReader None [RData (frame [9] @ rest)] 4096 (fresh_mem the_pool) = (Ok r0, m0)" by auto
  then obtain w0 :: "(unit, bool \<times> bool, int64) worker" where
    w0: "NewWorker flag_sync 1 None small_conf [] [] [] [] None [RData (frame [9] @ rest)] (fresh_mem the_pool) = Ok w0"
    by (simp add: NewWorker_def small_conf_def)
  have k: "ReaderBufSize small_conf = 2 ^ 12" by (simp add: small_conf_def)
  note n = NewWorker_Ok [OF w0 mem_inv_fresh k]
  have c0: "\<not> IsCrypto (cur_session w0)" by (simp add: cur_session_def n(8,9) DefaultSession_def IsCrypto_def)
  have "pending (w_mem w0) (w_reader w0) = frame [9] @ rest" using n(2) by simp
  from gate_source.w_read_frame [OF n(1) this, of ?D None None "cur_session w0"] c0 obtain r m where
    r: "w_read ?D None None (cur_session w0) (w_reader w0) (w_mem w0) = (Ok [9], r, m)"
    by (auto simp: decrypt_def)
  obtain out ss pl where a: "pair_auth [9] [] = (Ok (out, ss), pl)" using pair_auth_Ok by blast
  let ?w1 = "w0\<lparr>w_reader := r, w_mem := m, pktPool := pl\<rparr>"
  have "cur_session ?w1 = cur_session w0" by (simp add: cur_session_def)
  then have "wk_write ?E (\<lambda>_. None) out ?w1 = (Ok (), ?w1\<lparr>w_sent := w_sent w0 @ frame out\<rparr>)"
    using c0 by (simp add: wk_write_def w_write_def encrypt_def conn_Write_def)
  then obtain w where st: "wk_Start ?E ?D (\<lambda>_. None) pair_auth OnConnected None None None None w0 = (Ok (), w)"
    by (simp add: wk_Start_def handshake_def wk_read_def r n(5) a OnConnected_def)
  have bl: "blank zero_packet []" "blank zero_message []" by (simp_all add: blank_def)
  have s: "stream [RData (frame [9] @ rest)] = frame [9] @ rest" "0 < length [9 :: byte]" "length [9 :: byte] \<le> 2 ^ 14" by simp_all
  obtain in1 inp cs token where t: "un_Packet pair_codec in1 = Ok inp" "un_CSHandshake pair_codec (Data inp) = Ok cs"
    "decryptAccountToken plain_crypto \<lparr>handshakePriKey = Some (), tokenAESKey = [], tokenAESBlock = Some ()\<rparr> pair_codec (Token cs) = Ok token"
    "UID (cur_session w) = AccountId token" "IsCrypto (cur_session w)" "CSIndex (cur_session w) = 1"
    by (rule started_connection [OF w0 mem_inv_fresh k bl bl(2) st [unfolded pair_auth_def] s]) simp
  then have "UID (cur_session w) = 7"
    by (auto simp: pair_codec_def tiny_codec_def decryptAccountToken_def DecryptToken_def plain_crypto_def)
  then show thesis using that w0 st t(5,6) by blast
qed

lemma pair_wire: "IsCrypto s \<Longrightarrow> length b < 100 \<Longrightarrow> wire_ok (\<lambda>k b x. Ok (13 # x)) s b (frame (13 # b))"
  by (simp add: wire_ok_def w_write_def conn_Write_def encrypt_def frame_def)

theorem new_connection_serves_witness:
  "\<exists>(w0 :: (unit, bool \<times> bool, int64) worker) w w'.
     wk_Start (\<lambda>k b x. Ok (13 # x)) (\<lambda>k b x. Ok (tl x)) (\<lambda>_. None) pair_auth OnConnected None None None None w0 = (Ok (), w) \<and>
     path_run flag_sync plain_md pair_codec (\<lambda>_. None) (\<lambda>k b x. Ok (tl x))
       [Request None None None None (\<lambda>_. []), Request None None (Some 0) (Some 0) (\<lambda>_. [])] w = Some w' \<and>
     map m_Data (delivered w' (PlayerTunnelType, 7)) = [[5], [6]]"
proof -
  let ?E = "\<lambda>k b x. Ok (13 # x) :: bytes res" and ?D = "\<lambda>k b x. Ok (tl x) :: bytes res"
  let ?ws = "[frame [13, 1, 5], frame [13, 2, 6]]"
  let ?evs = "[Request None None None None (\<lambda>_. []), Request None None (Some 0) (Some 0) (\<lambda>_. [])]"
  obtain w0 w :: "(unit, bool \<times> bool, int64) worker" where
    w: "NewWorker flag_sync 1 None small_conf [] [] [] [] None [RData (frame [9] @ concat ?ws @ [])] (fresh_mem the_pool) = Ok w0"
      "wk_Start ?E ?D (\<lambda>_. None) pair_auth OnConnected None None None None w0 = (Ok (), w)"
      "UID (cur_session w) = 7" "IsCrypto (cur_session w)" "CSIndex (cur_session w) = 1"
    using started_pair by metis
  have d: "decode_all pair_codec (cur_session w) [[1, 5], [2, 6]] =
      Some [zero_packet\<lparr>Index := 1, Data := [5], Obj := 7\<rparr>, zero_packet\<lparr>Index := 2, Data := [6], Obj := 7\<rparr>]"
    using w(3-5) by (simp add: pair_codec_def tiny_codec_def decode_def zero_packet_def)
  have wo: "list_all2 (wire_ok ?E (cur_session w)) [[1, 5], [2, 6]] ?ws"
    using pair_wire [OF w(4)] by simp
  have n: "ReaderBufSize small_conf = 2 ^ 12" "blank zero_packet []" "blank zero_message []" "aes_inverse ?E ?D"
    "length (filter is_request ?evs) = length [[1, 5], [2, 6] :: bytes]"
    by (simp_all add: small_conf_def blank_def aes_inverse_def)
  from new_connection_serves [where open_err = "\<lambda>_. None" and hs = "[9]" and rest = "[]" and M = plain_md,
      OF flag_sync_laws _ n(4) w(1) mem_inv_fresh n(1-3) n(3) w(2) [unfolded pair_auth_def] _ _ _ wo d _ n(5)] obtain w' where
    w': "path_run flag_sync plain_md pair_codec (\<lambda>_. None) ?D ?evs w = Some w'"
      "delivered w' = fold deliver [zero_packet\<lparr>Index := 1, Data := [5], Obj := 7\<rparr>, zero_packet\<lparr>Index := 2, Data := [6], Obj := 7\<rparr>] (\<lambda>_. [])"
    by (auto simp del: path_run.simps fold_simps)
  have "map m_Data (delivered w' (PlayerTunnelType, 7)) = [[5], [6]]"
    by (simp add: w'(2) deliver_def addressee_def packet_message_def zero_packet_def ModuleID_Room_def)
  with w(2) w'(1) show ?thesis by (intro exI conjI)
qed


section \<open>Refused requests\<close>

text \<open>A request that cannot be decoded, or whose index is not the next one, is not forwarded.\<close>

lemma handle_refused:
  fixes w :: "('b, 'st, 'cd, 'z) worker_scheme"
  assumes "decode C (cur_session w) b = None" and "w_session w < length (sessions w)"
  obtains r w' where "wk_handle S M C open_err ch chf ctx b w = Some (r, w')" and "\<forall>x. r \<noteq> Ok x" and "tunnels w' = tunnels w"
    and "streams w' = streams w" and "w_holder w' = w_holder w"
proof -
  obtain p0 pl where g: "GetPacket ch (pktPool w) = (p0, pl)" by fastforce
  have "\<exists>r w'. service_handle M C (\<lambda>_. worker_Tunnel S open_err (w_session w)) (Forward S chf) ch ctx (w_session w) b w = Some (r, w') \<and>
      (\<forall>x. r \<noteq> Ok x) \<and> tunnels w' = tunnels w \<and> streams w' = streams w \<and> w_holder w' = w_holder w"
    using assms by (auto simp: service_handle_def g decode_def check_index_def cur_session_def put_back_def Let_def
        split: res.splits if_splits)
  then obtain r w' where h: "service_handle M C (\<lambda>_. worker_Tunnel S open_err (w_session w)) (Forward S chf) ch ctx (w_session w) b w = Some (r, w')"
    "\<forall>x. r \<noteq> Ok x" "tunnels w' = tunnels w" "streams w' = streams w" "w_holder w' = w_holder w" by blast
  then show thesis
    by (cases r) (auto intro!: that simp: wk_handle_def service_Handle_def)
qed

lemma refused_round:
  fixes w :: "('b, 'st, 'cd, 'z) worker_scheme"
  assumes "decode C (cur_session w) b = None" and "w_session w < length (sessions w)"
    and "aes_inverse E D" and "reader_inv (w_reader w) (w_mem w)" and "wire_ok E (cur_session w) b wb"
    and "pending (w_mem w) (w_reader w) = wb @ rest"
  obtains e w' where "readPackLoop_round (readPack D ch1 ch2 None (wk_handle S M C open_err ch chf ctx) None) RDefault w = Some (Return (Some e), w')"
    and "delivered w' = delivered w" and "streams w' = streams w"
proof -
  obtain c where c: "wb = frame c" "0 < length c" "length c \<le> 2 ^ 14" "decrypt D (cur_session w) c = Ok b"
    using wire_ok_frame [OF assms(3,5)] by blast
  from gate_source.w_read_frame [OF assms(4) assms(6) [unfolded c(1)] c(2,3), of D ch1 ch2 "cur_session w"] obtain r m where
    r: "w_read D ch1 ch2 (cur_session w) (w_reader w) (w_mem w) = (Ok b, r, m)"
    using c(4) by auto
  define w1 where "w1 = w\<lparr>w_reader := r, w_mem := m\<rparr>"
  have "decode C (cur_session w1) b = None" "w_session w1 < length (sessions w1)" using assms(1,2) by (simp_all add: w1_def)
  then obtain x w' where h: "wk_handle S M C open_err ch chf ctx b w1 = Some (x, w')" "\<forall>y. x \<noteq> Ok y" "tunnels w' = tunnels w"
    "streams w' = streams w" "w_holder w' = w_holder w"
    using handle_refused [of C w1 b S M open_err ch chf ctx] by (auto simp: w1_def)
  have "readPackLoop_round (readPack D ch1 ch2 None (wk_handle S M C open_err ch chf ctx) None) RDefault w = Some (run_safe x, w')"
    using r h(1) by (simp add: readPackLoop_round_def readPack_def wk_read_def w1_def)
  moreover obtain e where "run_safe x = Return (Some e)" using h(2) by (cases x) (simp_all add: run_safe_def)
  moreover have "accepted w' = accepted w" using h(3,4) by (simp add: accepted_def fun_eq_iff)
  then have "delivered w' = delivered w" using h(5) by (intro ext) (simp add: delivered_def split: option.splits)
  ultimately show thesis using that h(4) by simp
qed

text \<open>The index of a request in an encrypted session is its number, so that an earlier one does not
  fit any more.\<close>

lemma next_sessions:
  "IsCrypto ((next_session ^^ n) s) = IsCrypto s" "wire_ok E ((next_session ^^ n) s) = wire_ok E s"
  "IsCrypto s \<Longrightarrow> CSIndex ((next_session ^^ n) s) = CSIndex s + of_nat n"
  by (induction n) simp_all

lemma decode_all_nth:
  assumes "decode_all C s bs = Some qs" and "k < length bs"
  shows "\<exists>q. decode C ((next_session ^^ k) s) (bs ! k) = Some q"
  using assms
proof (induction bs arbitrary: s qs k)
  case (Cons b bs)
  then show ?case
    by (cases k) (auto simp: funpow_swap1 split: option.splits)
qed simp

lemma decoded_index: "IsCrypto s \<Longrightarrow> decode C s b = Some q \<Longrightarrow> \<exists>p. un_Packet C b = Ok p \<and> CSIndex s = scast (Index p)"
  by (auto simp: decode_def split: res.splits if_splits)

lemma replay_undecodable:
  assumes "IsCrypto s" and "decode_all C s bs = Some qs" and "b \<in> set bs" and "length bs < 2 ^ 64"
  shows "decode C ((next_session ^^ length bs) s) b = None"
proof -
  obtain k where k: "k < length bs" "b = bs ! k" using assms(3) by (auto simp: in_set_conv_nth)
  obtain q where "decode C ((next_session ^^ k) s) b = Some q"
    using decode_all_nth [OF assms(2) k(1)] k(2) by blast
  then obtain p where p: "un_Packet C b = Ok p" "CSIndex s + of_nat k = scast (Index p)"
    using decoded_index [of "(next_session ^^ k) s" C b q] assms(1) by (auto simp: next_sessions)
  have "(of_nat k :: int64) \<noteq> of_nat (length bs)"
    using k(1) assms(4) by (simp add: word_of_nat_eq_iff take_bit_nat_eq_self)
  then have "CSIndex ((next_session ^^ length bs) s) \<noteq> scast (Index p)"
    using p(2) assms(1) by (simp add: next_sessions flip: p(2))
  then show ?thesis using p(1) assms(1) by (simp add: decode_def next_sessions)
qed

text \<open>
  C13: Replayed requests are refused. When an attacker repeats a frame of a request of an encrypted
  session, or any other frame that decrypts to the same request, after the requests of the client
  were served in whatever interleaving, the next round of the reading loop ends it with an error,
  nothing is forwarded to any service beyond what the client had sent, and nothing is sent on any
  stream.
\<close>

theorem replayed_request_refused:
  fixes w :: "('b, 'st, 'cd, 'z) worker_scheme"
  assumes "sync_laws S" and "\<forall>tp. open_err tp = None" and "aes_inverse E D"
    and "serving S w" and "reader_inv (w_reader w) (w_mem w)" and "w_session w < length (sessions w)"
    and "list_all2 (wire_ok E (cur_session w)) bs ws" and "decode_all C (cur_session w) bs = Some qs"
    and "room_for (length bs) w" and "length (filter is_request evs) = length bs"
    and "IsCrypto (cur_session w)" and "b \<in> set bs" and "wire_ok E (cur_session w) b wb"
    and "pending (w_mem w) (w_reader w) = concat ws @ wb @ rest"
  shows "\<exists>w' e w''. path_run S M C open_err D evs w = Some w' \<and>
    readPackLoop_round (readPack D ch1 ch2 None (wk_handle S M C open_err ch chf ctx) None) RDefault w' = Some (Return (Some e), w'') \<and>
    delivered w'' = fold deliver qs (delivered w) \<and> streams w'' = streams w'"
proof -
  from path_delivers [OF assms(1-7,14,8,9,10), of M] obtain w' where
    w': "path_run S M C open_err D evs w = Some w'" "delivered w' = fold deliver qs (delivered w)" "pending (w_mem w') (w_reader w') = wb @ rest"
      "reader_inv (w_reader w') (w_mem w')" "w_session w' < length (sessions w')" "cur_session w' = (next_session ^^ length bs) (cur_session w)"
    by blast
  have "length bs < 2 ^ 64" using assms(9) by (simp add: room_for_def)
  then have "decode C (cur_session w') b = None" "wire_ok E (cur_session w') b wb"
    using replay_undecodable [OF assms(11,8,12)] assms(13) by (simp_all add: w'(6) next_sessions)
  from refused_round [OF this(1) w'(5) assms(3) w'(4) this(2) w'(3)] obtain e w'' where
    "readPackLoop_round (readPack D ch1 ch2 None (wk_handle S M C open_err ch chf ctx) None) RDefault w' = Some (Return (Some e), w'')"
    "delivered w'' = delivered w'" "streams w'' = streams w'"
    by metis
  with w'(1,2) show ?thesis by auto
qed

theorem replayed_request_refused_witness:
  "\<exists>(w :: (unit, bool \<times> bool, int64) worker) w' e w''. path_run flag_sync plain_md pair_codec (\<lambda>_. None) (\<lambda>k b x. Ok (tl x))
       [Request None None None None (\<lambda>_. [])] w = Some w' \<and>
     readPackLoop_round (readPack (\<lambda>k b x. Ok (tl x)) None None None (wk_handle flag_sync plain_md pair_codec (\<lambda>_. None) None None (\<lambda>_. [])) None)
       RDefault w' = Some (Return (Some e), w'') \<and> map m_Data (delivered w'' (PlayerTunnelType, 7)) = [[5]]"
proof -
  let ?E = "\<lambda>k b x. Ok (13 # x) :: bytes res" and ?D = "\<lambda>k b x. Ok (tl x) :: bytes res" and ?f = "frame [13, 1, 5]"
  have s: "stream [RData (frame [9] @ ?f @ ?f)] = frame [9] @ ?f @ ?f" "0 < length [9 :: byte]" "length [9 :: byte] \<le> 2 ^ 14" by simp_all
  have n: "ReaderBufSize small_conf = 2 ^ 12" "blank zero_packet []" "blank zero_message []" "aes_inverse ?E ?D"
    by (simp_all add: small_conf_def blank_def aes_inverse_def)
  obtain w0 w :: "(unit, bool \<times> bool, int64) worker" where
    w: "NewWorker flag_sync 1 None small_conf [] [] [] [] None [RData (frame [9] @ ?f @ ?f)] (fresh_mem the_pool) = Ok w0"
      "wk_Start ?E ?D (\<lambda>_. None) pair_auth OnConnected None None None None w0 = (Ok (), w)"
      "UID (cur_session w) = 7" "IsCrypto (cur_session w)" "CSIndex (cur_session w) = 1"
    using started_pair by metis
  have v: "serving flag_sync w" "delivered w = (\<lambda>_. [])" "room_for 1024 w" "w_session w < length (sessions w)"
      "reader_inv (w_reader w) (w_mem w)" "pending (w_mem w) (w_reader w) = ?f @ ?f"
    by (rule started_connection [OF w(1) mem_inv_fresh n(1-3) n(3) w(2) [unfolded pair_auth_def] s]; assumption)+
  have d: "decode_all pair_codec (cur_session w) [[1, 5]] = Some [zero_packet\<lparr>Index := 1, Data := [5], Obj := 7\<rparr>]"
    using w(3-5) by (simp add: pair_codec_def tiny_codec_def decode_def zero_packet_def)
  have wo: "wire_ok ?E (cur_session w) [1, 5] ?f" using pair_wire [OF w(4), of "[1, 5]"] by simp
  have "\<exists>w' e w''. path_run flag_sync plain_md pair_codec (\<lambda>_. None) ?D [Request None None None None (\<lambda>_. [])] w = Some w' \<and>
     readPackLoop_round (readPack ?D None None None (wk_handle flag_sync plain_md pair_codec (\<lambda>_. None) None None (\<lambda>_. [])) None)
       RDefault w' = Some (Return (Some e), w'') \<and>
     delivered w'' = fold deliver [zero_packet\<lparr>Index := 1, Data := [5], Obj := 7\<rparr>] (delivered w) \<and> streams w'' = streams w'"
    by (rule replayed_request_refused [OF flag_sync_laws _ n(4) v(1,5,4) _ d, where b = "[1, 5]" and wb = ?f and ws = "[?f]" and rest = "[]"])
      (use v(3,6) w(4) wo in \<open>simp_all add: room_for_def\<close>)
  then obtain w' e w'' where "path_run flag_sync plain_md pair_codec (\<lambda>_. None) ?D [Request None None None None (\<lambda>_. [])] w = Some w'"
    "readPackLoop_round (readPack ?D None None None (wk_handle flag_sync plain_md pair_codec (\<lambda>_. None) None None (\<lambda>_. [])) None)
       RDefault w' = Some (Return (Some e), w'')"
    "delivered w'' = fold deliver [zero_packet\<lparr>Index := 1, Data := [5], Obj := 7\<rparr>] (delivered w)" by blast
  moreover from this(3) have "map m_Data (delivered w'' (PlayerTunnelType, 7)) = [[5]]"
    by (simp add: v(2) deliver_def addressee_def packet_message_def zero_packet_def ModuleID_Room_def)
  ultimately show ?thesis by (intro exI conjI)
qed

end
