(* ===== verification/Tunnel_Run.thy ===== *)
theory Tunnel_Run
  imports Worker
begin

text \<open>
  The goroutines of a tunnel (\<^verbatim>\<open>Tunnel.run\<close> in
  \<^verbatim>\<open>app/gate/internal/intra/net/tunnels/tunnel.go\<close>): one that watches for the stop, the loop from the
  client to the service and the loop from the service to the client. The state of the group is that
  of its goroutines, of the context of the group and of its first error, beside the state \<open>gate\<close>.
  Packets that are forwarded meanwhile are not steps of the group: \<open>Channel_Race\<close> interleaves them
  with the stop.
\<close>

section \<open>The group\<close>

record ('b, 'st, 'cd) trun =
  tr_gate :: "('b, 'st, 'cd) gate"
  tr_ctx :: "gerr option"
  tr_err :: "gerr option"
  tr_watch :: goroutine
  tr_cs :: goroutine
  tr_sc :: goroutine

definition trun_start :: "('b, 'st, 'cd) gate \<Rightarrow> ('b, 'st, 'cd) trun" where
  "trun_start g = \<lparr>tr_gate = g, tr_ctx = None, tr_err = None, tr_watch = Running, tr_cs = Running, tr_sc = Running\<rparr>"

text \<open>The first error of a goroutine is kept and ends the context of the group.\<close>

definition trun_error :: "gerr \<Rightarrow> ('b, 'st, 'cd) trun \<Rightarrow> ('b, 'st, 'cd) trun" where
  "trun_error e s =
     (case tr_err s of
        Some _ \<Rightarrow> s
      | None \<Rightarrow> s\<lparr>tr_err := Some e, tr_ctx := (case tr_ctx s of None \<Rightarrow> Some Canceled | y \<Rightarrow> y)\<rparr>)"

definition trun_finished :: "('b, 'st, 'cd) trun \<Rightarrow> bool" where
  "trun_finished s \<longleftrightarrow> tr_watch s \<noteq> Running \<and> tr_cs s \<noteq> Running \<and> tr_sc s \<noteq> Running"

text \<open>The error a round of a loop returns; a panic is turned into an error by \<^verbatim>\<open>sync.RunSafe\<close>.\<close>

fun round_error :: "unit res \<Rightarrow> gerr option" where
  "round_error (Ok _) = None"
| "round_error (Fail e) = Some e"
| "round_error (Panic p) = Some (Err ''panic: %s'' [AStr p])"

text \<open>
  The steps of the goroutines, and the end of the context of the connection (\<open>parent_done\<close>). \<open>sc\<close> is a round of the loop from the service, which depends on
  what \<^verbatim>\<open>Recv\<close> returns and may block (\<open>None\<close>). A loop takes any case of its \<^verbatim>\<open>select\<close> that is ready.
\<close>

inductive trun_step ::
  "('st, 'cd) sync_ops \<Rightarrow> nat \<Rightarrow> (('b, 'st, 'cd) gate \<Rightarrow> (unit res \<times> ('b, 'st, 'cd) gate) option) \<Rightarrow>
   ('b, 'st, 'cd) trun \<Rightarrow> ('b, 'st, 'cd) trun \<Rightarrow> bool"
  for S t sc where
  parent_done: "tr_ctx s = None \<Longrightarrow> trun_step S t sc s (s\<lparr>tr_ctx := Some e\<rparr>)"
| watch_ctx: "tr_watch s = Running \<Longrightarrow> tr_ctx s = Some e \<Longrightarrow>
    trun_step S t sc s (trun_error e (s\<lparr>tr_watch := Returned (Some e)\<rparr>))"
| watch_stop: "tr_watch s = Running \<Longrightarrow> StopTriggered S (t_stopper (tunnels (tr_gate s) ! t)) \<Longrightarrow>
    trun_step S t sc s (trun_error GroupStopping (s\<lparr>tr_watch := Returned (Some GroupStopping)\<rparr>))"
| cs_ctx: "tr_cs s = Running \<Longrightarrow> tr_ctx s = Some e \<Longrightarrow> csLoop_round (CtxDone e) t (tr_gate s) = Some (r, g) \<Longrightarrow>
    round_error r = Some e1 \<Longrightarrow> trun_step S t sc s (trun_error e1 (s\<lparr>tr_gate := g, tr_cs := Returned (Some e1)\<rparr>))"
| cs_stop: "tr_cs s = Running \<Longrightarrow> StopTriggered S (t_stopper (tunnels (tr_gate s) ! t)) \<Longrightarrow>
    csLoop_round StopSign t (tr_gate s) = Some (r, g) \<Longrightarrow> round_error r = Some e1 \<Longrightarrow>
    trun_step S t sc s (trun_error e1 (s\<lparr>tr_gate := g, tr_cs := Returned (Some e1)\<rparr>))"
| cs_next: "tr_cs s = Running \<Longrightarrow> csLoop_round (CSMsg err) t (tr_gate s) = Some (r, g) \<Longrightarrow> round_error r = None \<Longrightarrow>
    trun_step S t sc s (s\<lparr>tr_gate := g\<rparr>)"
| cs_fail: "tr_cs s = Running \<Longrightarrow> csLoop_round (CSMsg err) t (tr_gate s) = Some (r, g) \<Longrightarrow> round_error r = Some e1 \<Longrightarrow>
    trun_step S t sc s (trun_error e1 (s\<lparr>tr_gate := g, tr_cs := Returned (Some e1)\<rparr>))"
| sc_next: "tr_sc s = Running \<Longrightarrow> sc (tr_gate s) = Some (r, g) \<Longrightarrow> round_error r = None \<Longrightarrow>
    trun_step S t sc s (s\<lparr>tr_gate := g\<rparr>)"
| sc_fail: "tr_sc s = Running \<Longrightarrow> sc (tr_gate s) = Some (r, g) \<Longrightarrow> round_error r = Some e1 \<Longrightarrow>
    trun_step S t sc s (trun_error e1 (s\<lparr>tr_gate := g, tr_sc := Returned (Some e1)\<rparr>))"

text \<open>When all goroutines have returned, \<^verbatim>\<open>run\<close> tells the application the error of the group and stops the
  tunnel (\<open>run_end\<close>).\<close>

definition trun_result :: "('st, 'cd) sync_ops \<Rightarrow> int64 \<Rightarrow> nat \<Rightarrow> ('b, 'st, 'cd) trun \<Rightarrow> ('b, 'st, 'cd) gate option" where
  "trun_result S now t s = (if trun_finished s then Some (run_end S now (tr_err s) t (tr_gate s)) else None)"


section \<open>The group ends with the stream\<close>

lemma trun_error_simps [simp]:
  "tr_gate (trun_error e s) = tr_gate s" "tr_watch (trun_error e s) = tr_watch s" "tr_cs (trun_error e s) = tr_cs s"
  "tr_sc (trun_error e s) = tr_sc s"
  by (simp_all add: trun_error_def split: option.splits)

lemma trun_error_ctx: "tr_err s = None \<or> tr_ctx s \<noteq> None \<Longrightarrow> tr_ctx (trun_error e s) \<noteq> None"
  by (auto simp: trun_error_def split: option.splits)

lemma CSHandle_tunnels [simp]: "tunnels (snd (CSHandle err app msg g)) = tunnels g"
  by (cases app; cases msg) (auto simp: stream_Send_def Let_def split: option.splits)

text \<open>A message handed to the service is one less in the channel; nothing else of the tunnels
  changes.\<close>

lemma csMsg_round:
  assumes "csLoop_round (CSMsg err) t g = Some (r, g')" and "t < length (tunnels g)"
  shows "tunnels g' = (tunnels g)[t := (tunnels g ! t)\<lparr>csChan := tl (csChan (tunnels g ! t))\<rparr>]"
    and "r = Panic ''interface conversion'' \<or> length (csChan (tunnels g' ! t)) < length (csChan (tunnels g ! t))"
proof -
  have "tunnels g' = (tunnels g)[t := (tunnels g ! t)\<lparr>csChan := tl (csChan (tunnels g ! t))\<rparr>] \<and>
    (r = Panic ''interface conversion'' \<or> length (csChan (tunnels g' ! t)) < length (csChan (tunnels g ! t)))"
  proof (cases "csChan (tunnels g ! t)")
    case Nil
    with assms have "g' = g" "r = Panic ''interface conversion''" by (auto simp: Let_def split: if_splits)
    moreover have upd: "(tunnels g ! t)\<lparr>csChan := []\<rparr> = tunnels g ! t" using Nil by simp
    have "(tunnels g)[t := (tunnels g ! t)\<lparr>csChan := []\<rparr>] = tunnels g" unfolding upd by simp
    ultimately show ?thesis using Nil by simp
  next
    case (Cons cs rest)
    let ?g = "g\<lparr>tunnels := (tunnels g)[t := (tunnels g ! t)\<lparr>csChan := rest\<rparr>]\<rparr>"
    have "CSHandle err (t_app (tunnels g ! t)) cs ?g = (r, g')" using assms(1) Cons by (simp add: Let_def)
    then have "tunnels g' = tunnels ?g" by (metis CSHandle_tunnels snd_conv)
    then show ?thesis using Cons assms(2) by simp
  qed
  then show "tunnels g' = (tunnels g)[t := (tunnels g ! t)\<lparr>csChan := tl (csChan (tunnels g ! t))\<rparr>]"
    "r = Panic ''interface conversion'' \<or> length (csChan (tunnels g' ! t)) < length (csChan (tunnels g ! t))"
    by blast+
qed


text \<open>Every goroutine returns with an error, so one that has returned has ended the context.\<close>

definition trun_inv :: "nat \<Rightarrow> ('b, 'st, 'cd) trun \<Rightarrow> bool" where
  "trun_inv t s \<longleftrightarrow> t < length (tunnels (tr_gate s)) \<and> (tr_err s \<noteq> None \<longrightarrow> tr_ctx s \<noteq> None) \<and>
     (tr_watch s \<noteq> Running \<or> tr_cs s \<noteq> Running \<or> tr_sc s \<noteq> Running \<longrightarrow> tr_err s \<noteq> None)"

lemma trun_inv_error:
  assumes "t < length (tunnels (tr_gate s))" and "tr_err s \<noteq> None \<longrightarrow> tr_ctx s \<noteq> None"
  shows "trun_inv t (trun_error e s)"
  using assms by (auto simp: trun_inv_def trun_error_def split: option.splits)

lemma trun_invD:
  assumes "trun_inv t s"
  shows "t < length (tunnels (tr_gate s))" "tr_err s \<noteq> None \<longrightarrow> tr_ctx s \<noteq> None"
  using assms by (simp_all add: trun_inv_def)

lemma csLoop_length:
  assumes "csLoop_round c t g = Some (r, g')" and "t < length (tunnels g)"
  shows "length (tunnels g') = length (tunnels g)"
proof (cases c)
  case (CSMsg err)
  with assms(1) have "csLoop_round (CSMsg err) t g = Some (r, g')" by simp
  from csMsg_round(1) [OF this assms(2)] show ?thesis by simp
qed (use assms(1) in simp_all)

lemma trun_step_inv:
  assumes "trun_step S t sc s s'" and inv: "trun_inv t s"
    and sc: "\<And>g r g'. sc g = Some (r, g') \<Longrightarrow> length (tunnels g') = length (tunnels g)"
  shows "trun_inv t s'"
  using assms(1)
proof cases
  case (parent_done e)
  with inv show ?thesis by (auto simp: trun_inv_def)
next
  case (cs_ctx e r g e1)
  with trun_invD [OF inv] csLoop_length [OF cs_ctx(4)] show ?thesis by (simp add: trun_inv_error del: csLoop_round.simps)
next
  case (cs_stop r g e1)
  with trun_invD [OF inv] csLoop_length [OF cs_stop(4)] show ?thesis by (simp add: trun_inv_error del: csLoop_round.simps)
next
  case (cs_next err r g)
  with inv csLoop_length [OF cs_next(3)] show ?thesis by (simp add: trun_inv_def del: csLoop_round.simps)
next
  case (cs_fail err r g e1)
  with trun_invD [OF inv] csLoop_length [OF cs_fail(3)] show ?thesis by (simp add: trun_inv_error del: csLoop_round.simps)
next
  case (sc_next r g)
  with inv sc [OF sc_next(3)] show ?thesis by (simp add: trun_inv_def)
next
  case (sc_fail r g e1)
  with trun_invD [OF inv] sc [OF sc_fail(3)] show ?thesis by (simp add: trun_inv_error)
qed (use trun_invD [OF inv] in \<open>simp_all add: trun_inv_error\<close>)

fun alive :: "goroutine \<Rightarrow> nat" where
  "alive Running = 1"
| "alive (Returned _) = 0"

definition trun_measure :: "nat \<Rightarrow> ('b, 'st, 'cd) trun \<Rightarrow> nat" where
  "trun_measure t s =
     length (csChan (tunnels (tr_gate s) ! t)) + alive (tr_watch s) + alive (tr_cs s) + alive (tr_sc s) +
     (if tr_ctx s = None then 1 else 0)"

text \<open>A round of the loop from the service on a stream that has ended.\<close>

lemma scLoop_ended:
  "\<exists>e'. scLoop_round cmp mar Push Sess ch t (Fail e) g = Some (Fail e', g)"
  by (cases "t_app (tunnels g ! t)") (simp_all add: scLoop_round_def)

lemma trun_error_measure:
  "trun_measure t (trun_error e s) \<le> trun_measure t s"
  by (simp add: trun_measure_def trun_error_def split: option.splits)

lemma ended_step_decreases:
  assumes "trun_step S t (scLoop_round cmp mar Push Sess ch t (Fail e)) s s'" and "t < length (tunnels (tr_gate s))"
  shows "trun_measure t s' < trun_measure t s"
  using assms(1)
proof cases
  case (cs_next err r g)
  then have "length (csChan (tunnels g ! t)) < length (csChan (tunnels (tr_gate s) ! t))"
    using csMsg_round(2) [OF cs_next(3) assms(2)] by auto
  with cs_next(1) show ?thesis by (simp add: trun_measure_def)
next
  case (cs_fail err r g e1)
  then have "length (csChan (tunnels g ! t)) \<le> length (csChan (tunnels (tr_gate s) ! t))"
    using csMsg_round(1) [OF cs_fail(3) assms(2)] assms(2) by simp
  with cs_fail(1,2) show ?thesis
    by (simp only:) (rule order.strict_trans1 [OF trun_error_measure], simp add: trun_measure_def)
next
  case (sc_next r g)
  with scLoop_ended [of cmp mar Push Sess ch t e "tr_gate s"] show ?thesis by auto
next
  case (sc_fail r g e1)
  with scLoop_ended [of cmp mar Push Sess ch t e "tr_gate s"] have "g = tr_gate s" by auto
  with sc_fail(1,2) show ?thesis by (simp add: trun_measure_def trun_error_def split: option.splits)
qed (auto simp: trun_measure_def trun_error_def split: option.splits)

lemma ended_progress:
  assumes "trun_inv t s" and "\<not> trun_finished s"
  shows "\<exists>s'. trun_step S t (scLoop_round cmp mar Push Sess ch t (Fail e)) s s'"
proof (cases "tr_sc s = Running")
  case True
  then show ?thesis
    using scLoop_ended [of cmp mar Push Sess ch t e "tr_gate s"] by (meson round_error.simps(2) trun_step.sc_fail)
next
  case False
  then obtain x where x: "tr_ctx s = Some x" using assms(1) by (auto simp: trun_inv_def)
  show ?thesis
  proof (cases "tr_watch s = Running")
    case True
    then show ?thesis using x trun_step.watch_ctx by blast
  next
    case w: False
    then have "tr_cs s = Running" using assms(2) False by (simp add: trun_finished_def)
    moreover have "csLoop_round (CtxDone x) t (tr_gate s) = Some (Fail x, tr_gate s)" by simp
    ultimately show ?thesis using x by (meson round_error.simps(2) trun_step.cs_ctx)
  qed
qed

text \<open>The rounds of the loop from the service before the stream ends: any that keep the number of
  tunnels.\<close>

definition keeps_tunnels :: "(('b, 'st, 'cd) gate \<Rightarrow> (unit res \<times> ('b, 'st, 'cd) gate) option) \<Rightarrow> bool" where
  "keeps_tunnels sc \<longleftrightarrow> (\<forall>g r g'. sc g = Some (r, g') \<longrightarrow> length (tunnels g') = length (tunnels g))"

lemma reach_inv:
  assumes "(\<lambda>x y. \<exists>sc. keeps_tunnels sc \<and> trun_step S t sc x y)\<^sup>*\<^sup>* (trun_start g) s" and "t < length (tunnels g)"
  shows "trun_inv t s"
  using assms(1)
proof (induction rule: rtranclp_induct)
  case base
  then show ?case using assms(2) by (simp add: trun_inv_def trun_start_def)
next
  case (step x y)
  then obtain sc where "keeps_tunnels sc" "trun_step S t sc x y" by blast
  with step.IH show ?case using trun_step_inv [of S t sc x y] by (simp add: keeps_tunnels_def)
qed

lemma ended_keeps: "keeps_tunnels (scLoop_round cmp mar Push Sess ch t (Fail e))"
  unfolding keeps_tunnels_def using scLoop_ended by (metis option.inject prod.inject)

lemma ended_steps:
  assumes "(trun_step S t (scLoop_round cmp mar Push Sess ch t (Fail e)) ^^ n) s s'" and "trun_inv t s"
  shows "trun_inv t s'" and "n + trun_measure t s' \<le> trun_measure t s"
proof -
  have "trun_inv t s' \<and> n + trun_measure t s' \<le> trun_measure t s"
    using assms(1)
  proof (induction n arbitrary: s')
    case 0
    then show ?case using assms(2) by simp
  next
    case (Suc n)
    then obtain x where x: "(trun_step S t (scLoop_round cmp mar Push Sess ch t (Fail e)) ^^ n) s x"
      "trun_step S t (scLoop_round cmp mar Push Sess ch t (Fail e)) x s'" by auto
    from Suc.IH [OF x(1)] have ih: "trun_inv t x" "n + trun_measure t x \<le> trun_measure t s" by auto
    from ended_step_decreases [OF x(2) trun_invD(1) [OF ih(1)]] ih(2) have "Suc n + trun_measure t s' \<le> trun_measure t s" by simp
    moreover have "trun_inv t s'"
      using trun_step_inv [OF x(2) ih(1)] ended_keeps [of cmp mar Push Sess ch t e] by (simp add: keeps_tunnels_def)
    ultimately show ?case by simp
  qed
  then show "trun_inv t s'" "n + trun_measure t s' \<le> trun_measure t s" by simp_all
qed

lemma OnStop_tunnels [simp]: "tunnels (OnStop a g) = tunnels g"
  by (cases a) (simp_all add: CloseSend_def)

lemma OnGroupStop_tunnels [simp]: "tunnels (OnGroupStop S now a g) = tunnels g"
  by (cases a) simp_all

lemma tunnel_stop_stopping:
  assumes "sync_laws S" and "t < length (tunnels g)"
  shows "IsStopping S (t_stopper (tunnels (tunnel_stop S t g) ! t))"
  using DoStop_once(1) [OF assms(1), of "t_stopper (tunnels g ! t)"] assms(2)
  by (simp add: tunnel_stop_def Let_def case_prod_unfold)

lemma trun_result_stopping:
  assumes "sync_laws S" and "trun_inv t s" and "trun_finished s"
  shows "\<exists>g'. trun_result S now t s = Some g' \<and> IsStopping S (t_stopper (tunnels g' ! t))"
  using assms(3) trun_invD(1) [OF assms(2)]
  by (simp add: trun_result_def run_end_def tunnel_stop_stopping [OF assms(1)] split: option.splits)

text \<open>
  C22: A tunnel ends with its stream. However a tunnel ran before, once receiving from the service
  fails, its goroutines can take at most as many further steps as there are messages in the
  channel and four more, if no packet is forwarded meanwhile; as long as one of them runs, a step is possible, so none is left
  waiting. When all have returned there is an error for the application, \<^verbatim>\<open>run\<close> returns, and the
  tunnel is then stopping, so that it refuses packets.
\<close>

theorem tunnel_run_ends:
  assumes "sync_laws S" and "t < length (tunnels g)"
    and "(\<lambda>x y. \<exists>sc. keeps_tunnels sc \<and> trun_step S t sc x y)\<^sup>*\<^sup>* (trun_start g) s"
    and "(trun_step S t (scLoop_round cmp mar Push Sess ch t (Fail e)) ^^ n) s s'"
  shows "n \<le> length (csChan (tunnels (tr_gate s) ! t)) + 4 \<and>
    (if trun_finished s'
     then tr_err s' \<noteq> None \<and> (\<exists>g'. trun_result S now t s' = Some g' \<and> IsStopping S (t_stopper (tunnels g' ! t)))
     else \<exists>s''. trun_step S t (scLoop_round cmp mar Push Sess ch t (Fail e)) s' s'')"
proof -
  have inv: "trun_inv t s" using reach_inv [OF assms(3,2)] .
  have "alive r \<le> 1" for r by (cases r) simp_all
  from this [of "tr_watch s"] this [of "tr_cs s"] this [of "tr_sc s"]
  have "trun_measure t s \<le> length (csChan (tunnels (tr_gate s) ! t)) + 4"
    by (simp add: trun_measure_def)
  with ended_steps(2) [OF assms(4) inv] have "n \<le> length (csChan (tunnels (tr_gate s) ! t)) + 4" by simp
  moreover have inv': "trun_inv t s'" using ended_steps(1) [OF assms(4) inv] .
  ultimately show ?thesis
    using trun_result_stopping [OF assms(1) inv'] ended_progress [OF inv']
    by (auto simp: trun_inv_def trun_finished_def)
qed

text \<open>The group of the tunnel of \<open>one_room\<close> when the stream fails at once: the receiving loop
  returns, then the watcher and the sending loop.\<close>

definition eof :: gerr where "eof = Err ''EOF'' []"

definition room_stream_end :: "(unit, bool \<times> bool, int64) gate \<Rightarrow> (unit res \<times> (unit, bool \<times> bool, int64) gate) option" where
  "room_stream_end = scLoop_round (\<lambda>d. Ok (d, False)) (\<lambda>p. Ok (Data p)) (\<lambda>b g. Some (Ok (), g)) app_Session None 0 (Fail eof)"

definition room_ended :: "(unit, bool \<times> bool, int64) trun" where
  "room_ended = \<lparr>tr_gate = one_room, tr_ctx = Some Canceled, tr_err = Some (Wrap ''stream receive failed'' [] eof),
     tr_watch = Returned (Some Canceled), tr_cs = Returned (Some Canceled),
     tr_sc = Returned (Some (Wrap ''stream receive failed'' [] eof))\<rparr>"

lemma room_run: "(trun_step flag_sync 0 room_stream_end ^^ 3) (trun_start one_room) room_ended"
proof -
  let ?e = "Wrap ''stream receive failed'' [] eof"
  let ?s1 = "(trun_start one_room)\<lparr>tr_ctx := Some Canceled, tr_err := Some ?e, tr_sc := Returned (Some ?e)\<rparr>"
  let ?s2 = "?s1\<lparr>tr_watch := Returned (Some Canceled)\<rparr>"
  have "room_stream_end one_room = Some (Fail ?e, one_room)"
    by (simp add: room_stream_end_def scLoop_round_def one_room_def)
  then have "trun_step flag_sync 0 room_stream_end (trun_start one_room) ?s1"
    using trun_step.sc_fail [of "trun_start one_room" room_stream_end "Fail ?e" one_room ?e flag_sync 0]
    by (simp add: trun_start_def trun_error_def)
  moreover have "trun_step flag_sync 0 room_stream_end ?s1 ?s2"
    using trun_step.watch_ctx [of ?s1 Canceled flag_sync 0 room_stream_end] by (simp add: trun_start_def trun_error_def)
  moreover have "trun_step flag_sync 0 room_stream_end ?s2 room_ended"
    using trun_step.cs_ctx [of ?s2 Canceled 0 "Fail Canceled" one_room Canceled flag_sync room_stream_end]
    by (simp add: trun_start_def trun_error_def room_ended_def)
  ultimately show ?thesis by (auto simp: numeral_3_eq_3)
qed

theorem tunnel_run_ends_witness:
  "\<exists>g'. trun_result flag_sync 5 0 room_ended = Some g' \<and> snd (t_stopper (tunnels g' ! 0))"
  using tunnel_run_ends [OF flag_sync_laws _ rtranclp.rtrancl_refl room_run [unfolded room_stream_end_def], of 5]
  by (simp add: trun_finished_def room_ended_def flag_sync_def one_room_def)

end
