(* ===== verification/Tcp_Server.thy ===== *)
theory Tcp_Server
  imports Worker
begin

text \<open>
  The TCP server (\<^verbatim>\<open>pkg/net/tcp/server/server.go\<close>): its options, and the operations on the
  workers of its connections. The life of a connection is in \<open>Connection\<close>.

  The state of a running server is its registry of workers and the workers themselves, by
  pointer. The chaining and the recovery middleware of the framework, the functions called after
  connecting and disconnecting, and the outcomes of system calls are parameters.
\<close>

section \<open>Options and construction\<close>

text \<open>\<open>'m\<close> is the type of middlewares, \<open>'f\<close> that of the functions called after connecting and
  disconnecting, \<open>'l\<close> that of loggers.\<close>

record ('m, 'f, 'l) server =
  s_conf :: config
  s_logger :: 'l
  s_referer :: string
  s_workerSize :: int
  s_buckets :: "buckets option"
  s_readFilter :: "'m option"
  s_writeFilter :: "'m option"
  s_afterConnect :: "'f option"
  s_afterDisconnect :: "'f option"

datatype ('m, 'f, 'l) server_option =
    OBind string | OReferer string | OLogger 'l | OReadFilter 'm | OWriteFilter 'm
  | OAfterConnect 'f | OAfterDisconnect 'f

fun apply_option :: "('m \<Rightarrow> 'm \<Rightarrow> 'm) \<Rightarrow> ('m, 'f, 'l) server_option \<Rightarrow> ('m, 'f, 'l) server \<Rightarrow> ('m, 'f, 'l) server" where
  "apply_option chain (OBind b) s = s\<lparr>s_conf := (s_conf s)\<lparr>c_Server := (c_Server (s_conf s))\<lparr>Bind := b\<rparr>\<rparr>\<rparr>"
| "apply_option chain (OReferer r) s = s\<lparr>s_referer := r\<rparr>"
| "apply_option chain (OLogger l) s = s\<lparr>s_logger := l\<rparr>"
| "apply_option chain (OReadFilter m) s =
     (case s_readFilter s of None \<Rightarrow> s\<lparr>s_readFilter := Some m\<rparr> | Some f \<Rightarrow> s\<lparr>s_readFilter := Some (chain f m)\<rparr>)"
| "apply_option chain (OWriteFilter m) s =
     (case s_writeFilter s of None \<Rightarrow> s\<lparr>s_writeFilter := Some m\<rparr> | Some f \<Rightarrow> s\<lparr>s_writeFilter := Some (chain f m)\<rparr>)"
| "apply_option chain (OAfterConnect f) s = s\<lparr>s_afterConnect := Some f\<rparr>"
| "apply_option chain (OAfterDisconnect f) s = s\<lparr>s_afterDisconnect := Some f\<rparr>"

definition NewServer :: "(int64 \<times> uint64) list \<Rightarrow> ('m \<Rightarrow> 'm \<Rightarrow> 'm) \<Rightarrow> 'm \<Rightarrow> 'l \<Rightarrow> config \<Rightarrow> ('m, 'f, 'l) server_option list \<Rightarrow> ('m, 'f, 'l) server res" where
  "NewServer idx chain recovery defaultLogger cfg opts =
     (let s0 = \<lparr>s_conf = cfg, s_logger = defaultLogger, s_referer = [], s_workerSize = 0, s_buckets = None,
                s_readFilter = Some recovery, s_writeFilter = Some recovery, s_afterConnect = None, s_afterDisconnect = None\<rparr>;
          s1 = foldl (\<lambda>s o1. apply_option chain o1 s) s0 opts in
      bind_res (NewBuckets idx (BucketSize (c_Bucket (s_conf s1)))) (\<lambda>bs.
        Ok (s1\<lparr>s_buckets := Some bs, s_workerSize := sv_WorkerSize (c_Server (s_conf s1))\<rparr>)))"

text \<open>\<open>extract\<close> is \<^verbatim>\<open>ip.Extract\<close> on the bind address and the listener.\<close>

definition server_Endpoint :: "(string \<Rightarrow> string res) \<Rightarrow> ('m, 'f, 'l) server \<Rightarrow> string res" where
  "server_Endpoint extract s =
     bind_res (extract (Bind (c_Server (s_conf s)))) (\<lambda>addr. Ok (''tcp://'' @ addr))"

text \<open>\<open>resolve\<close> and \<open>listen\<close> are the outcomes of \<^verbatim>\<open>net.ResolveTCPAddr\<close> and \<^verbatim>\<open>net.ListenTCP\<close>; the result
  is the number of accepting loops that are started.\<close>

definition server_Start :: "(string \<Rightarrow> string res) \<Rightarrow> (string \<Rightarrow> unit res) \<Rightarrow> ('m, 'f, 'l) server \<Rightarrow> nat res" where
  "server_Start resolve listen s =
     (let bind = Bind (c_Server (s_conf s)) in
      case resolve bind of
        Fail e \<Rightarrow> Fail (Wrap ''resolve bind failed. bind=%s'' [AStr bind] e)
      | Panic p \<Rightarrow> Panic p
      | Ok addr \<Rightarrow>
          (case listen addr of
             Fail e \<Rightarrow> Fail (Wrap ''listen failed. addr=%s'' [AStr addr] e)
           | Panic p \<Rightarrow> Panic p
           | Ok _ \<Rightarrow> Ok (nat (s_workerSize s))))"


section \<open>A running server\<close>

text \<open>\<open>rs_ext\<close> is what the functions called after connecting and disconnecting work on.\<close>

record ('b, 'st, 'cd, 'x) running =
  rs_buckets :: buckets
  rs_workers :: "('b, 'st, 'cd) worker list"
  rs_stopper :: 'st
  rs_ext :: 'x

definition rs_WID :: "('b, 'st, 'cd, 'x) running \<Rightarrow> wptr \<Rightarrow> uint64" where
  "rs_WID s p = w_WID (rs_workers s ! p)"

definition rs_UID :: "('b, 'st, 'cd, 'x) running \<Rightarrow> wptr \<Rightarrow> int64" where
  "rs_UID s p = w_UID (rs_workers s ! p)"

definition set_worker :: "wptr \<Rightarrow> ('b, 'st, 'cd) worker \<Rightarrow> ('b, 'st, 'cd, 'x) running \<Rightarrow> ('b, 'st, 'cd, 'x) running" where
  "set_worker p w s = s\<lparr>rs_workers := (rs_workers s)[p := w]\<rparr>"

definition trigger_worker :: "('st, 'cd) sync_ops \<Rightarrow> wptr \<Rightarrow> ('b, 'st, 'cd, 'x) running \<Rightarrow> ('b, 'st, 'cd, 'x) running" where
  "trigger_worker S p s =
     set_worker p ((rs_workers s ! p)\<lparr>w_stopper := TriggerStop S (w_stopper (rs_workers s ! p))\<rparr>) s"

text \<open>The first of the two walks of \<^verbatim>\<open>stop\<close>; the second waits for every worker.\<close>

definition server_stop :: "('st, 'cd) sync_ops \<Rightarrow> ('b, 'st, 'cd, 'x) running \<Rightarrow> ('b, 'st, 'cd, 'x) running" where
  "server_stop S s =
     (case DoStop S (rs_stopper s) of
        (go, st) \<Rightarrow>
          let s1 = s\<lparr>rs_stopper := st\<rparr> in
          if go then Walk (\<lambda>p s. (True, trigger_worker S p s)) (rs_buckets s1) s1 else s1)"

definition putBucket :: "('st, 'cd) sync_ops \<Rightarrow> wptr \<Rightarrow> ('b, 'st, 'cd, 'x) running \<Rightarrow> unit res \<times> ('b, 'st, 'cd, 'x) running" where
  "putBucket S p s =
     (case Put (rs_WID s) (rs_UID s) p (rs_buckets s) of
        Fail e \<Rightarrow> (Fail e, s)
      | Panic q \<Rightarrow> (Panic q, s)
      | Ok (old, bs) \<Rightarrow>
          (let s1 = s\<lparr>rs_buckets := bs\<rparr> in
           (Ok (), case old of Some ow \<Rightarrow> trigger_worker S ow s1 | None \<Rightarrow> s1)))"

text \<open>\<^verbatim>\<open>Disconnect\<close> returns after the worker has stopped; the wait is not modelled.\<close>

definition Disconnect :: "('st, 'cd) sync_ops \<Rightarrow> uint64 \<Rightarrow> ('b, 'st, 'cd, 'x) running \<Rightarrow> unit res \<times> ('b, 'st, 'cd, 'x) running" where
  "Disconnect S key s =
     (case Worker_of key (rs_buckets s) of
        Fail e \<Rightarrow> (Fail e, s)
      | Panic q \<Rightarrow> (Panic q, s)
      | Ok None \<Rightarrow> (Fail (Err ''worker not found'' []), s)
      | Ok (Some p) \<Rightarrow> (Ok (), trigger_worker S p s))"

definition WIDList :: "('b, 'st, 'cd, 'x) running \<Rightarrow> uint64 list" where
  "WIDList s = Walk (\<lambda>p ids. (True, ids @ [rs_WID s p])) (rs_buckets s) []"

definition server_Push :: "('st, 'cd) sync_ops \<Rightarrow> int64 \<Rightarrow> bytes \<Rightarrow> ('b, 'st, 'cd, 'x) running \<Rightarrow>
    (unit res \<times> ('b, 'st, 'cd, 'x) running) option" where
  "server_Push S uid pack s =
     (if length pack \<le> 0 then Some (Fail (Err ''push msg len <= 0'' []), s)
      else case GetByUID uid (rs_buckets s) of
        Fail e \<Rightarrow> Some (Fail e, s)
      | Panic q \<Rightarrow> Some (Panic q, s)
      | Ok None \<Rightarrow> Some (Fail (Err ''worker not found. uid=%d'' [AInt (sint uid)]), s)
      | Ok (Some p) \<Rightarrow> map_option (\<lambda>(r, w). (r, set_worker p w s)) (wk_Push S pack (rs_workers s ! p)))"

text \<open>The body of the loops of \<^verbatim>\<open>PushGroup\<close> and \<^verbatim>\<open>Broadcast\<close>: an error is kept, a later one replaces
  it; a panic ends the loop; \<open>None\<close> blocks. A nil worker panics.\<close>

definition push_one :: "('st, 'cd) sync_ops \<Rightarrow> bytes \<Rightarrow> wptr option \<Rightarrow> (unit res \<times> ('b, 'st, 'cd, 'x) running) option \<Rightarrow>
    (unit res \<times> ('b, 'st, 'cd, 'x) running) option" where
  "push_one S pack po st =
     (case st of
        None \<Rightarrow> None
      | Some (err, s) \<Rightarrow>
          if is_panic err then st
          else
            (case po of
               None \<Rightarrow> Some (Panic ''nil pointer dereference'', s)
             | Some p \<Rightarrow>
                 (case wk_Push S pack (rs_workers s ! p) of
                    None \<Rightarrow> None
                  | Some (Ok _, w) \<Rightarrow> Some (err, set_worker p w s)
                  | Some (Fail e, w) \<Rightarrow> Some (Fail (Wrap '' uid=%d'' [AInt (sint (rs_UID s p))] e), set_worker p w s)
                  | Some (Panic q, w) \<Rightarrow> Some (Panic q, set_worker p w s))))"

definition PushGroup :: "('st, 'cd) sync_ops \<Rightarrow> int64 list \<Rightarrow> bytes \<Rightarrow> ('b, 'st, 'cd, 'x) running \<Rightarrow>
    (unit res \<times> ('b, 'st, 'cd, 'x) running) option" where
  "PushGroup S uids pack s =
     (if length pack \<le> 0 then Some (Fail (Err ''push group msg len <= 0'' []), s)
      else case GetByUIDs uids (rs_buckets s) of
        Fail e \<Rightarrow> Some (Fail e, s)
      | Panic q \<Rightarrow> Some (Panic q, s)
      | Ok ws \<Rightarrow> fold (push_one S pack) ws (Some (Ok (), s)))"

definition Broadcast :: "('st, 'cd) sync_ops \<Rightarrow> bytes \<Rightarrow> ('b, 'st, 'cd, 'x) running \<Rightarrow>
    (unit res \<times> ('b, 'st, 'cd, 'x) running) option" where
  "Broadcast S pack s =
     (if length pack \<le> 0 then Some (Fail (Err ''broadcast msg len <= 0'' []), s)
      else Walk (\<lambda>p st. (True, push_one S pack (Some p) st)) (rs_buckets s) (Some (Ok (), s)))"


section \<open>Pushing to many\<close>

text \<open>A worker that takes \<open>n\<close> more replies.\<close>

definition takes :: "('st, 'cd) sync_ops \<Rightarrow> nat \<Rightarrow> ('b, 'st, 'cd) worker \<Rightarrow> bool" where
  "takes S n w \<longleftrightarrow> \<not> IsStopping S (w_stopper w) \<and> \<not> replyClosed w \<and>
     int (length (replyChan w)) + int n \<le> ReplyChanSize (w_conf w)"

lemma wk_Push_takes:
  assumes "takes S (Suc n) w" and "pack \<noteq> []"
  shows "wk_Push S pack w = Some (Ok (), w\<lparr>replyChan := replyChan w @ [pack]\<rparr>)"
    and "takes S n (w\<lparr>replyChan := replyChan w @ [pack]\<rparr>)"
  using assms by (auto simp: wk_Push_def takes_def)

text \<open>A list of pushes gives every worker one more reply for each of its occurrences.\<close>

lemma fold_push_one:
  assumes "\<forall>p \<in> set ps. p < length (rs_workers s) \<and> takes S (count_list ps p) (rs_workers s ! p)" and "pack \<noteq> []"
  shows "\<exists>s'. fold (\<lambda>p. push_one S pack (Some p)) ps (Some (Ok (), s)) = Some (Ok (), s') \<and>
    rs_buckets s' = rs_buckets s \<and> length (rs_workers s') = length (rs_workers s) \<and>
    (\<forall>q. q < length (rs_workers s) \<longrightarrow>
       rs_workers s' ! q = (rs_workers s ! q)\<lparr>replyChan := replyChan (rs_workers s ! q) @ replicate (count_list ps q) pack\<rparr>)"
  using assms
proof (induction ps arbitrary: s)
  case (Cons p ps)
  let ?w = "rs_workers s ! p"
  let ?w1 = "?w\<lparr>replyChan := replyChan ?w @ [pack]\<rparr>"
  let ?s1 = "set_worker p ?w1 s"
  have p: "p < length (rs_workers s)" "takes S (Suc (count_list ps p)) ?w"
    using Cons.prems(1) by auto
  note t = wk_Push_takes [OF p(2) Cons.prems(2)]
  have one: "push_one S pack (Some p) (Some (Ok (), s)) = Some (Ok (), ?s1)"
    by (simp add: push_one_def t(1))
  have other: "q < length (rs_workers ?s1) \<and> takes S (count_list ps q) (rs_workers ?s1 ! q)" if "q \<in> set ps" for q
    using Cons.prems(1) that t(2) p(1) by (cases "q = p") (auto simp: set_worker_def)
  from Cons.IH [of ?s1] other Cons.prems(2) obtain s' where
    s': "fold (\<lambda>p. push_one S pack (Some p)) ps (Some (Ok (), ?s1)) = Some (Ok (), s')"
      "rs_buckets s' = rs_buckets ?s1" "length (rs_workers s') = length (rs_workers ?s1)"
      "\<forall>q. q < length (rs_workers ?s1) \<longrightarrow>
        rs_workers s' ! q = (rs_workers ?s1 ! q)\<lparr>replyChan := replyChan (rs_workers ?s1 ! q) @ replicate (count_list ps q) pack\<rparr>"
    by blast
  have len: "length (rs_workers ?s1) = length (rs_workers s)" by (simp add: set_worker_def)
  have "rs_workers s' ! q = (rs_workers s ! q)\<lparr>replyChan := replyChan (rs_workers s ! q) @ replicate (count_list (p # ps) q) pack\<rparr>"
    if "q < length (rs_workers s)" for q
  proof (cases "q = p")
    case True
    have "rs_workers ?s1 ! q = ?w1" using True p(1) by (simp add: set_worker_def)
    moreover have "pack # replicate n pack = replicate (Suc n) pack" for n by simp
    ultimately show ?thesis using s'(4) that len True by simp
  next
    case False
    have "rs_workers ?s1 ! q = rs_workers s ! q" using False by (simp add: set_worker_def)
    then show ?thesis using s'(4) that len False by simp
  qed
  then show ?case
    using s'(1,2,3) one len by (simp add: set_worker_def)
qed auto

lemma count_list_distinct: "distinct ps \<Longrightarrow> count_list ps p = (if p \<in> set ps then 1 else 0)"
  by (induction ps) auto

text \<open>
  A broadcast reaches every registered worker once. If all registered workers are running
  and have room for a reply, then a broadcast of a non-empty packet succeeds without blocking,
  appends the packet exactly once to the replies of every registered worker, whatever bucket it
  is in, and changes nothing else.
\<close>

theorem broadcast_reaches_all:
  assumes "buckets_ok (rs_WID s) (rs_buckets s)" and "pack \<noteq> []"
    and "\<forall>p \<in> ran (registered (rs_buckets s)). p < length (rs_workers s) \<and> takes S 1 (rs_workers s ! p)"
  shows "\<exists>s'. Broadcast S pack s = Some (Ok (), s') \<and> rs_buckets s' = rs_buckets s \<and> length (rs_workers s') = length (rs_workers s) \<and>
    (\<forall>q < length (rs_workers s). rs_workers s' ! q = (rs_workers s ! q)\<lparr>replyChan :=
       replyChan (rs_workers s ! q) @ (if q \<in> ran (registered (rs_buckets s)) then [pack] else [])\<rparr>)"
proof -
  let ?ps = "all_workers (rs_buckets s)"
  have set: "set ?ps = ran (registered (rs_buckets s))"
    using set_all_workers [OF assms(1)] .
  have cnt: "count_list ?ps q = (if q \<in> ran (registered (rs_buckets s)) then 1 else 0)" for q
    using count_list_distinct [of ?ps q] distinct_all_workers [OF assms(1)] unfolding set distinct_map by blast
  have w: "Broadcast S pack s = fold (\<lambda>p. push_one S pack (Some p)) ?ps (Some (Ok (), s))"
    using assms(2) Walk_all [of "\<lambda>p st. (True, push_one S pack (Some p) st)" "rs_buckets s" "Some (Ok (), s)"]
    by (simp add: Broadcast_def)
  have "\<forall>p \<in> set ?ps. p < length (rs_workers s) \<and> takes S (count_list ?ps p) (rs_workers s ! p)"
    using assms(3) set cnt by simp
  from fold_push_one [OF this assms(2)] show ?thesis
    unfolding w by (auto simp: cnt split: if_splits)
qed


text \<open>A server with two connected users.\<close>

definition two_users :: "(unit, bool \<times> bool, int64) worker list" where
  "two_users = [plain_worker\<lparr>w_id := 1, sessions := [NewSession 70 1 0 None [] False [] 0]\<rparr>,
     plain_worker\<lparr>w_id := 33, sessions := [NewSession 71 1 0 None [] False [] 0]\<rparr>]"

lemma two_users_server:
  obtains s :: "(unit, bool \<times> bool, int64, unit) running" where "rs_workers s = two_users" and "buckets_ok (rs_WID s) (rs_buckets s)"
    and "index_ok (rs_UID s) (rs_buckets s)" and "registered (rs_buckets s) = [1 \<mapsto> 0, 33 \<mapsto> 1]"
proof -
  let ?WID = "\<lambda>p. w_WID (two_users ! p)" and ?UID = "\<lambda>p. w_UID (two_users ! p)"
  have ids: "?WID 0 = 1" "?WID 1 = 33" "?UID 0 = 70" "?UID 1 = 71"
    by (simp_all add: two_users_def w_WID_def w_UID_def cur_session_def NewSession_def session_defs plain_worker_def)
  obtain bs0 where n: "buckets_ok ?WID bs0" "registered bs0 = Map.empty" "uidWidMap bs0 = uidWidMap_init"
    using NewBuckets_ok [of 32 uidWidMap_init ?WID] by auto
  have i0: "index_ok ?UID bs0" by (simp add: index_ok_def n uidWidMap_init_def)
  have "exclusive ?WID ?UID [RPut 0, RPut 1] []"
    using ids by simp
  from exclusive_index [OF n(1) i0 _ this] n(2) obtain bs where
    b: "buckets_ok ?WID bs" "index_ok ?UID bs" "registered bs = fold (reg_spec ?WID) [RPut 0, RPut 1] Map.empty"
    by auto
  have "registered bs = [1 \<mapsto> 0, 33 \<mapsto> 1]"
    using b(3) ids by simp
  with b show thesis
    by (intro that [of "\<lparr>rs_buckets = bs, rs_workers = two_users, rs_stopper = (False, False), rs_ext = ()\<rparr>"])
      (simp_all add: rs_WID_def [abs_def] rs_UID_def [abs_def])
qed

lemma two_users_take: "p < 2 \<Longrightarrow> n \<le> 1024 \<Longrightarrow> takes flag_sync n (two_users ! p)"
proof -
  have "takes flag_sync n (plain_worker\<lparr>w_id := i, sessions := ss\<rparr>)" if "n \<le> 1024" for i ss
    using plain_worker_facts that by (simp add: takes_def)
  then show "p < 2 \<Longrightarrow> n \<le> 1024 \<Longrightarrow> takes flag_sync n (two_users ! p)"
    by (cases p) (auto simp: two_users_def less_Suc_eq numeral_2_eq_2)
qed

theorem broadcast_reaches_all_witness:
  "\<exists>(s :: (unit, bool \<times> bool, int64, unit) running) s'. rs_workers s = two_users \<and> Broadcast flag_sync [5] s = Some (Ok (), s') \<and>
     replyChan (rs_workers s' ! 0) = [[5]] \<and> replyChan (rs_workers s' ! 1) = [[5]]"
proof -
  obtain s :: "(unit, bool \<times> bool, int64, unit) running" where
    s: "rs_workers s = two_users" "buckets_ok (rs_WID s) (rs_buckets s)" "registered (rs_buckets s) = [1 \<mapsto> 0, 33 \<mapsto> 1]"
    using two_users_server by metis
  have r: "ran (registered (rs_buckets s)) = {0, 1}"
    by (simp add: s(3) insert_commute)
  have len: "length two_users = 2" by (simp add: two_users_def)
  have "\<forall>p \<in> ran (registered (rs_buckets s)). p < length (rs_workers s) \<and> takes flag_sync 1 (rs_workers s ! p)"
    using two_users_take [of _ 1] by (auto simp: r s(1) len)
  from broadcast_reaches_all [OF s(2) _ this, of "[5]"] obtain s' where
    b: "Broadcast flag_sync [5] s = Some (Ok (), s')" and
    q: "\<forall>q < 2. rs_workers s' ! q = (two_users ! q)\<lparr>replyChan := replyChan (two_users ! q) @ (if q \<in> {0, 1} then [[5]] else [])\<rparr>"
    by (auto simp: r s(1) len)
  have "replyChan (two_users ! 0) = []" "replyChan (two_users ! 1) = []"
    by (simp_all add: two_users_def plain_worker_def)
  with q have "replyChan (rs_workers s' ! 0) = [[5]]" "replyChan (rs_workers s' ! 1) = [[5]]" by auto
  with s(1) b show ?thesis by blast
qed


lemma GetByUIDs_index:
  assumes "buckets_ok widf bs" and "index_ok uidf bs"
  shows "\<exists>ps. GetByUIDs uids bs = Ok (map Some ps) \<and>
    (\<forall>p. count_list ps p = (if p \<in> ran (registered bs) then count_list uids (uidf p) else 0))"
proof (induction uids)
  case (Cons u uids)
  then obtain ps where ps: "GetByUIDs uids bs = Ok (map Some ps)"
    "\<forall>p. count_list ps p = (if p \<in> ran (registered bs) then count_list uids (uidf p) else 0)" by blast
  obtain wo where wo: "GetByUID u bs = Ok wo" "\<forall>w. wo = Some w \<longleftrightarrow> w \<in> ran (registered bs) \<and> uidf w = u"
    using GetByUID_index [OF assms, of u] by blast
  show ?case
  proof (cases "map_of (uidWidMap bs) u")
    case None
    then have "wo = None" using wo(1) by (simp add: GetByUID_def)
    then have "p \<notin> ran (registered bs) \<or> uidf p \<noteq> u" for p using wo(2) by blast
    then have "count_list ps p = (if p \<in> ran (registered bs) then count_list (u # uids) (uidf p) else 0)" for p
      using ps(2) by auto
    with None ps(1) show ?thesis by auto
  next
    case (Some k)
    then obtain w where w: "registered bs k = Some w" "uidf w = u"
      using assms(2) by (auto simp: index_ok_def)
    have k: "Worker_of k bs = Ok (Some w)"
      using Worker_of_registered [OF assms(1)] w(1) by simp
    have "wo = Some w" using wo(1) Some k by (simp add: GetByUID_def)
    then have only: "p \<in> ran (registered bs) \<and> uidf p = u \<longleftrightarrow> p = w" for p
      using wo(2) [rule_format, of p] by fastforce
    have "count_list (w # ps) p = (if p \<in> ran (registered bs) then count_list (u # uids) (uidf p) else 0)" for p
      using ps(2) only [of p] by (cases "p = w") auto
    with Some ps(1) k show ?thesis by (auto intro!: exI [of _ "w # ps"])
  qed
qed simp

lemma fold_push_Some: "fold (push_one S pack) (map Some ps) st = fold (\<lambda>p. push_one S pack (Some p)) ps st"
  by (induction ps arbitrary: st) auto

text \<open>
  A group push reaches exactly the connected users of the group. If the user index is exact
  and every registered worker is running and has room for as many replies as its user occurs in
  the group, then pushing a non-empty packet to a group succeeds without blocking or panicking
  and appends the packet to the replies of every registered worker as often as its user occurs
  in the group; users who are not connected are skipped.
\<close>

theorem push_group_reaches_members:
  assumes "buckets_ok (rs_WID s) (rs_buckets s)" and "index_ok (rs_UID s) (rs_buckets s)" and "pack \<noteq> []"
    and "\<forall>p \<in> ran (registered (rs_buckets s)). p < length (rs_workers s) \<and>
      takes S (count_list uids (rs_UID s p)) (rs_workers s ! p)"
  shows "\<exists>s'. PushGroup S uids pack s = Some (Ok (), s') \<and> rs_buckets s' = rs_buckets s \<and> length (rs_workers s') = length (rs_workers s) \<and>
    (\<forall>q < length (rs_workers s). rs_workers s' ! q = (rs_workers s ! q)\<lparr>replyChan := replyChan (rs_workers s ! q) @
       replicate (if q \<in> ran (registered (rs_buckets s)) then count_list uids (rs_UID s q) else 0) pack\<rparr>)"
proof -
  from GetByUIDs_index [OF assms(1,2), of uids] obtain ps where
    ps: "GetByUIDs uids (rs_buckets s) = Ok (map Some ps)"
      "\<And>p. count_list ps p = (if p \<in> ran (registered (rs_buckets s)) then count_list uids (rs_UID s p) else 0)"
    by blast
  have "p \<in> ran (registered (rs_buckets s))" if "p \<in> set ps" for p
    using ps(2) [of p] that by (metis count_list_0_iff)
  then have "\<forall>p \<in> set ps. p < length (rs_workers s) \<and> takes S (count_list ps p) (rs_workers s ! p)"
    using assms(4) ps(2) by simp
  from fold_push_one [OF this assms(3)] obtain s' where
    s': "fold (\<lambda>p. push_one S pack (Some p)) ps (Some (Ok (), s)) = Some (Ok (), s')" "rs_buckets s' = rs_buckets s"
      "length (rs_workers s') = length (rs_workers s)"
      "\<forall>q. q < length (rs_workers s) \<longrightarrow>
        rs_workers s' ! q = (rs_workers s ! q)\<lparr>replyChan := replyChan (rs_workers s ! q) @ replicate (count_list ps q) pack\<rparr>"
    by blast
  have "PushGroup S uids pack s = Some (Ok (), s')"
    using assms(3) ps(1) s'(1) by (simp add: PushGroup_def fold_push_Some)
  with s'(2-4) show ?thesis unfolding ps(2) by blast
qed

theorem push_group_reaches_members_witness:
  "\<exists>(s :: (unit, bool \<times> bool, int64, unit) running) s'. rs_workers s = two_users \<and> PushGroup flag_sync [71, 99] [5] s = Some (Ok (), s') \<and>
     replyChan (rs_workers s' ! 0) = [] \<and> replyChan (rs_workers s' ! 1) = [[5]]"
proof -
  obtain s :: "(unit, bool \<times> bool, int64, unit) running" where
    s: "rs_workers s = two_users" "buckets_ok (rs_WID s) (rs_buckets s)" "index_ok (rs_UID s) (rs_buckets s)"
      "registered (rs_buckets s) = [1 \<mapsto> 0, 33 \<mapsto> 1]"
    using two_users_server by metis
  have r: "ran (registered (rs_buckets s)) = {0, 1}"
    by (simp add: s(4) insert_commute)
  have u: "rs_UID s 0 = 70" "rs_UID s 1 = 71"
    by (simp_all add: rs_UID_def s(1) two_users_def w_UID_def cur_session_def NewSession_def session_defs plain_worker_def)
  have len: "length two_users = 2" by (simp add: two_users_def)
  have c: "count_list [71, 99] (rs_UID s p) \<le> 1024" for p
    using count_le_length [of "[71, 99]" "rs_UID s p"] by simp
  have "\<forall>p \<in> ran (registered (rs_buckets s)). p < length (rs_workers s) \<and> takes flag_sync (count_list [71, 99] (rs_UID s p)) (rs_workers s ! p)"
    using two_users_take c unfolding r s(1) len by auto
  from push_group_reaches_members [OF s(2,3) _ this, of "[5]"] obtain s' where
    b: "PushGroup flag_sync [71, 99] [5] s = Some (Ok (), s')" and
    q: "\<forall>q < 2. rs_workers s' ! q = (two_users ! q)\<lparr>replyChan := replyChan (two_users ! q) @
      replicate (if q \<in> {0, 1} then count_list [71, 99] (rs_UID s q) else 0) [5]\<rparr>"
    unfolding r s(1) len by auto
  have "replyChan (two_users ! 0) = []" "replyChan (two_users ! 1) = []"
    by (simp_all add: two_users_def plain_worker_def)
  with q u have "replyChan (rs_workers s' ! 0) = []" "replyChan (rs_workers s' ! 1) = [[5]]" by auto
  with s(1) b show ?thesis by blast
qed



section \<open>Registering a worker\<close>

lemma trigger_worker_ids:
  "rs_WID (trigger_worker S p s) q = rs_WID s q" "rs_UID (trigger_worker S p s) q = rs_UID s q"
  "rs_buckets (trigger_worker S p s) = rs_buckets s"
  by (cases "p < length (rs_workers s)"; cases "q = p";
      simp add: trigger_worker_def set_worker_def rs_WID_def rs_UID_def w_WID_def w_UID_def list_update_beyond)+

lemma putBucket_registers:
  assumes "buckets_ok (rs_WID s) (rs_buckets s)"
  obtains s1 where "putBucket S p s = (Ok (), s1)" and "rs_WID s1 = rs_WID s" and "rs_UID s1 = rs_UID s"
    and "buckets_ok (rs_WID s) (rs_buckets s1)" and "registered (rs_buckets s1) = (registered (rs_buckets s))(rs_WID s p \<mapsto> p)"
proof -
  from Put_registered [OF assms, of "rs_UID s" p] obtain bs where
    b: "Put (rs_WID s) (rs_UID s) p (rs_buckets s) = Ok (registered (rs_buckets s) (rs_WID s p), bs)" "buckets_ok (rs_WID s) bs"
      "registered bs = (registered (rs_buckets s))(rs_WID s p \<mapsto> p)"
    by blast
  have ids: "rs_WID (s\<lparr>rs_buckets := bs\<rparr>) = rs_WID s" "rs_UID (s\<lparr>rs_buckets := bs\<rparr>) = rs_UID s"
    by (simp_all add: rs_WID_def [abs_def] rs_UID_def [abs_def])
  show thesis
    by (rule that [of "case registered (rs_buckets s) (rs_WID s p) of Some ow \<Rightarrow> trigger_worker S ow (s\<lparr>rs_buckets := bs\<rparr>) | None \<Rightarrow> s\<lparr>rs_buckets := bs\<rparr>"])
      (use b ids in \<open>auto simp: putBucket_def Let_def trigger_worker_ids fun_eq_iff split: option.splits\<close>)
qed

section \<open>Listing and stopping all workers\<close>

lemma fold_trigger:
  assumes "sync_laws S"
  shows "length (rs_workers (fold (trigger_worker S) ps s)) = length (rs_workers s) \<and>
    (\<forall>q < length (rs_workers s). q \<in> set ps \<or> StopTriggered S (w_stopper (rs_workers s ! q)) \<longrightarrow>
       StopTriggered S (w_stopper (rs_workers (fold (trigger_worker S) ps s) ! q)))"
proof (induction ps arbitrary: s)
  case (Cons p ps)
  let ?s1 = "trigger_worker S p s"
  have len: "length (rs_workers ?s1) = length (rs_workers s)"
    by (simp add: trigger_worker_def set_worker_def)
  have st: "StopTriggered S (w_stopper (rs_workers ?s1 ! q))"
    if "q < length (rs_workers s)" "q = p \<or> StopTriggered S (w_stopper (rs_workers s ! q))" for q
    using that assms by (cases "q = p") (auto simp: trigger_worker_def set_worker_def sync_laws_def)
  from Cons [of ?s1] len st show ?case by auto
qed simp

text \<open>
  Listing and stopping see every connection once. The list of worker ids contains exactly
  the ids of the registered workers, each once; and stopping the server tells every registered
  worker to stop.
\<close>

theorem list_and_stop_all:
  assumes "buckets_ok (rs_WID s) (rs_buckets s)" and "sync_laws S" and "fst (DoStop S (rs_stopper s))"
    and "\<forall>p \<in> ran (registered (rs_buckets s)). p < length (rs_workers s)"
  shows "distinct (WIDList s) \<and> set (WIDList s) = dom (registered (rs_buckets s)) \<and>
    (\<forall>p \<in> ran (registered (rs_buckets s)). StopTriggered S (w_stopper (rs_workers (server_stop S s) ! p)))"
proof -
  let ?ps = "all_workers (rs_buckets s)"
  have snoc: "fold (\<lambda>p ids. ids @ [f p]) ps acc = acc @ map f ps" for f :: "wptr \<Rightarrow> uint64" and ps acc
    by (induction ps arbitrary: acc) auto
  have l: "WIDList s = map (rs_WID s) ?ps"
    using Walk_all [of "\<lambda>p ids. (True, ids @ [rs_WID s p])" "rs_buckets s" "[]"] by (simp add: WIDList_def snoc)
  have "set (WIDList s) = rs_WID s ` ran (registered (rs_buckets s))"
    unfolding l by (simp add: set_all_workers [OF assms(1)])
  also have "\<dots> = dom (registered (rs_buckets s))"
    using registered_WID [OF assms(1)] by (force simp: ran_def dom_def image_iff)
  finally have d: "set (WIDList s) = dom (registered (rs_buckets s))" .
  obtain st where st: "DoStop S (rs_stopper s) = (True, st)"
    using assms(3) by (metis (full_types) prod.collapse)
  let ?s1 = "s\<lparr>rs_stopper := st\<rparr>"
  have "server_stop S s = fold (trigger_worker S) ?ps ?s1"
    using Walk_all [of "\<lambda>p s. (True, trigger_worker S p s)" "rs_buckets s" ?s1]
    by (simp add: server_stop_def st Let_def)
  then have "\<forall>p \<in> ran (registered (rs_buckets s)). StopTriggered S (w_stopper (rs_workers (server_stop S s) ! p))"
    using fold_trigger [OF assms(2), of ?ps ?s1] assms(4) by (simp add: set_all_workers [OF assms(1)])
  with d distinct_all_workers [OF assms(1)] show ?thesis by (simp add: l)
qed

theorem list_and_stop_all_witness:
  "\<exists>s :: (unit, bool \<times> bool, int64, unit) running. rs_workers s = two_users \<and> set (WIDList s) = {1, 33} \<and> StopTriggered flag_sync (w_stopper (rs_workers (server_stop flag_sync s) ! 1))"
proof -
  obtain s0 :: "(unit, bool \<times> bool, int64, unit) running" where
    s0: "rs_workers s0 = two_users" "buckets_ok (rs_WID s0) (rs_buckets s0)" "registered (rs_buckets s0) = [1 \<mapsto> 0, 33 \<mapsto> 1]"
    using two_users_server by metis
  define s where "s = s0\<lparr>rs_stopper := (False, False)\<rparr>"
  have "rs_WID s = rs_WID s0" by (simp add: s_def rs_WID_def [abs_def])
  then have s: "rs_workers s = two_users" "buckets_ok (rs_WID s) (rs_buckets s)" "registered (rs_buckets s) = [1 \<mapsto> 0, 33 \<mapsto> 1]"
    using s0 by (simp_all add: s_def)
  have r: "ran (registered (rs_buckets s)) = {0, 1}" "dom (registered (rs_buckets s)) = {1, 33}"
    by (simp_all add: s(3) insert_commute)
  have "\<forall>p \<in> ran (registered (rs_buckets s)). p < length (rs_workers s)"
    by (simp add: r s(1) two_users_def)
  moreover have "fst (DoStop flag_sync (rs_stopper s))"
    by (simp add: s_def flag_sync_def)
  ultimately show ?thesis
    using list_and_stop_all [OF s(2) flag_sync_laws] r s(1) by auto
qed

end
