(* ===== verification/Reply_Path.thy ===== *)
theory Reply_Path
  imports Tcp_Server
begin

text \<open>
  From the push operations of the server to the connections: \<^verbatim>\<open>Server.Push\<close>, \<^verbatim>\<open>Server.PushGroup\<close> and
  \<^verbatim>\<open>Server.Broadcast\<close> (\<^verbatim>\<open>pkg/net/tcp/server/server.go\<close>) interleaved with the writing loops of the
  workers (\<^verbatim>\<open>pkg/net/internal/worker.go\<close>), as a refinement of one mailbox for each connected user.
\<close>

section \<open>Pushes and writing loops\<close>

text \<open>What happens to a running server: a push by some backend, or one round of the writing loop of
  a worker. A round that has nothing to write waits.\<close>

datatype push_event = PushUser int64 bytes | PushMany "int64 list" bytes | PushAll bytes | WriteRound wptr

fun push_event_step :: "('st, 'cd) sync_ops \<Rightarrow> 'b aes \<Rightarrow> push_event \<Rightarrow> ('b, 'st, 'cd, 'x) running \<Rightarrow>
    (unit res \<times> ('b, 'st, 'cd, 'x) running) option" where
  "push_event_step S E (PushUser u pk) s = server_Push S u pk s"
| "push_event_step S E (PushMany us pk) s = PushGroup S us pk s"
| "push_event_step S E (PushAll pk) s = Broadcast S pk s"
| "push_event_step S E (WriteRound p) s =
     (case writePackLoop_round E (\<lambda>_. None) None (rs_workers s ! p) of
        Some (_, w) \<Rightarrow> Some (Ok (), set_worker p w s)
      | None \<Rightarrow> Some (Ok (), s))"

fun push_run :: "('st, 'cd) sync_ops \<Rightarrow> 'b aes \<Rightarrow> push_event list \<Rightarrow> ('b, 'st, 'cd, 'x) running \<Rightarrow>
    (unit res list \<times> ('b, 'st, 'cd, 'x) running) option" where
  "push_run S E [] s = Some ([], s)"
| "push_run S E (ev # evs) s =
     (case push_event_step S E ev s of
        None \<Rightarrow> None
      | Some (r, s1) \<Rightarrow> (case push_run S E evs s1 of None \<Rightarrow> None | Some (rs, s2) \<Rightarrow> Some (r # rs, s2)))"


section \<open>Mailboxes\<close>

text \<open>The packets an event has for user \<open>u\<close>. A mailbox holds what waits for a user and what was
  delivered; a round of the writing loop of its worker delivers the packet that has waited longest.\<close>

fun meant :: "int64 \<Rightarrow> push_event \<Rightarrow> bytes list" where
  "meant u (PushUser v pk) = (if v = u then [pk] else [])"
| "meant u (PushMany vs pk) = replicate (count_list vs u) pk"
| "meant u (PushAll pk) = [pk]"
| "meant u (WriteRound p) = []"

type_synonym mailbox = "bytes list \<times> bytes list"

fun mailbox_step :: "int64 \<Rightarrow> wptr \<Rightarrow> push_event \<Rightarrow> mailbox \<Rightarrow> mailbox" where
  "mailbox_step u p (WriteRound x) (q, sent) =
     (case q of pk # rest \<Rightarrow> if x = p then (rest, sent @ [pk]) else (q, sent) | [] \<Rightarrow> (q, sent))"
| "mailbox_step u p ev (q, sent) = (q @ meant u ev, sent)"

text \<open>The waiting packets never exceed the size of the channel of replies.\<close>

fun mailbox_fits :: "int \<Rightarrow> int64 \<Rightarrow> wptr \<Rightarrow> push_event list \<Rightarrow> mailbox \<Rightarrow> bool" where
  "mailbox_fits n u p [] b = True"
| "mailbox_fits n u p (ev # evs) b =
     (int (length (fst (mailbox_step u p ev b))) \<le> n \<and> mailbox_fits n u p evs (mailbox_step u p ev b))"

text \<open>Everything meant for a user is delivered or waits, in the order of the pushes.\<close>

lemma mailbox_order:
  "snd (fold (mailbox_step u p) evs b) @ fst (fold (mailbox_step u p) evs b) = snd b @ fst b @ concat (map (meant u) evs)"
proof (induction evs arbitrary: b)
  case (Cons ev evs)
  have "snd (mailbox_step u p ev b) @ fst (mailbox_step u p ev b) = snd b @ fst b @ meant u ev"
    by (cases b; cases ev) (auto split: list.splits)
  with Cons [of "mailbox_step u p ev b"] show ?case by simp
qed simp

lemma mailbox_other: "x \<noteq> p \<Longrightarrow> mailbox_step u p (WriteRound x) b = b"
  by (cases b) (simp split: list.split)

lemma mailbox_step_sent: "mailbox_step u p ev (q, sent) = apsnd ((@) sent) (mailbox_step u p ev (q, []))"
  by (cases ev) (auto split: list.splits)

lemma mailbox_fold_sent: "fold (mailbox_step u p) evs (q, sent) = apsnd ((@) sent) (fold (mailbox_step u p) evs (q, []))"
proof (induction evs arbitrary: q sent)
  case (Cons ev evs)
  obtain q1 sent1 where m: "mailbox_step u p ev (q, []) = (q1, sent1)" by (cases "mailbox_step u p ev (q, [])") auto
  then have "mailbox_step u p ev (q, sent) = (q1, sent @ sent1)" using mailbox_step_sent [of u p ev q sent] by simp
  then show ?case
    using m Cons [of q1 "sent @ sent1"] Cons [of q1 sent1] by (cases "fold (mailbox_step u p) evs (q1, [])") simp
qed simp

lemma mailbox_fits_sent: "mailbox_fits n u p evs (q, sent) = mailbox_fits n u p evs (q, [])"
proof (induction evs arbitrary: q sent)
  case (Cons ev evs)
  obtain q1 sent1 where m: "mailbox_step u p ev (q, []) = (q1, sent1)" by (cases "mailbox_step u p ev (q, [])") auto
  then have "mailbox_step u p ev (q, sent) = (q1, sent @ sent1)" using mailbox_step_sent [of u p ev q sent] by simp
  then show ?case using m Cons [of q1 "sent @ sent1"] Cons [of q1 sent1] by simp
qed simp


section \<open>Every step of the server is one of the mailboxes\<close>

definition event_ok :: "wptr set \<Rightarrow> push_event \<Rightarrow> bool" where
  "event_ok P ev \<longleftrightarrow> (case ev of PushUser _ pk \<Rightarrow> pk \<noteq> [] | PushMany _ pk \<Rightarrow> pk \<noteq> [] | PushAll pk \<Rightarrow> pk \<noteq> [] | WriteRound p \<Rightarrow> p \<in> P)"

text \<open>A push to one user fails when the user is not connected; everything else succeeds.\<close>

definition answered :: "int64 set \<Rightarrow> push_event \<Rightarrow> unit res \<Rightarrow> bool" where
  "answered U ev r \<longleftrightarrow>
     (case ev of PushUser u _ \<Rightarrow> if u \<in> U then r = Ok () else r = Fail (Err ''worker not found. uid=%d'' [AInt (sint u)]) | _ \<Rightarrow> r = Ok ())"

lemma push_reaches_user:
  assumes "buckets_ok (rs_WID s) (rs_buckets s)" and "index_ok (rs_UID s) (rs_buckets s)" and "pack \<noteq> []"
    and "\<forall>p \<in> ran (registered (rs_buckets s)). p < length (rs_workers s) \<and> takes S (length (meant (rs_UID s p) (PushUser u pack))) (rs_workers s ! p)"
  shows "\<exists>r s'. server_Push S u pack s = Some (r, s') \<and> answered (rs_UID s ` ran (registered (rs_buckets s))) (PushUser u pack) r \<and>
    rs_buckets s' = rs_buckets s \<and> length (rs_workers s') = length (rs_workers s) \<and>
    (\<forall>q < length (rs_workers s). rs_workers s' ! q = (rs_workers s ! q)\<lparr>replyChan := replyChan (rs_workers s ! q) @
       (if q \<in> ran (registered (rs_buckets s)) then meant (rs_UID s q) (PushUser u pack) else [])\<rparr>)"
proof -
  obtain wo where wo: "GetByUID u (rs_buckets s) = Ok wo" "\<forall>w. wo = Some w \<longleftrightarrow> w \<in> ran (registered (rs_buckets s)) \<and> rs_UID s w = u"
    using GetByUID_index [OF assms(1,2), of u] by blast
  show ?thesis
  proof (cases wo)
    case None
    then have "\<forall>q \<in> ran (registered (rs_buckets s)). rs_UID s q \<noteq> u" using wo(2) by blast
    then show ?thesis using None wo(1) assms(3) by (auto simp: server_Push_def answered_def)
  next
    case (Some p)
    have only: "q \<in> ran (registered (rs_buckets s)) \<and> rs_UID s q = u \<longleftrightarrow> q = p" for q
      using wo(2) Some by auto
    then have r: "p \<in> ran (registered (rs_buckets s))" "rs_UID s p = u" by blast+
    then have p: "p < length (rs_workers s)" "takes S (Suc 0) (rs_workers s ! p)"
      using assms(4) by fastforce+
    let ?w = "(rs_workers s ! p)\<lparr>replyChan := replyChan (rs_workers s ! p) @ [pack]\<rparr>"
    have "server_Push S u pack s = Some (Ok (), set_worker p ?w s)"
      using Some wo(1) assms(3) wk_Push_takes(1) [OF p(2) assms(3)] by (simp add: server_Push_def)
    moreover have "(if q \<in> ran (registered (rs_buckets s)) then meant (rs_UID s q) (PushUser u pack) else []) = (if q = p then [pack] else [])" for q
      using only [of q] by (simp only: meant.simps) metis
    ultimately show ?thesis
      using r p(1) by (simp only: answered_def) (auto simp: set_worker_def nth_list_update)
  qed
qed

lemma push_adds:
  assumes "buckets_ok (rs_WID s) (rs_buckets s)" and "index_ok (rs_UID s) (rs_buckets s)" and "event_ok (ran (registered (rs_buckets s))) ev"
    and "\<forall>p \<in> ran (registered (rs_buckets s)). p < length (rs_workers s) \<and> takes S (length (meant (rs_UID s p) ev)) (rs_workers s ! p)"
    and "\<forall>p. ev \<noteq> WriteRound p"
  shows "\<exists>r s'. push_event_step S E ev s = Some (r, s') \<and> answered (rs_UID s ` ran (registered (rs_buckets s))) ev r \<and>
    rs_buckets s' = rs_buckets s \<and> length (rs_workers s') = length (rs_workers s) \<and>
    (\<forall>q < length (rs_workers s). rs_workers s' ! q = (rs_workers s ! q)\<lparr>replyChan := replyChan (rs_workers s ! q) @
       (if q \<in> ran (registered (rs_buckets s)) then meant (rs_UID s q) ev else [])\<rparr>)"
proof (cases ev)
  case (PushUser u pk)
  then have "pk \<noteq> []" using assms(3) by (simp add: event_ok_def)
  from push_reaches_user [OF assms(1,2) this assms(4) [unfolded PushUser]] show ?thesis
    unfolding PushUser push_event_step.simps .
next
  case (PushMany us pk)
  then have "pk \<noteq> []" "\<forall>p \<in> ran (registered (rs_buckets s)). p < length (rs_workers s) \<and> takes S (count_list us (rs_UID s p)) (rs_workers s ! p)"
    using assms(3,4) by (simp_all add: event_ok_def)
  from push_group_reaches_members [OF assms(1,2) this] PushMany show ?thesis
    by (auto simp: answered_def)
next
  case (PushAll pk)
  then have "pk \<noteq> []" "\<forall>p \<in> ran (registered (rs_buckets s)). p < length (rs_workers s) \<and> takes S 1 (rs_workers s ! p)"
    using assms(3,4) by (simp_all add: event_ok_def)
  from broadcast_reaches_all [OF assms(1) this] PushAll show ?thesis
    by (auto simp: answered_def)
qed (use assms(5) in blast)

text \<open>A worker whose replies are taken and written.\<close>

definition replying :: "('st, 'cd) sync_ops \<Rightarrow> 'b aes \<Rightarrow> ('b, 'st, 'cd) worker \<Rightarrow> bool" where
  "replying S E w \<longleftrightarrow> \<not> IsStopping S (w_stopper w) \<and> \<not> replyClosed w \<and> encryptable E w"

text \<open>The worker \<open>w\<close> after its mailbox has gone from \<open>(replyChan w, [])\<close> to \<open>b\<close>.\<close>

definition mailed :: "'b aes \<Rightarrow> mailbox \<Rightarrow> ('b, 'st, 'cd) worker \<Rightarrow> ('b, 'st, 'cd) worker \<Rightarrow> bool" where
  "mailed E b w w' \<longleftrightarrow> (\<exists>st. w' = w\<lparr>replyChan := fst b, w_sent := w_sent w @ concat (map (reply_frame E w) (snd b)), replyChanStarted := st\<rparr>)"

lemma mailed_keeps:
  assumes "mailed E b w w'"
  shows "w_WID w' = w_WID w" "w_UID w' = w_UID w" "cur_session w' = cur_session w" "w_conf w' = w_conf w" "replyChan w' = fst b"
    "w_sent w' = w_sent w @ concat (map (reply_frame E w) (snd b))" "replying S E w' = replying S E w"
  using assms by (auto simp: mailed_def w_WID_def w_UID_def replying_def encryptable_def)

lemma mailed_none: "mailed E (replyChan w, []) w w"
  by (auto simp: mailed_def intro!: exI [of _ "replyChanStarted w"])

lemma mailed_trans:
  assumes "mailed E (q, sent1) w w1" and "mailed E (q2, sent2) w1 w2"
  shows "mailed E (q2, sent1 @ sent2) w w2"
  using assms by (auto simp: mailed_def reply_frame_def [abs_def])

lemma mailed_push: "mailed E (replyChan w @ pks, []) w (w\<lparr>replyChan := replyChan w @ pks\<rparr>)"
  by (auto simp: mailed_def intro!: exI [of _ "replyChanStarted w"])

lemma write_round_mailed:
  assumes "replying S E w" and "replyChan w = pk # rest"
  shows "\<exists>w'. writePackLoop_round E (\<lambda>_. None) None w = Some (Next, w') \<and> mailed E (rest, [pk]) w w'"
proof -
  have "encryptable E (w\<lparr>replyChanStarted := True, replyChan := rest\<rparr>)"
    using assms(1) by (simp add: replying_def encryptable_def)
  from writePack_plain [OF this, of pk] assms(2) show ?thesis
    by (auto simp: writePackLoop_round_def run_safe_def mailed_def reply_frame_def intro!: exI [of _ True])
qed

lemma push_event_refines:
  fixes s :: "('b, 'st, 'cd, 'x) running"
  defines "P \<equiv> ran (registered (rs_buckets s))"
  assumes "buckets_ok (rs_WID s) (rs_buckets s)" and "index_ok (rs_UID s) (rs_buckets s)" and "event_ok P ev"
    and "\<forall>p \<in> P. p < length (rs_workers s) \<and> replying S E (rs_workers s ! p) \<and>
      int (length (fst (mailbox_step (rs_UID s p) p ev (replyChan (rs_workers s ! p), [])))) \<le> ReplyChanSize (w_conf (rs_workers s ! p))"
  shows "\<exists>r s'. push_event_step S E ev s = Some (r, s') \<and> answered (rs_UID s ` P) ev r \<and>
    rs_buckets s' = rs_buckets s \<and> length (rs_workers s') = length (rs_workers s) \<and>
    (\<forall>q < length (rs_workers s). q \<notin> P \<longrightarrow> rs_workers s' ! q = rs_workers s ! q) \<and>
    (\<forall>p \<in> P. mailed E (mailbox_step (rs_UID s p) p ev (replyChan (rs_workers s ! p), [])) (rs_workers s ! p) (rs_workers s' ! p))"
proof (cases "\<exists>x. ev = WriteRound x")
  case True
  then obtain x where ev: "ev = WriteRound x" by blast
  then have x: "x \<in> P" using assms(4) by (simp add: event_ok_def)
  show ?thesis
  proof (cases "replyChan (rs_workers s ! x)")
    case Nil
    have "writePackLoop_round E (\<lambda>_. None) None (rs_workers s ! x) = None"
      using Nil assms(5) x by (simp add: writePackLoop_round_def replying_def)
    then have "push_event_step S E ev s = Some (Ok (), s)" by (simp add: ev)
    moreover have "mailbox_step (rs_UID s p) p ev (replyChan (rs_workers s ! p), []) = (replyChan (rs_workers s ! p), [])" for p
      using Nil by (cases "p = x") (auto simp: ev split: list.split)
    ultimately show ?thesis by (simp add: ev answered_def mailed_none)
  next
    case (Cons pk rest)
    then obtain w' where w': "writePackLoop_round E (\<lambda>_. None) None (rs_workers s ! x) = Some (Next, w')" "mailed E (rest, [pk]) (rs_workers s ! x) w'"
      using write_round_mailed [of S E] assms(5) x by blast
    then have "push_event_step S E ev s = Some (Ok (), set_worker x w' s)" by (simp add: ev)
    moreover have "mailed E (mailbox_step (rs_UID s p) p ev (replyChan (rs_workers s ! p), [])) (rs_workers s ! p) (rs_workers (set_worker x w' s) ! p)"
      if "p \<in> P" for p
      using that w'(2) Cons assms(5) by (cases "p = x") (simp_all add: ev set_worker_def mailed_none mailbox_other del: mailbox_step.simps(1), simp)
    moreover have "rs_workers (set_worker x w' s) ! q = rs_workers s ! q" if "q \<notin> P" for q
      using that x by (cases "q = x") (simp_all add: set_worker_def)
    ultimately show ?thesis by (intro exI [of _ "Ok ()"] exI [of _ "set_worker x w' s"]) (simp add: ev answered_def, simp add: set_worker_def)
  qed
next
  case False
  then have m: "mailbox_step u p ev (q, []) = (q @ meant u ev, [])" for u p q by (cases ev) auto
  have "\<forall>p \<in> P. p < length (rs_workers s) \<and> takes S (length (meant (rs_UID s p) ev)) (rs_workers s ! p)"
    using assms(5) by (simp add: m takes_def replying_def)
  from push_adds [OF assms(2,3) assms(4) [unfolded P_def] this [unfolded P_def]] False obtain r s' where
    s': "push_event_step S E ev s = Some (r, s')" "answered (rs_UID s ` P) ev r" "rs_buckets s' = rs_buckets s"
      "length (rs_workers s') = length (rs_workers s)"
      "\<forall>q < length (rs_workers s). rs_workers s' ! q = (rs_workers s ! q)\<lparr>replyChan := replyChan (rs_workers s ! q) @ (if q \<in> P then meant (rs_UID s q) ev else [])\<rparr>"
    unfolding P_def by metis
  then show ?thesis using assms(5) by (intro exI [of _ r] exI [of _ s']) (simp add: m mailed_push)
qed

lemma push_run_refines:
  fixes s :: "('b, 'st, 'cd, 'x) running"
  defines "P \<equiv> ran (registered (rs_buckets s))"
  assumes "buckets_ok (rs_WID s) (rs_buckets s)" and "index_ok (rs_UID s) (rs_buckets s)" and "\<forall>ev \<in> set evs. event_ok P ev"
    and "\<forall>p \<in> P. p < length (rs_workers s) \<and> replying S E (rs_workers s ! p) \<and>
      mailbox_fits (ReplyChanSize (w_conf (rs_workers s ! p))) (rs_UID s p) p evs (replyChan (rs_workers s ! p), [])"
  shows "\<exists>rs s'. push_run S E evs s = Some (rs, s') \<and> list_all2 (answered (rs_UID s ` P)) evs rs \<and> rs_buckets s' = rs_buckets s \<and>
    (\<forall>p \<in> P. mailed E (fold (mailbox_step (rs_UID s p) p) evs (replyChan (rs_workers s ! p), [])) (rs_workers s ! p) (rs_workers s' ! p))"
  using assms(2-5) unfolding P_def
proof (induction evs arbitrary: s)
  case Nil
  then show ?case by (auto simp: mailed_none)
next
  case (Cons ev evs)
  let ?P = "ran (registered (rs_buckets s))"
  from push_event_refines [OF Cons.prems(1,2), of ev S E] Cons.prems(3,4) obtain r s1 where
    s1: "push_event_step S E ev s = Some (r, s1)" "answered (rs_UID s ` ?P) ev r" "rs_buckets s1 = rs_buckets s"
      "length (rs_workers s1) = length (rs_workers s)"
      "\<And>q. q < length (rs_workers s) \<Longrightarrow> q \<notin> ?P \<Longrightarrow> rs_workers s1 ! q = rs_workers s ! q"
      "\<And>p. p \<in> ?P \<Longrightarrow> mailed E (mailbox_step (rs_UID s p) p ev (replyChan (rs_workers s ! p), [])) (rs_workers s ! p) (rs_workers s1 ! p)"
    by auto
  have same: "rs_WID s1 p = rs_WID s p" "rs_UID s1 p = rs_UID s p" if "p \<in> ?P" for p
    using mailed_keeps(1,2) [OF s1(6) [OF that]] by (simp_all add: rs_WID_def rs_UID_def)
  have b1: "buckets_ok (rs_WID s1) (rs_buckets s1)" and i1: "index_ok (rs_UID s1) (rs_buckets s1)"
    unfolding s1(3) using buckets_ok_cong [OF Cons.prems(1)] index_ok_cong [OF Cons.prems(2)] same by blast+
  let ?b = "\<lambda>p. mailbox_step (rs_UID s p) p ev (replyChan (rs_workers s ! p), [])"
  have fits: "p < length (rs_workers s1) \<and> replying S E (rs_workers s1 ! p) \<and>
      mailbox_fits (ReplyChanSize (w_conf (rs_workers s1 ! p))) (rs_UID s1 p) p evs (replyChan (rs_workers s1 ! p), [])" if "p \<in> ?P" for p
    using Cons.prems(4) that mailed_keeps(4,5) [OF s1(6) [OF that]] mailed_keeps(7) [OF s1(6) [OF that], of S] same(2) [OF that] s1(4)
      mailbox_fits_sent [of _ _ p evs "fst (?b p)" "snd (?b p)", symmetric] by simp
  from Cons.IH [OF b1 i1] Cons.prems(3) fits obtain rs s2 where
    s2: "push_run S E evs s1 = Some (rs, s2)" "list_all2 (answered (rs_UID s1 ` ?P)) evs rs" "rs_buckets s2 = rs_buckets s"
      "\<And>p. p \<in> ?P \<Longrightarrow> mailed E (fold (mailbox_step (rs_UID s1 p) p) evs (replyChan (rs_workers s1 ! p), [])) (rs_workers s1 ! p) (rs_workers s2 ! p)"
    unfolding s1(3) by auto
  have "mailed E (fold (mailbox_step (rs_UID s p) p) (ev # evs) (replyChan (rs_workers s ! p), [])) (rs_workers s ! p) (rs_workers s2 ! p)"
    if p: "p \<in> ?P" for p
  proof -
    have "mailed E (fold (mailbox_step (rs_UID s p) p) evs (fst (?b p), [])) (rs_workers s1 ! p) (rs_workers s2 ! p)"
      using s2(4) [OF p] mailed_keeps(5) [OF s1(6) [OF p]] same(2) [OF p] by simp
    with s1(6) [OF p] show ?thesis
      using mailed_trans [of E "fst (?b p)" "snd (?b p)"] mailbox_fold_sent [of "rs_UID s p" p evs "fst (?b p)" "snd (?b p)"]
      by (cases "fold (mailbox_step (rs_UID s p) p) evs (fst (?b p), [])") simp
  qed
  moreover have "rs_UID s1 ` ?P = rs_UID s ` ?P" using same(2) by (simp add: image_def)
  ultimately show ?case using s1(1,2) s2(1-3) by auto
qed


text \<open>
  C3: Pushed packets reach the connected users. Let the registry and the user index of a server be
  in order, and let pushes to single users, to groups and to everybody be interleaved in any way
  with the writing loops of the registered workers, such that the channel of replies of no worker
  overflows. Then no push blocks or panics, only pushes to a single user who is not connected
  fail, and every worker is the mailbox of its user: what was written to its connection, followed
  by what still waits, is what was pushed to the user, each packet as often as it was meant for the user, in
  the order of the pushes. A client that reads the connection under the session of the worker
  receives exactly the packets that were written, however the stream is split.
\<close>

theorem pushes_reach_clients:
  fixes s :: "('b, 'st, 'cd, 'x) running"
  defines "P \<equiv> ran (registered (rs_buckets s))"
  assumes "buckets_ok (rs_WID s) (rs_buckets s)" and "index_ok (rs_UID s) (rs_buckets s)" and "aes_inverse E D"
    and "\<forall>ev \<in> set evs. event_ok P ev"
    and "\<forall>p \<in> P. p < length (rs_workers s) \<and> replying S E (rs_workers s ! p) \<and>
      mailbox_fits (ReplyChanSize (w_conf (rs_workers s ! p))) (rs_UID s p) p evs (replyChan (rs_workers s ! p), [])"
  shows "\<exists>rs s'. push_run S E evs s = Some (rs, s') \<and> list_all2 (answered (rs_UID s ` P)) evs rs \<and> rs_buckets s' = rs_buckets s \<and>
    (\<forall>p \<in> P. \<exists>q sent. fold (mailbox_step (rs_UID s p) p) evs (replyChan (rs_workers s ! p), []) = (q, sent) \<and>
       sent @ q = replyChan (rs_workers s ! p) @ concat (map (meant (rs_UID s p)) evs) \<and>
       replyChan (rs_workers s' ! p) = q \<and>
       w_sent (rs_workers s' ! p) = w_sent (rs_workers s ! p) @ concat (map (reply_frame E (rs_workers s ! p)) sent) \<and>
       (\<forall>r m rest chs. reader_inv r m \<and> pending m r = concat (map (reply_frame E (rs_workers s ! p)) sent) @ rest \<and>
          list_all (\<lambda>pk. wire_ok E (cur_session (rs_workers s ! p)) pk (reply_frame E (rs_workers s ! p) pk)) sent \<and> length chs = length sent \<longrightarrow>
          (\<exists>r' m'. read_packs D chs (cur_session (rs_workers s ! p)) r m = (sent, r', m') \<and> pending m' r' = rest)))"
proof -
  from push_run_refines [OF assms(2,3), of evs S E] assms(5,6) obtain rs s' where
    s': "push_run S E evs s = Some (rs, s')" "list_all2 (answered (rs_UID s ` P)) evs rs" "rs_buckets s' = rs_buckets s"
      "\<And>p. p \<in> P \<Longrightarrow> mailed E (fold (mailbox_step (rs_UID s p) p) evs (replyChan (rs_workers s ! p), [])) (rs_workers s ! p) (rs_workers s' ! p)"
    unfolding P_def by auto
  have "\<exists>r' m'. read_packs D chs ss r m = (sent, r', m') \<and> pending m' r' = rest"
    if "reader_inv r m" "pending m r = concat (map f sent) @ rest" "list_all (\<lambda>pk. wire_ok E ss pk (f pk)) sent" "length chs = length sent"
    for r m f sent rest ss chs
    using read_packs_all [OF assms(4) that(1) _ that(2,4), of ss] that(3) by (auto simp: list_all2_map2 list.pred_set list.rel_refl_strong list_all2_same)
  with s' mailbox_order [of "rs_UID s p" p evs "(replyChan (rs_workers s ! p), [])" for p] mailed_keeps(5,6) [OF s'(4)] show ?thesis
    by (intro exI [of _ rs] exI [of _ s']) (auto simp: prod_eq_iff)
qed

theorem pushes_reach_clients_witness:
  "\<exists>(s :: (unit, bool \<times> bool, int64, unit) running) rs s'. rs_workers s = two_users \<and>
     push_run flag_sync (\<lambda>k b x. Ok x) [PushAll [5], PushUser 71 [6], WriteRound 1, PushMany [71, 99] [7], PushUser 99 [8], WriteRound 1, WriteRound 1] s
       = Some (rs, s') \<and> rs ! 4 = Fail (Err ''worker not found. uid=%d'' [AInt 99]) \<and> replyChan (rs_workers s' ! 0) = [[5]] \<and>
     replyChan (rs_workers s' ! 1) = [] \<and> w_sent (rs_workers s' ! 1) = w_sent plain_worker @ frame [5] @ frame [6] @ frame [7]"
proof -
  let ?E = "\<lambda>k b x. Ok x :: bytes res"
  let ?evs = "[PushAll [5], PushUser 71 [6], WriteRound 1, PushMany [71, 99] [7], PushUser 99 [8], WriteRound 1, WriteRound 1]"
  obtain s :: "(unit, bool \<times> bool, int64, unit) running" where
    s: "rs_workers s = two_users" "buckets_ok (rs_WID s) (rs_buckets s)" "index_ok (rs_UID s) (rs_buckets s)"
      "registered (rs_buckets s) = [1 \<mapsto> 0, 33 \<mapsto> 1]"
    using two_users_server by metis
  have P: "ran (registered (rs_buckets s)) = {0, 1}" by (simp add: s(4) insert_commute)
  have u: "rs_UID s 0 = 70" "rs_UID s 1 = 71"
    by (simp_all add: rs_UID_def s(1) two_users_def w_UID_def cur_session_def NewSession_def session_defs plain_worker_def)
  have w: "replyChan (two_users ! p) = []" "w_sent (two_users ! p) = w_sent plain_worker" "ReplyChanSize (w_conf (two_users ! p)) = 1024"
    "replying flag_sync ?E (two_users ! p)" "reply_frame ?E (two_users ! p) pk = frame pk" if "p \<in> {0, 1}" for p pk
    using that two_users_take [of p 0]
    by (auto simp: replying_def takes_def encryptable_def reply_frame_def encrypt_def two_users_def plain_worker_def cur_session_def NewSession_def
        session_defs conf_Default_def)
  have ae: "aes_inverse ?E ?E" by (simp add: aes_inverse_def)
  have ok: "\<forall>ev \<in> set ?evs. event_ok (ran (registered (rs_buckets s))) ev" by (simp add: P event_ok_def)
  have fits: "\<forall>p \<in> ran (registered (rs_buckets s)). p < length (rs_workers s) \<and> replying flag_sync ?E (rs_workers s ! p) \<and>
      mailbox_fits (ReplyChanSize (w_conf (rs_workers s ! p))) (rs_UID s p) p ?evs (replyChan (rs_workers s ! p), [])"
    using w u by (simp add: P s(1)) (simp add: two_users_def)
  obtain rs s' where r: "push_run flag_sync ?E ?evs s = Some (rs, s')" "list_all2 (answered (rs_UID s ` {0, 1})) ?evs rs"
    "\<forall>p \<in> {0, 1}. \<exists>q sent. fold (mailbox_step (rs_UID s p) p) ?evs (replyChan (two_users ! p), []) = (q, sent) \<and> replyChan (rs_workers s' ! p) = q \<and>
       w_sent (rs_workers s' ! p) = w_sent (two_users ! p) @ concat (map (reply_frame ?E (two_users ! p)) sent)"
    using pushes_reach_clients [OF s(2,3) ae ok fits] unfolding P s(1) by meson
  have m: "fold (mailbox_step 70 0) ?evs ([], []) = ([[5]], [])" "fold (mailbox_step 71 1) ?evs ([], []) = ([], [[5], [6], [7]])" by simp_all
  have "rs ! 4 = Fail (Err ''worker not found. uid=%d'' [AInt 99])"
    using list_all2_nthD [OF r(2), of 4] u by (simp add: answered_def)
  moreover have "replyChan (rs_workers s' ! 0) = [[5]]" using r(3) m(1) u(1) w(1) by (simp del: fold_simps)
  moreover have "replyChan (rs_workers s' ! 1) = [] \<and> w_sent (rs_workers s' ! 1) = w_sent plain_worker @ frame [5] @ frame [6] @ frame [7]"
    using r(3) m(2) u(2) w by (simp del: fold_simps)
  ultimately show ?thesis using r(1) s(1) by blast
qed

end
