(* ===== verification/Connection.thy ===== *)
theory Connection
  imports Tcp_Server
begin

text \<open>
  The life of a connection, from its acceptance to its removal
  (\<^verbatim>\<open>pkg/net/tcp/server/server.go\<close>: \<^verbatim>\<open>acceptLoop\<close>, \<^verbatim>\<open>accept\<close>, \<^verbatim>\<open>serve\<close>, \<^verbatim>\<open>work\<close>).

  \<open>start\<close> and \<open>run\<close> are \<^verbatim>\<open>w.Start\<close> and \<^verbatim>\<open>w.Run\<close> on the state of the worker; other connections do not
  interfere in between, except through the functions called after connecting (\<open>acf\<close>) and
  disconnecting (\<open>adf\<close>), which work on the external state \<open>rs_ext\<close>. A result \<open>None\<close> is a call that
  blocks.
\<close>

section \<open>Accepting\<close>

text \<open>Accepting a connection draws the next worker id from the shared counter.\<close>

definition accept :: "gerr option \<Rightarrow> uint64 \<Rightarrow> uint64 res \<times> uint64" where
  "accept acc idGen =
     (case acc of
        Some e \<Rightarrow> (Fail (Wrap ''accept failed'' [] e), idGen)
      | None \<Rightarrow> (Ok (idGen + 1), idGen + 1))"

text \<open>What the goroutine of an accepted connection returns, from the result of serving it.\<close>

definition accept_go :: "uint64 \<Rightarrow> string option option \<Rightarrow> string option option \<Rightarrow> unit res \<Rightarrow> unit res" where
  "accept_go wid remote loc r =
     (case r of
        Fail e \<Rightarrow> Fail (Wrap ''serve failed wid=%d remote=%s local=%s''
          [AInt (uint wid), AStr (RemoteAddr remote), AStr (LocalAddr loc)] e)
      | r1 \<Rightarrow> r1)"

text \<open>One round of \<^verbatim>\<open>acceptLoop\<close>: the case \<^verbatim>\<open>select\<close> takes, \<open>ctxErr\<close> is \<^verbatim>\<open>ctx.Err()\<close>. An error of \<^verbatim>\<open>accept\<close>
  is only logged. The first two cases wait until the server has stopped.\<close>

datatype accept_sel = AStopping | ACtxDone | ADefault

definition acceptLoop_round :: "accept_sel \<Rightarrow> gerr option \<Rightarrow> gerr option \<Rightarrow> uint64 \<Rightarrow> round \<times> uint64" where
  "acceptLoop_round sel ctxErr acc idGen =
     (case sel of
        AStopping \<Rightarrow> (Return ctxErr, idGen)
      | ACtxDone \<Rightarrow> (Return ctxErr, idGen)
      | ADefault \<Rightarrow> (case accept acc idGen of (_, i) \<Rightarrow> (Next, i)))"


section \<open>Work\<close>

text \<open>The whole of \<^verbatim>\<open>Worker.Stop\<close>; \<open>None\<close> waits for a writing loop that has not completed.\<close>

definition wk_Stop :: "('st, 'cd) sync_ops \<Rightarrow> ('b, 'st, 'cd, 'z) worker_scheme \<Rightarrow> ('b, 'st, 'cd, 'z) worker_scheme option" where
  "wk_Stop S w =
     (case stop_begin S w of
        (False, w1) \<Rightarrow> Some w1
      | (True, w1) \<Rightarrow> if stop_may_end w1 then Some (stop_end S w1) else None)"

text \<open>The calls made for a connection, in order.\<close>

datatype conn_event = EStart | EPut | EAfterConnect | ERun | EDel | EStop | EAfterDisconnect

type_synonym ('b, 'st, 'cd) worker_call = "('b, 'st, 'cd) worker \<Rightarrow> unit res \<times> ('b, 'st, 'cd) worker"
type_synonym 'x wrap_func = "string \<Rightarrow> int64 \<Rightarrow> 'x \<Rightarrow> unit res \<times> 'x"

definition on_worker :: "('b, 'st, 'cd) worker_call \<Rightarrow> wptr \<Rightarrow> ('b, 'st, 'cd, 'x) running \<Rightarrow>
    unit res \<times> ('b, 'st, 'cd, 'x) running" where
  "on_worker f p s = (case f (rs_workers s ! p) of (r, w) \<Rightarrow> (r, set_worker p w s))"

definition call_wrap :: "'x wrap_func \<Rightarrow> wptr \<Rightarrow> ('b, 'st, 'cd, 'x) running \<Rightarrow> unit res \<times> ('b, 'st, 'cd, 'x) running" where
  "call_wrap f p s =
     (case f (w_Color (rs_workers s ! p)) (w_UID (rs_workers s ! p)) (rs_ext s) of (r, x) \<Rightarrow> (r, s\<lparr>rs_ext := x\<rparr>))"

definition after_connect :: "'x wrap_func option \<Rightarrow> wptr \<Rightarrow> ('b, 'st, 'cd, 'x) running \<Rightarrow>
    conn_event list \<times> unit res \<times> ('b, 'st, 'cd, 'x) running" where
  "after_connect acf p s = (case acf of None \<Rightarrow> ([], Ok (), s) | Some f \<Rightarrow> ([EAfterConnect], call_wrap f p s))"

text \<open>The body of \<^verbatim>\<open>work\<close>: the calls made, its result, whether the removal from the registry has been
  deferred, and the state.\<close>

definition work_body :: "('st, 'cd) sync_ops \<Rightarrow> wptr \<Rightarrow> ('b, 'st, 'cd) worker_call \<Rightarrow> 'x wrap_func option \<Rightarrow>
    ('b, 'st, 'cd) worker_call \<Rightarrow> ('b, 'st, 'cd, 'x) running \<Rightarrow>
    conn_event list \<times> unit res \<times> bool \<times> ('b, 'st, 'cd, 'x) running" where
  "work_body S p start acf run s =
     (case on_worker start p s of
        (Ok _, s1) \<Rightarrow>
          (case putBucket S p s1 of
             (Ok _, s2) \<Rightarrow>
               (case after_connect acf p s2 of
                  (ac, Ok _, s3) \<Rightarrow>
                    (case on_worker run p s3 of (r, s4) \<Rightarrow> ([EStart, EPut] @ ac @ [ERun], r, True, s4))
                | (ac, r, s3) \<Rightarrow> ([EStart, EPut] @ ac, r, True, s3))
           | (r, s2) \<Rightarrow> ([EStart, EPut], r, False, s2))
      | (r, s1) \<Rightarrow> ([EStart], r, False, s1))"

text \<open>The deferred calls run last deferred first: the removal from the registry if it was
  deferred, then the function that wraps the error, stops the worker and calls the function
  after disconnecting, whose result replaces the error.\<close>

definition work_del :: "wptr \<Rightarrow> bool \<Rightarrow> ('b, 'st, 'cd, 'x) running \<Rightarrow> conn_event list \<times> unit res \<times> ('b, 'st, 'cd, 'x) running" where
  "work_del p deferred s =
     (if deferred
      then (case Del (rs_WID s) (rs_UID s) p (rs_buckets s) of
              Ok bs \<Rightarrow> ([EDel], Ok (), s\<lparr>rs_buckets := bs\<rparr>) | Fail e \<Rightarrow> ([EDel], Fail e, s) | Panic q \<Rightarrow> ([EDel], Panic q, s))
      else ([], Ok (), s))"

definition work_err :: "wptr \<Rightarrow> ('b, 'st, 'cd, 'x) running \<Rightarrow> unit res \<Rightarrow> unit res" where
  "work_err p s r =
     (case r of
        Fail e \<Rightarrow> Fail (Wrap ''uid=%d color=%s state=%d''
          [AInt (sint (rs_UID s p)), AStr (w_Color (rs_workers s ! p)), AInt (sint (w_Status (rs_workers s ! p)))] e)
      | r1 \<Rightarrow> r1)"

text \<open>A panic goes on after the deferred calls, unless one of them panics itself.\<close>

definition keep_panic :: "unit res \<Rightarrow> unit res \<Rightarrow> unit res" where
  "keep_panic r d = (if is_panic r \<and> \<not> is_panic d then r else d)"

definition work_end :: "('st, 'cd) sync_ops \<Rightarrow> wptr \<Rightarrow> unit res \<Rightarrow> 'x wrap_func option \<Rightarrow> ('b, 'st, 'cd, 'x) running \<Rightarrow>
    (conn_event list \<times> unit res \<times> ('b, 'st, 'cd, 'x) running) option" where
  "work_end S p r adf s =
     (case wk_Stop S (rs_workers s ! p) of
        None \<Rightarrow> None
      | Some w \<Rightarrow>
          (let err = work_err p s r; s1 = set_worker p w s in
           case adf of
             None \<Rightarrow> Some ([EStop], err, s1)
           | Some f \<Rightarrow> (case call_wrap f p s1 of (d, s2) \<Rightarrow> Some ([EStop, EAfterDisconnect], keep_panic r d, s2))))"

text \<open>\<open>nw\<close> is the new worker; its pointer is the next free one.\<close>

definition work :: "('st, 'cd) sync_ops \<Rightarrow> ('b, 'st, 'cd) worker res \<Rightarrow> ('b, 'st, 'cd) worker_call \<Rightarrow> 'x wrap_func option \<Rightarrow>
    ('b, 'st, 'cd) worker_call \<Rightarrow> 'x wrap_func option \<Rightarrow> ('b, 'st, 'cd, 'x) running \<Rightarrow>
    (conn_event list \<times> unit res \<times> ('b, 'st, 'cd, 'x) running) option" where
  "work S nw start acf run adf s =
     (case nw of
        Panic q \<Rightarrow> Some ([], Panic q, s)
      | Fail e \<Rightarrow> Some ([], Fail e, s)
      | Ok w \<Rightarrow>
          (let p = length (rs_workers s); s0 = s\<lparr>rs_workers := rs_workers s @ [w]\<rparr> in
           case work_body S p start acf run s0 of
             (evs, r, deferred, s1) \<Rightarrow>
               (case work_del p deferred s1 of
                  (evs1, d, s2) \<Rightarrow>
                    map_option (\<lambda>(evs2, r2, s3). (evs @ evs1 @ evs2, r2, s3))
                      (work_end S p (if is_panic d then d else r) adf s2))))"

text \<open>\<open>ka\<close>, \<open>rb\<close> and \<open>wb\<close> are the errors of setting up the connection, if any.\<close>

definition serve :: "config \<Rightarrow> gerr option \<Rightarrow> gerr option \<Rightarrow> gerr option \<Rightarrow>
    (('b, 'st, 'cd, 'x) running \<Rightarrow> (conn_event list \<times> unit res \<times> ('b, 'st, 'cd, 'x) running) option) \<Rightarrow>
    ('b, 'st, 'cd, 'x) running \<Rightarrow> (conn_event list \<times> unit res \<times> ('b, 'st, 'cd, 'x) running) option" where
  "serve cfg ka rb wb wk s =
     (case ka of
        Some e \<Rightarrow> Some ([], Fail (Wrap (''SetKeepAlive failed v=%v'' @ [CHR 0x09])
          [AStr (if KeepAlive (c_Server cfg) then ''true'' else ''false'')] e), s)
      | None \<Rightarrow>
     (case rb of
        Some e \<Rightarrow> Some ([], Fail (Wrap ''SetReadBuffer failed v=%d'' [AInt (ReadBufSize (c_Server cfg))] e), s)
      | None \<Rightarrow>
     (case wb of
        Some e \<Rightarrow> Some ([], Fail (Wrap ''SetWriteBuffer failed v=%d'' [AInt (WriteBufSize (c_Server cfg))] e), s)
      | None \<Rightarrow> wk s)))"


section \<open>Calls on one worker\<close>

text \<open>What \<^verbatim>\<open>work\<close> relies on of \<^verbatim>\<open>w.Start\<close> and \<^verbatim>\<open>w.Run\<close>: the id of the worker does not change, the call does
  not stop the worker itself, and no writing loop is left behind.\<close>

definition call_ok :: "('st, 'cd) sync_ops \<Rightarrow> ('b, 'st, 'cd) worker_call \<Rightarrow> bool" where
  "call_ok S f \<longleftrightarrow>
     (\<forall>w. w_id (snd (f w)) = w_id w \<and> fst (DoStop S (w_stopper (snd (f w)))) = fst (DoStop S (w_stopper w)) \<and>
        (stop_may_end w \<longrightarrow> stop_may_end (snd (f w))))"

lemma wk_read_same: "w_id (snd (wk_read D ch1 ch2 w)) = w_id w" "w_stopper (snd (wk_read D ch1 ch2 w)) = w_stopper w"
  "stop_may_end (snd (wk_read D ch1 ch2 w)) = stop_may_end w"
  by (simp_all add: wk_read_def stop_may_end_def split: prod.splits)

lemma wk_write_same: "w_id (snd (wk_write E wr pk w)) = w_id w" "w_stopper (snd (wk_write E wr pk w)) = w_stopper w"
  "stop_may_end (snd (wk_write E wr pk w)) = stop_may_end w"
  by (simp_all add: wk_write_def stop_may_end_def split: prod.splits)

lemma handshake_same:
  "w_id (snd (handshake E D wr auth ch1 ch2 w)) = w_id w \<and> w_stopper (snd (handshake E D wr auth ch1 ch2 w)) = w_stopper w \<and>
   stop_may_end (snd (handshake E D wr auth ch1 ch2 w)) = stop_may_end w"
proof -
  obtain r w1 where rd: "wk_read D ch1 ch2 w = (r, w1)" by (metis prod.collapse)
  note r1 = wk_read_same [of D ch1 ch2 w, unfolded rd snd_conv]
  show ?thesis
  proof (cases r)
    case (Ok inb)
    obtain a pl where a: "auth inb (pktPool w1) = (a, pl)" by (metis prod.collapse)
    let ?w2 = "w1\<lparr>pktPool := pl\<rparr>"
    have w2: "w_id ?w2 = w_id w" "w_stopper ?w2 = w_stopper w" "stop_may_end ?w2 = stop_may_end w"
      using r1 by (simp_all add: stop_may_end_def)
    show ?thesis
    proof (cases a)
      case (Ok x)
      obtain out ss where x: "x = (out, ss)" by fastforce
      obtain r3 w3 where wr: "wk_write E wr out ?w2 = (r3, w3)" by (metis prod.collapse)
      note r3 = wk_write_same [of E wr out ?w2, unfolded wr snd_conv w2]
      show ?thesis
        using \<open>r = Ok inb\<close> Ok x rd a wr r3 by (cases r3) (simp_all add: handshake_def stop_may_end_def)
    qed (use \<open>r = Ok inb\<close> rd a w2 in \<open>simp_all add: handshake_def\<close>)
  qed (use rd r1 in \<open>simp_all add: handshake_def\<close>)
qed

lemma start_call_ok:
  fixes S :: "('st, 'cd) sync_ops" and E D :: "'b aes"
  shows "call_ok S (wk_Start E D wr auth onc dl1 dl2 ch1 ch2)"
proof -
  have "w_id (snd (wk_Start E D wr auth onc dl1 dl2 ch1 ch2 w)) = w_id w \<and>
    w_stopper (snd (wk_Start E D wr auth onc dl1 dl2 ch1 ch2 w)) = w_stopper w \<and>
    stop_may_end (snd (wk_Start E D wr auth onc dl1 dl2 ch1 ch2 w)) = stop_may_end w" for w :: "('b, 'st, 'cd) worker"
  proof -
    obtain r w1 where h: "handshake E D wr auth ch1 ch2 w = (r, w1)" by (metis prod.collapse)
    then show ?thesis
      using handshake_same [of E D wr auth ch1 ch2 w]
      by (cases r) (simp_all add: wk_Start_def stop_may_end_def split: option.splits res.splits)
  qed
  then show ?thesis by (simp add: call_ok_def)
qed


text \<open>A run that has ended: every step of its goroutines keeps the id and does not stop the
  worker, and the writing loop has completed when it has returned.\<close>

definition run_ok :: "('st, 'cd) sync_ops \<Rightarrow> ('b, 'st, 'cd) worker \<Rightarrow> ('b, 'st, 'cd) run \<Rightarrow> bool" where
  "run_ok S w s \<longleftrightarrow>
     w_id (r_worker s) = w_id w \<and> fst (DoStop S (w_stopper (r_worker s))) = fst (DoStop S (w_stopper w)) \<and>
     (r_write s = Running \<or> replyChanCompleted (r_worker s))"

lemma writePack_same: "w_id (snd (writePack E wr flt pk w)) = w_id w" "w_stopper (snd (writePack E wr flt pk w)) = w_stopper w"
  "replyChanCompleted (snd (writePack E wr flt pk w)) = replyChanCompleted w"
  by (simp_all add: writePack_def wk_write_def Let_def split: res.splits prod.splits)

lemma write_round_same:
  assumes "writePackLoop_round E wr flt w = Some (rd, w')"
  shows "w_id w' = w_id w \<and> w_stopper w' = w_stopper w \<and> (rd \<noteq> Next \<longrightarrow> replyChanCompleted w') \<and>
    (replyChanCompleted w \<longrightarrow> replyChanCompleted w')"
proof (cases "replyChan w")
  case Nil
  with assms show ?thesis by (auto simp: writePackLoop_round_def Let_def split: if_splits)
next
  case (Cons pk rest)
  let ?v = "w\<lparr>replyChanStarted := True, replyChan := rest\<rparr>"
  obtain r w1 where w1: "writePack E wr flt pk ?v = (r, w1)" by (metis prod.collapse)
  show ?thesis
    using assms Cons w1 writePack_same [of E wr flt pk ?v]
    by (auto simp: writePackLoop_round_def Let_def split: round.splits)
qed

lemma tick_same:
  assumes "sync_laws S" and "tickStopSign_round S sel w = (rd, w')"
  shows "w_id w' = w_id w \<and> fst (DoStop S (w_stopper w')) = fst (DoStop S (w_stopper w)) \<and> replyChanCompleted w' = replyChanCompleted w"
  using assms by (auto simp: tickStopSign_round_def sync_laws_def Let_def split: tick_sel.splits if_splits)

definition same_worker :: "('b, 'st, 'cd) worker \<Rightarrow> ('b, 'st, 'cd) worker \<Rightarrow> bool" where
  "same_worker v v' \<longleftrightarrow> w_id v' = w_id v \<and> w_stopper v' = w_stopper v \<and> replyChanCompleted v' = replyChanCompleted v"

lemma read_round_same:
  assumes "readPackLoop_round rp sel w = Some (rd, w')" and "\<And>v r v'. rp v = Some (r, v') \<Longrightarrow> same_worker v v'"
  shows "same_worker w w'"
  using assms by (auto simp: readPackLoop_round_def same_worker_def split: read_sel.splits option.splits)

lemma run_step_ok:
  fixes s :: "('b, 'st, 'cd) run"
  assumes "run_step S E wr flt rp s s'" and "run_ok S w s" and "sync_laws S"
    and rp: "\<And>v r v'. rp v = Some (r, v') \<Longrightarrow> same_worker v v'"
  shows "run_ok S w s'"
  using assms(1)
proof cases
  case (write_next w1)
  with assms(2) write_round_same [OF write_next(3)] show ?thesis by (simp add: run_ok_def)
next
  case (write_return e w1)
  with assms(2) write_round_same [OF write_return(3)] show ?thesis by (simp add: run_ok_def)
next
  case (read_next w1)
  with assms(2) read_round_same [OF read_next(4) rp] show ?thesis by (simp add: run_ok_def same_worker_def)
next
  case (read_return sel e w1)
  with assms(2) read_round_same [OF read_return(4) rp] show ?thesis by (simp add: run_ok_def same_worker_def)
next
  case (tick_next now w1)
  with assms(2) tick_same [OF assms(3) tick_next(3)] show ?thesis by (simp add: run_ok_def)
next
  case (tick_return sel e w1)
  with assms(2) tick_same [OF assms(3) tick_return(4)] show ?thesis by (simp add: run_ok_def)
next
  case (pushed pk r w1)
  with assms(2) show ?thesis by (auto simp: run_ok_def elim: wk_Push_cases)
next
  case triggered
  with assms(2,3) show ?thesis by (simp add: run_ok_def sync_laws_def)
qed (use assms(2) in \<open>simp_all add: run_ok_def\<close>)

lemma finished_run_ok:
  fixes w :: "('b, 'st, 'cd) worker"
  assumes "(run_step S E wr flt rp)\<^sup>*\<^sup>* (run_start w) s" and "run_finished s" and "sync_laws S"
    and "\<And>v r v'. rp v = Some (r, v') \<Longrightarrow> same_worker v v'"
  shows "w_id (r_worker s) = w_id w" and "fst (DoStop S (w_stopper (r_worker s))) = fst (DoStop S (w_stopper w))"
    and "stop_may_end (r_worker s)"
proof -
  have "run_ok S w s"
    using assms(1)
  proof induction
    case base
    then show ?case by (simp add: run_ok_def run_start_def)
  next
    case (step t u)
    then show ?case using run_step_ok assms(3,4) by blast
  qed
  then show "w_id (r_worker s) = w_id w" "fst (DoStop S (w_stopper (r_worker s))) = fst (DoStop S (w_stopper w))"
    "stop_may_end (r_worker s)"
    using assms(2) by (auto simp: run_ok_def run_finished_def stop_may_end_def)
qed



section \<open>Connections are cleaned up\<close>

text \<open>The state in the middle of \<^verbatim>\<open>work\<close>: the worker of the connection is the last one, not stopped,
  with no writing loop left behind; the ids of the others are those of the state before.\<close>

definition mid_conn :: "('st, 'cd) sync_ops \<Rightarrow> ('b, 'st, 'cd, 'x) running \<Rightarrow> ('b, 'st, 'cd) worker \<Rightarrow> ('b, 'st, 'cd, 'x) running \<Rightarrow> bool" where
  "mid_conn S s0 w s \<longleftrightarrow>
     map w_id (rs_workers s) = map w_id (rs_workers s0) @ [w_id w] \<and>
     fst (DoStop S (w_stopper (rs_workers s ! length (rs_workers s0)))) \<and> stop_may_end (rs_workers s ! length (rs_workers s0)) \<and>
     buckets_ok (rs_WID s) (rs_buckets s) \<and> (\<forall>q \<in> ran (registered (rs_buckets s)). q \<le> length (rs_workers s0)) \<and>
     (\<forall>k. k \<noteq> w_id w \<longrightarrow> registered (rs_buckets s) k = registered (rs_buckets s0) k)"

lemma mid_conn_length: "mid_conn S s0 w s \<Longrightarrow> length (rs_workers s) = Suc (length (rs_workers s0))"
  unfolding mid_conn_def by (metis length_append_singleton length_map)

lemma mid_conn_WID: "mid_conn S s0 w s \<Longrightarrow> rs_WID s (length (rs_workers s0)) = w_id w"
  using mid_conn_length [of S s0 w s] nth_append_length [of "map w_id (rs_workers s0)" "w_id w" "[]"]
  unfolding mid_conn_def rs_WID_def w_WID_def by (metis length_map lessI nth_map)

lemma rs_WID_ids: "map w_id (rs_workers s) = map w_id (rs_workers t) \<Longrightarrow> q < length (rs_workers s) \<Longrightarrow> rs_WID s q = rs_WID t q"
  by (metis length_map nth_map rs_WID_def w_WID_def)

lemma ids_update: "w_id v = w_id (ws ! p) \<Longrightarrow> map w_id (ws[p := v]) = map w_id ws"
  by (cases "p < length ws") (simp_all add: map_update list_update_beyond list_update_same_conv)

text \<open>A change of workers that keeps their ids keeps the registry well formed.\<close>

lemma mid_conn_change:
  assumes "mid_conn S s0 w s" and "map w_id (rs_workers s1) = map w_id (rs_workers s)" and "rs_buckets s1 = rs_buckets s"
    and "fst (DoStop S (w_stopper (rs_workers s1 ! length (rs_workers s0))))" and "stop_may_end (rs_workers s1 ! length (rs_workers s0))"
  shows "mid_conn S s0 w s1"
proof -
  have "rs_WID s1 q = rs_WID s q" if "q \<in> ran (registered (rs_buckets s))" for q
  proof -
    have "q < length (rs_workers s1)"
      using that assms(1,2) mid_conn_length [OF assms(1)] by (metis length_map less_Suc_eq_le mid_conn_def)
    then show ?thesis using rs_WID_ids [OF assms(2)] by simp
  qed
  then have "buckets_ok (rs_WID s1) (rs_buckets s1)"
    using assms(1,3) buckets_ok_cong [of "rs_WID s" "rs_buckets s" "rs_WID s1"] by (simp add: mid_conn_def)
  then show ?thesis
    using assms unfolding mid_conn_def by simp
qed

lemma mid_conn_on_worker:
  assumes "mid_conn S s0 w s" and "call_ok S f" and "on_worker f (length (rs_workers s0)) s = (r, s1)"
  shows "mid_conn S s0 w s1"
proof -
  let ?p = "length (rs_workers s0)"
  obtain v where v: "f (rs_workers s ! ?p) = (r, v)" "s1 = set_worker ?p v s"
    using assms(3) by (auto simp: on_worker_def split: prod.splits)
  have keep: "w_id v = w_id (rs_workers s ! ?p)" "fst (DoStop S (w_stopper v)) = fst (DoStop S (w_stopper (rs_workers s ! ?p)))"
    "stop_may_end (rs_workers s ! ?p) \<longrightarrow> stop_may_end v"
    using assms(2) v(1) unfolding call_ok_def by (metis snd_conv)+
  show ?thesis
    by (rule mid_conn_change [OF assms(1)])
      (use assms(1) mid_conn_length [OF assms(1)] keep in \<open>auto simp: v(2) set_worker_def ids_update mid_conn_def\<close>)
qed

lemma mid_conn_trigger:
  assumes "mid_conn S s0 w s" and "sync_laws S"
  shows "mid_conn S s0 w (trigger_worker S q s)"
  by (rule mid_conn_change [OF assms(1)]; cases "q = length (rs_workers s0)")
    (use assms mid_conn_length [OF assms(1)] in
      \<open>auto simp: trigger_worker_def set_worker_def ids_update mid_conn_def sync_laws_def stop_may_end_def\<close>)


lemma mid_conn_ext [simp]: "mid_conn S s0 w (s\<lparr>rs_ext := x\<rparr>) = mid_conn S s0 w s"
  by (simp add: mid_conn_def rs_WID_def [abs_def])

lemma mid_conn_call_wrap: "mid_conn S s0 w s \<Longrightarrow> call_wrap f p s = (r, s1) \<Longrightarrow> mid_conn S s0 w s1"
  by (auto simp: call_wrap_def split: prod.splits)

lemma mid_conn_put:
  assumes "mid_conn S s0 w s" and "sync_laws S"
  shows "\<exists>s1. putBucket S (length (rs_workers s0)) s = (Ok (), s1) \<and> mid_conn S s0 w s1"
proof -
  let ?p = "length (rs_workers s0)"
  have ok: "buckets_ok (rs_WID s) (rs_buckets s)" using assms(1) by (simp add: mid_conn_def)
  note wid = mid_conn_WID [OF assms(1)]
  from Put_registered [OF ok, of "rs_UID s" ?p] obtain bs where
    b: "Put (rs_WID s) (rs_UID s) ?p (rs_buckets s) = Ok (registered (rs_buckets s) (w_id w), bs)" "buckets_ok (rs_WID s) bs"
      "registered bs = (registered (rs_buckets s))(w_id w \<mapsto> ?p)"
    unfolding wid by blast
  have "ran (registered bs) \<subseteq> insert ?p (ran (registered (rs_buckets s)))"
    unfolding b(3) by (auto simp: ran_def)
  then have m: "mid_conn S s0 w (s\<lparr>rs_buckets := bs\<rparr>)"
    using assms(1) b(2,3) by (auto simp: mid_conn_def rs_WID_def [abs_def])
  show ?thesis
    using b(1) m mid_conn_trigger [OF m assms(2)] by (auto simp: putBucket_def Let_def split: option.splits)
qed

lemma work_body_ok:
  fixes s0 :: "('b, 'st, 'cd, 'x) running"
  defines "p \<equiv> length (rs_workers s0)"
  assumes "mid_conn S s0 w s" and "sync_laws S" and "call_ok S start" and "call_ok S run"
  shows "\<exists>mid r d s1. work_body S p start acf run s = (EStart # mid, r, d, s1) \<and> mid_conn S s0 w s1 \<and>
    (if fst (start (rs_workers s ! p)) = Ok () then d \<and> (\<exists>ys. mid = EPut # ys \<and> set ys \<subseteq> {EAfterConnect, ERun})
     else \<not> d \<and> mid = [] \<and> rs_buckets s1 = rs_buckets s)"
proof -
  obtain r1 s1 where a: "on_worker start p s = (r1, s1)" by (metis prod.collapse)
  have m1: "mid_conn S s0 w s1" using mid_conn_on_worker assms(2,4) a unfolding p_def by blast
  have r1: "fst (start (rs_workers s ! p)) = r1" "rs_buckets s1 = rs_buckets s"
    using a by (auto simp: on_worker_def set_worker_def split: prod.splits)
  show ?thesis
  proof (cases "r1 = Ok ()")
    case True
    obtain s2 where b: "putBucket S p s1 = (Ok (), s2)" "mid_conn S s0 w s2"
      using mid_conn_put [OF m1 assms(3)] unfolding p_def by blast
    obtain ac r3 s3 where c: "after_connect acf p s2 = (ac, r3, s3)" by (metis prod.collapse)
    have m3: "mid_conn S s0 w s3" "set ac \<subseteq> {EAfterConnect}"
      using c b(2) by (auto simp: after_connect_def intro: mid_conn_call_wrap split: option.splits)
    obtain r4 s4 where d: "on_worker run p s3 = (r4, s4)" by (metis prod.collapse)
    have m4: "mid_conn S s0 w s4" using mid_conn_on_worker m3(1) assms(5) d unfolding p_def by blast
    show ?thesis
      using True a b(1) c d m3 m4 r1 by (cases r3) (auto simp: work_body_def)
  next
    case False
    then show ?thesis using a m1 r1 by (cases r1) (auto simp: work_body_def)
  qed
qed

lemma work_del_ok:
  fixes s0 :: "('b, 'st, 'cd, 'x) running"
  defines "p \<equiv> length (rs_workers s0)"
  assumes "mid_conn S s0 w s" and "d \<or> p \<notin> ran (registered (rs_buckets s))"
  shows "\<exists>s1. work_del p d s = (if d then [EDel] else [], Ok (), s1) \<and> mid_conn S s0 w s1 \<and>
    p \<notin> ran (registered (rs_buckets s1)) \<and> rs_workers s1 = rs_workers s \<and> rs_ext s1 = rs_ext s"
proof (cases d)
  case True
  have ok: "buckets_ok (rs_WID s) (rs_buckets s)" using assms(2) by (simp add: mid_conn_def)
  have wid: "rs_WID s p = w_id w" using mid_conn_WID [OF assms(2)] by (simp add: p_def)
  from Del_registered [OF ok, of "rs_UID s" p] obtain bs where
    b: "Del (rs_WID s) (rs_UID s) p (rs_buckets s) = Ok bs" "buckets_ok (rs_WID s) bs"
      "registered bs = (if registered (rs_buckets s) (w_id w) = Some p then (registered (rs_buckets s))(w_id w := None) else registered (rs_buckets s))"
    unfolding wid by blast
  have sub: "ran (registered bs) \<subseteq> ran (registered (rs_buckets s))"
    unfolding b(3) by (auto simp: ran_def)
  have "registered bs k \<noteq> Some p" for k
    using registered_WID [OF b(2), of k p] b(3) wid by (auto split: if_splits)
  then have "p \<notin> ran (registered bs)" by (auto simp: ran_def)
  moreover have "mid_conn S s0 w (s\<lparr>rs_buckets := bs\<rparr>)"
    using assms(2) b(2,3) sub by (auto simp: mid_conn_def rs_WID_def [abs_def])
  ultimately show ?thesis using True b(1) by (simp add: work_del_def)
next
  case False
  with assms show ?thesis by (simp add: work_del_def)
qed


lemma h_stop_w_id:
  fixes w :: "('b, 'st, 'cd) worker"
  shows "w_id (h_stop (tun_trigger S) h w) = w_id w"
proof -
  let ?P = "\<lambda>v :: ('b, 'st, 'cd) worker. w_id v = w_id w"
  show ?thesis
    unfolding h_stop_def
    by (rule foldl_keeps [where P = ?P]; simp add: case_prod_unfold; rule foldl_keeps [where P = ?P]; simp add: tun_trigger_def)
qed

text \<open>A worker after its stop.\<close>

definition torn_down :: "('st, 'cd) sync_ops \<Rightarrow> ('b, 'st, 'cd) worker \<Rightarrow> bool" where
  "torn_down S w \<longleftrightarrow> IsStopping S (w_stopper w) \<and> \<not> fst (DoStop S (w_stopper w)) \<and> cleanedUp (w_reader w) \<and> w_connClosed w"

lemma wk_Stop_torn_down:
  fixes w :: "('b, 'st, 'cd) worker"
  assumes "sync_laws S" and "fst (DoStop S (w_stopper w))" and "stop_may_end w"
  shows "\<exists>w1. wk_Stop S w = Some w1 \<and> torn_down S w1 \<and> w_id w1 = w_id w"
proof -
  obtain st where st: "DoStop S (w_stopper w) = (True, st)" using assms(2) by (metis (full_types) prod.collapse)
  let ?w = "w\<lparr>w_stopper := st, replyClosed := True\<rparr>"
  obtain cr r m where c: "Close (w_reader ?w) (w_mem ?w) = (cr, r, m)" by (metis prod.collapse)
  have "cleanedUp r" using c by (auto simp: Close_def split: if_splits)
  moreover have "IsStopping S st" "\<not> fst (DoStop S st)"
    using DoStop_once [OF assms(1), of "w_stopper w"] by (simp_all add: st)
  moreover have "wk_Stop S w = Some (stop_end S ?w)"
    using assms(3) by (simp add: wk_Stop_def stop_begin_def st stop_may_end_def)
  ultimately show ?thesis
    using c by (auto simp: torn_down_def stop_end_def Let_def h_stop_keeps h_stop_w_id)
qed

lemma work_end_ok:
  fixes s0 :: "('b, 'st, 'cd, 'x) running"
  defines "p \<equiv> length (rs_workers s0)"
  assumes "mid_conn S s0 w s" and "sync_laws S"
  shows "\<exists>r1 s1. work_end S p r adf s = Some (EStop # (if adf = None then [] else [EAfterDisconnect]), r1, s1) \<and>
    torn_down S (rs_workers s1 ! p) \<and> rs_buckets s1 = rs_buckets s \<and>
    map w_id (rs_workers s1) = map w_id (rs_workers s)"
proof -
  let ?w = "rs_workers s ! p"
  from wk_Stop_torn_down [OF assms(3), of ?w] assms(2) obtain w1 where
    w1: "wk_Stop S ?w = Some w1" "torn_down S w1" "w_id w1 = w_id ?w"
    by (auto simp: mid_conn_def p_def)
  have "p < length (rs_workers s)" using mid_conn_length [OF assms(2)] by (simp add: p_def)
  then show ?thesis
    using w1 by (cases adf) (auto simp: work_end_def set_worker_def call_wrap_def ids_update Let_def split: prod.splits)
qed

lemma work_end_result:
  assumes "work_end S p r (Some g) s = Some (evs, r1, s1)" and "\<not> is_panic r"
  shows "\<exists>x. r1 = fst (g (w_Color (rs_workers s1 ! p)) (w_UID (rs_workers s1 ! p)) x) \<and>
    rs_ext s1 = snd (g (w_Color (rs_workers s1 ! p)) (w_UID (rs_workers s1 ! p)) x)"
  using assms
  by (intro exI [of _ "rs_ext s"]) (auto simp: work_end_def call_wrap_def keep_panic_def set_worker_def Let_def split: option.splits prod.splits)

lemma mid_conn_start:
  assumes "buckets_ok (rs_WID s) (rs_buckets s)" and "\<forall>q \<in> ran (registered (rs_buckets s)). q < length (rs_workers s)"
    and "fst (DoStop S (w_stopper w))" and "stop_may_end w"
  shows "mid_conn S s w (s\<lparr>rs_workers := rs_workers s @ [w]\<rparr>)"
proof -
  let ?s0 = "s\<lparr>rs_workers := rs_workers s @ [w]\<rparr>"
  have "buckets_ok (rs_WID ?s0) (rs_buckets ?s0)"
    by (rule buckets_ok_cong [of "rs_WID s"]) (use assms(1,2) in \<open>auto simp: rs_WID_def nth_append\<close>)
  then show ?thesis
    using assms(2-4) by (auto simp: mid_conn_def intro: less_imp_le)
qed

lemma work_body_no_panic:
  fixes s0 :: "('b, 'st, 'cd, 'x) running"
  assumes "mid_conn S s0 w s" and "sync_laws S" and "call_ok S start" and "call_ok S run"
    and "\<And>v. \<not> is_panic (fst (start v))" and "\<And>v. \<not> is_panic (fst (run v))"
    and "\<And>f c u x. acf = Some f \<Longrightarrow> \<not> is_panic (fst (f c u x))"
    and "work_body S (length (rs_workers s0)) start acf run s = (evs, r, d, s1)"
  shows "\<not> is_panic r"
proof -
  let ?p = "length (rs_workers s0)"
  obtain r1 s1 where a: "on_worker start ?p s = (r1, s1)" by (metis prod.collapse)
  have r1: "\<not> is_panic r1" using a assms(5) [of "rs_workers s ! ?p"] by (auto simp: on_worker_def split: prod.splits)
  obtain s2 where b: "putBucket S ?p s1 = (Ok (), s2)"
    using mid_conn_put [OF mid_conn_on_worker [OF assms(1,3) a] assms(2)] by blast
  obtain ac r3 s3 where c: "after_connect acf ?p s2 = (ac, r3, s3)" by (metis prod.collapse)
  have r3: "\<not> is_panic r3"
    using c assms(7) by (auto simp: after_connect_def call_wrap_def split: option.splits prod.splits) (metis fst_conv)
  obtain r4 s4 where e: "on_worker run ?p s3 = (r4, s4)" by (metis prod.collapse)
  have r4: "\<not> is_panic r4" using e assms(6) [of "rs_workers s3 ! ?p"] by (auto simp: on_worker_def split: prod.splits)
  show ?thesis
    using assms(8) a b c e r1 r3 r4 by (cases r1; cases r3) (auto simp: work_body_def)
qed

text \<open>
  C10: Every connection is cleaned up, however it ends. Whether starting the worker, the function
  after connecting or the run succeeds, fails or panics, serving a connection ends: the worker is
  stopped exactly once, with its reader and connection closed, and the function after
  disconnecting, if there is one, is called after that; the worker is removed from the registry
  before it is stopped exactly when it had been started and registered, and afterwards no key
  leads to it, while the other keys lead where they led before.
\<close>

theorem connection_cleaned_up:
  assumes "buckets_ok (rs_WID s) (rs_buckets s)" and "\<forall>q \<in> ran (registered (rs_buckets s)). q < length (rs_workers s)"
    and "sync_laws S" and "call_ok S start" and "call_ok S run" and "fst (DoStop S (w_stopper w))" and "stop_may_end w"
  shows "\<exists>mid r s'. work S (Ok w) start acf run adf s =
      Some ([EStart] @ mid @ [EStop] @ (if adf = None then [] else [EAfterDisconnect]), r, s') \<and>
    (if fst (start w) = Ok () then \<exists>ys. mid = [EPut] @ ys @ [EDel] \<and> set ys \<subseteq> {EAfterConnect, ERun} else mid = []) \<and>
    torn_down S (rs_workers s' ! length (rs_workers s)) \<and> length (rs_workers s) \<notin> ran (registered (rs_buckets s')) \<and>
    (\<forall>k. k \<noteq> w_id w \<longrightarrow> registered (rs_buckets s') k = registered (rs_buckets s) k)"
proof -
  let ?p = "length (rs_workers s)"
  let ?s0 = "s\<lparr>rs_workers := rs_workers s @ [w]\<rparr>"
  have m0: "mid_conn S s w ?s0" using mid_conn_start assms(1,2,6,7) by blast
  from work_body_ok [OF m0 assms(3-5), of acf] obtain mid r d s1 where
    b: "work_body S ?p start acf run ?s0 = (EStart # mid, r, d, s1)" "mid_conn S s w s1"
      "if fst (start w) = Ok () then d \<and> (\<exists>ys. mid = EPut # ys \<and> set ys \<subseteq> {EAfterConnect, ERun})
       else \<not> d \<and> mid = [] \<and> rs_buckets s1 = rs_buckets s"
    by auto
  have "d \<or> ?p \<notin> ran (registered (rs_buckets s1))"
    using b(3) assms(2) by (auto split: if_splits)
  from work_del_ok [OF b(2) this] obtain s2 where
    c: "work_del ?p d s1 = (if d then [EDel] else [], Ok (), s2)" "mid_conn S s w s2" "?p \<notin> ran (registered (rs_buckets s2))"
    by blast
  from work_end_ok [OF c(2) assms(3), of r adf] obtain r1 s3 where
    e: "work_end S ?p r adf s2 = Some (EStop # (if adf = None then [] else [EAfterDisconnect]), r1, s3)"
      "torn_down S (rs_workers s3 ! ?p)" "rs_buckets s3 = rs_buckets s2"
    by blast
  have "work S (Ok w) start acf run adf s =
    Some (EStart # mid @ (if d then [EDel] else []) @ EStop # (if adf = None then [] else [EAfterDisconnect]), r1, s3)"
    by (simp add: work_def b(1) c(1) e(1) Let_def)
  moreover have "\<forall>k. k \<noteq> w_id w \<longrightarrow> registered (rs_buckets s3) k = registered (rs_buckets s) k"
    using c(2) by (simp add: e(3) mid_conn_def)
  moreover have "?p \<notin> ran (registered (rs_buckets s3))" using c(3) e(3) by simp
  ultimately show ?thesis
    using b(3) e(2)
    by (intro exI [of _ "mid @ (if d then [EDel] else [])"] exI [of _ r1] exI [of _ s3]) (auto split: if_splits)
qed


text \<open>A third connection whose start succeeds and whose run ends at the end of the stream.\<close>

lemma plain_calls_ok: "call_ok flag_sync (\<lambda>w. (Ok (), w))" "call_ok flag_sync (\<lambda>w. (Fail io_EOF, w))"
  by (simp_all add: call_ok_def)

lemma plain_worker_stoppable: "fst (DoStop flag_sync (w_stopper plain_worker))" "stop_may_end plain_worker"
  by (simp_all add: plain_worker_def flag_sync_def stop_may_end_def)

theorem connection_cleaned_up_witness:
  "\<exists>(s :: (unit, bool \<times> bool, int64, unit) running) ys r s'.
     work flag_sync (Ok plain_worker) (\<lambda>w. (Ok (), w)) None (\<lambda>w. (Fail io_EOF, w)) (Some (\<lambda>c u x. (Ok (), x))) s =
       Some ([EStart, EPut] @ ys @ [EDel, EStop, EAfterDisconnect], r, s') \<and>
     torn_down flag_sync (rs_workers s' ! 2) \<and> registered (rs_buckets s') 33 = Some 1"
proof -
  obtain s :: "(unit, bool \<times> bool, int64, unit) running" where
    s: "rs_workers s = two_users" "buckets_ok (rs_WID s) (rs_buckets s)" "registered (rs_buckets s) = [1 \<mapsto> 0, 33 \<mapsto> 1]"
    using two_users_server by metis
  have len: "length (rs_workers s) = 2" by (simp add: s(1) two_users_def)
  then have "\<forall>q \<in> ran (registered (rs_buckets s)). q < length (rs_workers s)" by (auto simp: s(3))
  from connection_cleaned_up [OF s(2) this flag_sync_laws plain_calls_ok plain_worker_stoppable, of None "Some (\<lambda>c u x. (Ok (), x))"] s(3) len
  obtain ys r s' where
    "work flag_sync (Ok plain_worker) (\<lambda>w. (Ok (), w)) None (\<lambda>w. (Fail io_EOF, w)) (Some (\<lambda>c u x. (Ok (), x))) s =
       Some ([EStart, EPut] @ ys @ [EDel, EStop, EAfterDisconnect], r, s')"
    "torn_down flag_sync (rs_workers s' ! 2)" "\<forall>k. k \<noteq> w_id plain_worker \<longrightarrow> registered (rs_buckets s') k = registered (rs_buckets s) k"
    by auto
  moreover have "w_id plain_worker \<noteq> 33" by (simp add: plain_worker_def)
  ultimately show ?thesis using s(3) by fastforce
qed


section \<open>The result of a connection\<close>

text \<open>
  C36: The error of a connection is replaced. When the server has a function to call after
  disconnecting and neither the start, the run nor the function after connecting panics, the
  result of serving a connection is exactly what that function returns for the color and the user
  of the worker, be it success, an error or a panic: a failed handshake, a failed function after
  connecting and a failed run never show in it. The function is called last, also when the
  handshake failed.
\<close>

theorem connection_error_lost:
  assumes "buckets_ok (rs_WID s) (rs_buckets s)" and "\<forall>q \<in> ran (registered (rs_buckets s)). q < length (rs_workers s)"
    and "sync_laws S" and "call_ok S start" and "call_ok S run" and "fst (DoStop S (w_stopper w))" and "stop_may_end w"
    and "\<And>v. \<not> is_panic (fst (start v))" and "\<And>v. \<not> is_panic (fst (run v))"
    and "\<And>f c u x. acf = Some f \<Longrightarrow> \<not> is_panic (fst (f c u x))"
  shows "\<exists>evs x s'. let w' = rs_workers s' ! length (rs_workers s) in
    work S (Ok w) start acf run (Some g) s = Some (evs @ [EAfterDisconnect], fst (g (w_Color w') (w_UID w') x), s') \<and>
    rs_ext s' = snd (g (w_Color w') (w_UID w') x)"
proof -
  let ?p = "length (rs_workers s)"
  let ?s0 = "s\<lparr>rs_workers := rs_workers s @ [w]\<rparr>"
  have m0: "mid_conn S s w ?s0" using mid_conn_start assms(1,2,6,7) by blast
  from work_body_ok [OF m0 assms(3-5), of acf] obtain mid r d s1 where
    b: "work_body S ?p start acf run ?s0 = (EStart # mid, r, d, s1)" "mid_conn S s w s1"
      "if fst (start w) = Ok () then d \<and> (\<exists>ys. mid = EPut # ys \<and> set ys \<subseteq> {EAfterConnect, ERun})
       else \<not> d \<and> mid = [] \<and> rs_buckets s1 = rs_buckets s"
    by auto
  have np: "\<not> is_panic r"
    by (rule work_body_no_panic [OF m0 assms(3-5) _ _ _ b(1)]) (fact assms(8), fact assms(9), fact assms(10))
  have "d \<or> ?p \<notin> ran (registered (rs_buckets s1))"
    using b(3) assms(2) by (auto split: if_splits)
  from work_del_ok [OF b(2) this] obtain s2 where
    c: "work_del ?p d s1 = (if d then [EDel] else [], Ok (), s2)" "mid_conn S s w s2" by blast
  from work_end_ok [OF c(2) assms(3), of r "Some g"] obtain r1 s3 where
    e: "work_end S ?p r (Some g) s2 = Some ([EStop, EAfterDisconnect], r1, s3)" by auto
  from work_end_result [OF e np] obtain x where
    x: "r1 = fst (g (w_Color (rs_workers s3 ! ?p)) (w_UID (rs_workers s3 ! ?p)) x)"
      "rs_ext s3 = snd (g (w_Color (rs_workers s3 ! ?p)) (w_UID (rs_workers s3 ! ?p)) x)" by blast
  have "work S (Ok w) start acf run (Some g) s = Some ((EStart # mid @ (if d then [EDel] else []) @ [EStop]) @ [EAfterDisconnect], r1, s3)"
    by (simp add: work_def b(1) c(1) e Let_def)
  with x show ?thesis unfolding Let_def by blast
qed

text \<open>A handshake that fails at the end of the stream is reported as success, and with a function that
  fails, as the error of that function.\<close>

theorem connection_error_lost_witness:
  "\<exists>(s :: (unit, bool \<times> bool, int64, unit) running) evs s' evs1 s1.
     work flag_sync (Ok plain_worker) (\<lambda>w. (Fail io_EOF, w)) None (\<lambda>w. (Fail io_EOF, w)) (Some (\<lambda>c u x. (Ok (), x))) s =
       Some (evs @ [EAfterDisconnect], Ok (), s') \<and>
     work flag_sync (Ok plain_worker) (\<lambda>w. (Fail io_EOF, w)) None (\<lambda>w. (Fail io_EOF, w)) (Some (\<lambda>c u x. (Fail ErrTunnelStopped, x))) s =
       Some (evs1 @ [EAfterDisconnect], Fail ErrTunnelStopped, s1)"
proof -
  obtain s :: "(unit, bool \<times> bool, int64, unit) running" where
    s: "rs_workers s = two_users" "buckets_ok (rs_WID s) (rs_buckets s)" "registered (rs_buckets s) = [1 \<mapsto> 0, 33 \<mapsto> 1]"
    using two_users_server by metis
  have "\<forall>q \<in> ran (registered (rs_buckets s)). q < length (rs_workers s)"
    by (auto simp: s(1,3) two_users_def)
  note lost = connection_error_lost [OF s(2) this flag_sync_laws plain_calls_ok(2,2) plain_worker_stoppable, of None]
  from lost [of "\<lambda>c u x. (Ok (), x)"] lost [of "\<lambda>c u x. (Fail ErrTunnelStopped, x)"]
  show ?thesis by (auto simp: Let_def)
qed


section \<open>Worker ids\<close>

text \<open>Worker ids from the shared counter.\<close>

fun accepts :: "gerr option list \<Rightarrow> uint64 \<Rightarrow> uint64 list" where
  "accepts [] i = []"
| "accepts (a # as) i = (case accept a i of (Ok wid, i1) \<Rightarrow> wid # accepts as i1 | (_, i1) \<Rightarrow> accepts as i1)"

lemma accepts_upto: "\<exists>n. n \<le> length as \<and> accepts as i = map (\<lambda>k. i + 1 + of_nat k) [0..<n]"
proof (induction as arbitrary: i)
  case (Cons a as)
  show ?case
  proof (cases a)
    case None
    from Cons [of "i + 1"] obtain n where n: "n \<le> length as" "accepts as (i + 1) = map (\<lambda>k. i + 1 + 1 + of_nat k) [0..<n]" by blast
    have "map (\<lambda>k. i + 1 + of_nat k) [0..<Suc n] = (i + 1) # map (\<lambda>k. i + 1 + of_nat (Suc k)) [0..<n]"
      by (simp add: map_upt_Suc del: upt_Suc)
    with n None show ?thesis
      by (intro exI [of _ "Suc n"]) (simp add: accept_def ac_simps del: upt_Suc)
  next
    case (Some e)
    from Cons [of i] Some show ?thesis by (auto simp: accept_def intro: le_SucI)
  qed
qed simp

text \<open>
  No two connections get the same worker id. Over any sequence of accepted and failed
  connections of a server, up to 2 ^ 64 of them, the worker ids handed out are pairwise different.
\<close>

theorem worker_ids_unique:
  assumes "length as \<le> 2 ^ 64"
  shows "distinct (accepts as i)"
proof -
  obtain n where n: "n \<le> length as" "accepts as i = map (\<lambda>k. i + 1 + of_nat k) [0..<n]"
    using accepts_upto by blast
  have "inj_on (\<lambda>k. of_nat k :: uint64) {0..<n}"
    using n(1) assms by (intro inj_onI) (auto simp: word_of_nat_eq_iff take_bit_nat_eq_self)
  then have "inj_on (\<lambda>k. i + 1 + of_nat k) {0..<n}"
    by (simp add: inj_on_def)
  then show ?thesis
    unfolding n(2) by (simp add: distinct_map)
qed

theorem worker_ids_unique_witness: "distinct (accepts [None, Some io_EOF, None] 0) \<and> accepts [None, Some io_EOF, None] 0 = [1, 2]"
  using worker_ids_unique [of "[None, Some io_EOF, None]" 0] by (simp add: accept_def)



section \<open>The registry and the workers fit together\<close>

text \<open>The state of a running server is well formed: the registry is, and every entry leads to a
  worker of the server that has the id it is registered under.\<close>

definition server_wf :: "('b, 'st, 'cd, 'x) running \<Rightarrow> bool" where
  "server_wf s \<longleftrightarrow> buckets_ok (rs_WID s) (rs_buckets s) \<and> (\<forall>q \<in> ran (registered (rs_buckets s)). q < length (rs_workers s))"

definition same_ids :: "('b, 'st, 'cd, 'x) running \<Rightarrow> ('b, 'st, 'cd, 'x) running \<Rightarrow> bool" where
  "same_ids s s1 \<longleftrightarrow> map w_id (rs_workers s1) = map w_id (rs_workers s) \<and> rs_buckets s1 = rs_buckets s"

lemma same_ids_refl [simp]: "same_ids s s" and same_ids_trans: "same_ids s s1 \<Longrightarrow> same_ids s1 s2 \<Longrightarrow> same_ids s s2"
  by (simp_all add: same_ids_def)

lemma same_ids_wf:
  assumes "same_ids s s1" and "server_wf s"
  shows "server_wf s1"
proof -
  have len: "length (rs_workers s1) = length (rs_workers s)" using assms(1) unfolding same_ids_def by (metis length_map)
  have "rs_WID s1 q = rs_WID s q" if "q \<in> ran (registered (rs_buckets s))" for q
    using rs_WID_ids [of s1 s q] that assms len by (simp add: same_ids_def server_wf_def)
  then have "buckets_ok (rs_WID s1) (rs_buckets s)"
    using assms(2) by (auto simp: server_wf_def intro: buckets_ok_cong)
  then show ?thesis using assms len by (simp add: server_wf_def same_ids_def)
qed

lemma set_worker_ids: "w_id w = w_id (rs_workers s ! p) \<Longrightarrow> same_ids s (set_worker p w s)"
  by (simp add: same_ids_def set_worker_def ids_update)

lemma wk_Push_id: "wk_Push S pack w = Some (r, w1) \<Longrightarrow> w_id w1 = w_id w"
  by (auto elim: wk_Push_cases)

lemma trigger_same: "same_ids s (trigger_worker S p s)"
  by (simp add: trigger_worker_def set_worker_ids)

text \<open>The calls the rest of the program makes on a running server.\<close>

datatype ('b, 'st, 'cd, 'x) server_call =
    CPush int64 bytes | CPushGroup "int64 list" bytes | CBroadcast bytes | CDisconnect uint64 | CStop
  | CWork "('b, 'st, 'cd) worker res" "('b, 'st, 'cd) worker_call" "'x wrap_func option" "('b, 'st, 'cd) worker_call" "'x wrap_func option"

fun do_call :: "('st, 'cd) sync_ops \<Rightarrow> ('b, 'st, 'cd, 'x) server_call \<Rightarrow> ('b, 'st, 'cd, 'x) running \<Rightarrow>
    ('b, 'st, 'cd, 'x) running option" where
  "do_call S (CPush uid pack) s = map_option snd (server_Push S uid pack s)"
| "do_call S (CPushGroup uids pack) s = map_option snd (PushGroup S uids pack s)"
| "do_call S (CBroadcast pack) s = map_option snd (Broadcast S pack s)"
| "do_call S (CDisconnect wid) s = Some (snd (Disconnect S wid s))"
| "do_call S CStop s = Some (server_stop S s)"
| "do_call S (CWork nw start acf run adf) s = map_option (\<lambda>(evs, r, s1). s1) (work S nw start acf run adf s)"

fun call_fits :: "('st, 'cd) sync_ops \<Rightarrow> ('b, 'st, 'cd, 'x) server_call \<Rightarrow> bool" where
  "call_fits S (CWork nw start acf run adf) \<longleftrightarrow> call_ok S start \<and> call_ok S run \<and>
     (case nw of Ok w \<Rightarrow> fst (DoStop S (w_stopper w)) \<and> stop_may_end w | _ \<Rightarrow> True)"
| "call_fits S _ \<longleftrightarrow> True"

text \<open>
  What such a call does to the server, apart from serving a connection: it pushes to workers,
  triggers their stop or changes the stopper of the server. A relation between the states of a
  server that contains these and is reflexive and transitive contains every such call.
\<close>

locale server_relation =
  fixes S :: "('st, 'cd) sync_ops" and R :: "('b, 'st, 'cd, 'x) running \<Rightarrow> ('b, 'st, 'cd, 'x) running \<Rightarrow> bool"
  assumes R_refl: "R s s" and R_trans: "R s t \<Longrightarrow> R t u \<Longrightarrow> R s u"
    and R_push: "wk_Push S pack (rs_workers s ! p) = Some (r, w) \<Longrightarrow> R s (set_worker p w s)"
    and R_trigger: "R s (trigger_worker S p s)" and R_stopper: "R s (s\<lparr>rs_stopper := st\<rparr>)"
begin

lemma R_push_one: "push_one S pack po st = Some (r1, s1) \<Longrightarrow> \<exists>r s. st = Some (r, s) \<and> R s s1"
  by (auto simp: push_one_def intro: R_push R_refl split: option.splits res.splits if_splits prod.splits)

lemma R_fold_push:
  "fold (push_one S pack) ps st = Some (r1, s1) \<Longrightarrow> \<exists>r s. st = Some (r, s) \<and> R s s1"
proof (induction ps arbitrary: st)
  case (Cons p ps)
  from Cons.IH [of "push_one S pack p st"] Cons.prems obtain r s where
    "push_one S pack p st = Some (r, s)" "R s s1" by auto
  with R_push_one [of pack p st r s] show ?case using R_trans by blast
qed (simp add: R_refl)

lemma R_fold_trigger: "R s (fold (trigger_worker S) ps s)"
  by (induction ps arbitrary: s) (auto intro: R_refl R_trans R_trigger)

lemma R_call:
  assumes "do_call S c s = Some s'" and "\<And>nw start acf run adf. c \<noteq> CWork nw start acf run adf"
  shows "R s s'"
proof (cases c)
  case (CPush uid pack)
  with assms(1) show ?thesis
    by (auto simp: server_Push_def intro: R_push R_refl split: if_splits res.splits option.splits)
next
  case (CPushGroup uids pack)
  then obtain r where "PushGroup S uids pack s = Some (r, s')" using assms(1) by auto
  then consider "s' = s" | ws where "fold (push_one S pack) ws (Some (Ok (), s)) = Some (r, s')"
    by (auto simp: PushGroup_def split: if_splits res.splits)
  then show ?thesis
  proof cases
    case (2 ws)
    then show ?thesis using R_fold_push [of pack ws "Some (Ok (), s)" r s'] by simp
  qed (simp add: R_refl)
next
  case (CBroadcast pack)
  then obtain r where "Broadcast S pack s = Some (r, s')" using assms(1) by auto
  then show ?thesis
    using Walk_all [of "\<lambda>p st. (True, push_one S pack (Some p) st)" "rs_buckets s" "Some (Ok (), s)"]
      R_fold_push [of pack "map Some (all_workers (rs_buckets s))" "Some (Ok (), s)" r s'] R_refl
    by (auto simp: Broadcast_def fold_map comp_def split: if_splits)
next
  case (CDisconnect wid)
  with assms(1) show ?thesis by (auto simp: Disconnect_def R_trigger R_refl split: res.splits option.splits)
next
  case CStop
  obtain go st where st: "DoStop S (rs_stopper s) = (go, st)" by (metis prod.collapse)
  let ?s1 = "s\<lparr>rs_stopper := st\<rparr>"
  have "R ?s1 (Walk (\<lambda>p s. (True, trigger_worker S p s)) (rs_buckets ?s1) ?s1)"
    using Walk_all [of "\<lambda>p s. (True, trigger_worker S p s)" "rs_buckets ?s1" ?s1] R_fold_trigger [of ?s1] by simp
  moreover have "s' = (if go then Walk (\<lambda>p s. (True, trigger_worker S p s)) (rs_buckets ?s1) ?s1 else ?s1)"
    using CStop assms(1) st by (simp add: server_stop_def Let_def)
  ultimately show ?thesis using R_trans [OF R_stopper] R_stopper by (cases go) auto
qed (use assms(2) in auto)

end

interpretation ids: server_relation S same_ids for S
  by unfold_locales
    (auto intro: same_ids_trans set_worker_ids wk_Push_id trigger_same, simp add: same_ids_def)

lemma work_wf:
  assumes "server_wf s" and "sync_laws S" and "call_fits S (CWork nw start acf run adf)"
    and "work S nw start acf run adf s = Some (evs, r, s')"
  shows "server_wf s'"
proof (cases nw)
  case (Ok w)
  let ?p = "length (rs_workers s)"
  let ?s0 = "s\<lparr>rs_workers := rs_workers s @ [w]\<rparr>"
  have m0: "mid_conn S s w ?s0" using mid_conn_start assms(1,3) Ok by (auto simp: server_wf_def)
  have ok: "call_ok S start" "call_ok S run" using assms(3) by simp_all
  from work_body_ok [OF m0 assms(2) ok, of acf] obtain mid r1 d s1 where
    b: "work_body S ?p start acf run ?s0 = (EStart # mid, r1, d, s1)" "mid_conn S s w s1"
      "d \<or> rs_buckets s1 = rs_buckets s"
    by (auto split: if_splits)
  have "d \<or> ?p \<notin> ran (registered (rs_buckets s1))" using b(3) assms(1) by (auto simp: server_wf_def)
  from work_del_ok [OF b(2) this] obtain s2 where
    c: "work_del ?p d s1 = (if d then [EDel] else [], Ok (), s2)" "mid_conn S s w s2" by blast
  from work_end_ok [OF c(2) assms(2), of r1 adf] obtain r2 s3 where
    e: "work_end S ?p r1 adf s2 = Some (EStop # (if adf = None then [] else [EAfterDisconnect]), r2, s3)" "same_ids s2 s3"
    by (auto simp: same_ids_def)
  have "s' = s3" using assms(4) by (simp add: work_def Ok b(1) c(1) e(1) Let_def)
  moreover have "server_wf s2"
    using c(2) mid_conn_length [OF c(2)] by (auto simp: server_wf_def mid_conn_def less_Suc_eq_le)
  ultimately show ?thesis using same_ids_wf e(2) by blast
qed (use assms in \<open>simp_all add: work_def\<close>)

text \<open>
  C12: The state of the server stays well formed. Every call on a running server, pushing to a
  user, a group or everyone, disconnecting, stopping, or serving another connection from start to
  end, whatever it returns, keeps the registry well formed and every registered pointer leading to
  a worker with the id it is registered under.
\<close>

theorem server_wf_preserved:
  assumes "server_wf s" and "sync_laws S" and "call_fits S c" and "do_call S c s = Some s'"
  shows "server_wf s'"
proof (cases c)
  case (CWork nw start acf run adf)
  then show ?thesis using assms work_wf [of s S nw start acf run adf] by auto
qed (use ids.R_call [OF assms(4)] assms(1) same_ids_wf in auto)

theorem server_wf_preserved_witness:
  "\<exists>(s :: (unit, bool \<times> bool, int64, unit) running) s'. do_call flag_sync (CDisconnect 33) s = Some s' \<and> server_wf s' \<and>
     registered (rs_buckets s') 33 = Some 1"
proof -
  obtain s :: "(unit, bool \<times> bool, int64, unit) running" where
    s: "rs_workers s = two_users" "buckets_ok (rs_WID s) (rs_buckets s)" "registered (rs_buckets s) = [1 \<mapsto> 0, 33 \<mapsto> 1]"
    using two_users_server by metis
  have wf: "server_wf s" using s by (auto simp: server_wf_def two_users_def)
  let ?c = "CDisconnect 33 :: (unit, bool \<times> bool, int64, unit) server_call"
  let ?s' = "snd (Disconnect flag_sync 33 s)"
  have d: "do_call flag_sync ?c s = Some ?s'" by simp
  then have "server_wf ?s'" using server_wf_preserved [OF wf flag_sync_laws _ d] by simp
  moreover have "registered (rs_buckets ?s') 33 = Some 1"
    using ids.R_call [OF d] s(3) by (simp add: same_ids_def)
  ultimately show ?thesis using d by blast
qed

end
