(* ===== verification/Server_Run.thy ===== *)
theory Server_Run
  imports Connection
begin

text \<open>
  A server with any number of connections at the same time
  (\<^verbatim>\<open>pkg/net/tcp/server/server.go\<close>: \<^verbatim>\<open>accept\<close>, \<^verbatim>\<open>work\<close>). \<open>Connection\<close> follows one connection from
  its start to its end; here every connection has a goroutine of its own, whose position in
  \<^verbatim>\<open>work\<close> is its phase, and the steps of all of them, the goroutines inside \<^verbatim>\<open>Run\<close> and the calls of
  the rest of the program (push, broadcast, disconnect, stop) are interleaved.

  A step is a call made by \<^verbatim>\<open>work\<close>. The operations of the registry take its locks, and a worker that
  is not registered is reached by its own goroutine only.
\<close>

section \<open>Phases of a connection\<close>

text \<open>What \<^verbatim>\<open>work\<close> does next: \<open>Accepted\<close> start the worker, \<open>Started\<close> register it, \<open>Registered\<close> call the
  function after connecting, \<open>Serving\<close> run (with the state of its goroutines), \<open>Removing\<close> the
  deferred removal, \<open>Stopping\<close> stop the worker, \<open>Waiting\<close> for its writing loop, \<open>Disconnecting\<close> call
  the function after disconnecting. The result of the body and the error with its context are
  carried along.\<close>

datatype ('b, 'st, 'cd) phase =
    Accepted | Started | Registered | Serving "('b, 'st, 'cd) run" | Removing "unit res" | Stopping "unit res"
  | Waiting "unit res" "unit res" | Disconnecting "unit res" "unit res" | Ended "unit res"

fun on_registry :: "('b, 'st, 'cd) phase \<Rightarrow> bool" where
  "on_registry Registered = True"
| "on_registry (Serving _) = True"
| "on_registry (Removing _) = True"
| "on_registry _ = False"

text \<open>The connections are numbered like their workers.\<close>

record ('b, 'st, 'cd, 'x) srv =
  sv_run :: "('b, 'st, 'cd, 'x) running"
  sv_idGen :: uint64
  sv_conns :: "('b, 'st, 'cd) phase list"

definition sv_start :: "buckets \<Rightarrow> 'st \<Rightarrow> 'x \<Rightarrow> ('b, 'st, 'cd, 'x) srv" where
  "sv_start bs st x = \<lparr>sv_run = \<lparr>rs_buckets = bs, rs_workers = [], rs_stopper = st, rs_ext = x\<rparr>, sv_idGen = 0, sv_conns = []\<rparr>"

definition sv_to :: "nat \<Rightarrow> ('b, 'st, 'cd) phase \<Rightarrow> ('b, 'st, 'cd, 'x) running \<Rightarrow> ('b, 'st, 'cd, 'x) srv \<Rightarrow> ('b, 'st, 'cd, 'x) srv" where
  "sv_to p ph rn s = s\<lparr>sv_run := rn, sv_conns := (sv_conns s)[p := ph]\<rparr>"

text \<open>Connection \<open>p\<close> is about to do what phase \<open>ph\<close> says.\<close>

definition at_phase :: "('b, 'st, 'cd, 'x) srv \<Rightarrow> nat \<Rightarrow> ('b, 'st, 'cd) phase \<Rightarrow> bool" where
  "at_phase s p ph \<longleftrightarrow> p < length (sv_conns s) \<and> sv_conns s ! p = ph"

definition reading_ok :: "(('b, 'st, 'cd) worker \<Rightarrow> (unit res \<times> ('b, 'st, 'cd) worker) option) \<Rightarrow> bool" where
  "reading_ok rp \<longleftrightarrow> (\<forall>v r v'. rp v = Some (r, v') \<longrightarrow> same_worker v v')"

definition is_work :: "('b, 'st, 'cd, 'x) server_call \<Rightarrow> bool" where
  "is_work c \<longleftrightarrow> (case c of CWork _ _ _ _ _ \<Rightarrow> True | _ \<Rightarrow> False)"

section \<open>Steps\<close>

inductive sv_step :: "('st, 'cd) sync_ops \<Rightarrow> 'x wrap_func option \<Rightarrow> 'x wrap_func option \<Rightarrow>
    ('b, 'st, 'cd, 'x) srv \<Rightarrow> ('b, 'st, 'cd, 'x) srv \<Rightarrow> bool" for S acf adf where
  accepted: "accept None (sv_idGen s) = (Ok wid, i) \<Longrightarrow> NewWorker S wid remote cfg referer pk pm rm ch input m = Ok w \<Longrightarrow>
    sv_step S acf adf s (s\<lparr>sv_run := (sv_run s)\<lparr>rs_workers := rs_workers (sv_run s) @ [w]\<rparr>, sv_idGen := i,
      sv_conns := sv_conns s @ [Accepted]\<rparr>)"
| accept_lost: "accept None (sv_idGen s) = (Ok wid, i) \<Longrightarrow> sv_step S acf adf s (s\<lparr>sv_idGen := i\<rparr>)"
| started: "at_phase s p Accepted \<Longrightarrow> on_worker (wk_Start E D wr auth onc dl1 dl2 ch1 ch2) p (sv_run s) = (r, rn) \<Longrightarrow>
    sv_step S acf adf s (sv_to p (if r = Ok () then Started else Stopping r) rn s)"
| put: "at_phase s p Started \<Longrightarrow> putBucket S p (sv_run s) = (r, rn) \<Longrightarrow>
    sv_step S acf adf s (sv_to p (if r = Ok () then Registered else Stopping r) rn s)"
| connected: "at_phase s p Registered \<Longrightarrow> after_connect acf p (sv_run s) = (evs, r, rn) \<Longrightarrow>
    sv_step S acf adf s (sv_to p (if r = Ok () then Serving (run_start (rs_workers rn ! p)) else Removing r) rn s)"
| serving: "at_phase s p (Serving g) \<Longrightarrow> reading_ok rp \<Longrightarrow>
    run_step S E wr flt rp (g\<lparr>r_worker := rs_workers (sv_run s) ! p\<rparr>) g' \<Longrightarrow>
    sv_step S acf adf s (sv_to p (Serving g') (set_worker p (r_worker g') (sv_run s)) s)"
| served: "at_phase s p (Serving g) \<Longrightarrow> run_finished g \<Longrightarrow>
    sv_step S acf adf s (sv_to p (Removing (run_result (g\<lparr>r_worker := rs_workers (sv_run s) ! p\<rparr>))) (sv_run s) s)"
| removed: "at_phase s p (Removing r) \<Longrightarrow> work_del p True (sv_run s) = (evs, d, rn) \<Longrightarrow>
    sv_step S acf adf s (sv_to p (Stopping (if is_panic d then d else r)) rn s)"
| stopping: "at_phase s p (Stopping r) \<Longrightarrow> stop_begin S (rs_workers (sv_run s) ! p) = (go, w) \<Longrightarrow>
    sv_step S acf adf s (sv_to p (if go then Waiting r (work_err p (sv_run s) r) else Disconnecting r (work_err p (sv_run s) r))
      (set_worker p w (sv_run s)) s)"
| stopped: "at_phase s p (Waiting r err) \<Longrightarrow> stop_may_end (rs_workers (sv_run s) ! p) \<Longrightarrow>
    sv_step S acf adf s (sv_to p (Disconnecting r err) (set_worker p (stop_end S (rs_workers (sv_run s) ! p)) (sv_run s)) s)"
| ended: "at_phase s p (Disconnecting r err) \<Longrightarrow> adf = None \<Longrightarrow> sv_step S acf adf s (sv_to p (Ended err) (sv_run s) s)"
| disconnected: "at_phase s p (Disconnecting r err) \<Longrightarrow> adf = Some f \<Longrightarrow> call_wrap f p (sv_run s) = (d, rn) \<Longrightarrow>
    sv_step S acf adf s (sv_to p (Ended (keep_panic r d)) rn s)"
| called: "\<not> is_work c \<Longrightarrow> do_call S c (sv_run s) = Some rn \<Longrightarrow> sv_step S acf adf s (s\<lparr>sv_run := rn\<rparr>)"


section \<open>What the calls of others leave alone\<close>

definition wkept :: "('st, 'cd) sync_ops \<Rightarrow> ('b, 'st, 'cd) worker \<Rightarrow> ('b, 'st, 'cd) worker \<Rightarrow> bool" where
  "wkept S w w' \<longleftrightarrow> (\<exists>n q. w' = w\<lparr>w_stopper := (TriggerStop S ^^ n) (w_stopper w), replyChan := q\<rparr>)"

definition kept :: "('st, 'cd) sync_ops \<Rightarrow> ('b, 'st, 'cd, 'x) running \<Rightarrow> ('b, 'st, 'cd, 'x) running \<Rightarrow> bool" where
  "kept S s s' \<longleftrightarrow> list_all2 (wkept S) (rs_workers s) (rs_workers s') \<and> rs_buckets s' = rs_buckets s"

lemma wkept_refl [simp]: "wkept S w w"
  unfolding wkept_def by (intro exI [of _ 0] exI [of _ "replyChan w"]) simp

lemma wkept_trans: "wkept S u v \<Longrightarrow> wkept S v w \<Longrightarrow> wkept S u w"
  unfolding wkept_def by (fastforce simp: funpow_add [THEN fun_cong, unfolded o_def, symmetric])

lemma wkept_set: "wkept S (rs_workers s ! p) w \<Longrightarrow> kept S s (set_worker p w s)"
  by (cases "p < length (rs_workers s)")
    (auto simp: kept_def set_worker_def list_all2_conv_all_nth nth_list_update list_update_beyond)

lemma wkept_push: "wk_Push S pk w = Some (r, w') \<Longrightarrow> wkept S w w'"
proof (erule wk_Push_cases)
  assume "w' = w\<lparr>replyChan := replyChan w @ [pk]\<rparr>"
  then show "wkept S w w'"
    unfolding wkept_def by (intro exI [of _ 0] exI [of _ "replyChan w @ [pk]"]) simp
qed simp_all

lemma kept_refl: "kept S s s"
  by (simp add: kept_def list.rel_refl)

lemma kept_trans: "kept S s t \<Longrightarrow> kept S t u \<Longrightarrow> kept S s u"
  unfolding kept_def list_all2_conv_all_nth by (metis wkept_trans)

lemma kept_trigger: "kept S s (trigger_worker S p s)"
proof -
  have "wkept S (rs_workers s ! p) ((rs_workers s ! p)\<lparr>w_stopper := TriggerStop S (w_stopper (rs_workers s ! p))\<rparr>)"
    unfolding wkept_def by (intro exI [of _ 1] exI [of _ "replyChan (rs_workers s ! p)"]) simp
  then show ?thesis unfolding trigger_worker_def by (rule wkept_set)
qed

lemma kept_push: "wk_Push S pack (rs_workers s ! p) = Some (r, w) \<Longrightarrow> kept S s (set_worker p w s)"
  using wkept_push by (rule wkept_set)

interpretation env: server_relation S "kept S :: ('b, 'st, 'cd, 'x) running \<Rightarrow> ('b, 'st, 'cd, 'x) running \<Rightarrow> bool"
  for S :: "('st, 'cd) sync_ops"
  by (rule server_relation.intro) (fact kept_refl, fact kept_trans, fact kept_push, fact kept_trigger, simp add: kept_def list.rel_refl)

lemma TriggerStop_funpow:
  assumes "sync_laws S"
  shows "fst (DoStop S ((TriggerStop S ^^ n) st)) = fst (DoStop S st)"
    and "IsStopping S st \<Longrightarrow> IsStopping S ((TriggerStop S ^^ n) st)"
  using assms by (induction n) (simp_all add: sync_laws_def)

lemma wkept_facts:
  assumes "wkept S w w'" and "sync_laws S"
  shows "w_id w' = w_id w" and "stop_may_end w' = stop_may_end w" and "replyChanCompleted w' = replyChanCompleted w"
    and "fst (DoStop S (w_stopper w')) = fst (DoStop S (w_stopper w))"
    and "IsStopping S (w_stopper w) \<Longrightarrow> IsStopping S (w_stopper w')"
    and "torn_down S w \<Longrightarrow> torn_down S w'"
proof -
  obtain n q where w': "w' = w\<lparr>w_stopper := (TriggerStop S ^^ n) (w_stopper w), replyChan := q\<rparr>"
    using assms(1) unfolding wkept_def by blast
  note T = TriggerStop_funpow [OF assms(2), where n = n and st = "w_stopper w"]
  show "w_id w' = w_id w" "stop_may_end w' = stop_may_end w" "replyChanCompleted w' = replyChanCompleted w"
    "fst (DoStop S (w_stopper w')) = fst (DoStop S (w_stopper w))"
    "IsStopping S (w_stopper w) \<Longrightarrow> IsStopping S (w_stopper w')" "torn_down S w \<Longrightarrow> torn_down S w'"
    using T unfolding w' by (simp_all add: stop_may_end_def torn_down_def)
qed


section \<open>The invariant\<close>

text \<open>The worker of a connection in each phase: not stopped before \<open>Stopping\<close>, no writing loop left
  behind when \<^verbatim>\<open>Run\<close> has returned, torn down in the end.\<close>

fun phase_ok :: "('st, 'cd) sync_ops \<Rightarrow> ('b, 'st, 'cd) worker \<Rightarrow> ('b, 'st, 'cd) phase \<Rightarrow> bool" where
  "phase_ok S w (Serving g) \<longleftrightarrow> fst (DoStop S (w_stopper w)) \<and> (r_write g = Running \<or> replyChanCompleted w)"
| "phase_ok S w (Waiting _ _) \<longleftrightarrow> IsStopping S (w_stopper w) \<and> \<not> fst (DoStop S (w_stopper w)) \<and> stop_may_end w"
| "phase_ok S w (Disconnecting _ _) \<longleftrightarrow> torn_down S w"
| "phase_ok S w (Ended _) \<longleftrightarrow> torn_down S w"
| "phase_ok S w _ \<longleftrightarrow> fst (DoStop S (w_stopper w)) \<and> stop_may_end w"

text \<open>The ids of the workers come from the counter, which has been drawn from at most \<open>n\<close> times.\<close>

definition ids_drawn :: "nat \<Rightarrow> uint64 \<Rightarrow> ('b, 'st, 'cd) worker list \<Rightarrow> bool" where
  "ids_drawn n i ws \<longleftrightarrow> (\<exists>ks c. map w_id ws = map of_nat ks \<and> distinct ks \<and> (\<forall>k \<in> set ks. k \<le> c) \<and> i = of_nat c \<and> c \<le> n)"

definition sv_inv :: "('st, 'cd) sync_ops \<Rightarrow> nat \<Rightarrow> ('b, 'st, 'cd, 'x) srv \<Rightarrow> bool" where
  "sv_inv S n s \<longleftrightarrow>
     length (sv_conns s) = length (rs_workers (sv_run s)) \<and> ids_drawn n (sv_idGen s) (rs_workers (sv_run s)) \<and>
     buckets_ok (rs_WID (sv_run s)) (rs_buckets (sv_run s)) \<and>
     (\<forall>k p. registered (rs_buckets (sv_run s)) k = Some p \<longleftrightarrow>
        p < length (sv_conns s) \<and> on_registry (sv_conns s ! p) \<and> k = rs_WID (sv_run s) p) \<and>
     (\<forall>p < length (sv_conns s). phase_ok S (rs_workers (sv_run s) ! p) (sv_conns s ! p))"

lemma ids_drawn_distinct:
  assumes "ids_drawn n i ws" and "n < 2 ^ 64"
  shows "distinct (map w_id ws)"
proof -
  obtain ks c where k: "map w_id ws = map of_nat ks" "distinct ks" "\<forall>k \<in> set ks. k \<le> c" "c \<le> n"
    using assms(1) unfolding ids_drawn_def by blast
  have "k < 2 ^ 64" if "k \<in> set ks" for k using k(3,4) assms(2) that by force
  then have "inj_on (of_nat :: nat \<Rightarrow> uint64) (set ks)"
    by (intro inj_onI) (simp add: word_of_nat_eq_iff take_bit_nat_eq_self)
  then show ?thesis unfolding k(1) using k(2) by (simp add: distinct_map)
qed

lemma ids_drawn_accept:
  assumes "ids_drawn n i ws" and "w_id w = i + 1"
  shows "ids_drawn (Suc n) (i + 1) (ws @ [w])"
proof -
  obtain ks c where k: "map w_id ws = map of_nat ks" "distinct ks" "\<forall>k \<in> set ks. k \<le> c" "i = of_nat c" "c \<le> n"
    using assms(1) unfolding ids_drawn_def by blast
  show ?thesis
    unfolding ids_drawn_def
    by (intro exI [of _ "ks @ [Suc c]"] exI [of _ "Suc c"]) (use k assms(2) in \<open>auto simp: le_Suc_eq\<close>)
qed

lemma ids_drawn_lost: "ids_drawn n i ws \<Longrightarrow> ids_drawn (Suc n) (i + 1) ws"
  unfolding ids_drawn_def by (metis Suc_le_mono add.commute le_SucI of_nat_Suc)

lemma ids_drawn_same: "ids_drawn n i ws \<Longrightarrow> map w_id ws' = map w_id ws \<Longrightarrow> ids_drawn (Suc n) i ws'"
  unfolding ids_drawn_def by (metis le_SucI)

text \<open>A step of connection \<open>p\<close> that changes its worker, but neither an id nor the registry.\<close>

lemma sv_inv_move:
  assumes inv: "sv_inv S n s" and p: "at_phase s p ph" and b: "rs_buckets rn = rs_buckets (sv_run s)"
    and ws: "rs_workers rn = (rs_workers (sv_run s))[p := w]" and id: "w_id w = w_id (rs_workers (sv_run s) ! p)"
    and reg: "on_registry ph' = on_registry ph" and ok: "phase_ok S w ph'"
  shows "sv_inv S (Suc n) (sv_to p ph' rn s)"
proof -
  let ?ws = "rs_workers (sv_run s)"
  have ids: "map w_id (rs_workers rn) = map w_id ?ws" using id by (simp add: ws ids_update)
  have len: "p < length (sv_conns s)" "sv_conns s ! p = ph" "length (sv_conns s) = length ?ws"
    using inv p by (simp_all add: at_phase_def sv_inv_def)
  have wid: "rs_WID rn q = rs_WID (sv_run s) q" if "q < length ?ws" for q
    using rs_WID_ids [OF ids, of q] that by (simp add: ws)
  have ran: "q < length ?ws" if "q \<in> ran (registered (rs_buckets (sv_run s)))" for q
    using inv that len(3) by (auto simp: sv_inv_def ran_def)
  have "buckets_ok (rs_WID rn) (rs_buckets rn)"
    unfolding b by (rule buckets_ok_cong [of "rs_WID (sv_run s)"]) (use inv wid ran in \<open>auto simp: sv_inv_def\<close>)
  moreover have "registered (rs_buckets rn) k = Some q \<longleftrightarrow>
      q < length (sv_conns s) \<and> on_registry ((sv_conns s)[p := ph'] ! q) \<and> k = rs_WID rn q" for k q
    using inv wid [of q] len reg by (cases "q = p") (auto simp: sv_inv_def b)
  moreover have "phase_ok S (rs_workers rn ! q) ((sv_conns s)[p := ph'] ! q)" if "q < length (sv_conns s)" for q
    using inv that ok len by (cases "q = p") (auto simp: sv_inv_def ws)
  ultimately show ?thesis
    using inv ids_drawn_same [OF _ ids] len(3) by (simp add: sv_inv_def sv_to_def ws)
qed

lemma sv_inv_move_set:
  assumes "sv_inv S n s" and "at_phase s p ph" and "w_id w = w_id (rs_workers (sv_run s) ! p)"
    and "on_registry ph' = on_registry ph" and "phase_ok S w ph'"
  shows "sv_inv S (Suc n) (sv_to p ph' (set_worker p w (sv_run s)) s)"
  by (rule sv_inv_move [OF assms(1,2) _ _ assms(3-5)]) (simp_all add: set_worker_def)

lemma sv_inv_move_ext:
  assumes "sv_inv S n s" and "at_phase s p ph" and "on_registry ph' = on_registry ph"
    and "phase_ok S (rs_workers (sv_run s) ! p) ph'"
  shows "sv_inv S (Suc n) (sv_to p ph' ((sv_run s)\<lparr>rs_ext := x\<rparr>) s)" and "sv_inv S (Suc n) (sv_to p ph' (sv_run s) s)"
  by (rule sv_inv_move [OF assms(1,2) _ _ _ assms(3,4)]; simp)+


lemma sv_inv_phase: "sv_inv S n s \<Longrightarrow> at_phase s p ph \<Longrightarrow> phase_ok S (rs_workers (sv_run s) ! p) ph"
  by (auto simp: sv_inv_def at_phase_def)

lemma sv_inv_accepted:
  assumes inv: "sv_inv S n s" and laws: "sync_laws S" and acc: "accept None (sv_idGen s) = (Ok wid, i)"
    and nw: "NewWorker S wid remote cfg referer pk pm rm ch input m = Ok w"
  shows "sv_inv S (Suc n) (s\<lparr>sv_run := (sv_run s)\<lparr>rs_workers := rs_workers (sv_run s) @ [w]\<rparr>, sv_idGen := i,
    sv_conns := sv_conns s @ [Accepted]\<rparr>)"
proof -
  let ?rn = "(sv_run s)\<lparr>rs_workers := rs_workers (sv_run s) @ [w]\<rparr>"
  have w: "w_id w = sv_idGen s + 1" "i = sv_idGen s + 1" "phase_ok S w Accepted"
    using acc nw laws by (auto simp: accept_def NewWorker_def stop_may_end_def sync_laws_def split: if_splits prod.splits res.splits)
  have len: "length (sv_conns s) = length (rs_workers (sv_run s))" using inv by (simp add: sv_inv_def)
  have wid: "rs_WID ?rn q = rs_WID (sv_run s) q" if "q < length (sv_conns s)" for q
    using that len by (simp add: rs_WID_def nth_append)
  have "buckets_ok (rs_WID ?rn) (rs_buckets ?rn)"
    by (rule buckets_ok_cong [of "rs_WID (sv_run s)"]) (use inv wid in \<open>auto simp: sv_inv_def ran_def\<close>)
  moreover have "registered (rs_buckets ?rn) k = Some q \<longleftrightarrow>
      q < length (sv_conns s @ [Accepted]) \<and> on_registry ((sv_conns s @ [Accepted]) ! q) \<and> k = rs_WID ?rn q" for k q
    using inv wid [of q] by (cases "q < length (sv_conns s)") (auto simp: sv_inv_def nth_append)
  moreover have "phase_ok S (rs_workers ?rn ! q) ((sv_conns s @ [Accepted]) ! q)" if "q < length (sv_conns s @ [Accepted])" for q
    using inv that w(3) len by (cases "q < length (sv_conns s)") (auto simp: sv_inv_def nth_append)
  ultimately show ?thesis
    using inv ids_drawn_accept [of n "sv_idGen s" _ w] w(1,2) len by (simp add: sv_inv_def)
qed

lemma sv_inv_started:
  assumes inv: "sv_inv S n s" and p: "at_phase s p Accepted"
    and st: "on_worker (wk_Start E D wr auth onc dl1 dl2 ch1 ch2) p (sv_run s) = (r, rn)"
  shows "sv_inv S (Suc n) (sv_to p (if r = Ok () then Started else Stopping r) rn s)"
proof -
  let ?f = "wk_Start E D wr auth onc dl1 dl2 ch1 ch2" and ?w = "rs_workers (sv_run s) ! p"
  have rn: "rn = set_worker p (snd (?f ?w)) (sv_run s)"
    using st by (auto simp: on_worker_def split: prod.splits)
  have keep: "w_id (snd (?f ?w)) = w_id ?w" "fst (DoStop S (w_stopper (snd (?f ?w)))) = fst (DoStop S (w_stopper ?w))"
    "stop_may_end ?w \<longrightarrow> stop_may_end (snd (?f ?w))"
    using start_call_ok [of S E D wr auth onc dl1 dl2 ch1 ch2] unfolding call_ok_def by blast+
  then have "phase_ok S (snd (?f ?w)) (if r = Ok () then Started else Stopping r)"
    using sv_inv_phase [OF inv p] by simp
  then show ?thesis unfolding rn using keep(1) by (intro sv_inv_move_set [OF inv p]) simp_all
qed

text \<open>The registration: the ids being different, no other worker is replaced.\<close>

lemma sv_inv_put:
  assumes inv: "sv_inv S n s" and p: "at_phase s p Started" and small: "n < 2 ^ 64"
    and put: "putBucket S p (sv_run s) = (r, rn)"
  shows "r = Ok ()" and "sv_inv S (Suc n) (sv_to p Registered rn s)"
proof -
  let ?rn = "sv_run s" and ?k = "rs_WID (sv_run s) p"
  have len: "p < length (sv_conns s)" "sv_conns s ! p = Started" "length (sv_conns s) = length (rs_workers ?rn)"
    using inv p by (simp_all add: at_phase_def sv_inv_def)
  have dist: "distinct (map w_id (rs_workers ?rn))"
    using inv small by (auto simp: sv_inv_def intro: ids_drawn_distinct)
  have reg: "registered (rs_buckets ?rn) k = Some q \<longleftrightarrow>
      q < length (sv_conns s) \<and> on_registry (sv_conns s ! q) \<and> k = rs_WID ?rn q" for k q
    using inv by (simp add: sv_inv_def)
  have same: "q = p" if "q < length (sv_conns s)" "rs_WID ?rn q = ?k" for q
    using that len nth_eq_iff_index_eq [OF dist, of q p] by (simp add: rs_WID_def w_WID_def)
  have none: "registered (rs_buckets ?rn) ?k = None"
  proof (rule ccontr)
    assume "registered (rs_buckets ?rn) ?k \<noteq> None"
    then obtain q where "q < length (sv_conns s)" "on_registry (sv_conns s ! q)" "?k = rs_WID ?rn q" using reg by blast
    then show False using same [of q] len(2) by simp
  qed
  have ok: "buckets_ok (rs_WID ?rn) (rs_buckets ?rn)" using inv by (simp add: sv_inv_def)
  from Put_registered [OF ok, of "rs_UID ?rn" p, unfolded none] obtain bs where
    b: "Put (rs_WID ?rn) (rs_UID ?rn) p (rs_buckets ?rn) = Ok (None, bs)" "buckets_ok (rs_WID ?rn) bs"
      "registered bs = (registered (rs_buckets ?rn))(?k \<mapsto> p)"
    by blast
  have rn: "r = Ok ()" "rn = ?rn\<lparr>rs_buckets := bs\<rparr>" using put b(1) by (simp_all add: putBucket_def)
  have wid: "rs_WID rn = rs_WID ?rn" by (simp add: rn rs_WID_def [abs_def])
  have "registered bs k = Some q \<longleftrightarrow>
      q < length (sv_conns s) \<and> on_registry ((sv_conns s)[p := Registered] ! q) \<and> k = rs_WID ?rn q" for k q
  proof (cases "q = p")
    case True
    then show ?thesis using reg [of k p] len(1,2) by (simp add: b(3))
  next
    case False
    then have "q < length (sv_conns s) \<Longrightarrow> rs_WID ?rn q \<noteq> ?k" using same by blast
    then show ?thesis using False reg [of k q] by (auto simp: b(3))
  qed
  moreover have "phase_ok S (rs_workers ?rn ! q) ((sv_conns s)[p := Registered] ! q)" if "q < length (sv_conns s)" for q
    using inv that sv_inv_phase [OF inv p] len by (cases "q = p") (auto simp: sv_inv_def)
  ultimately show "sv_inv S (Suc n) (sv_to p Registered rn s)"
    using inv b(2) wid ids_drawn_same [of n "sv_idGen s" "rs_workers ?rn", OF _ refl] by (simp add: sv_inv_def sv_to_def rn)
  show "r = Ok ()" by (fact rn(1))
qed


lemma sv_inv_removed:
  assumes inv: "sv_inv S n s" and p: "at_phase s p (Removing r)" and small: "n < 2 ^ 64"
    and del: "work_del p True (sv_run s) = (evs, d, rn)"
  shows "d = Ok ()" and "sv_inv S (Suc n) (sv_to p (Stopping r) rn s)" and "rs_workers rn = rs_workers (sv_run s)"
proof -
  let ?rn = "sv_run s" and ?k = "rs_WID (sv_run s) p"
  have len: "p < length (sv_conns s)" "sv_conns s ! p = Removing r" "length (sv_conns s) = length (rs_workers ?rn)"
    using inv p by (simp_all add: at_phase_def sv_inv_def)
  have dist: "distinct (map w_id (rs_workers ?rn))"
    using inv small by (auto simp: sv_inv_def intro: ids_drawn_distinct)
  have reg: "registered (rs_buckets ?rn) k = Some q \<longleftrightarrow>
      q < length (sv_conns s) \<and> on_registry (sv_conns s ! q) \<and> k = rs_WID ?rn q" for k q
    using inv by (simp add: sv_inv_def)
  have own: "registered (rs_buckets ?rn) ?k = Some p" using reg [of ?k p] len by simp
  have ok: "buckets_ok (rs_WID ?rn) (rs_buckets ?rn)" using inv by (simp add: sv_inv_def)
  from Del_registered [OF ok, of "rs_UID ?rn" p] own obtain bs where
    b: "Del (rs_WID ?rn) (rs_UID ?rn) p (rs_buckets ?rn) = Ok bs" "buckets_ok (rs_WID ?rn) bs"
      "registered bs = (registered (rs_buckets ?rn))(?k := None)"
    by auto
  have rn: "d = Ok ()" "rn = ?rn\<lparr>rs_buckets := bs\<rparr>" using del b(1) by (simp_all add: work_del_def)
  have wid: "rs_WID rn = rs_WID ?rn" by (simp add: rn rs_WID_def [abs_def])
  have "registered bs k = Some q \<longleftrightarrow>
      q < length (sv_conns s) \<and> on_registry ((sv_conns s)[p := Stopping r] ! q) \<and> k = rs_WID ?rn q" for k q
  proof (cases "q = p")
    case True
    then show ?thesis using reg [of k p] len(1) by (auto simp: b(3))
  next
    case False
    then show ?thesis using reg [of k q] own by (auto simp: b(3))
  qed
  moreover have "phase_ok S (rs_workers ?rn ! q) ((sv_conns s)[p := Stopping r] ! q)" if "q < length (sv_conns s)" for q
    using inv that sv_inv_phase [OF inv p] len by (cases "q = p") (auto simp: sv_inv_def)
  ultimately show "sv_inv S (Suc n) (sv_to p (Stopping r) rn s)"
    using inv b(2) wid ids_drawn_same [of n "sv_idGen s" "rs_workers ?rn", OF _ refl] by (simp add: sv_inv_def sv_to_def rn)
  show "d = Ok ()" "rs_workers rn = rs_workers ?rn" by (simp_all add: rn)
qed

text \<open>The goroutines of one run; \<open>run_ok\<close> is kept by each of their steps.\<close>

lemma sv_inv_serving:
  assumes inv: "sv_inv S n s" and p: "at_phase s p (Serving g)" and laws: "sync_laws S" and rp: "reading_ok rp"
    and st: "run_step S E wr flt rp (g\<lparr>r_worker := rs_workers (sv_run s) ! p\<rparr>) g'"
  shows "sv_inv S (Suc n) (sv_to p (Serving g') (set_worker p (r_worker g') (sv_run s)) s)"
proof -
  let ?w = "rs_workers (sv_run s) ! p"
  have "run_ok S ?w (g\<lparr>r_worker := ?w\<rparr>)"
    using sv_inv_phase [OF inv p] by (simp add: run_ok_def)
  then have "run_ok S ?w g'"
    using run_step_ok [OF st _ laws] rp by (simp add: reading_ok_def)
  then show ?thesis
    using sv_inv_phase [OF inv p] by (intro sv_inv_move_set [OF inv p]) (simp_all add: run_ok_def)
qed

lemma stop_end_torn_down:
  fixes w :: "('b, 'st, 'cd) worker"
  assumes "IsStopping S (w_stopper w)" and "\<not> fst (DoStop S (w_stopper w))"
  shows "torn_down S (stop_end S w)" and "w_id (stop_end S w) = w_id w"
proof -
  obtain cr r m where c: "Close (w_reader w) (w_mem w) = (cr, r, m)" by (metis prod.collapse)
  then have "cleanedUp r" by (auto simp: Close_def split: if_splits)
  with c assms show "torn_down S (stop_end S w)" "w_id (stop_end S w) = w_id w"
    by (simp_all add: torn_down_def stop_end_def Let_def h_stop_keeps h_stop_w_id)
qed

lemma sv_inv_stopping:
  assumes inv: "sv_inv S n s" and p: "at_phase s p (Stopping r)" and laws: "sync_laws S"
    and st: "stop_begin S (rs_workers (sv_run s) ! p) = (go, w)"
  shows "go" and "sv_inv S (Suc n) (sv_to p (Waiting r err) (set_worker p w (sv_run s)) s)"
proof -
  let ?w = "rs_workers (sv_run s) ! p"
  have ph: "fst (DoStop S (w_stopper ?w))" "stop_may_end ?w" using sv_inv_phase [OF inv p] by simp_all
  obtain t where t: "DoStop S (w_stopper ?w) = (True, t)" using ph(1) by (metis (full_types) prod.collapse)
  have w: "go" "w = ?w\<lparr>w_stopper := t, replyClosed := True\<rparr>" using st t by (simp_all add: stop_begin_def)
  have "phase_ok S w (Waiting r err)"
    using DoStop_once [OF laws, of "w_stopper ?w"] ph(2) by (simp add: w t stop_may_end_def)
  then show "sv_inv S (Suc n) (sv_to p (Waiting r err) (set_worker p w (sv_run s)) s)"
    by (intro sv_inv_move_set [OF inv p]) (simp_all add: w(2))
  show go by (fact w(1))
qed

lemma phase_ok_kept:
  assumes "wkept S w w'" and "sync_laws S" and "phase_ok S w ph"
  shows "phase_ok S w' ph"
  using assms(3) wkept_facts [OF assms(1,2)] by (cases ph) simp_all

lemma sv_inv_called:
  assumes inv: "sv_inv S n s" and laws: "sync_laws S" and k: "kept S (sv_run s) rn"
  shows "sv_inv S (Suc n) (s\<lparr>sv_run := rn\<rparr>)"
proof -
  have len: "length (rs_workers rn) = length (rs_workers (sv_run s))"
    using k by (auto simp: kept_def dest: list_all2_lengthD)
  have w: "wkept S (rs_workers (sv_run s) ! q) (rs_workers rn ! q)" if "q < length (rs_workers (sv_run s))" for q
    using k that by (auto simp: kept_def list_all2_conv_all_nth)
  then have ids: "map w_id (rs_workers rn) = map w_id (rs_workers (sv_run s))"
    by (intro nth_equalityI) (simp_all add: len wkept_facts(1) [OF _ laws])
  have same: "same_ids (sv_run s) rn" using ids k by (simp add: same_ids_def kept_def)
  have wid: "rs_WID rn q = rs_WID (sv_run s) q" if "q < length (rs_workers (sv_run s))" for q
    using rs_WID_ids [OF ids, of q] that len by simp
  have cn: "length (sv_conns s) = length (rs_workers (sv_run s))" using inv by (simp add: sv_inv_def)
  have "server_wf (sv_run s)" using inv cn by (auto simp: server_wf_def sv_inv_def ran_def)
  then have "buckets_ok (rs_WID rn) (rs_buckets rn)" using same_ids_wf [OF same] by (simp add: server_wf_def)
  moreover have "registered (rs_buckets rn) k = Some q \<longleftrightarrow>
      q < length (sv_conns s) \<and> on_registry (sv_conns s ! q) \<and> k = rs_WID rn q" for k q
    using inv wid [of q] cn k by (auto simp: sv_inv_def kept_def)
  moreover have "phase_ok S (rs_workers rn ! q) (sv_conns s ! q)" if "q < length (sv_conns s)" for q
    using inv that cn phase_ok_kept [OF w laws] by (simp add: sv_inv_def)
  ultimately show ?thesis
    using inv ids_drawn_same [OF _ ids] len by (simp add: sv_inv_def)
qed


lemma sv_step_inv:
  assumes "sv_step S acf adf s s'" and inv: "sv_inv S n s" and laws: "sync_laws S" and small: "n < 2 ^ 64"
  shows "sv_inv S (Suc n) s'"
  using assms(1)
proof cases
  case (accepted wid i remote cfg referer pk pm rm ch input m w)
  then show ?thesis using sv_inv_accepted [OF inv laws] by blast
next
  case (accept_lost wid i)
  then show ?thesis using inv ids_drawn_lost by (auto simp: sv_inv_def accept_def)
next
  case (started p E D wr auth onc dl1 dl2 ch1 ch2 r rn)
  then show ?thesis using sv_inv_started [OF inv] by blast
next
  case (put p r rn)
  then show ?thesis using sv_inv_put [OF inv put(2) small put(3)] by simp
next
  case (connected p evs r rn)
  then have rn: "rn = sv_run s \<or> (\<exists>x. rn = (sv_run s)\<lparr>rs_ext := x\<rparr>)"
    by (auto simp: after_connect_def call_wrap_def split: option.splits prod.splits)
  have "phase_ok S (rs_workers (sv_run s) ! p) (if r = Ok () then Serving (run_start (rs_workers rn ! p)) else Removing r)"
    using sv_inv_phase [OF inv connected(2)] by (simp add: run_start_def)
  then show ?thesis using rn connected(1) sv_inv_move_ext [OF inv connected(2)] by auto
next
  case (serving p g rp E wr flt g')
  then show ?thesis using sv_inv_serving [OF inv _ laws] by blast
next
  case (served p g)
  have "phase_ok S (rs_workers (sv_run s) ! p) (Removing r)" for r
    using sv_inv_phase [OF inv served(2)] served(3) by (simp add: run_finished_def stop_may_end_def)
  then show ?thesis using served(1) sv_inv_move_ext(2) [OF inv served(2)] by simp
next
  case (removed p r evs d rn)
  then show ?thesis using sv_inv_removed [OF inv removed(2) small removed(3)] by simp
next
  case (stopping p r go w)
  then show ?thesis using sv_inv_stopping [OF inv stopping(2) laws stopping(3)] by simp
next
  case (stopped p r err)
  have "phase_ok S (rs_workers (sv_run s) ! p) (Waiting r err)" using sv_inv_phase [OF inv stopped(2)] .
  then show ?thesis
    using stopped(1) stop_end_torn_down [of S "rs_workers (sv_run s) ! p"] sv_inv_move_set [OF inv stopped(2)] by simp
next
  case (ended p r err)
  then show ?thesis using sv_inv_phase [OF inv ended(2)] sv_inv_move_ext(2) [OF inv ended(2)] by simp
next
  case (disconnected p r err f d rn)
  then obtain x where "rn = (sv_run s)\<lparr>rs_ext := x\<rparr>" by (auto simp: call_wrap_def split: prod.splits)
  then show ?thesis
    using disconnected(1) sv_inv_phase [OF inv disconnected(2)] sv_inv_move_ext(1) [OF inv disconnected(2)] by simp
next
  case (called c rn)
  have "kept S (sv_run s) rn"
    by (rule env.R_call [OF called(3)]) (use called(2) in \<open>auto simp: is_work_def\<close>)
  then show ?thesis using called(1) sv_inv_called [OF inv laws] by simp
qed

lemma sv_steps_inv:
  assumes "(sv_step S acf adf ^^ n) (sv_start bs st x) s" and "sync_laws S" and "n \<le> 2 ^ 64"
    and "NewBuckets idx k = Ok bs" and "0 < k" and "k < 2 ^ 32"
  shows "sv_inv S n s"
  using assms(1,3)
proof (induction n arbitrary: s)
  case 0
  have "buckets_ok W bs \<and> registered bs = Map.empty" for W
    using NewBuckets_ok [OF assms(5,6), of idx W] assms(4) by auto
  then show ?case
    using 0 by (auto simp: sv_inv_def sv_start_def ids_drawn_def)
next
  case (Suc n)
  then obtain t where t: "(sv_step S acf adf ^^ n) (sv_start bs st x) t" "sv_step S acf adf t s" by auto
  with Suc show ?case using sv_step_inv [OF t(2) _ assms(2)] by simp
qed

section \<open>The registry follows the connections\<close>

text \<open>
  C9: The registry knows exactly the connections that are served. For any number of connections
  of a server and any interleaving of their goroutines with each other and with pushes,
  broadcasts, disconnects and the stop of the server (up to 2 ^ 64 steps, after which the counter
  of worker ids may wrap): looking up a worker id never fails, and finds a connection if and only
  if it has that id and is between its registration and its removal. No two connections have the
  same id, so that a registration never replaces another worker. A connection that has ended is
  stopped, with its reader and connection closed, and cannot be found.
\<close>

theorem registry_tracks_connections:
  assumes "sync_laws S" and "NewBuckets idx k = Ok bs" and "0 < k" and "k < 2 ^ 32" and "n < 2 ^ 64"
    and "(sv_step S acf adf ^^ n) (sv_start bs st x) s"
  shows "(\<forall>wid. \<exists>wo. Worker_of wid (rs_buckets (sv_run s)) = Ok wo \<and>
      (\<forall>p. wo = Some p \<longleftrightarrow> p < length (sv_conns s) \<and> on_registry (sv_conns s ! p) \<and> wid = rs_WID (sv_run s) p)) \<and>
    distinct (map w_id (rs_workers (sv_run s))) \<and>
    (\<forall>p r. at_phase s p (Ended r) \<longrightarrow> torn_down S (rs_workers (sv_run s) ! p) \<and>
      Worker_of (rs_WID (sv_run s) p) (rs_buckets (sv_run s)) = Ok None)"
proof -
  have inv: "sv_inv S n s" using sv_steps_inv [OF assms(6,1) _ assms(2-4)] assms(5) by simp
  have W: "Worker_of wid (rs_buckets (sv_run s)) = Ok (registered (rs_buckets (sv_run s)) wid)" for wid
    using inv Worker_of_registered by (auto simp: sv_inv_def)
  have reg: "registered (rs_buckets (sv_run s)) wid = Some p \<longleftrightarrow>
      p < length (sv_conns s) \<and> on_registry (sv_conns s ! p) \<and> wid = rs_WID (sv_run s) p" for wid p
    using inv by (simp add: sv_inv_def)
  have dist: "distinct (map w_id (rs_workers (sv_run s)))"
    using inv assms(5) by (auto simp: sv_inv_def intro: ids_drawn_distinct)
  have "torn_down S (rs_workers (sv_run s) ! p) \<and> registered (rs_buckets (sv_run s)) (rs_WID (sv_run s) p) = None"
    if "at_phase s p (Ended r)" for p r
  proof
    show "torn_down S (rs_workers (sv_run s) ! p)" using sv_inv_phase [OF inv that] by simp
    have "q = p" if "q < length (sv_conns s)" "rs_WID (sv_run s) p = rs_WID (sv_run s) q" for q
      using that \<open>at_phase s p (Ended r)\<close> inv nth_eq_iff_index_eq [OF dist, of q p]
      by (simp add: rs_WID_def w_WID_def at_phase_def sv_inv_def)
    then show "registered (rs_buckets (sv_run s)) (rs_WID (sv_run s) p) = None"
      using that reg by (metis at_phase_def on_registry.simps(9) option.exhaust)
  qed
  then show ?thesis using W reg dist by simp
qed


section \<open>Cleaning up\<close>

fun cleaning :: "('b, 'st, 'cd) phase \<Rightarrow> nat" where
  "cleaning (Removing _) = 4"
| "cleaning (Stopping _) = 3"
| "cleaning (Waiting _ _) = 2"
| "cleaning (Disconnecting _ _) = 1"
| "cleaning _ = 0"

text \<open>Everything but connection \<open>p\<close> and its worker is as before.\<close>

definition others_same :: "nat \<Rightarrow> ('b, 'st, 'cd, 'x) srv \<Rightarrow> ('b, 'st, 'cd, 'x) srv \<Rightarrow> bool" where
  "others_same p s s' \<longleftrightarrow> length (sv_conns s') = length (sv_conns s) \<and>
     (\<forall>q. q \<noteq> p \<longrightarrow> sv_conns s' ! q = sv_conns s ! q \<and> rs_workers (sv_run s') ! q = rs_workers (sv_run s) ! q)"

lemma others_same_trans: "others_same p s t \<Longrightarrow> others_same p t u \<Longrightarrow> others_same p s u"
  by (simp add: others_same_def)

lemma others_same_to:
  "rs_workers rn = (rs_workers (sv_run s))[p := w] \<Longrightarrow> others_same p s (sv_to p ph rn s)"
  by (simp add: others_same_def sv_to_def)

lemma at_phase_to: "at_phase s p ph \<Longrightarrow> at_phase (sv_to p ph' rn s) p ph'"
  by (simp add: at_phase_def sv_to_def)

lemma cleaning_step:
  fixes s :: "('b, 'st, 'cd, 'x) srv"
  assumes inv: "sv_inv S n s" and laws: "sync_laws S" and small: "n < 2 ^ 64" and p: "at_phase s p ph" "cleaning ph = Suc i"
  shows "\<exists>s' ph'. sv_step S acf adf s s' \<and> at_phase s' p ph' \<and> cleaning ph' = i \<and> (i = 0 \<longrightarrow> (\<exists>r. ph' = Ended r)) \<and> others_same p s s'"
proof (cases ph)
  case (Removing r)
  obtain evs d rn where d: "work_del p True (sv_run s) = (evs, d, rn)" by (metis prod.collapse)
  have "at_phase s p (Removing r)" using p(1) Removing by simp
  note rm = sv_inv_removed [OF inv this small d]
  have "sv_step S acf adf s (sv_to p (Stopping r) rn s)"
    using sv_step.removed [OF \<open>at_phase s p (Removing r)\<close> d] rm(1) by simp
  moreover have "others_same p s (sv_to p (Stopping r) rn s)" using rm(3) by (simp add: others_same_def sv_to_def)
  ultimately show ?thesis using p Removing at_phase_to by fastforce
next
  case (Stopping r)
  obtain go w where g: "stop_begin S (rs_workers (sv_run s) ! p) = (go, w)" by (metis prod.collapse)
  have st: "at_phase s p (Stopping r)" using p(1) Stopping by simp
  let ?s' = "sv_to p (Waiting r (work_err p (sv_run s) r)) (set_worker p w (sv_run s)) s"
  have "sv_step S acf adf s ?s'" using sv_step.stopping [OF st g] sv_inv_stopping(1) [OF inv st laws g] by simp
  moreover have "others_same p s ?s'" by (rule others_same_to) (simp add: set_worker_def)
  ultimately show ?thesis using p Stopping at_phase_to by fastforce
next
  case (Waiting r err)
  have st: "at_phase s p (Waiting r err)" using p(1) Waiting by simp
  let ?s' = "sv_to p (Disconnecting r err) (set_worker p (stop_end S (rs_workers (sv_run s) ! p)) (sv_run s)) s"
  have "sv_step S acf adf s ?s'" using sv_step.stopped [OF st] sv_inv_phase [OF inv st] by simp
  moreover have "others_same p s ?s'" by (rule others_same_to) (simp add: set_worker_def)
  ultimately show ?thesis using p Waiting at_phase_to by fastforce
next
  case (Disconnecting r err)
  have st: "at_phase s p (Disconnecting r err)" using p(1) Disconnecting by simp
  show ?thesis
  proof (cases adf)
    case None
    have "others_same p s (sv_to p (Ended err) (sv_run s) s)" by (simp add: others_same_def sv_to_def)
    then show ?thesis using sv_step.ended [OF st None] p Disconnecting at_phase_to by fastforce
  next
    case (Some f)
    obtain d rn where d: "call_wrap f p (sv_run s) = (d, rn)" by (metis prod.collapse)
    have "others_same p s (sv_to p (Ended (keep_panic r d)) rn s)"
      using d by (auto simp: others_same_def sv_to_def call_wrap_def split: prod.splits)
    then show ?thesis using sv_step.disconnected [OF st Some d] p Disconnecting at_phase_to by fastforce
  qed
qed (use p in simp_all)

lemma cleaning_completes:
  fixes s :: "('b, 'st, 'cd, 'x) srv"
  assumes "sv_inv S n s" and "sync_laws S" and "n + i \<le> 2 ^ 64" and "at_phase s p ph" and "cleaning ph = i" and "i \<noteq> 0"
  shows "\<exists>s' r. (sv_step S acf adf ^^ i) s s' \<and> at_phase s' p (Ended r) \<and> others_same p s s' \<and> sv_inv S (n + i) s'"
  using assms
proof (induction i arbitrary: n s ph)
  case (Suc i)
  have "n < 2 ^ 64" using Suc.prems(3) by simp
  from cleaning_step [OF Suc.prems(1,2) this Suc.prems(4,5), of acf adf] obtain s1 ph1 where
    st: "sv_step S acf adf s s1" "at_phase s1 p ph1" "cleaning ph1 = i" "i = 0 \<longrightarrow> (\<exists>r. ph1 = Ended r)" "others_same p s s1"
    by (elim exE conjE) (rule that)
  have inv: "sv_inv S (Suc n) s1" using sv_step_inv [OF st(1) Suc.prems(1,2)] Suc.prems(3) by simp
  show ?case
  proof (cases "i = 0")
    case True
    with st inv show ?thesis by auto
  next
    case False
    with Suc.IH [OF inv Suc.prems(2) _ st(2,3)] Suc.prems(3) obtain s' r where
      s': "(sv_step S acf adf ^^ i) s1 s'" "at_phase s' p (Ended r)" "others_same p s1 s'" "sv_inv S (Suc n + i) s'"
      by auto
    have "(sv_step S acf adf ^^ Suc i) s s'" using st(1) s'(1) by (rule relpowp_Suc_I2)
    moreover have "others_same p s s'" using st(5) s'(3) by (rule others_same_trans)
    ultimately show ?thesis using s'(2,4) by auto
  qed
qed simp

text \<open>
  C20: No connection is stuck in its cleanup. From any state a server can reach, a connection
  whose body has returned ends by at most four steps of its own goroutine, whatever phase of the
  cleanup it is in and whatever the other connections are doing, which are left as they are; its
  worker is then torn down. In particular the stop of the worker never waits for a writing loop
  that does not return.
\<close>

theorem cleanup_completes:
  assumes "sync_laws S" and "NewBuckets idx k = Ok bs" and "0 < k" and "k < 2 ^ 32" and "n + 4 < 2 ^ 64"
    and "(sv_step S acf adf ^^ n) (sv_start bs st x) s" and "at_phase s p ph" and "cleaning ph \<noteq> 0"
  shows "\<exists>s' r. (sv_step S acf adf ^^ cleaning ph) s s' \<and> at_phase s' p (Ended r) \<and> others_same p s s' \<and>
    torn_down S (rs_workers (sv_run s') ! p)"
proof -
  have inv: "sv_inv S n s" using sv_steps_inv [OF assms(6,1) _ assms(2-4)] assms(5) by simp
  have "cleaning ph \<le> 4" by (cases ph) simp_all
  with cleaning_completes [OF inv assms(1) _ assms(7) refl assms(8), of acf adf] assms(5) obtain s' r where
    s': "(sv_step S acf adf ^^ cleaning ph) s s'" "at_phase s' p (Ended r)" "others_same p s s'" "sv_inv S (n + cleaning ph) s'"
    by auto
  then show ?thesis using sv_inv_phase [OF s'(4,2)] by auto
qed

text \<open>A server with one bucket and a connection whose handshake fails.\<close>

lemma one_failed:
  obtains bs and s :: "(unit, bool \<times> bool, int64, unit) srv" and r where "NewBuckets uidWidMap_init 1 = Ok bs"
    and "(sv_step flag_sync None None ^^ 2) (sv_start bs (False, False) ()) s" and "at_phase s 0 (Stopping r)"
proof -
  obtain bs where bs: "NewBuckets uidWidMap_init 1 = Ok bs" using NewBuckets_ok [of 1 uidWidMap_init] by auto
  obtain sl m where al: "Alloc None 4096 (fresh_mem the_pool) = (Ok sl, m)"
    using reader_mem.alloc_ok [OF mem_inv_fresh reader_mem.pow2_ok, of None 12] by auto
  let ?cfg = "\<lparr>ReaderBufSize = 4096, ReplyChanSize = 1024, HandshakeTimeout = 0, RequestIdleTimeout = 0,
    WaitMainTunnelTimeout = 0, wk_StopTimeout = 0\<rparr>"
  obtain w :: "(unit, bool \<times> bool, int64) worker" where
    w: "NewWorker flag_sync 1 None ?cfg [] [] [] [] None [] (fresh_mem the_pool) = Ok w"
    using al by (simp add: NewWorker_def NewReader_def)
  let ?s0 = "sv_start bs (False, False) () :: (unit, bool \<times> bool, int64, unit) srv"
  let ?s1 = "?s0\<lparr>sv_run := (sv_run ?s0)\<lparr>rs_workers := [w]\<rparr>, sv_idGen := 1, sv_conns := [Accepted]\<rparr>"
  let ?e = "Wrap ''set conn deadline before handshake failed'' [] io_EOF"
  let ?s2 = "sv_to 0 (Stopping (Fail ?e)) (set_worker 0 w (sv_run ?s1)) ?s1"
  have "sv_step flag_sync None None ?s0 ?s1"
    using sv_step.accepted [of ?s0 1 1 flag_sync None ?cfg "[]" "[]" "[]" "[]" None "[]" "fresh_mem the_pool" w] w
    by (simp add: sv_start_def accept_def)
  moreover have "at_phase ?s1 0 Accepted" by (simp add: at_phase_def)
  have on: "on_worker (wk_Start E D wr auth onc (Some io_EOF) dl2 ch1 ch2) 0 (sv_run ?s1) = (Fail ?e, set_worker 0 w (sv_run ?s1))"
    for E D wr auth onc dl2 ch1 ch2
    by (simp add: on_worker_def wk_Start_def)
  have "sv_step flag_sync None None ?s1 ?s2"
    using sv_step.started [OF \<open>at_phase ?s1 0 Accepted\<close> on, of flag_sync None None] by simp
  ultimately have "(sv_step flag_sync None None ^^ 2) ?s0 ?s2"
    by (auto simp: numeral_2_eq_2)
  moreover have "at_phase ?s2 0 (Stopping (Fail ?e))" by (simp add: at_phase_def sv_to_def)
  ultimately show thesis using that bs by blast
qed

theorem cleanup_completes_witness:
  "\<exists>(s' :: (unit, bool \<times> bool, int64, unit) srv) r. at_phase s' 0 (Ended r) \<and> torn_down flag_sync (rs_workers (sv_run s') ! 0)"
proof -
  obtain bs and s :: "(unit, bool \<times> bool, int64, unit) srv" and r where
    s: "NewBuckets uidWidMap_init 1 = Ok bs" "(sv_step flag_sync None None ^^ 2) (sv_start bs (False, False) ()) s" "at_phase s 0 (Stopping r)"
    by (rule one_failed)
  from cleanup_completes [OF flag_sync_laws s(1) _ _ _ s(2,3)] show ?thesis by auto
qed

theorem registry_tracks_connections_witness:
  "\<exists>bs (s :: (unit, bool \<times> bool, int64, unit) srv) r. (sv_step flag_sync None None ^^ 2) (sv_start bs (False, False) ()) s \<and>
     at_phase s 0 (Stopping r) \<and> Worker_of (rs_WID (sv_run s) 0) (rs_buckets (sv_run s)) \<noteq> Ok (Some 0)"
proof -
  obtain bs and s :: "(unit, bool \<times> bool, int64, unit) srv" and r where
    s: "NewBuckets uidWidMap_init 1 = Ok bs" "(sv_step flag_sync None None ^^ 2) (sv_start bs (False, False) ()) s" "at_phase s 0 (Stopping r)"
    by (rule one_failed)
  have "(0 :: int) < 1" "(1 :: int) < 2 ^ 32" "(2 :: nat) < 2 ^ 64" by simp_all
  from conjunct1 [OF registry_tracks_connections [OF flag_sync_laws s(1) this s(2)], THEN spec [of _ "rs_WID (sv_run s) 0"]] obtain wo where
    wo: "Worker_of (rs_WID (sv_run s) 0) (rs_buckets (sv_run s)) = Ok wo"
      "\<forall>p. wo = Some p \<longleftrightarrow> p < length (sv_conns s) \<and> on_registry (sv_conns s ! p) \<and> rs_WID (sv_run s) 0 = rs_WID (sv_run s) p"
    by (elim exE conjE) (rule that)
  have "\<not> on_registry (sv_conns s ! 0)" using s(3) by (simp add: at_phase_def)
  then have "wo \<noteq> Some 0" using wo(2) by simp
  then have "Worker_of (rs_WID (sv_run s) 0) (rs_buckets (sv_run s)) \<noteq> Ok (Some 0)" using wo(1) by simp
  then show ?thesis using s(2,3) by (intro exI conjI)
qed

end
