(* ===== verification/Channel_Race.thy ===== *)
theory Channel_Race
  imports Connection Tunnel_Run
begin

text \<open>
  Sending on a channel that another goroutine may close. \<^verbatim>\<open>Worker.Push\<close>
  (\<^verbatim>\<open>pkg/net/internal/worker.go\<close>) and \<^verbatim>\<open>Tunnel.Forward\<close>
  (\<^verbatim>\<open>app/gate/internal/intra/net/tunnels/tunnel.go\<close>) first ask whether the object is stopping and
  then send on its channel, and the stop of the object closes that channel. \<open>wk_Push\<close> and \<open>Forward\<close>
  are these operations without interference; here the two parts are steps of their own, and
  senders, the receiving loop, triggered stops and the stop are interleaved.
\<close>

section \<open>Senders and a stop\<close>

text \<open>Where a sender is: before its check, after the check with what it is going to send, done.\<close>

datatype ('m, 'p) sender = SCheck 'm | SSend 'p | SDone "unit res"

datatype race_ev = ECheck nat | ESend nat | EClose | EEnv nat

text \<open>A sequence of events; \<open>None\<close> is one that is not possible, such as a send that blocks.
  \<open>check\<close>, \<open>send\<close>, \<open>stop\<close> and \<open>other\<close> are the operations of the object.\<close>

fun race :: "('m \<Rightarrow> 's \<Rightarrow> 'p res \<times> 's) \<Rightarrow> ('p \<Rightarrow> 's \<Rightarrow> (unit res \<times> 's) option) \<Rightarrow> ('s \<Rightarrow> 's) \<Rightarrow> (nat \<Rightarrow> 's \<Rightarrow> 's) \<Rightarrow>
    race_ev list \<Rightarrow> 's \<times> ('m, 'p) sender list \<Rightarrow> ('s \<times> ('m, 'p) sender list) option" where
  "race check send stop other [] x = Some x"
| "race check send stop other (ECheck i # es) (s, ss) =
     (if length ss \<le> i then None
      else case ss ! i of
        SCheck m \<Rightarrow>
          (case check m s of
             (Ok p, s1) \<Rightarrow> race check send stop other es (s1, ss[i := SSend p])
           | (Fail e, s1) \<Rightarrow> race check send stop other es (s1, ss[i := SDone (Fail e)])
           | (Panic q, s1) \<Rightarrow> race check send stop other es (s1, ss[i := SDone (Panic q)]))
      | _ \<Rightarrow> None)"
| "race check send stop other (ESend i # es) (s, ss) =
     (if length ss \<le> i then None
      else case ss ! i of
        SSend p \<Rightarrow>
          (case send p s of
             None \<Rightarrow> None
           | Some (r, s1) \<Rightarrow> race check send stop other es (s1, ss[i := SDone r]))
      | _ \<Rightarrow> None)"
| "race check send stop other (EClose # es) (s, ss) = race check send stop other es (stop s, ss)"
| "race check send stop other (EEnv k # es) (s, ss) = race check send stop other es (other k s, ss)"

lemma race_done:
  assumes "race check send stop other es (s, ss) = Some (s', ss')" and "ss ! i = SDone r"
  shows "ss' ! i = SDone r"
  using assms
proof (induction check send stop other es "(s, ss)" arbitrary: s ss rule: race.induct)
  case (2 check send stop other j es s ss)
  then show ?case by (cases "j = i") (auto split: if_splits sender.splits prod.splits res.splits)
next
  case (3 check send stop other j es s ss)
  then show ?case by (cases "j = i") (auto split: if_splits sender.splits option.splits)
qed simp_all

text \<open>The contract of such an object: the check refuses once it is stopping, sending panics exactly
  when the channel is closed, and only the stop closes it. \<open>lawful\<close> says that the library that
  provides the stopper keeps its laws.\<close>

locale guarded_channel =
  fixes check :: "'m \<Rightarrow> 's \<Rightarrow> 'p res \<times> 's" and send :: "'p \<Rightarrow> 's \<Rightarrow> (unit res \<times> 's) option"
    and stop :: "'s \<Rightarrow> 's" and other :: "nat \<Rightarrow> 's \<Rightarrow> 's"
    and inv :: "'s \<Rightarrow> bool" and stopping :: "'s \<Rightarrow> bool" and closed :: "'s \<Rightarrow> bool" and can_stop :: "'s \<Rightarrow> bool" and lawful :: bool
  assumes check_keeps: "inv s \<Longrightarrow> check m s = (r, s') \<Longrightarrow> inv s' \<and> stopping s' = stopping s \<and> closed s' = closed s \<and> can_stop s' = can_stop s"
    and check_refuses: "inv s \<Longrightarrow> stopping s \<Longrightarrow> fst (check m s) \<noteq> Ok p"
    and check_no_panic: "inv s \<Longrightarrow> fst (check m s) \<noteq> Panic q"
    and send_closed: "inv s \<Longrightarrow> closed s \<Longrightarrow> \<exists>q. send p s = Some (Panic q, s)"
    and send_open: "inv s \<Longrightarrow> \<not> closed s \<Longrightarrow> send p s = Some (u, s') \<Longrightarrow> inv s' \<and> u = Ok () \<and> \<not> closed s' \<and> stopping s' = stopping s \<and> can_stop s' = can_stop s"
    and stop_closes: "inv s \<Longrightarrow> lawful \<Longrightarrow> closed s \<or> can_stop s \<Longrightarrow> closed (stop s)"
    and stop_stopping: "inv s \<Longrightarrow> lawful \<Longrightarrow> inv (stop s) \<and> stopping (stop s)"
    and other_keeps: "inv s \<Longrightarrow> lawful \<Longrightarrow> inv (other k s) \<and> closed (other k s) = closed s \<and> (stopping s \<longrightarrow> stopping (other k s)) \<and> can_stop (other k s) = can_stop s"
begin

text \<open>One event: what it does to the object and to the senders.\<close>

lemma race_step:
  assumes "race check send stop other (e # es) (s, ss) = Some x" and inv: "inv s" and lawful
  obtains s1 ss1 where "race check send stop other es (s1, ss1) = Some x" and "inv s1" and "length ss1 = length ss"
    and "e \<noteq> EClose \<Longrightarrow> closed s1 = closed s" and "closed s \<or> can_stop s \<Longrightarrow> (closed s1 \<or> can_stop s1) \<and> (e = EClose \<longrightarrow> closed s1)"
    and "(closed s \<longrightarrow> stopping s) \<Longrightarrow> (closed s1 \<longrightarrow> stopping s1)"
    and "\<And>i. e \<noteq> ECheck i \<Longrightarrow> e \<noteq> ESend i \<Longrightarrow> ss1 ! i = ss ! i"
    and "\<And>i. e = ECheck i \<Longrightarrow> i < length ss \<and> (\<exists>m. ss ! i = SCheck m) \<and>
      ((\<exists>p. ss1 ! i = SSend p \<and> \<not> stopping s) \<or> (\<exists>f. ss1 ! i = SDone (Fail f)))"
    and "\<And>i. e = ESend i \<Longrightarrow> i < length ss \<and> (\<exists>p u. ss ! i = SSend p \<and> ss1 ! i = SDone u \<and> (if closed s then \<exists>q. u = Panic q else u = Ok ()))"
proof (cases e)
  case (ECheck j)
  then have j: "j < length ss" using assms(1) by (auto split: if_splits)
  obtain m where m: "ss ! j = SCheck m" using assms(1) ECheck j by (auto split: sender.splits)
  obtain r s1 where r: "check m s = (r, s1)" by (metis prod.collapse)
  note k = check_keeps [OF inv r]
  obtain y where y: "race check send stop other es (s1, ss[j := y]) = Some x"
    "(\<exists>p. y = SSend p \<and> \<not> stopping s) \<or> (\<exists>f. y = SDone (Fail f))"
    using assms(1) ECheck j m r check_no_panic [OF inv, of m] check_refuses [OF inv, of m] by (cases r) auto
  show thesis by (rule that [OF y(1)]) (use ECheck j m k y(2) in auto)
next
  case (ESend j)
  then have j: "j < length ss" using assms(1) by (auto split: if_splits)
  obtain p where p: "ss ! j = SSend p" using assms(1) ESend j by (auto split: sender.splits)
  obtain u s1 where u: "send p s = Some (u, s1)" "race check send stop other es (s1, ss[j := SDone u]) = Some x"
    using assms(1) ESend j p by (auto split: option.splits)
  have k: "inv s1 \<and> closed s1 = closed s \<and> stopping s1 = stopping s \<and> can_stop s1 = can_stop s \<and> (if closed s then \<exists>q. u = Panic q else u = Ok ())"
    using send_closed [OF inv, of p] send_open [OF inv _ u(1)] u(1) inv by (cases "closed s") auto
  show thesis by (rule that [OF u(2)]) (use ESend j p k in auto)
next
  case EClose
  show thesis
    by (rule that [of "stop s" ss]) (use EClose assms(1) stop_stopping [OF inv assms(3)] stop_closes [OF inv assms(3)] in auto)
next
  case (EEnv k)
  show thesis
    by (rule that [of "other k s" ss]) (use EEnv assms(1) other_keeps [OF inv assms(3), of k] in auto)
qed

lemma send_panics:
  assumes "race check send stop other es (s, ss) = Some (s', ss')" and "ss ! i = SSend p" and "i < length ss"
    and "ss' ! i = SDone (Panic q)" and "inv s" and lawful
  shows "\<exists>c d. es = c @ ESend i # d \<and> (closed s \<or> EClose \<in> set c)"
  using assms(1-5)
proof (induction es arbitrary: s ss)
  case (Cons e es)
  from race_step [OF Cons.prems(1,5) assms(6)] obtain s1 ss1 where
    n: "race check send stop other es (s1, ss1) = Some (s', ss')" "inv s1" "length ss1 = length ss"
      "e \<noteq> EClose \<longrightarrow> closed s1 = closed s" "e \<noteq> ECheck i \<longrightarrow> e \<noteq> ESend i \<longrightarrow> ss1 ! i = ss ! i"
      "e \<noteq> ECheck i" "e = ESend i \<longrightarrow> (\<exists>u. ss1 ! i = SDone u \<and> (closed s \<or> u = Ok ()))"
    using Cons.prems(2) by (metis sender.distinct(1))
  show ?case
  proof (cases "e = ESend i")
    case True
    then have "closed s" using n(7) race_done [OF n(1)] Cons.prems(4) by fastforce
    then show ?thesis unfolding True by (intro exI [of _ "[]"] exI [of _ es]) simp
  next
    case False
    then obtain c d where "es = c @ ESend i # d" "closed s1 \<or> EClose \<in> set c"
      using Cons.IH [OF n(1) _ _ _ n(2)] Cons.prems(2-4) n(3,5,6) by auto
    then show ?thesis using n(4) by (intro exI [of _ "e # c"] exI [of _ d]) auto
  qed
qed (use assms in simp)

text \<open>A sender panics only when the stop comes between its check and its send.\<close>

lemma panic_needs_stop:
  assumes "race check send stop other es (s, ss) = Some (s', ss')" and "ss ! i = SCheck m" and "i < length ss"
    and "ss' ! i = SDone (Panic q)" and "inv s" and "closed s \<longrightarrow> stopping s" and lawful
  shows "\<exists>a b c d. es = a @ ECheck i # b @ EClose # c @ ESend i # d"
  using assms(1-6)
proof (induction es arbitrary: s ss)
  case (Cons e es)
  from race_step [OF Cons.prems(1,5) assms(7)] obtain s1 ss1 where
    n: "race check send stop other es (s1, ss1) = Some (s', ss')" "inv s1" "length ss1 = length ss"
      "e \<noteq> EClose \<longrightarrow> closed s1 = closed s" "closed s1 \<longrightarrow> stopping s1" "e \<noteq> ESend i"
      "e \<noteq> ECheck i \<longrightarrow> ss1 ! i = ss ! i"
      "e = ECheck i \<longrightarrow> (\<exists>p. ss1 ! i = SSend p \<and> \<not> stopping s) \<or> (\<exists>f. ss1 ! i = SDone (Fail f))"
    using Cons.prems(2,6) by (metis sender.distinct(1))
  show ?case
  proof (cases "e = ECheck i")
    case True
    then obtain p where p: "ss1 ! i = SSend p" "\<not> closed s1"
      using n(4,8) race_done [OF n(1)] Cons.prems(4,6) by fastforce
    with send_panics [OF n(1) p(1) _ Cons.prems(4) n(2) assms(7)] Cons.prems(3) n(3) obtain c d where
      cd: "es = c @ ESend i # d" "EClose \<in> set c" by auto
    from cd(2) obtain b c' where "c = b @ EClose # c'" by (auto dest: split_list)
    with cd(1) True show ?thesis by (intro exI [of _ "[]"] exI [of _ b] exI [of _ c'] exI [of _ d]) simp
  next
    case False
    then obtain a b c d where "es = a @ ECheck i # b @ EClose # c @ ESend i # d"
      using Cons.IH [OF n(1)] Cons.prems(2-4) n(2,3,5,7) by auto
    then show ?thesis by (metis append_Cons)
  qed
qed (use assms in simp)

text \<open>And then it does: whatever else happens, a sender that has passed its check and sends after the
  stop panics. A sender whose check comes after the stop does not send at all.\<close>

lemma late_send_panics:
  assumes "race check send stop other es (s, ss) = Some (s', ss')" and "inv s" and lawful and "closed s"
    and "i < length ss" and "ESend i \<in> set es"
  shows "\<exists>q. ss' ! i = SDone (Panic q)"
  using assms(1,2,4-6)
proof (induction es arbitrary: s ss)
  case (Cons e es)
  from race_step [OF Cons.prems(1,2) assms(3)] obtain s1 ss1 where
    n: "race check send stop other es (s1, ss1) = Some (s', ss')" "inv s1" "length ss1 = length ss" "closed s1"
      "e = ESend i \<longrightarrow> (\<exists>q. ss1 ! i = SDone (Panic q))"
    using Cons.prems(3) by metis
  show ?case
  proof (cases "e = ESend i")
    case True
    then show ?thesis using n(5) race_done [OF n(1)] by metis
  next
    case False
    then show ?thesis using Cons.IH [OF n(1,2,4)] Cons.prems(4,5) n(3) by simp
  qed
qed simp

lemma stop_then_send_panics:
  assumes "race check send stop other (b @ EClose # c) (s, ss) = Some (s', ss')" and "inv s" and lawful
    and "closed s \<or> can_stop s" and "i < length ss" and "ESend i \<in> set c"
  shows "\<exists>q. ss' ! i = SDone (Panic q)"
  using assms(1,2,4,5)
proof (induction b arbitrary: s ss)
  case Nil
  then have "closed (stop s)" "inv (stop s)" using stop_closes stop_stopping assms(3) by blast+
  with Nil show ?case using late_send_panics [of c "stop s" ss s' ss' i] assms(3,6) by simp
next
  case (Cons e b)
  from race_step [OF Cons.prems(1) [unfolded append_Cons] Cons.prems(2) assms(3)] obtain s1 ss1 where
    n: "race check send stop other (b @ EClose # c) (s1, ss1) = Some (s', ss')" "inv s1" "length ss1 = length ss" "closed s1 \<or> can_stop s1"
    using Cons.prems(3) by metis
  then show ?case using Cons.IH [OF n(1,2,4)] Cons.prems(4) by simp
qed

text \<open>So a sender panics in exactly the interleavings in which the stop comes between its check and
  its send.\<close>

lemma panic_iff:
  assumes "race check send stop other es (s, ss) = Some (s', ss')" and "ss ! i = SCheck m" and "i < length ss"
    and "inv s" and "closed s \<longrightarrow> stopping s" and "closed s \<or> can_stop s" and lawful
  shows "(\<exists>q. ss' ! i = SDone (Panic q)) \<longleftrightarrow> (\<exists>a b c d. es = a @ ECheck i # b @ EClose # c @ ESend i # d)"
proof
  assume "\<exists>q. ss' ! i = SDone (Panic q)"
  then show "\<exists>a b c d. es = a @ ECheck i # b @ EClose # c @ ESend i # d"
    using panic_needs_stop [OF assms(1-3) _ assms(4,5,7)] by blast
next
  assume "\<exists>a b c d. es = a @ ECheck i # b @ EClose # c @ ESend i # d"
  then obtain a b c d where "es = (a @ ECheck i # b) @ EClose # c @ ESend i # d" by auto
  with stop_then_send_panics [of "a @ ECheck i # b" "c @ ESend i # d" s ss s' ss' i] assms show "\<exists>q. ss' ! i = SDone (Panic q)"
    by simp
qed

text \<open>Such interleavings exist: with other senders around, a sender that has passed its check goes on to
  panic when the stop comes next.\<close>

lemma stop_between_panics:
  assumes "inv s" and "check m s = (Ok p, s1)" and "can_stop s" and lawful and "i < length ss" and "ss ! i = SCheck m"
  shows "\<exists>s' q. race check send stop other [ECheck i, EClose, ESend i] (s, ss) = Some (s', ss[i := SDone (Panic q)])"
proof -
  have s1: "inv s1" "can_stop s1" using check_keeps [OF assms(1,2)] assms(3) by simp_all
  from send_closed [OF _ stop_closes [OF s1(1) assms(4)], of p] s1(2) stop_stopping [OF s1(1) assms(4)]
  obtain q where "send p (stop s1) = Some (Panic q, stop s1)" by blast
  then show ?thesis using assms(2,5,6) by auto
qed

end


section \<open>Pushing replies\<close>

text \<open>\<^verbatim>\<open>Push\<close> of a worker in two parts.\<close>

definition push_check :: "('st, 'cd) sync_ops \<Rightarrow> bytes \<Rightarrow> ('b, 'st, 'cd) worker \<Rightarrow> bytes res \<times> ('b, 'st, 'cd) worker" where
  "push_check S out w =
     (if IsStopping S (w_stopper w) then (Fail (Err ''worker is stopping'' []), w)
      else if length out \<le> 0 then (Fail (Err ''push msg len <= 0'' []), w)
      else (Ok out, w))"

definition push_send :: "bytes \<Rightarrow> ('b, 'st, 'cd) worker \<Rightarrow> (unit res \<times> ('b, 'st, 'cd) worker) option" where
  "push_send out w =
     (if replyClosed w then Some (Panic ''send on closed channel'', w)
      else if int (length (replyChan w)) \<ge> ReplyChanSize (w_conf w) then None
      else Some (Ok (), w\<lparr>replyChan := replyChan w @ [out]\<rparr>))"

lemma wk_Push_parts:
  "wk_Push S out w = (case push_check S out w of (Ok p, w1) \<Rightarrow> push_send p w1 | (Fail e, w1) \<Rightarrow> Some (Fail e, w1)
     | (Panic q, w1) \<Rightarrow> Some (Panic q, w1))"
  by (simp add: wk_Push_def push_check_def push_send_def)

text \<open>Meanwhile the writing loop writes a reply (0) or a stop is triggered (1).\<close>

definition worker_env :: "('st, 'cd) sync_ops \<Rightarrow> 'b aes \<Rightarrow> conn_write \<Rightarrow> middleware option \<Rightarrow> nat \<Rightarrow> ('b, 'st, 'cd) worker \<Rightarrow>
    ('b, 'st, 'cd) worker" where
  "worker_env S E wr flt k w =
     (if k = 0 then (case writePackLoop_round E wr flt w of Some (_, w1) \<Rightarrow> w1 | None \<Rightarrow> w)
      else w\<lparr>w_stopper := TriggerStop S (w_stopper w)\<rparr>)"

definition close_replies :: "('st, 'cd) sync_ops \<Rightarrow> ('b, 'st, 'cd) worker \<Rightarrow> ('b, 'st, 'cd) worker" where
  "close_replies S w = snd (stop_begin S w)"

lemma write_round_replyClosed:
  assumes "writePackLoop_round E wr flt w = Some (rd, w')"
  shows "replyClosed w' = replyClosed w"
proof (cases "replyChan w")
  case Nil
  with assms show ?thesis by (auto simp: writePackLoop_round_def Let_def split: if_splits)
next
  case (Cons pk rest)
  let ?v = "w\<lparr>replyChanStarted := True, replyChan := rest\<rparr>"
  obtain r w1 where w1: "writePack E wr flt pk ?v = (r, w1)" by (metis prod.collapse)
  show ?thesis
    using assms Cons w1 writePack_replyClosed [of E wr flt pk ?v]
    by (auto simp: writePackLoop_round_def Let_def split: round.splits)
qed

lemma worker_env_keeps:
  assumes "sync_laws S"
  shows "replyClosed (worker_env S E wr flt k w) = replyClosed w"
    and "IsStopping S (w_stopper w) \<Longrightarrow> IsStopping S (w_stopper (worker_env S E wr flt k w))"
    and "fst (DoStop S (w_stopper (worker_env S E wr flt k w))) = fst (DoStop S (w_stopper w))"
  using assms write_round_replyClosed [of E wr flt w] write_round_same [of E wr flt w]
  by (auto simp: worker_env_def sync_laws_def split: option.splits)

interpretation pushing: guarded_channel "push_check S" push_send "close_replies S" "worker_env S E wr flt"
    "\<lambda>w. True" "\<lambda>w. IsStopping S (w_stopper w)" replyClosed "\<lambda>w. fst (DoStop S (w_stopper w))" "sync_laws S"
  for S :: "('st, 'cd) sync_ops" and E :: "'b aes" and wr flt
proof (unfold_locales, goal_cases)
  case (1 s m r s')
  then show ?case by (auto simp: push_check_def split: if_splits)
next
  case (5 s p u s')
  then show ?case by (auto simp: push_send_def split: if_splits)
next
  case (6 s)
  then show ?case by (auto simp: close_replies_def stop_begin_def split: prod.splits bool.splits)
next
  case (7 s)
  then have "IsStopping S (snd (DoStop S (w_stopper s)))" using DoStop_once(1) [of S "w_stopper s"] by simp
  then show ?case by (auto simp: close_replies_def stop_begin_def split: prod.splits bool.splits)
next
  case (8 s k)
  then show ?case using worker_env_keeps by blast
qed (simp_all add: push_check_def push_send_def)

text \<open>
  C24: A push races with the stop of its worker. In every interleaving of any number of pushes of
  replies with written replies, triggered stops and stops of the worker, a push panics on the
  closed channel if and only if a stop comes between its check and its send; and for every
  non-empty reply there is such an interleaving, in which the stop comes right after the check.
\<close>

theorem push_races_with_stop:
  assumes "sync_laws S" and "\<not> IsStopping S (w_stopper w)" and "fst (DoStop S (w_stopper w))" and "\<not> replyClosed w"
  shows "(\<forall>es outs w' ss i. race (push_check S) push_send (close_replies S) (worker_env S E wr flt) es (w, map SCheck outs) = Some (w', ss) \<and>
      i < length outs \<longrightarrow>
      ((\<exists>q. ss ! i = SDone (Panic q)) \<longleftrightarrow> (\<exists>a b c d. es = a @ ECheck i # b @ EClose # c @ ESend i # d))) \<and>
    (\<forall>outs i. i < length outs \<and> outs ! i \<noteq> [] \<longrightarrow>
      (\<exists>w' q. race (push_check S) push_send (close_replies S) (worker_env S E wr flt) [ECheck i, EClose, ESend i] (w, map SCheck outs)
        = Some (w', (map SCheck outs)[i := SDone (Panic q)])))"
proof (intro conjI allI impI)
  fix es outs w' ss i
  assume "race (push_check S) push_send (close_replies S) (worker_env S E wr flt) es (w, map SCheck outs) = Some (w', ss) \<and> i < length outs"
  then show "(\<exists>q. ss ! i = SDone (Panic q)) \<longleftrightarrow> (\<exists>a b c d. es = a @ ECheck i # b @ EClose # c @ ESend i # d)"
    using pushing.panic_iff [of S E wr flt es w "map SCheck outs" w' ss i "outs ! i"] assms(1,3,4) by simp
next
  fix outs :: "bytes list" and i
  assume i: "i < length outs \<and> outs ! i \<noteq> []"
  then have "push_check S (outs ! i) w = (Ok (outs ! i), w)" using assms(2) by (simp add: push_check_def)
  from pushing.stop_between_panics [OF TrueI this assms(3,1), of i "map SCheck outs"] i
  show "\<exists>w' q. race (push_check S) push_send (close_replies S) (worker_env S E wr flt) [ECheck i, EClose, ESend i] (w, map SCheck outs)
        = Some (w', (map SCheck outs)[i := SDone (Panic q)])" by simp
qed

theorem push_races_with_stop_witness:
  "\<exists>w' q. race (push_check flag_sync) push_send (close_replies flag_sync) (worker_env flag_sync (\<lambda>k b x. Ok x) (\<lambda>_. None) None)
     [ECheck 1, EClose, ESend 1] (plain_worker, map SCheck [[1], [2]]) = Some (w', [SCheck [1], SDone (Panic q)])"
proof -
  have "\<not> IsStopping flag_sync (w_stopper plain_worker)" "fst (DoStop flag_sync (w_stopper plain_worker))" "\<not> replyClosed plain_worker"
    by (simp_all add: plain_worker_def flag_sync_def)
  from conjunct2 [OF push_races_with_stop [OF flag_sync_laws this, of "\<lambda>k b x. Ok x" "\<lambda>_. None" None], rule_format, of 1 "[[1], [2]]"]
  show ?thesis by (simp del: race.simps)
qed


section \<open>Forwarding packets\<close>

text \<open>\<^verbatim>\<open>Forward\<close> of a tunnel until it sends; \<open>ch\<close> chooses the pooled message.\<close>

definition forward_prepare :: "('st, 'cd) sync_ops \<Rightarrow> nat \<Rightarrow> nat option \<times> fmsg \<Rightarrow> ('b, 'st, 'cd) gate \<Rightarrow> fmsg res \<times> ('b, 'st, 'cd) gate" where
  "forward_prepare S t m g =
     (case m of (ch, p) \<Rightarrow>
        if IsStopping S (t_stopper (tunnels g ! t)) then (Fail ErrTunnelStopped, g) else t_transform ch t p g)"

lemma Forward_parts:
  "Forward S ch t p g = (case forward_prepare S t (ch, p) g of (Ok msg, g1) \<Rightarrow> csChan_send t msg g1
     | (Fail e, g1) \<Rightarrow> Some (Fail e, g1) | (Panic q, g1) \<Rightarrow> Some (Panic q, g1))"
  by (auto simp: Forward_def forward_prepare_def split: prod.splits res.splits)

text \<open>Meanwhile the loop of the tunnel sends a message to the service (0) or a stop is triggered (1).\<close>

definition tunnel_env :: "('st, 'cd) sync_ops \<Rightarrow> nat \<Rightarrow> nat \<Rightarrow> ('b, 'st, 'cd) gate \<Rightarrow> ('b, 'st, 'cd) gate" where
  "tunnel_env S t k g =
     (if k = 0 then (case csLoop_round (CSMsg None) t g of Some (_, g1) \<Rightarrow> g1 | None \<Rightarrow> g)
      else g\<lparr>tunnels := (tunnels g)[t := (tunnels g ! t)\<lparr>t_stopper := TriggerStop S (t_stopper (tunnels g ! t))\<rparr>]\<rparr>)"

lemma t_transform_tunnels: "t_transform ch t p g = (r, g') \<Longrightarrow> tunnels g' = tunnels g"
  by (cases p; cases "t_app (tunnels g ! t)") (auto simp: t_transform_def Let_def split: prod.splits)

lemma t_transform_no_panic: "fst (t_transform ch t p g) \<noteq> Panic q"
  by (cases p) (simp_all add: t_transform_def split: prod.splits)


lemma tunnel_stop_at:
  assumes "t < length (tunnels g)"
  shows "length (tunnels (tunnel_stop S t g)) = length (tunnels g)"
    and "csClosed (tunnels (tunnel_stop S t g) ! t) = (csClosed (tunnels g ! t) \<or> fst (DoStop S (t_stopper (tunnels g ! t))))"
    and "t_stopper (tunnels (tunnel_stop S t g) ! t) = snd (DoStop S (t_stopper (tunnels g ! t)))"
  using assms by (auto simp: tunnel_stop_def Let_def case_prod_unfold)

lemma tunnel_env_keeps:
  fixes g :: "('b, 'st, 'cd) gate"
  assumes "sync_laws S" and "t < length (tunnels g)"
  shows "length (tunnels (tunnel_env S t k g)) = length (tunnels g)"
    and "csClosed (tunnels (tunnel_env S t k g) ! t) = csClosed (tunnels g ! t)"
    and "IsStopping S (t_stopper (tunnels g ! t)) \<Longrightarrow> IsStopping S (t_stopper (tunnels (tunnel_env S t k g) ! t))"
    and "fst (DoStop S (t_stopper (tunnels (tunnel_env S t k g) ! t))) = fst (DoStop S (t_stopper (tunnels g ! t)))"
proof -
  have "length (tunnels (tunnel_env S t k g)) = length (tunnels g) \<and>
    csClosed (tunnels (tunnel_env S t k g) ! t) = csClosed (tunnels g ! t) \<and>
    (IsStopping S (t_stopper (tunnels g ! t)) \<longrightarrow> IsStopping S (t_stopper (tunnels (tunnel_env S t k g) ! t))) \<and>
    fst (DoStop S (t_stopper (tunnels (tunnel_env S t k g) ! t))) = fst (DoStop S (t_stopper (tunnels g ! t)))"
  proof (cases "k = 0")
    case True
    show ?thesis
    proof (cases "csLoop_round (CSMsg None) t g")
      case None
      with True show ?thesis by (simp add: tunnel_env_def del: csLoop_round.simps)
    next
      case (Some x)
      obtain r g' where x: "x = (r, g')" by fastforce
      have "tunnel_env S t k g = g'" using True Some x by (simp add: tunnel_env_def del: csLoop_round.simps)
      with csMsg_round(1) [OF Some [unfolded x] assms(2)] assms(2) show ?thesis by simp
    qed
  next
    case False
    then show ?thesis using assms by (simp add: tunnel_env_def sync_laws_def)
  qed
  then show "length (tunnels (tunnel_env S t k g)) = length (tunnels g)"
    "csClosed (tunnels (tunnel_env S t k g) ! t) = csClosed (tunnels g ! t)"
    "IsStopping S (t_stopper (tunnels g ! t)) \<Longrightarrow> IsStopping S (t_stopper (tunnels (tunnel_env S t k g) ! t))"
    "fst (DoStop S (t_stopper (tunnels (tunnel_env S t k g) ! t))) = fst (DoStop S (t_stopper (tunnels g ! t)))"
    by blast+
qed

interpretation forwarding: guarded_channel "forward_prepare S t" "csChan_send t" "tunnel_stop S t" "tunnel_env S t"
    "\<lambda>g. t < length (tunnels g)" "\<lambda>g. IsStopping S (t_stopper (tunnels g ! t))" "\<lambda>g. csClosed (tunnels g ! t)"
    "\<lambda>g. fst (DoStop S (t_stopper (tunnels g ! t)))" "sync_laws S"
  for S :: "('st, 'cd) sync_ops" and t
proof (unfold_locales, goal_cases)
  case (1 s m r s')
  then have "tunnels s' = tunnels s"
    by (cases m) (auto simp: forward_prepare_def t_transform_tunnels split: if_splits)
  then show ?case using 1 by simp
next
  case (2 s m p)
  then show ?case by (cases m) (simp add: forward_prepare_def)
next
  case (3 s m q)
  then show ?case by (cases m) (simp add: forward_prepare_def t_transform_no_panic)
next
  case (4 s p)
  then show ?case by (simp add: csChan_send_def Let_def)
next
  case (5 s p u s')
  then show ?case by (auto simp: csChan_send_def Let_def split: if_splits)
next
  case (6 s)
  then show ?case by (simp add: tunnel_stop_at)
next
  case (7 s)
  then show ?case using DoStop_once(1) by (simp add: tunnel_stop_at)
next
  case (8 s k)
  then show ?case using tunnel_env_keeps [of S t s k] by simp
qed

text \<open>
  C25: Forwarding a packet races with the stop of its tunnel. In every interleaving of any number
  of packets being forwarded with messages sent to the service, triggered stops and stops of the
  tunnel (for instance because the stream to the service has failed), forwarding a packet panics
  on the closed channel if and only if a stop comes between its check and its send; and for every
  packet there is such an interleaving, in which the stop comes right after the check.
\<close>

theorem forward_races_with_stop:
  assumes "sync_laws S" and "t < length (tunnels g)" and "\<not> IsStopping S (t_stopper (tunnels g ! t))"
    and "fst (DoStop S (t_stopper (tunnels g ! t)))" and "\<not> csClosed (tunnels g ! t)"
  shows "(\<forall>es ms g' ss i. race (forward_prepare S t) (csChan_send t) (tunnel_stop S t) (tunnel_env S t) es (g, map SCheck ms) = Some (g', ss) \<and>
      i < length ms \<longrightarrow>
      ((\<exists>q. ss ! i = SDone (Panic q)) \<longleftrightarrow> (\<exists>a b c d. es = a @ ECheck i # b @ EClose # c @ ESend i # d))) \<and>
    (\<forall>ms i ch pk. i < length ms \<and> ms ! i = (ch, FPacket pk) \<longrightarrow>
      (\<exists>g' q. race (forward_prepare S t) (csChan_send t) (tunnel_stop S t) (tunnel_env S t) [ECheck i, EClose, ESend i] (g, map SCheck ms)
        = Some (g', (map SCheck ms)[i := SDone (Panic q)])))"
proof (intro conjI allI impI)
  fix es ms g' ss i
  assume "race (forward_prepare S t) (csChan_send t) (tunnel_stop S t) (tunnel_env S t) es (g, map SCheck ms) = Some (g', ss) \<and> i < length ms"
  then show "(\<exists>q. ss ! i = SDone (Panic q)) \<longleftrightarrow> (\<exists>a b c d. es = a @ ECheck i # b @ EClose # c @ ESend i # d)"
    using forwarding.panic_iff [of S t es g "map SCheck ms" g' ss i "ms ! i"] assms(1,2,4,5) by simp
next
  fix ms :: "(nat option \<times> fmsg) list" and i ch pk
  assume i: "i < length ms \<and> ms ! i = (ch, FPacket pk)"
  obtain msg g1 where "t_transform ch t (FPacket pk) g = (Ok msg, g1)"
    by (cases "TransformMessage ch (t_app (tunnels g ! t)) pk g") (simp add: t_transform_def)
  then have "forward_prepare S t (ch, FPacket pk) g = (Ok msg, g1)" using assms(3) by (simp add: forward_prepare_def)
  from forwarding.stop_between_panics [OF assms(2) this assms(4,1), of i "map SCheck ms"] i
  show "\<exists>g' q. race (forward_prepare S t) (csChan_send t) (tunnel_stop S t) (tunnel_env S t) [ECheck i, EClose, ESend i] (g, map SCheck ms)
        = Some (g', (map SCheck ms)[i := SDone (Panic q)])" by simp
qed

theorem forward_races_with_stop_witness:
  "\<exists>g' q. race (forward_prepare flag_sync 0) (csChan_send 0) (tunnel_stop flag_sync 0) (tunnel_env flag_sync 0)
     [ECheck 0, EClose, ESend 0] (one_room, map SCheck [(None, FPacket zero_packet)]) = Some (g', [SDone (Panic q)])"
proof -
  have "0 < length (tunnels one_room)" "\<not> IsStopping flag_sync (t_stopper (tunnels one_room ! 0))"
    "fst (DoStop flag_sync (t_stopper (tunnels one_room ! 0)))" "\<not> csClosed (tunnels one_room ! 0)"
    by (simp_all add: one_room_def flag_sync_def)
  from conjunct2 [OF forward_races_with_stop [OF flag_sync_laws this], rule_format, of 0 "[(None, FPacket zero_packet)]" None zero_packet]
  show ?thesis by (simp del: race.simps)
qed

end
