(* ===== verification/Tcp_Client.thy ===== *)
theory Tcp_Client
  imports Frame App_Tunnel
begin

text \<open>
  The TCP client (\<^verbatim>\<open>pkg/net/tcp/client/client.go\<close>). The channel of received packets holds
  slices, that is views of the buffer of the reader, as in the code. \<open>resolve\<close> and \<open>dial\<close> are the
  outcomes of resolving the address and connecting (with what the connection will deliver), \<open>wr\<close>
  that of writing to the connection.
\<close>

section \<open>State and operations\<close>

definition ErrTimeout :: gerr where "ErrTimeout = Err ''i/o timeout'' []"

record 'st client =
  cl_stopper :: 'st
  cl_Id :: int64
  cl_bind :: string
  cl_reader :: "reader option"
  cl_sent :: bytes
  receivePackChan :: "slice option list"
  receiveClosed :: bool

text \<open>An option is a function on the client; the options are applied in their order.\<close>

type_synonym 'st client_option = "'st client \<Rightarrow> 'st client"

definition client_Bind :: "string \<Rightarrow> 'st client_option" where
  "client_Bind b s = s\<lparr>cl_bind := b\<rparr>"

definition NewClient :: "('st, 'cd) sync_ops \<Rightarrow> int64 \<Rightarrow> 'st client_option list \<Rightarrow> 'st client" where
  "NewClient S i opts =
     (foldl (\<lambda>c o1. o1 c)
       \<lparr>cl_stopper = NewStopper S (second * 10), cl_Id = i, cl_bind = [], cl_reader = None, cl_sent = [],
        receivePackChan = [], receiveClosed = False\<rparr> opts)\<lparr>receivePackChan := [], receiveClosed := False\<rparr>"

definition client_Start :: "(string \<Rightarrow> string res) \<Rightarrow> (string \<Rightarrow> rdev list res) \<Rightarrow> nat option \<Rightarrow> 'st client \<Rightarrow> mem \<Rightarrow>
    unit res \<times> 'st client \<times> mem" where
  "client_Start resolve dial ch c m =
     (case resolve (cl_bind c) of
        Fail e \<Rightarrow> (Fail (Wrap ''resolved failed. cli=%d addr=%s'' [AInt (sint (cl_Id c)), AStr (cl_bind c)] e), c, m)
      | Panic p \<Rightarrow> (Panic p, c, m)
      | Ok addr \<Rightarrow>
          (case dial addr of
             Fail e \<Rightarrow> (Fail (Wrap ''connect failed. cli=%d addr=%s'' [AInt (sint (cl_Id c)), AStr (cl_bind c)] e), c, m)
           | Panic p \<Rightarrow> (Panic p, c, m)
           | Ok input \<Rightarrow>
               (case NewReader ch input 4096 m of
                  (Ok r, m1) \<Rightarrow> (Ok (), c\<lparr>cl_reader := Some r\<rparr>, m1)
                | (Fail e, m1) \<Rightarrow> (Fail e, c, m1)
                | (Panic p, m1) \<Rightarrow> (Panic p, c, m1))))"

definition client_stop :: "('st, 'cd) sync_ops \<Rightarrow> 'st client \<Rightarrow> mem \<Rightarrow> 'st client \<times> mem" where
  "client_stop S c m =
     (case DoStop S (cl_stopper c) of
        (False, st) \<Rightarrow> (c\<lparr>cl_stopper := st\<rparr>, m)
      | (True, st) \<Rightarrow>
          (case cl_reader c of
             None \<Rightarrow> (c\<lparr>cl_stopper := st, receiveClosed := True\<rparr>, m)
           | Some r \<Rightarrow>
               (case Close r m of
                  (_, r1, m1) \<Rightarrow> (c\<lparr>cl_stopper := st, cl_reader := Some r1, receiveClosed := True\<rparr>, m1))))"

text \<open>One round of \<^verbatim>\<open>readPackLoop\<close>; \<open>None\<close> blocks on the full channel. The client has a reader
  from its start on.\<close>

definition client_read_round :: "nat option \<Rightarrow> nat option \<Rightarrow> 'st client \<Rightarrow> mem \<Rightarrow> (unit res \<times> 'st client \<times> mem) option" where
  "client_read_round ch1 ch2 c m =
     (case cl_reader c of
        None \<Rightarrow> Some (Panic ''nil pointer dereference'', c, m)
      | Some r \<Rightarrow>
          (case c_read ch1 ch2 r m of
             (Fail e, r1, m1) \<Rightarrow> Some (Fail e, c\<lparr>cl_reader := Some r1\<rparr>, m1)
           | (Panic p, r1, m1) \<Rightarrow> Some (Panic p, c\<lparr>cl_reader := Some r1\<rparr>, m1)
           | (Ok pack, r1, m1) \<Rightarrow>
               let c1 = c\<lparr>cl_reader := Some r1\<rparr> in
               if receiveClosed c1 then Some (Panic ''send on closed channel'', c1, m1)
               else if length (receivePackChan c1) \<ge> 1024 then None
               else Some (Ok (), c1\<lparr>receivePackChan := receivePackChan c1 @ [pack]\<rparr>, m1)))"

text \<open>Start sets the connection together with the reader; before it the connection is nil.\<close>

definition client_write :: "conn_write \<Rightarrow> bytes \<Rightarrow> 'st client \<Rightarrow> unit res \<times> 'st client" where
  "client_write wr pack c =
     (if cl_reader c = None then (Panic ''nil pointer dereference'', c) else
      case conn_Write wr (frame pack) (cl_sent c) of
        (Fail e, sent) \<Rightarrow> (Fail (Wrap ''write pack failed. len=%d'' [AInt (int (length pack))] e), c\<lparr>cl_sent := sent\<rparr>)
      | (r, sent) \<Rightarrow> (r, c\<lparr>cl_sent := sent\<rparr>))"

definition client_Send :: "conn_write \<Rightarrow> bytes \<Rightarrow> 'st client \<Rightarrow> unit res \<times> 'st client" where
  "client_Send wr pack c = client_write wr pack c"

text \<open>Receiving from the channel: the bytes the oldest slice shows at that moment.\<close>

definition client_receive :: "'st client \<Rightarrow> mem \<Rightarrow> (bytes \<times> 'st client) option" where
  "client_receive c m =
     (case receivePackChan c of
        [] \<Rightarrow> None
      | p # ps \<Rightarrow> Some (opt_bytes m p, c\<lparr>receivePackChan := ps\<rparr>))"


section \<open>Received packets\<close>

lemma client_read_round_Ok:
  assumes "cl_reader c = Some r" and "c_read ch1 ch2 r m = (Ok p, r1, m1)" and "\<not> receiveClosed c"
    and "length (receivePackChan c) < 1024"
  shows "client_read_round ch1 ch2 c m = Some (Ok (), c\<lparr>cl_reader := Some r1, receivePackChan := receivePackChan c @ [p]\<rparr>, m1)"
  using assms by (simp add: client_read_round_def Let_def)

text \<open>
  A packet that is received from the channel before the next one arrives is intact. For any
  packet shorter than 2 ^ 31 bytes and any splitting of the stream, one round of the reading loop
  followed by a receive returns exactly the packet, and what follows it in the stream is left to
  be read.
\<close>

theorem client_receives_packet:
  assumes "cl_reader c = Some r" and "reader_inv r m" and "pending m r = frame pk @ rest" and "length pk < 2 ^ 31"
    and "\<not> receiveClosed c" and "receivePackChan c = []"
  shows "\<exists>c1 m1 r1 c2. client_read_round ch1 ch2 c m = Some (Ok (), c1, m1) \<and> client_receive c1 m1 = Some (pk, c2) \<and>
    cl_reader c2 = Some r1 \<and> pending m1 r1 = rest \<and> reader_inv r1 m1"
proof -
  from gate_source.c_read_frame [OF assms(2,3,4), of ch1 ch2] obtain s r1 m1 where
    "c_read ch1 ch2 r m = (Ok (Some s), r1, m1)" "slice_bytes (hp m1) s = pk" "pending m1 r1 = rest" "reader_inv r1 m1"
    by blast
  then show ?thesis
    using assms(1,5,6) by (auto simp: client_read_round_def client_receive_def Let_def)
qed

theorem client_receives_packet_witness:
  "\<exists>c m c1 m1 c2. client_read_round None None (c :: (bool \<times> bool) client) m = Some (Ok (), c1, m1) \<and> client_receive c1 m1 = Some ([65, 66], c2)"
proof -
  obtain r m where r: "reader_inv r m" "pending m r = stream [RData (frame [65, 66])]"
    using fresh_reader by blast
  let ?c = "(NewClient flag_sync 1 [])\<lparr>cl_reader := Some r\<rparr>"
  have "pending m r = frame [65, 66] @ []" using r(2) by simp
  moreover have "cl_reader ?c = Some r" "\<not> receiveClosed ?c" "receivePackChan ?c = []"
    by (simp_all add: NewClient_def client_Bind_def)
  ultimately have "\<exists>c1 m1 r1 c2. client_read_round None None ?c m = Some (Ok (), c1, m1) \<and> client_receive c1 m1 = Some ([65, 66], c2) \<and>
    cl_reader c2 = Some r1 \<and> pending m1 r1 = [] \<and> reader_inv r1 m1"
    using r(1) by (intro client_receives_packet) simp_all
  then show ?thesis by blast
qed

lemma frame_one: "frame [b] = [0, 0, 0, 1, b]"
  by (simp add: frame_def be32_def)

lemma read_loop_enough: "mn \<le> length acc \<Longrightarrow> read_loop room mn acc evs = (acc, None, evs)"
  by (cases "(room, mn, acc, evs)" rule: read_loop.cases) simp_all

text \<open>Reading a packet of one byte that arrives in one piece when the buffer has no unread bytes.\<close>

lemma c_read_one:
  assumes "rbuf r = Some s" and "s_off s = 0" and "s_arr s < length (hp m)" and "s_len s = 4096"
    and "4096 \<le> length (hp m ! s_arr s)" and "rr r = rw r" and "conn r = RData (frame [b]) # evs"
  shows "c_read None None r m =
    (Ok (Some (s\<lparr>s_off := 4, s_len := 1, s_cap := s_cap s - 4\<rparr>)), r\<lparr>conn := evs, rr := 5, rw := 5\<rparr>,
     m\<lparr>hp := write_slice s 0 (frame [b]) (hp m)\<rparr>)"
proof -
  let ?s4 = "s\<lparr>s_off := 0, s_len := 4, s_cap := s_cap s\<rparr>"
  let ?r1 = "r\<lparr>conn := evs, rw := 5, rr := 4\<rparr>" and ?m1 = "m\<lparr>hp := write_slice s 0 (frame [b]) (hp m)\<rparr>"
  have cell: "write_slice s 0 (frame [b]) (hp m) ! s_arr s = [0, 0, 0, 1, b] @ drop 5 (hp m ! s_arr s)"
    using assms(2,3) by (simp add: write_slice_def splice_at_def frame_one numeral_eq_Suc)
  have "compact_buf r m = (r\<lparr>rw := 0, rr := 0\<rparr>, m)"
    using assms(1,6) by (simp add: compact_buf_def buf_window_def buf_store_def write_slice_def Let_def)
  moreover have "readAtLeast 4 (r\<lparr>rw := 0, rr := 0\<rparr>) m = (Ok (), r\<lparr>conn := evs, rw := 5, rr := 0\<rparr>, ?m1)"
    using assms(1,4,7) by (simp add: readAtLeast_def io_ReadAtLeast_def capLeft_def buf_len_def buf_store_def frame_one read_loop_enough)
  ultimately have one: "ReadFull None PackLenSize r m = (Ok (Some ?s4), ?r1, ?m1)"
    using assms(1,2,4,6) by (simp add: ReadFull_def PackLenSize_def unreadBytes_def buf_len_def take_slice_def Let_def)
  have "un_be32 (opt_bytes ?m1 (Some ?s4)) = 1"
    by (simp add: slice_bytes_def cell)
  moreover have "ReadFull None 1 ?r1 ?m1 = (Ok (Some (s\<lparr>s_off := 4, s_len := 1, s_cap := s_cap s - 4\<rparr>)), r\<lparr>conn := evs, rr := 5, rw := 5\<rparr>, ?m1)"
    using assms(1,2) by (simp add: ReadFull_def unreadBytes_def take_slice_def)
  ultimately show ?thesis
    by (simp add: c_read_def one Let_def)
qed

text \<open>
  C40: A packet that waits in the channel is overwritten by the next one. There is a connection
  that delivers two different packets, one after the other, such that a freshly started client
  reads both into its channel without error, and receiving them afterwards gives the second
  packet twice: the first slice shows the buffer of the reader, which the second read reuses.
\<close>

theorem client_packet_overwritten:
  "\<exists>c m c1 m1 c2 m2 c3 c4.
     client_Start Ok (\<lambda>_. Ok [RData (frame [65]), RData (frame [66])]) None (NewClient flag_sync 1 [client_Bind ''gate'']) (fresh_mem the_pool) = (Ok (), c, m) \<and>
     client_read_round None None c m = Some (Ok (), c1, m1) \<and> client_read_round None None c1 m1 = Some (Ok (), c2, m2) \<and>
     client_receive c2 m2 = Some ([66], c3) \<and> client_receive c3 m2 = Some ([66], c4)"
proof -
  let ?in = "[RData (frame [65]), RData (frame [66])]"
  let ?c0 = "NewClient flag_sync 1 [client_Bind ''gate'']"
  have c0: "cl_bind ?c0 = ''gate''" "receiveClosed ?c0 = False" "receivePackChan ?c0 = []"
    by (simp_all add: NewClient_def client_Bind_def)
  obtain s m where a: "Alloc None 4096 (fresh_mem the_pool) = (Ok s, m)" "buf_held m s" "s_len s = 4096"
    using reader_mem.alloc_ok [OF mem_inv_fresh reader_mem.pow2_ok, of None 12] by auto
  note wf = reader_mem.held_wf [OF a(2)]
  let ?r = "\<lparr>conn = ?in, rbuf = Some s, rw = 0, rr = 0, cleanedUp = False\<rparr>"
  let ?sl = "s\<lparr>s_off := 4, s_len := 1, s_cap := s_cap s - 4\<rparr>"
  let ?r1 = "?r\<lparr>conn := [RData (frame [66])], rr := 5, rw := 5\<rparr>" and ?m1 = "m\<lparr>hp := write_slice s 0 (frame [65]) (hp m)\<rparr>"
  let ?r2 = "?r\<lparr>conn := [], rr := 5, rw := 5\<rparr>" and ?m2 = "?m1\<lparr>hp := write_slice s 0 (frame [66]) (hp ?m1)\<rparr>"
  have start: "client_Start Ok (\<lambda>_. Ok ?in) None ?c0 (fresh_mem the_pool) = (Ok (), ?c0\<lparr>cl_reader := Some ?r\<rparr>, m)"
    by (simp add: client_Start_def NewReader_def a(1))
  have one: "c_read None None ?r m = (Ok (Some ?sl), ?r1, ?m1)"
    using c_read_one [of ?r s m 65 "[RData (frame [66])]"] wf a(3) by simp
  have len: "length (hp ?m1 ! s_arr s) = length (hp m ! s_arr s)" "s_arr s < length (hp ?m1)"
    using wf a(3) by (simp_all add: frame_one)
  have two: "c_read None None ?r1 ?m1 = (Ok (Some ?sl), ?r2, ?m2)"
    using c_read_one [of ?r1 s ?m1 66 "[]"] wf a(3) len by simp
  have cell: "hp ?m2 ! s_arr s = [0, 0, 0, 1, 66] @ drop 5 (hp ?m1 ! s_arr s)"
    using wf len(2) by (simp add: write_slice_def splice_at_def frame_one numeral_eq_Suc)
  have view: "slice_bytes (hp ?m2) ?sl = [66]"
    unfolding slice_bytes_def using cell by simp
  let ?c1 = "?c0\<lparr>cl_reader := Some ?r1, receivePackChan := [Some ?sl]\<rparr>"
  let ?c2 = "?c0\<lparr>cl_reader := Some ?r2, receivePackChan := [Some ?sl, Some ?sl]\<rparr>"
  have "client_read_round None None (?c0\<lparr>cl_reader := Some ?r\<rparr>) m = Some (Ok (), ?c1, ?m1)"
    using client_read_round_Ok [OF _ one, of "?c0\<lparr>cl_reader := Some ?r\<rparr>"] c0 by simp
  moreover have "client_read_round None None ?c1 ?m1 = Some (Ok (), ?c2, ?m2)"
    using client_read_round_Ok [OF _ two, of ?c1] c0 by simp
  moreover have "client_receive ?c2 ?m2 = Some ([66], ?c2\<lparr>receivePackChan := [Some ?sl]\<rparr>)"
    "client_receive (?c2\<lparr>receivePackChan := [Some ?sl]\<rparr>) ?m2 = Some ([66], ?c2\<lparr>receivePackChan := []\<rparr>)"
    using view by (simp_all add: client_receive_def)
  ultimately show ?thesis using start by blast
qed

end
