(* ===== verification/Client_Run.thy ===== *)
theory Client_Run
  imports Tcp_Client Worker
begin

text \<open>
  The goroutines of the TCP client (\<^verbatim>\<open>Client.receive\<close> in \<^verbatim>\<open>pkg/net/tcp/client/client.go\<close>): one that
  watches for the stop and the reading loop, and beside them the goroutine that sets the deadline
  of the connection when the context of \<^verbatim>\<open>Start\<close> ends and a user of the client, who receives
  packets and may trigger the stop. A round of the reading loop is one step: what a
  stop does to a read that is already waiting for the network is not represented.
\<close>

section \<open>The group\<close>

record 'st crun =
  cr_client :: "'st client"
  cr_mem :: mem
  cr_parent :: "gerr option"
  cr_ctx :: "gerr option"
  cr_err :: "gerr option"
  cr_watch :: goroutine
  cr_read :: goroutine

definition crun_start :: "'st client \<Rightarrow> mem \<Rightarrow> 'st crun" where
  "crun_start c m = \<lparr>cr_client = c, cr_mem = m, cr_parent = None, cr_ctx = None, cr_err = None,
     cr_watch = Running, cr_read = Running\<rparr>"

definition crun_error :: "gerr \<Rightarrow> 'st crun \<Rightarrow> 'st crun" where
  "crun_error e s =
     (case cr_err s of
        Some _ \<Rightarrow> s
      | None \<Rightarrow> s\<lparr>cr_err := Some e, cr_ctx := (case cr_ctx s of None \<Rightarrow> Some Canceled | y \<Rightarrow> y)\<rparr>)"

definition crun_finished :: "'st crun \<Rightarrow> bool" where
  "crun_finished s \<longleftrightarrow> cr_watch s \<noteq> Running \<and> cr_read s \<noteq> Running"

text \<open>A panic of the reading loop is turned into an error by \<^verbatim>\<open>sync.RunSafe\<close>.\<close>

fun read_error :: "unit res \<Rightarrow> gerr option" where
  "read_error (Ok _) = None"
| "read_error (Fail e) = Some e"
| "read_error (Panic p) = Some (Err ''panic: %s'' [AStr p])"

text \<open>A connection whose deadline has passed delivers nothing more: reading it times out. The reading loop
  returns at the first error, so that one time-out is enough.\<close>

definition conn_SetDeadline :: "'st client \<Rightarrow> unit res \<times> 'st client" where
  "conn_SetDeadline c = (Ok (), c\<lparr>cl_reader := map_option (\<lambda>r. r\<lparr>conn := [RErr ErrTimeout]\<rparr>) (cl_reader c)\<rparr>)"

inductive crun_step :: "('st, 'cd) sync_ops \<Rightarrow> 'st crun \<Rightarrow> 'st crun \<Rightarrow> bool" for S where
  watch_stop: "cr_watch s = Running \<Longrightarrow> StopTriggered S (cl_stopper (cr_client s)) \<Longrightarrow>
    client_stop S (cr_client s) (cr_mem s) = (c, m) \<Longrightarrow>
    crun_step S s (crun_error GroupStopping (s\<lparr>cr_client := c, cr_mem := m, cr_watch := Returned (Some GroupStopping)\<rparr>))"
| watch_ctx: "cr_watch s = Running \<Longrightarrow> cr_ctx s = Some e \<Longrightarrow>
    crun_step S s (crun_error e (s\<lparr>cr_watch := Returned (Some e)\<rparr>))"
| read_next: "cr_read s = Running \<Longrightarrow> client_read_round ch1 ch2 (cr_client s) (cr_mem s) = Some (r, c, m) \<Longrightarrow>
    read_error r = None \<Longrightarrow> crun_step S s (s\<lparr>cr_client := c, cr_mem := m\<rparr>)"
| read_return: "cr_read s = Running \<Longrightarrow> client_read_round ch1 ch2 (cr_client s) (cr_mem s) = Some (r, c, m) \<Longrightarrow>
    read_error r = Some e \<Longrightarrow> crun_step S s (crun_error e (s\<lparr>cr_client := c, cr_mem := m, cr_read := Returned (Some e)\<rparr>))"
| parent_done: "cr_parent s = None \<Longrightarrow>
    crun_step S s (s\<lparr>cr_parent := Some e, cr_ctx := (case cr_ctx s of None \<Rightarrow> Some e | y \<Rightarrow> y)\<rparr>)"
| deadline: "SetDeadlineWithContext (cr_parent s) conn_SetDeadline (cr_client s) = Some c \<Longrightarrow>
    crun_step S s (s\<lparr>cr_client := c\<rparr>)"
| received: "client_receive (cr_client s) (cr_mem s) = Some (bs, c) \<Longrightarrow> crun_step S s (s\<lparr>cr_client := c\<rparr>)"
| triggered: "crun_step S s (s\<lparr>cr_client := (cr_client s)\<lparr>cl_stopper := TriggerStop S (cl_stopper (cr_client s))\<rparr>\<rparr>)"

text \<open>The result of \<^verbatim>\<open>receive\<close> with its deferred stop, once both goroutines have returned.\<close>

definition crun_result :: "('st, 'cd) sync_ops \<Rightarrow> 'st crun \<Rightarrow> (unit res \<times> 'st client \<times> mem) option" where
  "crun_result S s =
     (if crun_finished s
      then Some (case cr_err s of None \<Rightarrow> Ok () | Some e \<Rightarrow> Fail e, client_stop S (cr_client s) (cr_mem s))
      else None)"


section \<open>The client is closed exactly once\<close>

lemma crun_error_simps [simp]:
  "cr_client (crun_error e s) = cr_client s" "cr_mem (crun_error e s) = cr_mem s"
  "cr_watch (crun_error e s) = cr_watch s" "cr_read (crun_error e s) = cr_read s" "cr_err (crun_error e s) \<noteq> None"
  by (simp_all add: crun_error_def split: option.splits)

text \<open>The channel is closed when, and only when, the stop has been carried out; with it the reader
  was closed.\<close>

definition client_closed :: "('st, 'cd) sync_ops \<Rightarrow> 'st client \<Rightarrow> bool" where
  "client_closed S c \<longleftrightarrow>
     receiveClosed c = (\<not> fst (DoStop S (cl_stopper c))) \<and>
     (case cl_reader c of None \<Rightarrow> False | Some r \<Rightarrow> cleanedUp r = receiveClosed c)"

lemma readAtLeast_cleanedUp: "readAtLeast n r m = (x, r', m') \<Longrightarrow> cleanedUp r' = cleanedUp r"
  by (auto simp: readAtLeast_def split: prod.splits option.splits)

lemma grow_buf_cleanedUp: "grow_buf ch n r m = (x, r', m') \<Longrightarrow> cleanedUp r' = cleanedUp r"
  by (auto simp: grow_buf_def Let_def split: prod.splits res.splits)

lemma compact_buf_cleanedUp: "compact_buf r m = (r', m') \<Longrightarrow> cleanedUp r' = cleanedUp r"
  by (auto simp: compact_buf_def Let_def)

lemma ReadFull_cleanedUp: "ReadFull ch n r m = (x, r', m') \<Longrightarrow> cleanedUp r' = cleanedUp r"
  by (auto simp: ReadFull_def Let_def take_slice_def split: if_splits prod.splits res.splits
    dest!: readAtLeast_cleanedUp grow_buf_cleanedUp compact_buf_cleanedUp)

lemma c_read_cleanedUp: "c_read ch1 ch2 r m = (x, r', m') \<Longrightarrow> cleanedUp r' = cleanedUp r"
  by (auto simp: c_read_def Let_def split: prod.splits res.splits dest!: ReadFull_cleanedUp)

lemma client_read_round_closed:
  assumes "client_read_round ch1 ch2 c m = Some (x, c', m')" and "client_closed S c"
  shows "client_closed S c'"
proof -
  from assms(2) obtain r where r: "cl_reader c = Some r" "cleanedUp r = receiveClosed c"
    by (auto simp: client_closed_def split: option.splits)
  obtain y r1 m1 where y: "c_read ch1 ch2 r m = (y, r1, m1)" by (metis prod_cases3)
  from c_read_cleanedUp [OF y] r(2) have "cleanedUp r1 = receiveClosed c" by simp
  then show ?thesis
    using assms r(1) y by (auto simp: client_read_round_def client_closed_def Let_def split: res.splits if_splits)
qed

lemma client_stop_closed:
  assumes "sync_laws S" and "client_closed S c" and "client_stop S c m = (c', m')"
  shows "client_closed S c'" and "receiveClosed c'" and "IsStopping S (cl_stopper c')"
proof -
  obtain go st where st: "DoStop S (cl_stopper c) = (go, st)" by (metis prod.exhaust)
  have once: "IsStopping S st" "\<not> fst (DoStop S st)"
    using DoStop_once [OF assms(1), of "cl_stopper c"] by (simp_all add: st)
  from assms(2) obtain r where r: "cl_reader c = Some r" "cleanedUp r = receiveClosed c" "receiveClosed c = (\<not> go)"
    by (auto simp: client_closed_def st split: option.splits)
  have "client_closed S c' \<and> receiveClosed c' \<and> IsStopping S (cl_stopper c')"
  proof (cases go)
    case True
    with assms(3) st r once show ?thesis
      by (auto simp: client_stop_def Close_def client_closed_def)
  next
    case False
    with assms(3) st r once show ?thesis
      by (auto simp: client_stop_def client_closed_def)
  qed
  then show "client_closed S c'" "receiveClosed c'" "IsStopping S (cl_stopper c')" by blast+
qed

definition crun_inv :: "('st, 'cd) sync_ops \<Rightarrow> 'st crun \<Rightarrow> bool" where
  "crun_inv S s \<longleftrightarrow> client_closed S (cr_client s) \<and>
     (cr_watch s \<noteq> Running \<or> cr_read s \<noteq> Running \<longrightarrow> cr_err s \<noteq> None)"

lemma crun_step_inv:
  assumes "crun_step S s s'" and "sync_laws S" and "crun_inv S s"
  shows "crun_inv S s'"
  using assms(1)
proof cases
  case (watch_stop c m)
  with client_stop_closed(1) [OF assms(2) _ watch_stop(4)] assms(3) show ?thesis by (simp add: crun_inv_def)
next
  case (read_next ch1 ch2 r c m)
  with client_read_round_closed [OF read_next(3), of S] assms(3) show ?thesis by (simp add: crun_inv_def)
next
  case (read_return ch1 ch2 r c m e)
  with client_read_round_closed [OF read_return(3), of S] assms(3) show ?thesis by (simp add: crun_inv_def)
next
  case (deadline c)
  then show ?thesis using assms(3)
    by (auto simp: crun_inv_def SetDeadlineWithContext_def conn_SetDeadline_def client_closed_def split: option.splits)
next
  case (received bs c)
  then show ?thesis using assms(3)
    by (auto simp: crun_inv_def client_receive_def client_closed_def split: list.splits option.splits)
next
  case triggered
  then show ?thesis using assms(2,3) by (auto simp: crun_inv_def client_closed_def sync_laws_def split: option.splits)
qed (use assms(3) in \<open>simp_all add: crun_inv_def\<close>)

lemma crun_reach_inv:
  assumes "(crun_step S)\<^sup>*\<^sup>* (crun_start c m) s" and "sync_laws S" and "client_closed S c"
  shows "crun_inv S s"
  using assms(1)
proof (induction rule: rtranclp_induct)
  case base
  then show ?case using assms(3) by (simp add: crun_inv_def crun_start_def)
next
  case (step x y)
  then show ?case using crun_step_inv [OF _ assms(2)] by blast
qed

text \<open>
  C39: A client is closed exactly once. For a started client and any interleaving of its reading
  loop, the watcher, the deadline of the connection, the end of the context, triggered stops and
  receives, the channel of packets is closed if and only if the stop has been carried out, so
  that no later stop closes it again; the reader is closed at the same moment. When both
  goroutines have returned, \<^verbatim>\<open>receive\<close> returns an error and leaves the client stopped, the
  channel closed for its user and the reader closed.
\<close>

theorem client_closed_once:
  assumes "sync_laws S" and "fst (DoStop S (cl_stopper c))" and "\<not> receiveClosed c"
    and "cl_reader c = Some r" and "\<not> cleanedUp r" and "(crun_step S)\<^sup>*\<^sup>* (crun_start c m) s"
  shows "receiveClosed (cr_client s) = (\<not> fst (DoStop S (cl_stopper (cr_client s)))) \<and>
    (\<exists>r1. cl_reader (cr_client s) = Some r1 \<and> cleanedUp r1 = receiveClosed (cr_client s)) \<and>
    (crun_finished s \<longrightarrow> (\<exists>e c2 m2 r2. crun_result S s = Some (Fail e, c2, m2) \<and> receiveClosed c2 \<and>
      IsStopping S (cl_stopper c2) \<and> cl_reader c2 = Some r2 \<and> cleanedUp r2))"
proof -
  have "client_closed S c" using assms(2-5) by (simp add: client_closed_def)
  from crun_reach_inv [OF assms(6,1) this] have inv: "crun_inv S s" .
  then have cl: "client_closed S (cr_client s)" by (simp add: crun_inv_def)
  have "\<exists>e c2 m2 r2. crun_result S s = Some (Fail e, c2, m2) \<and> receiveClosed c2 \<and>
      IsStopping S (cl_stopper c2) \<and> cl_reader c2 = Some r2 \<and> cleanedUp r2" if fin: "crun_finished s"
  proof -
    obtain c2 m2 where st: "client_stop S (cr_client s) (cr_mem s) = (c2, m2)" by (metis prod.exhaust)
    note closed = client_stop_closed [OF assms(1) cl st]
    from closed(1,2) obtain r2 where "cl_reader c2 = Some r2" "cleanedUp r2"
      by (auto simp: client_closed_def split: option.splits)
    moreover obtain e where "cr_err s = Some e"
      using inv fin by (auto simp: crun_inv_def crun_finished_def)
    ultimately show ?thesis using fin st closed(2,3) by (simp add: crun_result_def)
  qed
  then show ?thesis using cl by (auto simp: client_closed_def split: option.splits)
qed

text \<open>A client whose connection is at its end: the reading loop returns, then the watcher.\<close>

definition idle_reader :: reader where
  "idle_reader = \<lparr>conn = [], rbuf = Some \<lparr>s_arr = 0, s_off = 0, s_len = 8, s_cap = 8\<rparr>, rw = 0, rr = 0, cleanedUp = False\<rparr>"

definition idle_client :: "(bool \<times> bool) client" where
  "idle_client = (NewClient flag_sync 1 [])\<lparr>cl_reader := Some idle_reader\<rparr>"

lemma idle_ends:
  "\<exists>s. (crun_step flag_sync)\<^sup>*\<^sup>* (crun_start idle_client m) s \<and> crun_finished s"
proof -
  obtain e r1 m1 where "c_read None None idle_reader m = (Fail e, r1, m1)"
    by (simp add: c_read_def ReadFull_def PackLenSize_def idle_reader_def unreadBytes_def buf_len_def compact_buf_def buf_window_def
        readAtLeast_def io_ReadAtLeast_def capLeft_def Let_def)
  then obtain c1 where rd: "client_read_round None None idle_client m = Some (Fail e, c1, m1)"
    by (simp add: client_read_round_def idle_client_def)
  let ?s1 = "crun_error e ((crun_start idle_client m)\<lparr>cr_client := c1, cr_mem := m1, cr_read := Returned (Some e)\<rparr>)"
  have "crun_step flag_sync (crun_start idle_client m) ?s1"
    using crun_step.read_return [of "crun_start idle_client m" None None "Fail e" c1 m1 e] rd by (simp add: crun_start_def)
  moreover have "crun_step flag_sync ?s1 (crun_error Canceled (?s1\<lparr>cr_watch := Returned (Some Canceled)\<rparr>))"
    by (rule crun_step.watch_ctx) (simp_all add: crun_start_def crun_error_def)
  moreover have "crun_finished (crun_error Canceled (?s1\<lparr>cr_watch := Returned (Some Canceled)\<rparr>))"
    by (simp add: crun_finished_def)
  ultimately show ?thesis by (meson converse_rtranclp_into_rtranclp rtranclp.rtrancl_refl)
qed

theorem client_closed_once_witness:
  "\<exists>s e c2 m2. (crun_step flag_sync)\<^sup>*\<^sup>* (crun_start idle_client (fresh_mem the_pool)) s \<and>
     crun_result flag_sync s = Some (Fail e, c2, m2) \<and> receiveClosed c2"
proof -
  obtain s where s: "(crun_step flag_sync)\<^sup>*\<^sup>* (crun_start idle_client (fresh_mem the_pool)) s" "crun_finished s"
    using idle_ends by blast
  have "fst (DoStop flag_sync (cl_stopper idle_client))" "\<not> receiveClosed idle_client" "cl_reader idle_client = Some idle_reader"
    "\<not> cleanedUp idle_reader"
    by (simp_all add: idle_client_def NewClient_def flag_sync_def idle_reader_def)
  from client_closed_once [OF flag_sync_laws this s(1)] s show ?thesis by blast
qed

end
