(* ===== verification/Middleware.thy ===== *)
theory Middleware
  imports Service
begin

text \<open>
  The middlewares around requests and replies of a connection: the logging of requests and
  replies (\<^verbatim>\<open>app/gate/internal/pkg/middleware/logging/\<close>) and the transport of a request
  (\<^verbatim>\<open>app/gate/internal/pkg/middleware/metadata/middleware.go\<close>).

  A handler takes a context and a request, works on the state and returns a result. The state
  here is the pool of packets and the log; whatever else a handler works on extends it. \<open>un\<close> is
  \<^verbatim>\<open>proto.Unmarshal\<close> into a packet, \<open>dev\<close> is \<^verbatim>\<open>profile.IsDev()\<close>, \<open>ch\<close> the choice of the pooled packet,
  \<open>M\<close> and \<open>H\<close> the metadata functions of the framework.
\<close>

section \<open>Requests and the log\<close>

text \<open>The dynamic type of a request: bytes, a packet, or something else. The trace and span ids
  are filled in by the logger when it writes the line.\<close>

datatype reqv = VBytes bytes | VPacket packet | VOther

datatype logval = LStr string | LInt int | LTraceID | LSpanID

datatype logline = LogKV "(string \<times> logval) list" | LogText string gerr

record mw =
  mw_pool :: "packet list"
  mw_log :: "logline list"

type_synonym ('c, 'a, 'z) mw_handler = "'c \<Rightarrow> reqv \<Rightarrow> 'z mw_scheme \<Rightarrow> 'a res \<times> 'z mw_scheme"

definition log_line :: "logline \<Rightarrow> 'z mw_scheme \<Rightarrow> 'z mw_scheme" where
  "log_line l s = s\<lparr>mw_log := mw_log s @ [l]\<rparr>"

definition NetKindTCP :: string where "NetKindTCP = ''tcp''"
definition NetKindKCP :: string where "NetKindKCP = ''kcp''"
definition NetKindWebSocket :: string where "NetKindWebSocket = ''ws''"

definition ModuleID_System :: int32 where "ModuleID_System = 1"
definition SystemSeq_Heartbeat :: int32 where "SystemSeq_Heartbeat = 2"

definition is_heartbeat :: "packet \<Rightarrow> bool" where
  "is_heartbeat p \<longleftrightarrow> Mod p = ModuleID_System \<and> Seq p = SystemSeq_Heartbeat"


section \<open>Logging\<close>

text \<open>The user and server id of the context, empty without metadata.\<close>

definition ids_of :: "'c md_ops \<Rightarrow> 'c \<Rightarrow> string \<times> string" where
  "ids_of M ctx = (case from_server M ctx of Some md \<Rightarrow> (md CtxUID, md CtxSID) | None \<Rightarrow> ([], []))"

definition request_kv :: "'c md_ops \<Rightarrow> 'c \<Rightarrow> string \<Rightarrow> packet \<Rightarrow> (string \<times> logval) list" where
  "request_kv M ctx netKind p =
     (let (uid, sid) = ids_of M ctx;
          obj = FormatInt (sint (Obj p));
          md = FormatInt (sint (Mod p));
          sq = FormatInt (sint (Seq p));
          index = FormatInt (sint (Index p));
          sz = FormatInt (int (length (Data p))) in
      [(''kind'', LStr ''req''), (''net'', LStr netKind), (''trace'', LTraceID), (''span'', LSpanID),
       (''uid'', LStr uid), (''sid'', LStr sid), (''obj'', LStr obj), (''mod'', LStr md), (''seq'', LStr sq),
       (''index'', LStr index), (''size'', LStr sz)])"

definition logRequest :: "(bytes \<Rightarrow> packet res) \<Rightarrow> 'c md_ops \<Rightarrow> nat option \<Rightarrow> 'c \<Rightarrow> string \<Rightarrow> reqv \<Rightarrow> 'z mw_scheme \<Rightarrow>
    unit res \<times> 'z mw_scheme" where
  "logRequest un M ch ctx netKind req s =
     (case GetPacket ch (mw_pool s) of
        (p0, pl) \<Rightarrow>
          let s0 = s\<lparr>mw_pool := pl\<rparr> in
          (case req of
             VBytes b \<Rightarrow>
               (case un b of
                  Fail e \<Rightarrow>
                    (let s1 = log_line (LogText ''log request packet unmarshal failed. %s'' e) s0 in
                     (Ok (), s1\<lparr>mw_pool := PutPacket (Some p0) (mw_pool s1)\<rparr>))
                | Panic q \<Rightarrow> (Panic q, s0\<lparr>mw_pool := PutPacket (Some p0) (mw_pool s0)\<rparr>)
                | Ok p \<Rightarrow>
                    if Mod p = ModuleID_System \<and> Seq p = SystemSeq_Heartbeat
                    then (Ok (), s0\<lparr>mw_pool := PutPacket (Some p) (mw_pool s0)\<rparr>)
                    else let s1 = log_line (LogKV (request_kv M ctx netKind p)) s0 in
                         (Ok (), s1\<lparr>mw_pool := PutPacket (Some p) (mw_pool s1)\<rparr>))
           | _ \<Rightarrow> (Ok (), s0\<lparr>mw_pool := PutPacket (Some p0) (mw_pool s0)\<rparr>)))"

definition Request :: "(bytes \<Rightarrow> packet res) \<Rightarrow> 'c md_ops \<Rightarrow> bool \<Rightarrow> nat option \<Rightarrow> string \<Rightarrow> ('c, 'a, 'z) mw_handler \<Rightarrow>
    ('c, 'a, 'z) mw_handler" where
  "Request un M dev ch netKind handler ctx req s =
     (if \<not> dev then handler ctx req s
      else case logRequest un M ch ctx netKind req s of
             (Panic q, s1) \<Rightarrow> (Panic q, s1)
           | (_, s1) \<Rightarrow> handler ctx req s1)"

definition reply_kv :: "'c md_ops \<Rightarrow> 'c \<Rightarrow> string \<Rightarrow> packet \<Rightarrow> (string \<times> logval) list" where
  "reply_kv M ctx netKind p =
     (let (uid, sid) = ids_of M ctx;
          obj = FormatInt (sint (Obj p));
          md = FormatInt (sint (Mod p));
          sq = FormatInt (sint (Seq p));
          index = FormatInt (sint (Index p));
          sz = FormatInt (int (length (Data p))) in
      [(''kind'', LStr ''reply''), (''net'', LStr netKind), (''trace'', LTraceID), (''span'', LSpanID),
       (''uid'', LStr uid), (''sid'', LStr sid), (''obj'', LStr obj), (''mod'', LStr md), (''seq'', LStr sq),
       (''index'', LStr index), (''size'', LStr sz), (''latency'', LInt 0)])"

text \<open>A reply that is not bytes fails the type assertion; the deferred call still puts the packet
  back.\<close>

definition logReply :: "(bytes \<Rightarrow> packet res) \<Rightarrow> 'c md_ops \<Rightarrow> bool \<Rightarrow> nat option \<Rightarrow> 'c \<Rightarrow> string \<Rightarrow> reqv \<Rightarrow> 'z mw_scheme \<Rightarrow>
    unit res \<times> 'z mw_scheme" where
  "logReply un M dev ch ctx netKind reply s =
     (case GetPacket ch (mw_pool s) of
        (p0, pl) \<Rightarrow>
          let s0 = s\<lparr>mw_pool := pl\<rparr> in
          (case reply of
             VBytes b \<Rightarrow>
               (case un b of
                  Fail e \<Rightarrow>
                    (let s1 = log_line (LogText ''logReply: proto.Unmarshal failed: %v'' e) s0 in
                     (Ok (), s1\<lparr>mw_pool := PutPacket (Some p0) (mw_pool s1)\<rparr>))
                | Panic q \<Rightarrow> (Panic q, s0\<lparr>mw_pool := PutPacket (Some p0) (mw_pool s0)\<rparr>)
                | Ok p \<Rightarrow>
                    if \<not> dev \<and> Mod p = ModuleID_System \<and> Seq p = SystemSeq_Heartbeat
                    then (Ok (), s0\<lparr>mw_pool := PutPacket (Some p) (mw_pool s0)\<rparr>)
                    else let s1 = log_line (LogKV (reply_kv M ctx netKind p)) s0 in
                         (Ok (), s1\<lparr>mw_pool := PutPacket (Some p) (mw_pool s1)\<rparr>))
           | _ \<Rightarrow> (Panic ''interface conversion'', s0\<lparr>mw_pool := PutPacket (Some p0) (mw_pool s0)\<rparr>)))"

definition Reply :: "(bytes \<Rightarrow> packet res) \<Rightarrow> 'c md_ops \<Rightarrow> bool \<Rightarrow> nat option \<Rightarrow> string \<Rightarrow> ('c, 'a, 'z) mw_handler \<Rightarrow>
    ('c, 'a, 'z) mw_handler" where
  "Reply un M dev ch netKind handler ctx req s =
     (if \<not> dev then handler ctx req s
      else case logReply un M dev ch ctx netKind req s of
             (Panic q, s1) \<Rightarrow> (Panic q, s1)
           | (_, s1) \<Rightarrow> handler ctx req s1)"


section \<open>The transport of a request\<close>

definition FormatBool :: "bool \<Rightarrow> string" where
  "FormatBool b = (if b then ''true'' else ''false'')"

text \<open>\<open>md0\<close> is the empty header; the keys are set one after the other.\<close>

definition newRequestMetadata :: "'m header_ops \<Rightarrow> 'm \<Rightarrow> reqv \<Rightarrow> 'm" where
  "newRequestMetadata H md0 pack =
     (case pack of
        VPacket p \<Rightarrow>
          (let md = md_Set H md0 ''ver'' [FormatInt (sint (Ver p))];
               md = md_Set H md ''index'' [FormatInt (sint (Index p))];
               md = md_Set H md ''cp'' [FormatBool (Compress p)];
               md = md_Set H md ''mod'' [FormatInt (sint (Mod p))];
               md = md_Set H md ''seq'' [FormatInt (sint (Seq p))];
               md = md_Set H md ''obj'' [FormatInt (sint (Obj p))] in md)
      | _ \<Rightarrow> md0)"

text \<open>\<open>grpcEndpoint\<close> is \<^verbatim>\<open>profile.GRPCEndpoint()\<close>, \<open>newServer\<close> is \<^verbatim>\<open>transport.NewServerContext\<close>.\<close>

definition metadata_Server :: "'m header_ops \<Rightarrow> 'm \<Rightarrow> string \<Rightarrow> ('c \<Rightarrow> 'm transport \<Rightarrow> 'c) \<Rightarrow> ('c, 'a, 'z) mw_handler \<Rightarrow>
    ('c, 'a, 'z) mw_handler" where
  "metadata_Server H md0 grpcEndpoint newServer handler ctx req s =
     (let requestHeader = newRequestMetadata H md0 req;
          replyHeader = md0;
          ctx = newServer ctx (NewTransport grpcEndpoint [] requestHeader replyHeader) in
      handler ctx req s)"


section \<open>Logging does not interfere\<close>

text \<open>
  The contract of a logger of packets: on a request of bytes it only appends at most one line to
  the log and leaves a pool of blank packets blank.
\<close>

definition logged :: "'z mw_scheme \<Rightarrow> 'z mw_scheme \<Rightarrow> bool" where
  "logged s s1 \<longleftrightarrow> blank zero_packet (mw_pool s1) \<and> (\<exists>ls. mw_log s1 = mw_log s @ ls \<and> length ls \<le> 1) \<and>
     mw.more s1 = mw.more s"

locale packet_logger =
  fixes un :: "bytes \<Rightarrow> packet res" and logger :: "'c \<Rightarrow> reqv \<Rightarrow> 'z mw_scheme \<Rightarrow> unit res \<times> 'z mw_scheme"
    and wrap :: "bool \<Rightarrow> ('c, 'a, 'z) mw_handler \<Rightarrow> ('c, 'a, 'z) mw_handler"
  assumes logs: "\<not> is_panic (un b) \<Longrightarrow> blank zero_packet (mw_pool s) \<Longrightarrow>
      \<exists>s1. logger ctx (VBytes b) s = (Ok (), s1) \<and> logged s s1"
    and off: "wrap False handler = handler"
    and on: "wrap True handler ctx req s =
      (case logger ctx req s of (Panic q, s1) \<Rightarrow> (Panic q, s1) | (_, s1) \<Rightarrow> handler ctx req s1)"
begin

lemma transparent:
  assumes "\<not> is_panic (un b)" and "blank zero_packet (mw_pool s)"
  shows "\<exists>s1. wrap dev handler ctx (VBytes b) s = handler ctx (VBytes b) s1 \<and> logged s s1"
proof (cases dev)
  case True
  then show ?thesis using logs [OF assms, of ctx] on [of handler ctx "VBytes b" s] by auto
next
  case False
  then show ?thesis using off [of handler] assms(2) by (auto simp: logged_def intro!: exI [of _ s])
qed

end

lemma logRequest_logs:
  assumes "\<not> is_panic (un b)" and "blank zero_packet (mw_pool s)"
  shows "\<exists>s1. logRequest un M ch ctx nk (VBytes b) s = (Ok (), s1) \<and> logged s s1"
proof -
  obtain pl where "GetPacket ch (mw_pool s) = (zero_packet, pl)" "blank zero_packet pl"
    using packet_pool.get_zero [OF assms(2)] by blast
  then show ?thesis
    using assms(1) packet_pool.put_blank
    by (cases "un b") (auto simp: logRequest_def log_line_def logged_def Let_def)
qed

lemma logReply_logs:
  assumes "\<not> is_panic (un b)" and "blank zero_packet (mw_pool s)"
  shows "\<exists>s1. logReply un M dev ch ctx nk (VBytes b) s = (Ok (), s1) \<and> logged s s1"
proof -
  obtain pl where "GetPacket ch (mw_pool s) = (zero_packet, pl)" "blank zero_packet pl"
    using packet_pool.get_zero [OF assms(2)] by blast
  then show ?thesis
    using assms(1) packet_pool.put_blank
    by (cases "un b") (auto simp: logReply_def log_line_def logged_def Let_def)
qed

interpretation request_log: packet_logger un "\<lambda>ctx. logRequest un M ch ctx nk" "\<lambda>dev. Request un M dev ch nk"
  by unfold_locales (auto intro: logRequest_logs simp: Request_def fun_eq_iff)

interpretation reply_log: packet_logger un "\<lambda>ctx. logReply un M True ch ctx nk" "\<lambda>dev. Reply un M dev ch nk"
  by unfold_locales (auto intro: logReply_logs simp: Reply_def fun_eq_iff)

text \<open>
  C32: Logging does not interfere with requests and replies. For any bytes, decodable as a packet
  or not, and any handler, the logging middlewares for requests and for replies call the handler
  with the same context and bytes and return its result unchanged; the state it runs on differs
  only by at most one line more in the log and by the pool of packets, which stays blank.
\<close>

theorem logging_transparent:
  assumes "\<not> is_panic (un b)" and "blank zero_packet (mw_pool s)"
  shows "(\<exists>s1. Request un M dev ch netKind handler ctx (VBytes b) s = handler ctx (VBytes b) s1 \<and> logged s s1) \<and>
    (\<exists>s1. Reply un M dev ch netKind handler ctx (VBytes b) s = handler ctx (VBytes b) s1 \<and> logged s s1)"
  by (intro conjI request_log.transparent reply_log.transparent assms)

theorem logging_transparent_witness:
  "\<exists>s1. Request (un_Packet tiny_codec) plain_md True None NetKindTCP (\<lambda>ctx req s. (Ok req, s)) (\<lambda>_. []) (VBytes [7]) \<lparr>mw_pool = [], mw_log = []\<rparr>
     = (Ok (VBytes [7]), s1)"
  using logging_transparent [of "un_Packet tiny_codec" "[7]" "\<lparr>mw_pool = [], mw_log = []\<rparr>" plain_md True None NetKindTCP "\<lambda>ctx req s. (Ok req, s)" "\<lambda>_. []"]
  by (auto simp: tiny_codec_def blank_def)


text \<open>
  Heartbeats are left out of the request log but not out of the reply log. In development, a
  heartbeat request leaves the log as it was, while a heartbeat reply always adds its line: the
  check for heartbeats in the logging of replies only holds outside development, where the
  middleware does not log at all.
\<close>

theorem heartbeat_logging:
  assumes "un b = Ok p" and "is_heartbeat p"
  shows "mw_log (snd (Request un M dev ch netKind (\<lambda>ctx req s. (Ok req, s)) ctx (VBytes b) s)) = mw_log s \<and>
    mw_log (snd (Reply un M dev ch netKind (\<lambda>ctx req s. (Ok req, s)) ctx (VBytes b) s)) =
      mw_log s @ (if dev then [LogKV (reply_kv M ctx netKind p)] else [])"
  using assms
  by (auto simp: Request_def Reply_def logRequest_def logReply_def log_line_def is_heartbeat_def Let_def split: prod.splits)

theorem heartbeat_logging_witness:
  "let p = zero_packet\<lparr>Mod := 1, Seq := 2\<rparr>; s = \<lparr>mw_pool = [], mw_log = []\<rparr> in
   mw_log (snd (Reply (\<lambda>_. Ok p) plain_md True None NetKindTCP (\<lambda>ctx req s. (Ok req, s)) (\<lambda>_. []) (VBytes []) s)) =
     [LogKV (reply_kv plain_md (\<lambda>_. []) NetKindTCP p)]"
  using heartbeat_logging [of "\<lambda>_. Ok (zero_packet\<lparr>Mod := 1, Seq := 2\<rparr>)" "[]" "zero_packet\<lparr>Mod := 1, Seq := 2\<rparr>" plain_md True None NetKindTCP "\<lambda>_. []"
    "\<lparr>mw_pool = [], mw_log = []\<rparr>"]
  by (simp add: Let_def is_heartbeat_def ModuleID_System_def SystemSeq_Heartbeat_def)


section \<open>What the header of a request holds\<close>

definition header_keys :: "string list" where
  "header_keys = [''ver'', ''index'', ''cp'', ''mod'', ''seq'', ''obj'']"

text \<open>The documented behaviour of the header map, for keys in lower case: a key that is set has the
  values it was set to, the others keep theirs, and an empty map has none.\<close>

definition header_laws :: "'m header_ops \<Rightarrow> 'm \<Rightarrow> bool" where
  "header_laws H md0 \<longleftrightarrow>
     (\<forall>m k j vs. k \<in> set header_keys \<longrightarrow> j \<in> set header_keys \<longrightarrow>
        md_Get H (md_Set H m k vs) j = (if j = k then vs else md_Get H m j)) \<and>
     (\<forall>k. md_Get H md0 k = [])"

lemma sint_scast_32: "sint (scast (x :: int32) :: int64) = sint x"
  by (rule sint_up_scast) (simp add: is_up.rep_eq)

lemma ParseInt_FormatInt32: "ParseInt64 (FormatInt (sint (x :: int32))) = Ok (scast x)"
  using ParseInt_FormatInt [of "scast x"] by (simp add: sint_scast_32)

text \<open>
  The header of a request is filled from a packet only. For a packet, the header the
  middleware gives the context reads back the version, the index, the compression flag, the
  module, the sequence number and the object of the packet. For a request of bytes, which is what
  the worker of a TCP connection passes to its filters, the header is empty.
\<close>

theorem request_header_read_back:
  assumes "header_laws H md0"
  shows "let hdr = newRequestMetadata H md0 (VPacket p); get = hc_Get H hdr in
    ParseInt64 (get ''ver'') = Ok (scast (Ver p)) \<and> ParseInt64 (get ''index'') = Ok (scast (Index p)) \<and>
    get ''cp'' = FormatBool (Compress p) \<and> ParseInt64 (get ''mod'') = Ok (scast (Mod p)) \<and>
    ParseInt64 (get ''seq'') = Ok (scast (Seq p)) \<and> ParseInt64 (get ''obj'') = Ok (Obj p) \<and>
    hc_Get H (newRequestMetadata H md0 (VBytes b)) k = []"
  using assms
  by (simp add: newRequestMetadata_def hc_Get_def header_laws_def header_keys_def ParseInt_FormatInt32 Let_def)

definition fun_header :: "(string \<Rightarrow> string list) header_ops" where
  "fun_header = \<lparr>md_Get = (\<lambda>m k. m k), md_Set = (\<lambda>m k vs. m(k := vs)), md_Append = (\<lambda>m k vs. m(k := m k @ vs)), md_keys = (\<lambda>m. [])\<rparr>"

theorem request_header_read_back_witness:
  "ParseInt64 (hc_Get fun_header (newRequestMetadata fun_header (\<lambda>_. []) (VPacket (zero_packet\<lparr>Index := 9\<rparr>))) ''index'') = Ok 9"
  using request_header_read_back [of fun_header "\<lambda>_. []" "zero_packet\<lparr>Index := 9\<rparr>"]
  by (simp add: Let_def header_laws_def fun_header_def)

end
