(* ===== verification/Router.thy ===== *)
theory Router
  imports Gate_Prelude
begin

text \<open>
  Where users are connected and how services are found: the data layer
  (\<^verbatim>\<open>app/gate/internal/data/data.go\<close>), the route table of the gate
  (\<^verbatim>\<open>app/gate/internal/router/routetable.go\<close>), the connections to the player and room services with
  their route tables (\<^verbatim>\<open>app/gate/internal/client/\<close>), and the discovery and registration of services
  (\<^verbatim>\<open>app/gate/internal/client/etcd.go\<close>, \<^verbatim>\<open>app/gate/internal/server/etcd.go\<close>).

  The stores behind them are libraries: the operations of a route table are the record
  \<open>route_ops\<close> over a table of type \<open>'t\<close>, and the functions that open a store are parameters. Time
  limits and log lines are left out.
\<close>

section \<open>The data layer\<close>

text \<open>The part of the configuration the data layer reads; durations in nanoseconds.\<close>

record conf_Redis =
  rd_Cluster :: bool
  rd_Addr :: string
  rd_Password :: string
  rd_DialTimeout :: int
  rd_WriteTimeout :: int
  rd_ReadTimeout :: int

record cluster_options =
  co_Addrs :: "string list"
  co_Password :: string
  co_DialTimeout :: int
  co_WriteTimeout :: int
  co_ReadTimeout :: int

record redis_options =
  ro_Addr :: string
  ro_Password :: string
  ro_DialTimeout :: int
  ro_WriteTimeout :: int
  ro_ReadTimeout :: int

record 'd data =
  Rdb :: 'd

text \<open>\<open>newCluster\<close> and \<open>newSingle\<close> are \<^verbatim>\<open>cache.NewRedisCluster\<close> and \<^verbatim>\<open>cache.NewRedis\<close>: the client with the
  function that closes it.\<close>

definition NewData :: "(cluster_options \<Rightarrow> ('d \<times> 'u) res) \<Rightarrow> (redis_options \<Rightarrow> ('d \<times> 'u) res) \<Rightarrow> conf_Redis \<Rightarrow> ('d data \<times> 'u) res" where
  "NewData newCluster newSingle c =
     (case
        (if rd_Cluster c
         then newCluster \<lparr>co_Addrs = [rd_Addr c], co_Password = rd_Password c, co_DialTimeout = rd_DialTimeout c,
                          co_WriteTimeout = rd_WriteTimeout c, co_ReadTimeout = rd_ReadTimeout c\<rparr>
         else newSingle \<lparr>ro_Addr = rd_Addr c, ro_Password = rd_Password c, ro_DialTimeout = rd_DialTimeout c,
                         ro_WriteTimeout = rd_WriteTimeout c, ro_ReadTimeout = rd_ReadTimeout c\<rparr>) of
        Fail e \<Rightarrow> Fail e
      | Panic p \<Rightarrow> Panic p
      | Ok (rdb, cleanup) \<Rightarrow> Ok (\<lparr>Rdb = rdb\<rparr>, cleanup))"


section \<open>Route tables\<close>

record 't route_ops =
  rt_GetSet :: "'t \<Rightarrow> string \<Rightarrow> int64 \<Rightarrow> string \<Rightarrow> string res \<times> 't"
  rt_DelIfSame :: "'t \<Rightarrow> string \<Rightarrow> int64 \<Rightarrow> string \<Rightarrow> unit res \<times> 't"

text \<open>\<open>newTable\<close> is \<^verbatim>\<open>routetable.NewRouteTable\<close>, \<open>newRedis\<close> is \<^verbatim>\<open>redis.NewRouteTable\<close>.\<close>

definition gate_NewRouteTable :: "(string \<Rightarrow> 'r \<Rightarrow> 't) \<Rightarrow> ('d \<Rightarrow> 'r) \<Rightarrow> 'd data \<Rightarrow> 't" where
  "gate_NewRouteTable newTable newRedis d = newTable ''gate'' (newRedis (Rdb d))"

definition player_NewRouteTable :: "(string \<Rightarrow> 'r \<Rightarrow> 't) \<Rightarrow> ('d \<Rightarrow> 'r) \<Rightarrow> 'd data \<Rightarrow> 't" where
  "player_NewRouteTable newTable newRedis d = newTable ''player'' (newRedis (Rdb d))"

definition room_NewRouteTable :: "(string \<Rightarrow> 'r \<Rightarrow> 't) \<Rightarrow> ('d \<Rightarrow> 'r) \<Rightarrow> 'd data \<Rightarrow> 't" where
  "room_NewRouteTable newTable newRedis d = newTable ''room'' (newRedis (Rdb d))"

text \<open>\<open>ep\<close> is \<^verbatim>\<open>profile.GRPCEndpoint()\<close>. An address that was there before is only logged.\<close>

definition AddRouteTable :: "'t route_ops \<Rightarrow> string \<Rightarrow> string \<Rightarrow> int64 \<Rightarrow> 't \<Rightarrow> unit res \<times> 't" where
  "AddRouteTable R ep color oid rt =
     (case rt_GetSet R rt color oid ep of
        (Fail e, rt1) \<Rightarrow> (Fail (Wrap ''add route table failed. color=%s oid=%d'' [AStr color, AInt (sint oid)] e), rt1)
      | (Panic p, rt1) \<Rightarrow> (Panic p, rt1)
      | (Ok oldAddr, rt1) \<Rightarrow> (Ok (), rt1))"

text \<open>An error is only logged, and not even that when the context was canceled.\<close>

definition DelRouteTable :: "'t route_ops \<Rightarrow> string \<Rightarrow> string \<Rightarrow> int64 \<Rightarrow> 't \<Rightarrow> unit res \<times> 't" where
  "DelRouteTable R ep color uid rt =
     (case rt_DelIfSame R rt color uid ep of
        (Panic p, rt1) \<Rightarrow> (Panic p, rt1)
      | (_, rt1) \<Rightarrow> (Ok (), rt1))"

text \<open>The functions a server calls after connecting and disconnecting
  (\<^verbatim>\<open>app/gate/internal/server/tcp.go\<close>).\<close>

definition afterConnectFunc :: "'t route_ops \<Rightarrow> string \<Rightarrow> string \<Rightarrow> int64 \<Rightarrow> 't \<Rightarrow> unit res \<times> 't" where
  "afterConnectFunc R ep color uid rt = AddRouteTable R ep color uid rt"

definition afterDisconnectFunc :: "'t route_ops \<Rightarrow> string \<Rightarrow> string \<Rightarrow> int64 \<Rightarrow> 't \<Rightarrow> unit res \<times> 't" where
  "afterDisconnectFunc R ep color uid rt =
     (case DelRouteTable R ep color uid rt of
        (Panic p, rt1) \<Rightarrow> (Panic p, rt1)
      | (_, rt1) \<Rightarrow> (Ok (), rt1))"


section \<open>Connections to services\<close>

datatype balancer = BalancerTypeMaster

definition player_serviceName :: string where "player_serviceName = ''vulcan.player.service''"
definition room_serviceName :: string where "room_serviceName = ''vulcan.room.service''"

text \<open>\<open>newConn\<close> is \<^verbatim>\<open>conn.NewConn\<close>, \<open>newClient\<close> is \<^verbatim>\<open>NewTunnelServiceClient\<close> of the generated code.\<close>

type_synonym ('l, 't, 'r, 'n) new_conn = "string \<Rightarrow> balancer \<Rightarrow> 'l \<Rightarrow> 't \<Rightarrow> 'r \<Rightarrow> 'n res"

definition player_NewConn :: "('l, 't, 'r, 'n) new_conn \<Rightarrow> 'l \<Rightarrow> 't \<Rightarrow> 'r \<Rightarrow> 'n res" where
  "player_NewConn newConn logger rt r =
     (case newConn player_serviceName BalancerTypeMaster logger rt r of
        Fail e \<Rightarrow> Fail e | Panic p \<Rightarrow> Panic p | Ok c \<Rightarrow> Ok c)"

definition room_NewConn :: "('l, 't, 'r, 'n) new_conn \<Rightarrow> 'l \<Rightarrow> 't \<Rightarrow> 'r \<Rightarrow> 'n res" where
  "room_NewConn newConn logger rt r =
     (case newConn room_serviceName BalancerTypeMaster logger rt r of
        Fail e \<Rightarrow> Fail e | Panic p \<Rightarrow> Panic p | Ok c \<Rightarrow> Ok c)"

definition player_NewClient :: "('n \<Rightarrow> 'c) \<Rightarrow> 'n \<Rightarrow> 'c" where
  "player_NewClient newClient c = newClient c"

definition room_NewClient :: "('n \<Rightarrow> 'c) \<Rightarrow> 'n \<Rightarrow> 'c" where
  "room_NewClient newClient c = newClient c"

record etcd_config =
  et_Endpoints :: "string list"
  et_Username :: string
  et_Password :: string

text \<open>\<open>newEtcd\<close> is \<^verbatim>\<open>etcdclient.New\<close>, \<open>wrapEtcd\<close> is \<^verbatim>\<open>etcd.New\<close> of the framework.\<close>

definition NewDiscovery :: "(etcd_config \<Rightarrow> 'e res) \<Rightarrow> ('e \<Rightarrow> 'r) \<Rightarrow> etcd_config \<Rightarrow> 'r res" where
  "NewDiscovery newEtcd wrapEtcd c =
     (case newEtcd \<lparr>et_Endpoints = et_Endpoints c, et_Username = et_Username c, et_Password = et_Password c\<rparr> of
        Fail e \<Rightarrow> Fail (Wrap ''new etcdclient failed'' [] e)
      | Panic p \<Rightarrow> Panic p
      | Ok client \<Rightarrow> Ok (wrapEtcd client))"

text \<open>The text of the error is not in ASCII in the source; it is translated here.\<close>

definition NewRegistrar :: "(etcd_config \<Rightarrow> 'e res) \<Rightarrow> ('e \<Rightarrow> 'r) \<Rightarrow> etcd_config \<Rightarrow> 'r res" where
  "NewRegistrar newEtcd wrapEtcd c =
     (case newEtcd \<lparr>et_Endpoints = et_Endpoints c, et_Username = et_Username c, et_Password = et_Password c\<rparr> of
        Fail e \<Rightarrow> Fail (Wrap ''[etcdclient.New] creating the etcd client failed.'' [] e)
      | Panic p \<Rightarrow> Panic p
      | Ok client \<Rightarrow> Ok (wrapEtcd client))"


section \<open>Routes of users over several gates\<close>

type_synonym routes = "string \<times> int64 \<Rightarrow> string option"

text \<open>Connections of users at gates, named by their endpoints.\<close>

datatype route_event = Connected string string int64 | Disconnected string string int64

fun on_event :: "'t route_ops \<Rightarrow> route_event \<Rightarrow> 't \<Rightarrow> 't" where
  "on_event R (Connected ep c u) t = snd (afterConnectFunc R ep c u t)"
| "on_event R (Disconnected ep c u) t = snd (afterDisconnectFunc R ep c u t)"

text \<open>The call of the route table an event makes and what this call does to the routes when the store
  executes it: \<^verbatim>\<open>GetSet\<close> stores the address, \<^verbatim>\<open>DelIfSame\<close> deletes the entry if it has the given address.\<close>

fun table_call :: "'t route_ops \<Rightarrow> route_event \<Rightarrow> 't \<Rightarrow> bool \<times> 't" where
  "table_call R (Connected ep c u) t = (case rt_GetSet R t c u ep of (Ok _, t1) \<Rightarrow> (True, t1) | (_, t1) \<Rightarrow> (False, t1))"
| "table_call R (Disconnected ep c u) t = (case rt_DelIfSame R t c u ep of (Ok _, t1) \<Rightarrow> (True, t1) | (_, t1) \<Rightarrow> (False, t1))"

fun call_effect :: "route_event \<Rightarrow> routes \<Rightarrow> routes" where
  "call_effect (Connected ep c u) m = m((c, u) \<mapsto> ep)"
| "call_effect (Disconnected ep c u) m = (if m (c, u) = Some ep then m((c, u) := None) else m)"

text \<open>
  The store, \<open>look\<close> being the routes it holds: a call that succeeds has been executed. A call that
  fails may have been executed or not, and may still be executed later, since the gate gives up
  after two seconds while the call is on its way: \<open>late\<close> are the calls that were given up and are
  outstanding, of which any may be executed, in any order, before the next call.
\<close>

definition store_laws :: "'t route_ops \<Rightarrow> ('t \<Rightarrow> routes) \<Rightarrow> ('t \<Rightarrow> route_event set) \<Rightarrow> bool" where
  "store_laws R look late \<longleftrightarrow>
     (\<forall>ev t ok t1. table_call R ev t = (ok, t1) \<longrightarrow>
        (\<exists>es. set es \<subseteq> late t \<and>
           (let m = fold call_effect es (look t) in
            if ok then look t1 = call_effect ev m \<and> late t1 \<subseteq> late t
            else look t1 \<in> {m, call_effect ev m} \<and> late t1 \<subseteq> insert ev (late t))))"

text \<open>What a successful call does when no call is outstanding.\<close>

definition route_laws :: "'t route_ops \<Rightarrow> ('t \<Rightarrow> routes) \<Rightarrow> bool" where
  "route_laws R look \<longleftrightarrow>
     (\<forall>ev t t1. table_call R ev t = (True, t1) \<longrightarrow> look t1 = call_effect ev (look t))"

lemma on_event_call: "on_event R ev t = snd (table_call R ev t)"
  by (cases ev) (simp_all add: afterConnectFunc_def AddRouteTable_def afterDisconnectFunc_def DelRouteTable_def split: prod.splits res.splits)

lemma connected_call: "fst (afterConnectFunc R ep c u t) = Ok () \<longleftrightarrow> fst (table_call R (Connected ep c u) t)"
  by (simp add: afterConnectFunc_def AddRouteTable_def split: prod.splits res.splits)

lemma disconnected_call: "fst (rt_DelIfSame R t c u ep) = Ok () \<longleftrightarrow> fst (table_call R (Disconnected ep c u) t)"
  by (simp split: prod.splits res.splits)

text \<open>The calls that leave the route of a user with a gate: all but a connection of this user elsewhere
  and a disconnection of this user from this gate.\<close>

definition keeps_route :: "string \<Rightarrow> string \<Rightarrow> int64 \<Rightarrow> route_event \<Rightarrow> bool" where
  "keeps_route ep c u ev \<longleftrightarrow> (\<forall>b. ev = Connected b c u \<longrightarrow> b = ep) \<and> ev \<noteq> Disconnected ep c u"

lemma call_effect_keeps: "keeps_route ep c u ev \<Longrightarrow> m (c, u) = Some ep \<Longrightarrow> call_effect ev m (c, u) = Some ep"
  by (cases ev) (auto simp: keeps_route_def)

lemma calls_keep: "\<forall>ev \<in> set es. keeps_route ep c u ev \<Longrightarrow> m (c, u) = Some ep \<Longrightarrow> fold call_effect es m (c, u) = Some ep"
  by (induction es arbitrary: m) (simp_all add: call_effect_keeps)

text \<open>A user is routed to a gate, whatever outstanding calls are still executed.\<close>

definition routed :: "('t \<Rightarrow> routes) \<Rightarrow> ('t \<Rightarrow> route_event set) \<Rightarrow> string \<Rightarrow> string \<Rightarrow> int64 \<Rightarrow> 't \<Rightarrow> bool" where
  "routed look late ep c u t \<longleftrightarrow> look t (c, u) = Some ep \<and> (\<forall>ev \<in> late t. keeps_route ep c u ev)"

lemma store_call:
  assumes "store_laws R look late" and "table_call R ev t = (ok, t1)"
  obtains es where "set es \<subseteq> late t" and "ok \<Longrightarrow> look t1 = call_effect ev (fold call_effect es (look t)) \<and> late t1 \<subseteq> late t"
    and "look t1 \<in> {fold call_effect es (look t), call_effect ev (fold call_effect es (look t))}" and "late t1 \<subseteq> insert ev (late t)"
proof -
  from assms obtain es where "set es \<subseteq> late t" "let m = fold call_effect es (look t) in
      if ok then look t1 = call_effect ev m \<and> late t1 \<subseteq> late t
      else look t1 \<in> {m, call_effect ev m} \<and> late t1 \<subseteq> insert ev (late t)"
    unfolding store_laws_def by blast
  then show thesis by (intro that [of es]) (auto simp: Let_def split: if_splits)
qed

lemma routed_connect:
  assumes "store_laws R look late" and "\<forall>ev \<in> late t. keeps_route ep c u ev" and "fst (table_call R (Connected ep c u) t)"
  shows "routed look late ep c u (snd (table_call R (Connected ep c u) t))"
proof -
  obtain t1 where t1: "table_call R (Connected ep c u) t = (True, t1)" using assms(3) by (metis (full_types) prod.collapse)
  from store_call [OF assms(1) t1] obtain es where "look t1 = call_effect (Connected ep c u) (fold call_effect es (look t))" "late t1 \<subseteq> late t"
    by metis
  then have "routed look late ep c u t1" using assms(2) by (auto simp: routed_def)
  then show ?thesis by (simp add: t1 del: table_call.simps)
qed

lemma routed_step:
  assumes "store_laws R look late" and "routed look late ep c u t" and "keeps_route ep c u ev"
  shows "routed look late ep c u (on_event R ev t)"
proof -
  obtain ok t1 where t1: "table_call R ev t = (ok, t1)" by (metis prod.collapse)
  from store_call [OF assms(1) t1] obtain es where
    es: "set es \<subseteq> late t" "look t1 \<in> {fold call_effect es (look t), call_effect ev (fold call_effect es (look t))}" "late t1 \<subseteq> insert ev (late t)"
    by metis
  have "fold call_effect es (look t) (c, u) = Some ep"
    using assms(2) es(1) by (intro calls_keep) (auto simp: routed_def)
  then show ?thesis
    using es(2,3) assms(2,3) call_effect_keeps by (auto simp: on_event_call t1 routed_def)
qed

lemma routed_run:
  assumes "store_laws R look late" and "routed look late ep c u t" and "\<forall>ev \<in> set evs. keeps_route ep c u ev"
  shows "routed look late ep c u (fold (on_event R) evs t)"
  using assms(2,3) by (induction evs arbitrary: t) (simp_all add: routed_step [OF assms(1)])

lemma routed_disconnect:
  assumes "store_laws R look late" and "routed look late ep c u t" and "fst (table_call R (Disconnected ep c u) t)"
  shows "look (snd (table_call R (Disconnected ep c u) t)) (c, u) = None"
proof -
  obtain t1 where t1: "table_call R (Disconnected ep c u) t = (True, t1)" using assms(3) by (metis (full_types) prod.collapse)
  from store_call [OF assms(1) t1] obtain es where
    es: "set es \<subseteq> late t" "look t1 = call_effect (Disconnected ep c u) (fold call_effect es (look t))" by metis
  have "fold call_effect es (look t) (c, u) = Some ep"
    using assms(2) es(1) by (intro calls_keep) (auto simp: routed_def)
  then show ?thesis using es(2) by (simp add: t1 del: table_call.simps)
qed

text \<open>
  C28: A user is routed to the gate of the newest connection for as long as it lasts. Once a gate
  has registered a user, the route of that user stays with the gate through any sequence of
  connections and disconnections of any users at any gates, until the user connects to another
  gate or disconnects from this one; in particular a late disconnection at a gate the user was at
  before does not remove the newer route. The other operations may fail, and a failed operation
  may have been executed, or be executed at any later time; only an operation of the same user
  that is still outstanding from before could interfere, a connection to another gate or a
  disconnection from this one. When the disconnection from this gate succeeds, the route is gone.
\<close>

theorem route_stays_with_newest_gate:
  assumes "store_laws R look late" and "fst (afterConnectFunc R ep c u t) = Ok ()"
    and "\<forall>ev \<in> late t \<union> set evs. keeps_route ep c u ev"
  shows "let t1 = fold (on_event R) evs (snd (afterConnectFunc R ep c u t)) in
    look t1 (c, u) = Some ep \<and> (\<forall>es. set es \<subseteq> late t1 \<longrightarrow> fold call_effect es (look t1) (c, u) = Some ep) \<and>
    (fst (rt_DelIfSame R t1 c u ep) = Ok () \<longrightarrow> look (snd (afterDisconnectFunc R ep c u t1)) (c, u) = None)"
proof -
  define t1 where "t1 = fold (on_event R) evs (snd (afterConnectFunc R ep c u t))"
  have "routed look late ep c u (snd (afterConnectFunc R ep c u t))"
    using routed_connect [OF assms(1), of t ep c u] assms(2,3) on_event_call [of R "Connected ep c u" t]
    by (simp add: connected_call del: table_call.simps)
  then have r: "routed look late ep c u t1"
    unfolding t1_def using routed_run [OF assms(1)] assms(3) by blast
  then have "look t1 (c, u) = Some ep \<and> (\<forall>es. set es \<subseteq> late t1 \<longrightarrow> fold call_effect es (look t1) (c, u) = Some ep)"
    using calls_keep [of _ ep c u "look t1"] unfolding routed_def by blast
  moreover have "look (snd (afterDisconnectFunc R ep c u t1)) (c, u) = None" if "fst (rt_DelIfSame R t1 c u ep) = Ok ()"
    using routed_disconnect [OF assms(1) r] that on_event_call [of R "Disconnected ep c u" t1]
    by (simp add: disconnected_call del: table_call.simps)
  ultimately show ?thesis unfolding t1_def [symmetric] Let_def by blast
qed

text \<open>A store on which a deletion times out when nothing is outstanding, and is executed just before
  the next call.\<close>

definition slow_table :: "(routes \<times> route_event list) route_ops" where
  "slow_table = \<lparr>rt_GetSet = (\<lambda>(m, es) c u a. (Ok [], (call_effect (Connected a c u) (fold call_effect es m), []))),
     rt_DelIfSame = (\<lambda>(m, es) c u a. if es = [] then (Fail (Err ''context deadline exceeded'' []), (m, [Disconnected a c u]))
       else (Ok (), (call_effect (Disconnected a c u) (fold call_effect es m), [])))\<rparr>"

lemma slow_table_laws: "store_laws slow_table fst (\<lambda>t. set (snd t))"
  unfolding store_laws_def
proof (intro allI impI)
  fix ev ok and t t1 :: "routes \<times> route_event list"
  assume c: "table_call slow_table ev t = (ok, t1)"
  obtain m es where t: "t = (m, es)" by (cases t)
  show "\<exists>es. set es \<subseteq> set (snd t) \<and> (let m = fold call_effect es (fst t) in
      if ok then fst t1 = call_effect ev m \<and> set (snd t1) \<subseteq> set (snd t)
      else fst t1 \<in> {m, call_effect ev m} \<and> set (snd t1) \<subseteq> insert ev (set (snd t)))"
    by (rule exI [of _ es]) (use c t in \<open>cases ev; auto simp: slow_table_def Let_def split: if_splits\<close>)
qed

theorem route_stays_with_newest_gate_witness:
  "let t0 = ([(''red'', 7) \<mapsto> ''old:9100''], []);
     t1 = fold (on_event slow_table) [Disconnected ''old:9100'' ''red'' 7, Disconnected ''new:9100'' ''red'' 8]
       (snd (afterConnectFunc slow_table ''new:9100'' ''red'' 7 t0)) in
   fst t1 (''red'', 7) = Some ''new:9100''"
proof -
  let ?t = "([(''red'', 7) \<mapsto> ''old:9100''], []) :: routes \<times> route_event list"
  let ?evs = "[Disconnected ''old:9100'' ''red'' 7, Disconnected ''new:9100'' ''red'' 8]"
  have "fst (afterConnectFunc slow_table ''new:9100'' ''red'' 7 ?t) = Ok ()"
    by (simp add: afterConnectFunc_def AddRouteTable_def slow_table_def)
  moreover have "\<forall>ev \<in> set (snd ?t) \<union> set ?evs. keeps_route ''new:9100'' ''red'' 7 ev"
    by (simp add: keeps_route_def)
  ultimately show ?thesis
    using route_stays_with_newest_gate [OF slow_table_laws, of "''new:9100''" "''red''" 7 ?t ?evs] unfolding Let_def by blast
qed

text \<open>A route table that is a map.\<close>

definition map_table :: "routes route_ops" where
  "map_table = \<lparr>rt_GetSet = (\<lambda>t c u a. (Ok (case t (c, u) of Some b \<Rightarrow> b | None \<Rightarrow> []), t((c, u) \<mapsto> a))),
     rt_DelIfSame = (\<lambda>t c u a. (Ok (), if t (c, u) = Some a then t((c, u) := None) else t))\<rparr>"

lemma map_table_laws: "route_laws map_table id"
  unfolding route_laws_def
proof (intro allI impI)
  fix ev t t1 assume "table_call map_table ev t = (True, t1)"
  then show "id t1 = call_effect ev (id t)" by (cases ev) (simp_all add: map_table_def)
qed

text \<open>
  C30: A user who connects to the same gate again loses the route. When a user has two
  connections at one gate and the first one ends, its disconnection removes the route although
  the second connection is alive, because the entry only names the gate: whenever deleting
  succeeds, nothing is left for the user.
\<close>

theorem same_gate_relogin_loses_route:
  assumes "route_laws R look" and "fst (afterConnectFunc R ep c u t) = Ok ()"
    and "fst (afterConnectFunc R ep c u (snd (afterConnectFunc R ep c u t))) = Ok ()"
    and "\<And>v. fst (rt_DelIfSame R v c u ep) = Ok ()"
  shows "look (fold (on_event R) [Connected ep c u, Connected ep c u, Disconnected ep c u] t) (c, u) = None"
proof -
  let ?t2 = "snd (afterConnectFunc R ep c u (snd (afterConnectFunc R ep c u t)))"
  have "look (on_event R ev v) = call_effect ev (look v)" if "fst (table_call R ev v)" for ev v
    using assms(1) that unfolding route_laws_def on_event_call by (metis (full_types) prod.collapse)
  note ok = this
  have "look ?t2 (c, u) = Some ep"
    using ok [of "Connected ep c u" "snd (afterConnectFunc R ep c u t)"] assms(3) by (simp add: connected_call del: table_call.simps)
  moreover have "look (on_event R (Disconnected ep c u) ?t2) = call_effect (Disconnected ep c u) (look ?t2)"
    by (rule ok) (use assms(4) in \<open>simp add: disconnected_call [symmetric] del: table_call.simps\<close>)
  ultimately show ?thesis by simp
qed

theorem same_gate_relogin_loses_route_witness:
  "fold (on_event map_table) [Connected ''g:9100'' ''red'' 7, Connected ''g:9100'' ''red'' 7, Disconnected ''g:9100'' ''red'' 7]
     Map.empty (''red'', 7) = None"
  using same_gate_relogin_loses_route [OF map_table_laws, of "''g:9100''" "''red''" 7 Map.empty]
  by (simp add: afterConnectFunc_def AddRouteTable_def map_table_def)

end
