(* ===== verification/Gate_App.thy ===== *)
theory Gate_App
  imports Connection Middleware Router
begin

text \<open>
  How the program is put together: the options of the TCP, gRPC and HTTP servers
  (\<^verbatim>\<open>app/gate/internal/server/\<close>), the push service (\<^verbatim>\<open>app/gate/internal/service/push/v1/service.go\<close>),
  the health server (\<^verbatim>\<open>pkg/net/health/server.go\<close>), the injector \<^verbatim>\<open>initApp\<close>
  (\<^verbatim>\<open>app/gate/cmd/server/wire_gen.go\<close>) and \<^verbatim>\<open>main\<close>.

  Servers, middlewares and handlers of the framework are abstract values; the functions that make
  them are parameters.
\<close>

section \<open>The service and its configuration\<close>

record conf_Endpoint =
  ce_Network :: string
  ce_Addr :: string
  ce_Timeout :: "int option"

record conf_Servers =
  cs_TcpAddr :: string
  cs_Http :: conf_Endpoint
  cs_Grpc :: conf_Endpoint
  cs_Health :: string

record conf_Label =
  lb_Service :: string
  lb_Profile :: string
  lb_Color :: string
  lb_Version :: string
  lb_Zone :: uint32
  lb_Node :: string
  lb_Encrypted :: bool
  lb_Language :: string

record ('l, 'pc, 'rc, 't) tcp_service =
  ts_logger :: 'l
  ts_encrypted :: bool
  ts_playerClient :: 'pc
  ts_playerRT :: 't
  ts_roomClient :: 'rc
  ts_roomRT :: 't

definition NewTCPService :: "'l \<Rightarrow> conf_Label \<Rightarrow> 't \<Rightarrow> 'pc \<Rightarrow> 't \<Rightarrow> 'rc \<Rightarrow> ('l, 'pc, 'rc, 't) tcp_service" where
  "NewTCPService logger label playerRT playerClient roomRT roomClient =
     \<lparr>ts_logger = logger, ts_encrypted = lb_Encrypted label, ts_playerClient = playerClient, ts_playerRT = playerRT,
      ts_roomClient = roomClient, ts_roomRT = roomRT\<rparr>"


section \<open>Servers\<close>

text \<open>The middlewares of the framework, and those of the gate that the TCP server uses.\<close>

record 'm mw_lib =
  mw_Chain :: "'m list \<Rightarrow> 'm"
  mw_Recovery :: 'm
  mw_Metadata :: 'm
  mw_Tracing :: 'm
  mw_Metrics :: 'm
  mw_Logging :: 'm
  gate_Metadata :: 'm
  gate_Request :: "string \<Rightarrow> 'm"
  gate_Reply :: "string \<Rightarrow> 'm"

text \<open>\<open>R\<close> are the operations of the route table, if there is one; \<open>cfg\<close> is the configuration after
  \<^verbatim>\<open>conf.Init()\<close>.\<close>

definition tcp_options :: "'m mw_lib \<Rightarrow> string \<Rightarrow> conf_Servers \<Rightarrow> 'l option \<Rightarrow> 't route_ops option \<Rightarrow>
    ('m, 't wrap_func, 'l) server_option list" where
  "tcp_options L ep c logger rt =
     [OReadFilter (mw_Chain L [mw_Recovery L, gate_Metadata L, mw_Tracing L, mw_Metrics L, gate_Request L NetKindTCP]),
      OWriteFilter (mw_Chain L [gate_Reply L NetKindTCP])] @
     (if cs_TcpAddr c \<noteq> [] then [OBind (cs_TcpAddr c)] else []) @
     (case logger of None \<Rightarrow> [] | Some l \<Rightarrow> [OLogger l]) @
     (case rt of None \<Rightarrow> [] | Some R \<Rightarrow> [OAfterConnect (afterConnectFunc R ep), OAfterDisconnect (afterDisconnectFunc R ep)])"

text \<open>The text of the error is not in ASCII in the source; it is translated here, without the
  configuration it prints.\<close>

definition NewTCPServer :: "'m mw_lib \<Rightarrow> 'l \<Rightarrow> config \<Rightarrow> string \<Rightarrow> conf_Servers \<Rightarrow> 'l option \<Rightarrow> 't route_ops option \<Rightarrow>
    ('m, 't wrap_func, 'l) server res" where
  "NewTCPServer L defaultLogger cfg ep c logger rt =
     (case NewServer uidWidMap_init (\<lambda>a b. mw_Chain L [a, b]) (mw_Chain L [mw_Recovery L]) defaultLogger cfg (tcp_options L ep c logger rt) of
        Fail e \<Rightarrow> Fail (Wrap ''creating the TCP server failed. config:%+v'' [] e)
      | Panic p \<Rightarrow> Panic p
      | Ok s \<Rightarrow> Ok s)"

datatype grpc_setting = InitialConnWindowSize int | InitialWindowSize int | MaxConcurrentStreams int

datatype 'm rpc_option = RMiddleware "'m list" | RNetwork string | RAddress string | RTimeout int | RSettings "grpc_setting list"

definition endpoint_options :: "conf_Endpoint \<Rightarrow> 'm rpc_option list" where
  "endpoint_options c =
     (if ce_Network c \<noteq> [] then [RNetwork (ce_Network c)] else []) @
     (if ce_Addr c \<noteq> [] then [RAddress (ce_Addr c)] else []) @
     (case ce_Timeout c of None \<Rightarrow> [] | Some d \<Rightarrow> [RTimeout d])"

text \<open>\<open>newServer\<close> is \<^verbatim>\<open>NewServer\<close> of the transport, \<open>register\<close> the registration of the push service.\<close>

definition NewGRPCServer :: "'m mw_lib \<Rightarrow> ('m rpc_option list \<Rightarrow> 's) \<Rightarrow> ('s \<Rightarrow> 'p \<Rightarrow> 's) \<Rightarrow> conf_Servers \<Rightarrow> 'p \<Rightarrow> 's" where
  "NewGRPCServer L newServer register c ps =
     (let opts = [RMiddleware [mw_Recovery L, mw_Metadata L, mw_Tracing L, mw_Metrics L, mw_Logging L]] @
                 endpoint_options (cs_Grpc c) @
                 [RSettings [InitialConnWindowSize (2 ^ 30), InitialWindowSize (2 ^ 30), MaxConcurrentStreams (2 ^ 31 - 1)]] in
      register (newServer opts) ps)"

definition NewHTTPServer :: "'m mw_lib \<Rightarrow> ('m rpc_option list \<Rightarrow> 's) \<Rightarrow> ('s \<Rightarrow> 'p \<Rightarrow> 's) \<Rightarrow> conf_Servers \<Rightarrow> 'p \<Rightarrow> 's" where
  "NewHTTPServer L newServer register c ps =
     (let opts = [RMiddleware [mw_Chain L [mw_Recovery L, mw_Metadata L, mw_Tracing L, mw_Metrics L, mw_Logging L]]] @
                 endpoint_options (cs_Http c) in
      register (newServer opts) ps)"

text \<open>The routes of the health server: the API documentation, the metrics, and a handler that answers
  with status 200.\<close>

datatype health_route = HPrefix string | HMetrics string | HStatus string int

definition health_NewServer :: "(string \<Rightarrow> health_route list \<Rightarrow> 's) \<Rightarrow> string \<Rightarrow> 's" where
  "health_NewServer newServer addr = newServer addr [HPrefix ''/q/'', HMetrics ''/metrics'', HStatus ''/health'' 200]"


section \<open>The push service\<close>

record push_body =
  pb_Mod :: int32
  pb_Seq :: int32
  pb_Obj :: int64
  pb_Data :: bytes

record push_request =
  pr_Uid :: int64
  pr_Bodies :: "push_body option list"

record multicast_request =
  mr_Uid :: "int64 list"
  mr_Bodies :: "push_body option list"

record broadcast_request =
  br_Bodies :: "push_body option list"

datatype push_response = PushResponse
datatype multicast_response = MulticastResponse
datatype broadcast_response = BroadcastResponse

text \<open>The service holds the server; the state \<open>s\<close> is that of the running server.\<close>

record ('l, 's) push_service =
  ps_log :: 'l
  ps_server :: 's

definition NewPushService :: "('l \<Rightarrow> string \<Rightarrow> string \<Rightarrow> 'l) \<Rightarrow> 'l \<Rightarrow> 's \<Rightarrow> ('l, 's) push_service" where
  "NewPushService log_With logger ts = \<lparr>ps_log = log_With logger ''module'' ''gate/service/push'', ps_server = ts\<rparr>"

definition PushService_Push :: "push_request option \<Rightarrow> ('b, 'st, 'cd, 'x) running \<Rightarrow> push_response res \<times> ('b, 'st, 'cd, 'x) running" where
  "PushService_Push req s = (Ok PushResponse, s)"

definition PushService_Multicast :: "multicast_request option \<Rightarrow> ('b, 'st, 'cd, 'x) running \<Rightarrow>
    multicast_response res \<times> ('b, 'st, 'cd, 'x) running" where
  "PushService_Multicast req s = (Ok MulticastResponse, s)"

definition PushService_Broadcast :: "broadcast_request option \<Rightarrow> ('b, 'st, 'cd, 'x) running \<Rightarrow>
    broadcast_response res \<times> ('b, 'st, 'cd, 'x) running" where
  "PushService_Broadcast req s = (Ok BroadcastResponse, s)"



section \<open>The application\<close>

record app =
  ap_Name :: string
  ap_Version :: string
  ap_Metadata :: "(string \<times> string) list"
  ap_Servers :: "string list"

text \<open>What \<^verbatim>\<open>profile.Init\<close> was given: profile, color, zone, version, node and the gRPC endpoint.\<close>

type_synonym profile = "string \<times> string \<times> uint32 \<times> string \<times> string \<times> string"

text \<open>\<open>url\<close> is the result of \<^verbatim>\<open>gs.Endpoint()\<close>. The keys of the metadata are the names of the framework's
  constants. The servers are the health, TCP, HTTP and gRPC servers, in this order.\<close>

definition newApp :: "conf_Label \<Rightarrow> string res \<Rightarrow> (app \<times> profile) res" where
  "newApp label url =
     (let md = [(''SERVICE'', lb_Service label), (''PROFILE'', lb_Profile label), (''VERSION'', lb_Version label), (''COLOR'', lb_Color label)] in
      case url of
        Fail e \<Rightarrow> Panic ''gs.Endpoint''
      | Panic p \<Rightarrow> Panic p
      | Ok u \<Rightarrow>
          Ok (\<lparr>ap_Name = lb_Service label, ap_Version = lb_Version label, ap_Metadata = md, ap_Servers = [''health'', ''tcp'', ''http'', ''grpc'']\<rparr>,
              (lb_Profile label, lb_Color label, lb_Zone label, lb_Version label, lb_Node label, u)))"

text \<open>
  The library functions the injector calls. \<open>ij_TCP\<close> is \<^verbatim>\<open>NewTCPServer\<close> with its configuration, of which
  only the route table and the service are passed on here; \<open>ij_Endpoint\<close> is the endpoint of the
  gRPC server.
\<close>

record ('d, 'u, 'r, 't, 'e, 'disc, 'pn, 'pc, 'rn, 'rc, 'l, 'srv, 'hs, 'gs, 'rr) injector =
  ij_NewCluster :: "cluster_options \<Rightarrow> ('d \<times> 'u) res"
  ij_NewSingle :: "redis_options \<Rightarrow> ('d \<times> 'u) res"
  ij_NewTable :: "string \<Rightarrow> 'r \<Rightarrow> 't"
  ij_NewRedis :: "'d \<Rightarrow> 'r"
  ij_NewEtcd :: "etcd_config \<Rightarrow> 'e res"
  ij_Discovery :: "'e \<Rightarrow> 'disc"
  ij_PlayerConn :: "('l, 't, 'disc, 'pn) new_conn"
  ij_PlayerClient :: "'pn \<Rightarrow> 'pc"
  ij_RoomConn :: "('l, 't, 'disc, 'rn) new_conn"
  ij_RoomClient :: "'rn \<Rightarrow> 'rc"
  ij_TCP :: "'t \<Rightarrow> ('l, 'pc, 'rc, 't) tcp_service \<Rightarrow> 'srv res"
  ij_With :: "'l \<Rightarrow> string \<Rightarrow> string \<Rightarrow> 'l"
  ij_HTTP :: "('l, 'srv) push_service \<Rightarrow> 'hs"
  ij_GRPC :: "('l, 'srv) push_service \<Rightarrow> 'gs"
  ij_Endpoint :: "'gs \<Rightarrow> string res"
  ij_Registrar :: "'e \<Rightarrow> 'rr"

text \<open>The result carries the application and the function that releases the data layer; the list is
  what has been released so far.\<close>

definition initApp :: "('d, 'u, 'r, 't, 'e, 'disc, 'pn, 'pc, 'rn, 'rc, 'l, 'srv, 'hs, 'gs, 'rr) injector \<Rightarrow>
    conf_Label \<Rightarrow> etcd_config \<Rightarrow> conf_Redis \<Rightarrow> 'l \<Rightarrow> ((app \<times> profile) \<times> 'u) res \<times> 'u list" where
  "initApp J label registry confData logger =
     (case NewData (ij_NewCluster J) (ij_NewSingle J) confData of
        Fail e \<Rightarrow> (Fail e, [])
      | Panic p \<Rightarrow> (Panic p, [])
      | Ok (dataData, cleanup) \<Rightarrow>
     (let routeTable = gate_NewRouteTable (ij_NewTable J) (ij_NewRedis J) dataData;
          playerRouteTable = player_NewRouteTable (ij_NewTable J) (ij_NewRedis J) dataData in
      case NewDiscovery (ij_NewEtcd J) (ij_Discovery J) registry of
        Fail e \<Rightarrow> (Fail e, [cleanup])
      | Panic p \<Rightarrow> (Panic p, [])
      | Ok discovery \<Rightarrow>
     (case player_NewConn (ij_PlayerConn J) logger playerRouteTable discovery of
        Fail e \<Rightarrow> (Fail e, [cleanup])
      | Panic p \<Rightarrow> (Panic p, [])
      | Ok pconn \<Rightarrow>
     (let tunnelServiceClient = player_NewClient (ij_PlayerClient J) pconn;
          roomRouteTable = room_NewRouteTable (ij_NewTable J) (ij_NewRedis J) dataData in
      case room_NewConn (ij_RoomConn J) logger roomRouteTable discovery of
        Fail e \<Rightarrow> (Fail e, [cleanup])
      | Panic p \<Rightarrow> (Panic p, [])
      | Ok roomConn \<Rightarrow>
     (let intrav1TunnelServiceClient = room_NewClient (ij_RoomClient J) roomConn;
          serviceService = NewTCPService logger label playerRouteTable tunnelServiceClient roomRouteTable intrav1TunnelServiceClient in
      case ij_TCP J routeTable serviceService of
        Fail e \<Rightarrow> (Fail e, [cleanup])
      | Panic p \<Rightarrow> (Panic p, [])
      | Ok tcpServer \<Rightarrow>
     (let pushServiceServer = NewPushService (ij_With J) logger tcpServer;
          httpServer = ij_HTTP J pushServiceServer;
          grpcServer = ij_GRPC J pushServiceServer in
      case NewRegistrar (ij_NewEtcd J) (ij_Registrar J) registry of
        Fail e \<Rightarrow> (Fail e, [cleanup])
      | Panic p \<Rightarrow> (Panic p, [])
      | Ok registrar \<Rightarrow>
     (case newApp label (ij_Endpoint J grpcServer) of
        Fail e \<Rightarrow> (Fail e, [])
      | Panic p \<Rightarrow> (Panic p, [])
      | Ok a \<Rightarrow> (Ok (a, cleanup), []))))))))"


section \<open>The program\<close>

record bootstrap =
  bs_Label :: conf_Label
  bs_Trace :: string
  bs_Server :: conf_Servers
  bs_Data :: conf_Redis
  bs_LogType :: string
  bs_LogLevel :: string

text \<open>The outcomes of the calls \<^verbatim>\<open>main\<close> makes before the injector, and of running the application.\<close>

record 'l main_env =
  mn_Abs :: "string res"
  mn_Load :: "string \<Rightarrow> unit res"
  mn_Bootstrap :: "bootstrap res"
  mn_Registry :: "etcd_config res"
  mn_Secret :: "(string \<times> string) res"
  mn_Security :: "string \<Rightarrow> string \<Rightarrow> unit res"
  mn_Trace :: "string \<Rightarrow> string \<Rightarrow> string \<Rightarrow> string \<Rightarrow> unit res"
  mn_Log :: "string \<Rightarrow> string \<Rightarrow> conf_Label \<Rightarrow> 'l"
  mn_Run :: "app \<Rightarrow> unit res"

text \<open>An error panics.\<close>

fun must :: "'a res \<Rightarrow> 'a res" where
  "must (Ok x) = Ok x"
| "must (Fail e) = Panic ''panic(err)''"
| "must (Panic p) = Panic p"

text \<open>What comes before the injector: the configuration, the registry and the logger.\<close>

definition main_prepare :: "'l main_env \<Rightarrow> (bootstrap \<times> etcd_config \<times> 'l) res" where
  "main_prepare N =
     bind_res (must (mn_Abs N)) (\<lambda>flagConf.
     bind_res (must (mn_Load N flagConf)) (\<lambda>_.
     bind_res (must (mn_Bootstrap N)) (\<lambda>bc.
     bind_res (must (mn_Registry N)) (\<lambda>rc.
     bind_res (must (mn_Secret N)) (\<lambda>(aesKey, privateKey).
     bind_res (must (mn_Security N aesKey privateKey)) (\<lambda>_.
     bind_res (must (mn_Trace N (bs_Trace bc) (lb_Service (bs_Label bc)) (lb_Profile (bs_Label bc)) (lb_Color (bs_Label bc)))) (\<lambda>_.
     Ok (bc, rc, mn_Log N (bs_LogType bc) (bs_LogLevel bc) (bs_Label bc)))))))))"

definition main :: "'l main_env \<Rightarrow> ('d, 'u, 'r, 't, 'e, 'disc, 'pn, 'pc, 'rn, 'rc, 'l, 'srv, 'hs, 'gs, 'rr) injector \<Rightarrow>
    unit res \<times> 'u list" where
  "main N J =
     (case main_prepare N of
        Fail e \<Rightarrow> (Fail e, [])
      | Panic p \<Rightarrow> (Panic p, [])
      | Ok (bc, rc, logger) \<Rightarrow>
          (case initApp J (bs_Label bc) rc (bs_Data bc) logger of
             (Fail e, rel) \<Rightarrow> (Panic ''panic(err)'', rel)
           | (Panic p, rel) \<Rightarrow> (Panic p, rel)
           | (Ok ((a, pf), cleanup), rel) \<Rightarrow> (must (mn_Run N a), rel @ [cleanup])))"


section \<open>The data layer is released\<close>

text \<open>
  C33: The injector does not leak the data layer. If building the application fails at any step
  after the data layer was opened, the data layer has been released exactly once; if it succeeds,
  it has not been released and the function handed out is the one that releases it; and when
  opening it failed nothing is released.
\<close>

theorem initApp_releases:
  "(case initApp J label registry confData logger of
      (Ok (a, cleanup), rel) \<Rightarrow> rel = [] \<and> (\<exists>d. NewData (ij_NewCluster J) (ij_NewSingle J) confData = Ok (d, cleanup))
    | (Fail e, rel) \<Rightarrow>
        rel = (case NewData (ij_NewCluster J) (ij_NewSingle J) confData of Ok (d, cleanup) \<Rightarrow> [cleanup] | _ \<Rightarrow> [])
    | (Panic p, rel) \<Rightarrow> rel = [])"
proof -
  have n: "newApp label u \<noteq> Fail e" for u e
    by (cases u) (simp_all add: newApp_def)
  show ?thesis
    by (simp add: initApp_def Let_def n split: res.split prod.split)
qed



section \<open>The TCP server as it is wired\<close>

text \<open>What the code relies on of a middleware of the framework: unless the handler panics, it calls the
  handler once, with the same request and a context it may have extended.\<close>

definition passes :: "('c \<Rightarrow> 'c) \<Rightarrow> (('c, 'a, 'z) mw_handler \<Rightarrow> ('c, 'a, 'z) mw_handler) \<Rightarrow> bool" where
  "passes ext m \<longleftrightarrow> (\<forall>h ctx req s. \<not> is_panic (fst (h (ext ctx) req s)) \<longrightarrow> m h ctx req s = h (ext ctx) req s)"

text \<open>The documented behaviour of \<^verbatim>\<open>middleware.Chain\<close>: the first middleware is the outermost.\<close>

definition chain_all :: "('h \<Rightarrow> 'h) list \<Rightarrow> 'h \<Rightarrow> 'h" where
  "chain_all ms = foldr (\<circ>) ms id"

lemma NewTCPServer_fields:
  assumes "0 < BucketSize (c_Bucket cfg)" and "BucketSize (c_Bucket cfg) < 2 ^ 32"
  obtains s where "NewTCPServer L dl cfg ep c logger rt = Ok s"
    and "s_readFilter s = Some (mw_Chain L [mw_Chain L [mw_Recovery L],
      mw_Chain L [mw_Recovery L, gate_Metadata L, mw_Tracing L, mw_Metrics L, gate_Request L NetKindTCP]])"
    and "s_writeFilter s = Some (mw_Chain L [mw_Chain L [mw_Recovery L], mw_Chain L [gate_Reply L NetKindTCP]])"
    and "s_afterConnect s = map_option (\<lambda>R. afterConnectFunc R ep) rt"
    and "s_afterDisconnect s = map_option (\<lambda>R. afterDisconnectFunc R ep) rt"
    and "Bind (c_Server (s_conf s)) = (if cs_TcpAddr c \<noteq> [] then cs_TcpAddr c else Bind (c_Server cfg))"
proof -
  obtain bs where "NewBuckets uidWidMap_init (BucketSize (c_Bucket cfg)) = Ok bs"
    using NewBuckets_ok [OF assms] by blast
  then show thesis
    by (intro that [of "case NewTCPServer L dl cfg ep c logger rt of Ok s \<Rightarrow> s"])
      (simp_all add: NewTCPServer_def NewServer_def tcp_options_def Let_def split: option.splits)
qed


lemma passesD: "passes ext m \<Longrightarrow> \<not> is_panic (fst (h (ext ctx) req s)) \<Longrightarrow> m h ctx req s = h (ext ctx) req s"
  by (simp add: passes_def)

text \<open>
  C31: The server as it is wired serves requests unchanged but without header. With at least one
  bucket the server is created; it binds to the configured address if there is one and calls the
  route table after connecting and disconnecting. Its read filter, for any bytes and any handler
  that does not panic on them, calls the handler once with the same bytes and returns its result,
  whether or not they are logged; the context then has a transport with the endpoint of the gate
  and an empty header, since the header is only filled from decoded packets.
\<close>

theorem wired_server_serves:
  fixes L :: "(('c, 'a, 'z) mw_handler \<Rightarrow> ('c, 'a, 'z) mw_handler) mw_lib"
  assumes "mw_Chain L = chain_all" and "gate_Metadata L = metadata_Server H md0 ep newServer"
    and "gate_Request L = Request un M dev ch" and "passes fr (mw_Recovery L)" and "passes ft (mw_Tracing L)"
    and "passes fm (mw_Metrics L)" and "0 < BucketSize (c_Bucket cfg)" and "BucketSize (c_Bucket cfg) < 2 ^ 32"
    and "\<And>x st. \<not> is_panic (fst (handler x (VBytes b) st))" and "\<not> is_panic (un b)" and "blank zero_packet (mw_pool st)"
  shows "\<exists>s f. NewTCPServer L dl cfg ep c logger rt = Ok s \<and> s_readFilter s = Some f \<and>
    Bind (c_Server (s_conf s)) = (if cs_TcpAddr c \<noteq> [] then cs_TcpAddr c else Bind (c_Server cfg)) \<and>
    s_afterConnect s = map_option (\<lambda>R. afterConnectFunc R ep) rt \<and>
    s_afterDisconnect s = map_option (\<lambda>R. afterDisconnectFunc R ep) rt \<and>
    (\<exists>st1. f handler ctx (VBytes b) st =
       handler (fm (ft (newServer (fr (fr ctx)) (NewTransport ep [] md0 md0)))) (VBytes b) st1 \<and> logged st st1)"
proof -
  let ?h1 = "Request un M dev ch NetKindTCP handler"
  let ?h2 = "mw_Tracing L (mw_Metrics L ?h1)"
  let ?h3 = "metadata_Server H md0 ep newServer ?h2"
  obtain s where s: "NewTCPServer L dl cfg ep c logger rt = Ok s"
    "s_readFilter s = Some (mw_Chain L [mw_Chain L [mw_Recovery L],
      mw_Chain L [mw_Recovery L, gate_Metadata L, mw_Tracing L, mw_Metrics L, gate_Request L NetKindTCP]])"
    "s_afterConnect s = map_option (\<lambda>R. afterConnectFunc R ep) rt"
    "s_afterDisconnect s = map_option (\<lambda>R. afterDisconnectFunc R ep) rt"
    "Bind (c_Server (s_conf s)) = (if cs_TcpAddr c \<noteq> [] then cs_TcpAddr c else Bind (c_Server cfg))"
    using NewTCPServer_fields [OF assms(7,8), of L dl ep c logger rt] by metis
  define cx where "cx = newServer (fr (fr ctx)) (NewTransport ep [] md0 md0)"
  from request_log.transparent [of un b st M dev ch NetKindTCP handler "fm (ft cx)", OF assms(10,11)] obtain st1 where
    r: "?h1 (fm (ft cx)) (VBytes b) st = handler (fm (ft cx)) (VBytes b) st1" "logged st st1"
    by blast
  have np: "\<not> is_panic (fst (?h1 (fm (ft cx)) (VBytes b) st))" using r(1) assms(9) by simp
  have m: "mw_Metrics L ?h1 (ft cx) (VBytes b) st = ?h1 (fm (ft cx)) (VBytes b) st"
    by (rule passesD [OF assms(6)]) (fact np)
  have t: "?h2 cx (VBytes b) st = ?h1 (fm (ft cx)) (VBytes b) st"
    using passesD [OF assms(5), of "mw_Metrics L ?h1" cx "VBytes b" st] np by (simp add: m)
  have h3: "?h3 (fr (fr ctx)) (VBytes b) st = ?h2 cx (VBytes b) st"
    by (simp add: metadata_Server_def newRequestMetadata_def cx_def Let_def)
  have rec1: "mw_Recovery L ?h3 (fr ctx) (VBytes b) st = ?h3 (fr (fr ctx)) (VBytes b) st"
    by (rule passesD [OF assms(4)]) (use np in \<open>simp add: h3 t\<close>)
  have rec2: "mw_Recovery L (mw_Recovery L ?h3) ctx (VBytes b) st = mw_Recovery L ?h3 (fr ctx) (VBytes b) st"
    by (rule passesD [OF assms(4)]) (use np in \<open>simp add: rec1 h3 t\<close>)
  have "mw_Chain L [mw_Chain L [mw_Recovery L],
      mw_Chain L [mw_Recovery L, gate_Metadata L, mw_Tracing L, mw_Metrics L, gate_Request L NetKindTCP]] handler ctx (VBytes b) st =
    handler (fm (ft cx)) (VBytes b) st1"
    using rec2 by (simp add: assms(1-3) chain_all_def rec1 h3 t r(1))
  with s r(2) show ?thesis unfolding cx_def by blast
qed


text \<open>Middlewares that only call the handler, over contexts that count the transports put into them.\<close>

definition plain_lib :: "((nat, 'a, 'z) mw_handler \<Rightarrow> (nat, 'a, 'z) mw_handler) mw_lib" where
  "plain_lib = \<lparr>mw_Chain = chain_all, mw_Recovery = id, mw_Metadata = id, mw_Tracing = id, mw_Metrics = id, mw_Logging = id,
     gate_Metadata = metadata_Server fun_header (\<lambda>_. []) ''gate:9100'' (\<lambda>n _. Suc n),
     gate_Request = Request (un_Packet tiny_codec) \<lparr>append_client = (\<lambda>c k v. c), from_server = (\<lambda>_. None)\<rparr> True None,
     gate_Reply = Reply (un_Packet tiny_codec) \<lparr>append_client = (\<lambda>c k v. c), from_server = (\<lambda>_. None)\<rparr> True None\<rparr>"

definition demo_servers :: conf_Servers where
  "demo_servers = \<lparr>cs_TcpAddr = '':7001'', cs_Http = \<lparr>ce_Network = [], ce_Addr = [], ce_Timeout = None\<rparr>,
     cs_Grpc = \<lparr>ce_Network = [], ce_Addr = [], ce_Timeout = None\<rparr>, cs_Health = []\<rparr>"

definition demo_config :: config where
  "demo_config = conf_Default 4 \<lparr>Debug = False, Region = [], Zone = [], DeployEnv = [], Host = [], Weight = 0, Offline = False, Addrs = []\<rparr>"

theorem wired_server_serves_witness:
  "\<exists>s f st1. NewTCPServer plain_lib () (demo_config) ''gate:9100''
       demo_servers None (Some map_table) = Ok s \<and>
     s_readFilter s = Some f \<and> Bind (c_Server (s_conf s)) = '':7001'' \<and>
     f (\<lambda>ctx req st. (Ok (ctx, req), st)) 0 (VBytes [3, 5]) \<lparr>mw_pool = [], mw_log = []\<rparr> = (Ok (1, VBytes [3, 5]), st1)"
proof -
  let ?L = "plain_lib :: ((nat, nat \<times> reqv, unit) mw_handler \<Rightarrow> (nat, nat \<times> reqv, unit) mw_handler) mw_lib"
  let ?M = "\<lparr>append_client = (\<lambda>c k v. c), from_server = (\<lambda>_. None)\<rparr> :: nat md_ops"
  let ?h = "(\<lambda>ctx req st. (Ok (ctx, req), st)) :: (nat, nat \<times> reqv, unit) mw_handler"
  have "mw_Chain ?L = chain_all" "gate_Metadata ?L = metadata_Server fun_header (\<lambda>_. []) ''gate:9100'' (\<lambda>n _. Suc n)"
    "gate_Request ?L = Request (un_Packet tiny_codec) ?M True None"
    "passes id (mw_Recovery ?L)" "passes id (mw_Tracing ?L)" "passes id (mw_Metrics ?L)"
    by (simp_all add: plain_lib_def passes_def)
  moreover have "0 < BucketSize (c_Bucket (demo_config))" "BucketSize (c_Bucket (demo_config)) < 2 ^ 32"
    "\<not> is_panic (un_Packet tiny_codec [3, 5])" "blank zero_packet (mw_pool \<lparr>mw_pool = [], mw_log = []\<rparr>)"
    by (simp_all add: demo_config_def conf_Default_def tiny_codec_def blank_def Let_def)
  ultimately show ?thesis
    using wired_server_serves [of ?L fun_header "\<lambda>_. []" "''gate:9100''" "\<lambda>n _. Suc n" "un_Packet tiny_codec" ?M True None id id id
      "demo_config" ?h "[3, 5]" "\<lparr>mw_pool = [], mw_log = []\<rparr>" "()"
      "demo_servers" None "Some map_table" 0]
    by (auto simp: demo_servers_def)
qed

end
