(* ===== verification/Message_Checks.thy ===== *)
theory Message_Checks
  imports Decimal "HOL-Library.Multiset"
begin

text \<open>
  What the generated validation methods (\<^verbatim>\<open>gen/api/**/*.pb.validate.go\<close>) have in common: the errors
  they return and the checks they make of embedded messages, of lists and of maps of messages.

  Every message has its own types of errors, which all have the same shape: a validation error
  names the message, the field and the reason, and may have a cause; a multi-error is a list. The
  constructors carry the type of the message (\<open>TMsg\<close> with the package and the name for the messages the gate does not handle itself), \<open>None\<close> is the
  nil error.
\<close>

section \<open>Validation errors\<close>

datatype msg_type =
  TPushBody | TPushRequest | TPushResponse | TMulticastRequest | TMulticastResponse | TBroadcastRequest | TBroadcastResponse | TPacket | TAuthToken | TPlayerMessage | TRoomMessage
  | TMsg string string

fun type_name :: "msg_type \<Rightarrow> string" where
  "type_name TPushBody = ''PushBody''"
| "type_name TPushRequest = ''PushRequest''"
| "type_name TPushResponse = ''PushResponse''"
| "type_name TMulticastRequest = ''MulticastRequest''"
| "type_name TMulticastResponse = ''MulticastResponse''"
| "type_name TBroadcastRequest = ''BroadcastRequest''"
| "type_name TBroadcastResponse = ''BroadcastResponse''"
| "type_name TPacket = ''Packet''"
| "type_name TAuthToken = ''AuthToken''"
| "type_name TPlayerMessage = ''Message''"
| "type_name TRoomMessage = ''Message''"
| "type_name (TMsg p n) = n"

datatype verror = ValidationError msg_type string string "verror option" bool | MultiError msg_type "verror list"

fun Field :: "verror \<Rightarrow> string" where
  "Field (ValidationError T field reason cause key) = field"
| "Field (MultiError T es) = []"

fun Reason :: "verror \<Rightarrow> string" where
  "Reason (ValidationError T field reason cause key) = reason"
| "Reason (MultiError T es) = []"

fun Cause :: "verror \<Rightarrow> verror option" where
  "Cause (ValidationError T field reason cause key) = cause"
| "Cause (MultiError T es) = None"

fun Key :: "verror \<Rightarrow> bool" where
  "Key (ValidationError T field reason cause key) = key"
| "Key (MultiError T es) = False"

fun ErrorName :: "verror \<Rightarrow> string" where
  "ErrorName (ValidationError T field reason cause key) = type_name T @ ''ValidationError''"
| "ErrorName (MultiError T es) = []"

fun AllErrors :: "verror \<Rightarrow> verror list" where
  "AllErrors (MultiError T es) = es"
| "AllErrors (ValidationError T field reason cause key) = []"

fun strings_Join :: "string list \<Rightarrow> string \<Rightarrow> string" where
  "strings_Join [] sep = []"
| "strings_Join [s] sep = s"
| "strings_Join (s # t # ss) sep = s @ sep @ strings_Join (t # ss) sep"

text \<open>The method \<^verbatim>\<open>Error\<close> of an error of any of these types; the methods of the types are below.\<close>

primrec Error :: "verror \<Rightarrow> string" where
  "Error (ValidationError T field reason cause key) =
     ''invalid '' @ (if key then ''key for '' else []) @ type_name T @ ''.'' @ field @ '': '' @ reason @
     (case map_option Error cause of None \<Rightarrow> [] | Some t \<Rightarrow> '' | caused by: '' @ t)"
| "Error (MultiError T es) = strings_Join (map Error es) ''; ''"


section \<open>Checks of embedded messages\<close>

text \<open>
  The loop over an embedded list of messages, for the type \<open>T\<close> and the field \<open>fld\<close>, with the
  methods \<open>validate\<close> and \<open>validateAll\<close> of its elements: \<open>Inl\<close> is the return of the first error,
  \<open>Inr\<close> the errors collected. All these elements have both methods.
\<close>

fun check_items :: "bool \<Rightarrow> msg_type \<Rightarrow> string \<Rightarrow> ('i \<Rightarrow> verror option) \<Rightarrow> ('i \<Rightarrow> verror option) \<Rightarrow> nat \<Rightarrow> 'i list \<Rightarrow>
    verror list \<Rightarrow> verror + verror list" where
  "check_items all T fld validate validateAll idx [] errors = Inr errors"
| "check_items all T fld validate validateAll idx (item # items) errors =
     (if all
      then (case validateAll item of
              Some err \<Rightarrow>
                check_items all T fld validate validateAll (idx + 1) items
                  (errors @ [ValidationError T (fld @ ''['' @ dec idx @ '']'') ''embedded message failed validation'' (Some err) False])
            | None \<Rightarrow> check_items all T fld validate validateAll (idx + 1) items errors)
      else (case validate item of
              Some err \<Rightarrow> Inl (ValidationError T (fld @ ''['' @ dec idx @ '']'') ''embedded message failed validation'' (Some err) False)
            | None \<Rightarrow> check_items all T fld validate validateAll (idx + 1) items errors))"

text \<open>The check of an embedded message, \<open>None\<close> for a nil pointer. Its methods are asked for in the
  type switch; all these messages have both.\<close>

definition check_embedded :: "bool \<Rightarrow> msg_type \<Rightarrow> string \<Rightarrow> ('i \<Rightarrow> verror option) \<Rightarrow> ('i \<Rightarrow> verror option) \<Rightarrow> 'i \<Rightarrow>
    verror list \<Rightarrow> verror + verror list" where
  "check_embedded all T fld validate validateAll v errors =
     (if all
      then (case validateAll v of
              Some err \<Rightarrow> Inr (errors @ [ValidationError T fld ''embedded message failed validation'' (Some err) False])
            | None \<Rightarrow> Inr errors)
      else (case validate v of
              Some err \<Rightarrow> Inl (ValidationError T fld ''embedded message failed validation'' (Some err) False)
            | None \<Rightarrow> Inr errors))"

text \<open>The check of a map of messages. A Go map is the list of its entries in the order in which
  ranging over it happens to yield them; the keys are collected in this order and sorted, so that
  the loop follows the order of the keys.\<close>

definition sorted_keys :: "(int64 \<times> 'v) list \<Rightarrow> int64 list" where
  "sorted_keys m = sort_key sint (map fst m)"

definition map_index :: "(int64 \<times> 'v option) list \<Rightarrow> int64 \<Rightarrow> 'v option" where
  "map_index m key = (case map_of m key of Some val \<Rightarrow> val | None \<Rightarrow> None)"

fun check_keys :: "bool \<Rightarrow> msg_type \<Rightarrow> string \<Rightarrow> ('v option \<Rightarrow> verror option) \<Rightarrow> ('v option \<Rightarrow> verror option) \<Rightarrow>
    (int64 \<times> 'v option) list \<Rightarrow> int64 list \<Rightarrow> verror list \<Rightarrow> verror + verror list" where
  "check_keys all T fld validate validateAll m [] errors = Inr errors"
| "check_keys all T fld validate validateAll m (key # keys) errors =
     (let val = map_index m key in
      case check_embedded all T (fld @ ''['' @ FormatInt (sint key) @ '']'') validate validateAll val errors of
        Inl e \<Rightarrow> Inl e
      | Inr errs \<Rightarrow> check_keys all T fld validate validateAll m keys errs)"

definition check_map :: "bool \<Rightarrow> msg_type \<Rightarrow> string \<Rightarrow> ('v option \<Rightarrow> verror option) \<Rightarrow> ('v option \<Rightarrow> verror option) \<Rightarrow>
    (int64 \<times> 'v option) list \<Rightarrow> verror list \<Rightarrow> verror + verror list" where
  "check_map all T fld validate validateAll m errors = check_keys all T fld validate validateAll m (sorted_keys m) errors"

text \<open>The checks of a message one after the other, and its end.\<close>

fun run_checks :: "(verror list \<Rightarrow> verror + verror list) list \<Rightarrow> verror list \<Rightarrow> verror + verror list" where
  "run_checks [] errors = Inr errors"
| "run_checks (c # cs) errors = (case c errors of Inl e \<Rightarrow> Inl e | Inr errs \<Rightarrow> run_checks cs errs)"

definition finish_checks :: "msg_type \<Rightarrow> verror + verror list \<Rightarrow> verror option" where
  "finish_checks T r =
     (case r of Inl e \<Rightarrow> Some e | Inr errors \<Rightarrow> if length errors > 0 then Some (MultiError T errors) else None)"


text \<open>Embedded messages that are accepted.\<close>

lemma check_embedded_accepts [simp]:
  "validate x = None \<Longrightarrow> validateAll x = None \<Longrightarrow> check_embedded all T fld validate validateAll x errors = Inr errors"
  by (simp add: check_embedded_def)

lemma check_items_accepts [simp]:
  "(\<And>x. validate x = None) \<Longrightarrow> (\<And>x. validateAll x = None) \<Longrightarrow> check_items all T fld validate validateAll n xs errors = Inr errors"
  by (induction xs arbitrary: n; cases all) simp_all

lemma check_map_accepts [simp]:
  assumes "\<And>x. validate x = None" and "\<And>x. validateAll x = None"
  shows "check_map all T fld validate validateAll m errors = Inr errors"
proof -
  have "check_keys all T fld validate validateAll m keys errors = Inr errors" for keys
    using assms by (induction keys) simp_all
  then show ?thesis by (simp add: check_map_def)
qed

lemma finish_checks_none [simp]: "finish_checks T (Inr []) = None"
  by (simp add: finish_checks_def)


lemma foldl_snoc_map: "foldl (\<lambda>xs x. xs @ [f x]) acc ys = acc @ map f ys"
  by (induction ys arbitrary: acc) simp_all


section \<open>Maps are checked in the order of their keys\<close>

lemma sorted_keys_perm:
  assumes "mset m = mset m'"
  shows "sorted_keys m = sorted_keys m'"
proof -
  have "mset (map fst m) = mset (map fst m')" using assms by (metis mset_map)
  moreover have "inj_on sint (set (map fst m))" by (rule inj_on_subset [OF inj_signed]) simp
  ultimately show ?thesis
    unfolding sorted_keys_def by (intro sort_key_inj_key_eq) simp_all
qed

text \<open>
  The validation of a map of messages does not depend on the order in which ranging over the map
  yields its entries.
\<close>

theorem map_check_deterministic:
  assumes "distinct (map fst m)" and "mset m = mset m'"
  shows "check_map all T fld validate validateAll m errors = check_map all T fld validate validateAll m' errors"
proof -
  have "distinct (map fst m')" using assms by (metis mset_eq_imp_distinct_iff mset_map)
  then have "map_of m = map_of m'" using assms by (intro map_of_eqI) (auto simp: map_of_inject_set dest: mset_eq_setD)
  then have "map_index m = map_index m'" by (simp add: map_index_def fun_eq_iff)
  then have "check_keys all T fld validate validateAll m keys errors = check_keys all T fld validate validateAll m' keys errors" for keys errors
    by (induction keys arbitrary: errors) (simp_all split: sum.splits)
  then show ?thesis unfolding check_map_def using sorted_keys_perm [OF assms(2)] by simp
qed

end
