(* ===== verification/Validation.thy ===== *)
theory Validation
  imports Gate_App Message_Checks
begin

text \<open>
  The validation methods of the messages the gate exchanges: those of the push API
  (\<^verbatim>\<open>gen/api/server/gate/service/push/v1/push.pb.validate.go\<close>), of the packets of clients, of the
  authentication token and of the messages of the tunnels
  (\<^verbatim>\<open>packet.pb.validate.go\<close>, \<^verbatim>\<open>auth.pb.validate.go\<close>, \<^verbatim>\<open>tunnel.pb.validate.go\<close>).
\<close>

section \<open>Messages\<close>

subsection \<open>PushBody\<close>

definition PushBody_validate :: "bool \<Rightarrow> push_body option \<Rightarrow> verror option" where
  "PushBody_validate all m =
     (case m of
        None \<Rightarrow> None
      | Some r \<Rightarrow> (let errors = [] in if length errors > 0 then Some (MultiError TPushBody errors) else None))"

definition PushBody_Validate :: "push_body option \<Rightarrow> verror option" where
  "PushBody_Validate m = PushBody_validate False m"

definition PushBody_ValidateAll :: "push_body option \<Rightarrow> verror option" where
  "PushBody_ValidateAll m = PushBody_validate True m"

definition PushBodyMultiError_Error :: "verror list \<Rightarrow> string" where
  "PushBodyMultiError_Error m = (let msgs = foldl (\<lambda>msgs err. msgs @ [Error err]) [] m in strings_Join msgs ''; '')"

definition PushBodyValidationError_Error :: "string \<Rightarrow> string \<Rightarrow> verror option \<Rightarrow> bool \<Rightarrow> string" where
  "PushBodyValidationError_Error field reason cause key =
     (let cause = (case cause of None \<Rightarrow> [] | Some e \<Rightarrow> '' | caused by: '' @ Error e);
          key = (if key then ''key for '' else []) in
      ''invalid '' @ key @ ''PushBody.'' @ field @ '': '' @ reason @ cause)"

subsection \<open>PushRequest\<close>

definition PushRequest_validate :: "bool \<Rightarrow> push_request option \<Rightarrow> verror option" where
  "PushRequest_validate all m =
     (case m of
        None \<Rightarrow> None
      | Some r \<Rightarrow>
          (case check_items all TPushRequest ''Bodies'' PushBody_Validate PushBody_ValidateAll 0 (pr_Bodies r) [] of
             Inl e \<Rightarrow> Some e
           | Inr errors \<Rightarrow> if length errors > 0 then Some (MultiError TPushRequest errors) else None))"

definition PushRequest_Validate :: "push_request option \<Rightarrow> verror option" where
  "PushRequest_Validate m = PushRequest_validate False m"

definition PushRequest_ValidateAll :: "push_request option \<Rightarrow> verror option" where
  "PushRequest_ValidateAll m = PushRequest_validate True m"

definition PushRequestMultiError_Error :: "verror list \<Rightarrow> string" where
  "PushRequestMultiError_Error m = (let msgs = foldl (\<lambda>msgs err. msgs @ [Error err]) [] m in strings_Join msgs ''; '')"

definition PushRequestValidationError_Error :: "string \<Rightarrow> string \<Rightarrow> verror option \<Rightarrow> bool \<Rightarrow> string" where
  "PushRequestValidationError_Error field reason cause key =
     (let cause = (case cause of None \<Rightarrow> [] | Some e \<Rightarrow> '' | caused by: '' @ Error e);
          key = (if key then ''key for '' else []) in
      ''invalid '' @ key @ ''PushRequest.'' @ field @ '': '' @ reason @ cause)"

subsection \<open>PushResponse\<close>

definition PushResponse_validate :: "bool \<Rightarrow> push_response option \<Rightarrow> verror option" where
  "PushResponse_validate all m =
     (case m of
        None \<Rightarrow> None
      | Some r \<Rightarrow> (let errors = [] in if length errors > 0 then Some (MultiError TPushResponse errors) else None))"

definition PushResponse_Validate :: "push_response option \<Rightarrow> verror option" where
  "PushResponse_Validate m = PushResponse_validate False m"

definition PushResponse_ValidateAll :: "push_response option \<Rightarrow> verror option" where
  "PushResponse_ValidateAll m = PushResponse_validate True m"

definition PushResponseMultiError_Error :: "verror list \<Rightarrow> string" where
  "PushResponseMultiError_Error m = (let msgs = foldl (\<lambda>msgs err. msgs @ [Error err]) [] m in strings_Join msgs ''; '')"

definition PushResponseValidationError_Error :: "string \<Rightarrow> string \<Rightarrow> verror option \<Rightarrow> bool \<Rightarrow> string" where
  "PushResponseValidationError_Error field reason cause key =
     (let cause = (case cause of None \<Rightarrow> [] | Some e \<Rightarrow> '' | caused by: '' @ Error e);
          key = (if key then ''key for '' else []) in
      ''invalid '' @ key @ ''PushResponse.'' @ field @ '': '' @ reason @ cause)"

subsection \<open>MulticastRequest\<close>

definition MulticastRequest_validate :: "bool \<Rightarrow> multicast_request option \<Rightarrow> verror option" where
  "MulticastRequest_validate all m =
     (case m of
        None \<Rightarrow> None
      | Some r \<Rightarrow>
          (case check_items all TMulticastRequest ''Bodies'' PushBody_Validate PushBody_ValidateAll 0 (mr_Bodies r) [] of
             Inl e \<Rightarrow> Some e
           | Inr errors \<Rightarrow> if length errors > 0 then Some (MultiError TMulticastRequest errors) else None))"

definition MulticastRequest_Validate :: "multicast_request option \<Rightarrow> verror option" where
  "MulticastRequest_Validate m = MulticastRequest_validate False m"

definition MulticastRequest_ValidateAll :: "multicast_request option \<Rightarrow> verror option" where
  "MulticastRequest_ValidateAll m = MulticastRequest_validate True m"

definition MulticastRequestMultiError_Error :: "verror list \<Rightarrow> string" where
  "MulticastRequestMultiError_Error m = (let msgs = foldl (\<lambda>msgs err. msgs @ [Error err]) [] m in strings_Join msgs ''; '')"

definition MulticastRequestValidationError_Error :: "string \<Rightarrow> string \<Rightarrow> verror option \<Rightarrow> bool \<Rightarrow> string" where
  "MulticastRequestValidationError_Error field reason cause key =
     (let cause = (case cause of None \<Rightarrow> [] | Some e \<Rightarrow> '' | caused by: '' @ Error e);
          key = (if key then ''key for '' else []) in
      ''invalid '' @ key @ ''MulticastRequest.'' @ field @ '': '' @ reason @ cause)"

subsection \<open>MulticastResponse\<close>

definition MulticastResponse_validate :: "bool \<Rightarrow> multicast_response option \<Rightarrow> verror option" where
  "MulticastResponse_validate all m =
     (case m of
        None \<Rightarrow> None
      | Some r \<Rightarrow> (let errors = [] in if length errors > 0 then Some (MultiError TMulticastResponse errors) else None))"

definition MulticastResponse_Validate :: "multicast_response option \<Rightarrow> verror option" where
  "MulticastResponse_Validate m = MulticastResponse_validate False m"

definition MulticastResponse_ValidateAll :: "multicast_response option \<Rightarrow> verror option" where
  "MulticastResponse_ValidateAll m = MulticastResponse_validate True m"

definition MulticastResponseMultiError_Error :: "verror list \<Rightarrow> string" where
  "MulticastResponseMultiError_Error m = (let msgs = foldl (\<lambda>msgs err. msgs @ [Error err]) [] m in strings_Join msgs ''; '')"

definition MulticastResponseValidationError_Error :: "string \<Rightarrow> string \<Rightarrow> verror option \<Rightarrow> bool \<Rightarrow> string" where
  "MulticastResponseValidationError_Error field reason cause key =
     (let cause = (case cause of None \<Rightarrow> [] | Some e \<Rightarrow> '' | caused by: '' @ Error e);
          key = (if key then ''key for '' else []) in
      ''invalid '' @ key @ ''MulticastResponse.'' @ field @ '': '' @ reason @ cause)"

subsection \<open>BroadcastRequest\<close>

definition BroadcastRequest_validate :: "bool \<Rightarrow> broadcast_request option \<Rightarrow> verror option" where
  "BroadcastRequest_validate all m =
     (case m of
        None \<Rightarrow> None
      | Some r \<Rightarrow>
          (case check_items all TBroadcastRequest ''Bodies'' PushBody_Validate PushBody_ValidateAll 0 (br_Bodies r) [] of
             Inl e \<Rightarrow> Some e
           | Inr errors \<Rightarrow> if length errors > 0 then Some (MultiError TBroadcastRequest errors) else None))"

definition BroadcastRequest_Validate :: "broadcast_request option \<Rightarrow> verror option" where
  "BroadcastRequest_Validate m = BroadcastRequest_validate False m"

definition BroadcastRequest_ValidateAll :: "broadcast_request option \<Rightarrow> verror option" where
  "BroadcastRequest_ValidateAll m = BroadcastRequest_validate True m"

definition BroadcastRequestMultiError_Error :: "verror list \<Rightarrow> string" where
  "BroadcastRequestMultiError_Error m = (let msgs = foldl (\<lambda>msgs err. msgs @ [Error err]) [] m in strings_Join msgs ''; '')"

definition BroadcastRequestValidationError_Error :: "string \<Rightarrow> string \<Rightarrow> verror option \<Rightarrow> bool \<Rightarrow> string" where
  "BroadcastRequestValidationError_Error field reason cause key =
     (let cause = (case cause of None \<Rightarrow> [] | Some e \<Rightarrow> '' | caused by: '' @ Error e);
          key = (if key then ''key for '' else []) in
      ''invalid '' @ key @ ''BroadcastRequest.'' @ field @ '': '' @ reason @ cause)"

subsection \<open>BroadcastResponse\<close>

definition BroadcastResponse_validate :: "bool \<Rightarrow> broadcast_response option \<Rightarrow> verror option" where
  "BroadcastResponse_validate all m =
     (case m of
        None \<Rightarrow> None
      | Some r \<Rightarrow> (let errors = [] in if length errors > 0 then Some (MultiError TBroadcastResponse errors) else None))"

definition BroadcastResponse_Validate :: "broadcast_response option \<Rightarrow> verror option" where
  "BroadcastResponse_Validate m = BroadcastResponse_validate False m"

definition BroadcastResponse_ValidateAll :: "broadcast_response option \<Rightarrow> verror option" where
  "BroadcastResponse_ValidateAll m = BroadcastResponse_validate True m"

definition BroadcastResponseMultiError_Error :: "verror list \<Rightarrow> string" where
  "BroadcastResponseMultiError_Error m = (let msgs = foldl (\<lambda>msgs err. msgs @ [Error err]) [] m in strings_Join msgs ''; '')"

definition BroadcastResponseValidationError_Error :: "string \<Rightarrow> string \<Rightarrow> verror option \<Rightarrow> bool \<Rightarrow> string" where
  "BroadcastResponseValidationError_Error field reason cause key =
     (let cause = (case cause of None \<Rightarrow> [] | Some e \<Rightarrow> '' | caused by: '' @ Error e);
          key = (if key then ''key for '' else []) in
      ''invalid '' @ key @ ''BroadcastResponse.'' @ field @ '': '' @ reason @ cause)"

subsection \<open>Packet\<close>

definition Packet_validate :: "bool \<Rightarrow> packet option \<Rightarrow> verror option" where
  "Packet_validate all m =
     (case m of
        None \<Rightarrow> None
      | Some r \<Rightarrow> (let errors = [] in if length errors > 0 then Some (MultiError TPacket errors) else None))"

definition Packet_Validate :: "packet option \<Rightarrow> verror option" where
  "Packet_Validate m = Packet_validate False m"

definition Packet_ValidateAll :: "packet option \<Rightarrow> verror option" where
  "Packet_ValidateAll m = Packet_validate True m"

definition PacketMultiError_Error :: "verror list \<Rightarrow> string" where
  "PacketMultiError_Error m = (let msgs = foldl (\<lambda>msgs err. msgs @ [Error err]) [] m in strings_Join msgs ''; '')"

definition PacketValidationError_Error :: "string \<Rightarrow> string \<Rightarrow> verror option \<Rightarrow> bool \<Rightarrow> string" where
  "PacketValidationError_Error field reason cause key =
     (let cause = (case cause of None \<Rightarrow> [] | Some e \<Rightarrow> '' | caused by: '' @ Error e);
          key = (if key then ''key for '' else []) in
      ''invalid '' @ key @ ''Packet.'' @ field @ '': '' @ reason @ cause)"

subsection \<open>AuthToken\<close>

definition AuthToken_validate :: "bool \<Rightarrow> auth_token option \<Rightarrow> verror option" where
  "AuthToken_validate all m =
     (case m of
        None \<Rightarrow> None
      | Some r \<Rightarrow> (let errors = [] in if length errors > 0 then Some (MultiError TAuthToken errors) else None))"

definition AuthToken_Validate :: "auth_token option \<Rightarrow> verror option" where
  "AuthToken_Validate m = AuthToken_validate False m"

definition AuthToken_ValidateAll :: "auth_token option \<Rightarrow> verror option" where
  "AuthToken_ValidateAll m = AuthToken_validate True m"

definition AuthTokenMultiError_Error :: "verror list \<Rightarrow> string" where
  "AuthTokenMultiError_Error m = (let msgs = foldl (\<lambda>msgs err. msgs @ [Error err]) [] m in strings_Join msgs ''; '')"

definition AuthTokenValidationError_Error :: "string \<Rightarrow> string \<Rightarrow> verror option \<Rightarrow> bool \<Rightarrow> string" where
  "AuthTokenValidationError_Error field reason cause key =
     (let cause = (case cause of None \<Rightarrow> [] | Some e \<Rightarrow> '' | caused by: '' @ Error e);
          key = (if key then ''key for '' else []) in
      ''invalid '' @ key @ ''AuthToken.'' @ field @ '': '' @ reason @ cause)"

subsection \<open>PlayerMessage\<close>

definition PlayerMessage_validate :: "bool \<Rightarrow> message option \<Rightarrow> verror option" where
  "PlayerMessage_validate all m =
     (case m of
        None \<Rightarrow> None
      | Some r \<Rightarrow> (let errors = [] in if length errors > 0 then Some (MultiError TPlayerMessage errors) else None))"

definition PlayerMessage_Validate :: "message option \<Rightarrow> verror option" where
  "PlayerMessage_Validate m = PlayerMessage_validate False m"

definition PlayerMessage_ValidateAll :: "message option \<Rightarrow> verror option" where
  "PlayerMessage_ValidateAll m = PlayerMessage_validate True m"

definition PlayerMessageMultiError_Error :: "verror list \<Rightarrow> string" where
  "PlayerMessageMultiError_Error m = (let msgs = foldl (\<lambda>msgs err. msgs @ [Error err]) [] m in strings_Join msgs ''; '')"

definition PlayerMessageValidationError_Error :: "string \<Rightarrow> string \<Rightarrow> verror option \<Rightarrow> bool \<Rightarrow> string" where
  "PlayerMessageValidationError_Error field reason cause key =
     (let cause = (case cause of None \<Rightarrow> [] | Some e \<Rightarrow> '' | caused by: '' @ Error e);
          key = (if key then ''key for '' else []) in
      ''invalid '' @ key @ ''Message.'' @ field @ '': '' @ reason @ cause)"

subsection \<open>RoomMessage\<close>

definition RoomMessage_validate :: "bool \<Rightarrow> message option \<Rightarrow> verror option" where
  "RoomMessage_validate all m =
     (case m of
        None \<Rightarrow> None
      | Some r \<Rightarrow> (let errors = [] in if length errors > 0 then Some (MultiError TRoomMessage errors) else None))"

definition RoomMessage_Validate :: "message option \<Rightarrow> verror option" where
  "RoomMessage_Validate m = RoomMessage_validate False m"

definition RoomMessage_ValidateAll :: "message option \<Rightarrow> verror option" where
  "RoomMessage_ValidateAll m = RoomMessage_validate True m"

definition RoomMessageMultiError_Error :: "verror list \<Rightarrow> string" where
  "RoomMessageMultiError_Error m = (let msgs = foldl (\<lambda>msgs err. msgs @ [Error err]) [] m in strings_Join msgs ''; '')"

definition RoomMessageValidationError_Error :: "string \<Rightarrow> string \<Rightarrow> verror option \<Rightarrow> bool \<Rightarrow> string" where
  "RoomMessageValidationError_Error field reason cause key =
     (let cause = (case cause of None \<Rightarrow> [] | Some e \<Rightarrow> '' | caused by: '' @ Error e);
          key = (if key then ''key for '' else []) in
      ''invalid '' @ key @ ''Message.'' @ field @ '': '' @ reason @ cause)"

lemmas Validate_defs =
  PushRequest_Validate_def PushRequest_ValidateAll_def PushRequest_validate_def
  PushResponse_Validate_def PushResponse_ValidateAll_def PushResponse_validate_def
  MulticastRequest_Validate_def MulticastRequest_ValidateAll_def MulticastRequest_validate_def
  MulticastResponse_Validate_def MulticastResponse_ValidateAll_def MulticastResponse_validate_def
  BroadcastRequest_Validate_def BroadcastRequest_ValidateAll_def BroadcastRequest_validate_def
  BroadcastResponse_Validate_def BroadcastResponse_ValidateAll_def BroadcastResponse_validate_def
  Packet_Validate_def Packet_ValidateAll_def Packet_validate_def
  AuthToken_Validate_def AuthToken_ValidateAll_def AuthToken_validate_def
  PlayerMessage_Validate_def PlayerMessage_ValidateAll_def PlayerMessage_validate_def
  RoomMessage_Validate_def RoomMessage_ValidateAll_def RoomMessage_validate_def


text \<open>The methods of a type are what \<open>Error\<close> does on its errors.\<close>

lemma PushRequest_Error:
  "Error (ValidationError TPushRequest f r c k) = PushRequestValidationError_Error f r c k"
  "Error (MultiError TPushRequest es) = PushRequestMultiError_Error es"
  by (simp_all add: PushRequestValidationError_Error_def PushRequestMultiError_Error_def foldl_snoc_map split: option.splits)

lemma PushBody_accepts [simp]: "PushBody_Validate m = None" "PushBody_ValidateAll m = None"
  by (simp_all add: PushBody_Validate_def PushBody_ValidateAll_def PushBody_validate_def split: option.splits)

text \<open>
  Validation refuses nothing. For every message of the push API, every packet, token and
  tunnel message, nil included, both methods return no error: the messages have no rules of their
  own and their embedded messages have none either.
\<close>

theorem validation_refuses_nothing:
  "PushRequest_Validate pr = None \<and> PushRequest_ValidateAll pr = None \<and>
   MulticastRequest_Validate mr = None \<and> MulticastRequest_ValidateAll mr = None \<and>
   BroadcastRequest_Validate br = None \<and> BroadcastRequest_ValidateAll br = None \<and>
   PushResponse_Validate ps = None \<and> PushResponse_ValidateAll ps = None \<and>
   MulticastResponse_Validate ms = None \<and> MulticastResponse_ValidateAll ms = None \<and>
   BroadcastResponse_Validate bs = None \<and> BroadcastResponse_ValidateAll bs = None \<and>
   Packet_Validate p = None \<and> Packet_ValidateAll p = None \<and> AuthToken_Validate t = None \<and> AuthToken_ValidateAll t = None \<and>
   PlayerMessage_Validate m = None \<and> PlayerMessage_ValidateAll m = None \<and>
   RoomMessage_Validate m = None \<and> RoomMessage_ValidateAll m = None"
  unfolding Validate_defs by (simp split: option.splits)

end
