(* ===== verification/Client_Messages.thy ===== *)
theory Client_Messages
  imports Message_Checks Service
begin

text \<open>
  The messages of clients (\<^verbatim>\<open>gen/api/client/message/\<close>): the fields of each message, from its \<^verbatim>\<open>.pb.go\<close>
  file, and the methods of its \<^verbatim>\<open>.pb.validate.go\<close> file. The gate carries these messages as the data of
  packets; only the handshake is read by the gate itself.

  An empty struct is a type with one value, an enumeration its \<^verbatim>\<open>int32\<close>, a map the list of its entries.
\<close>

section \<open>Dev\<close>

subsection \<open>CSDevList\<close>

datatype CSDevList = CSDevList

definition CSDevList_validate :: "bool \<Rightarrow> CSDevList option \<Rightarrow> verror option" where
  "CSDevList_validate all m =
     (case m of
        None \<Rightarrow> None
      | Some r \<Rightarrow> finish_checks (TMsg ''client.message'' ''CSDevList'') (run_checks [] []))"

definition CSDevList_Validate :: "CSDevList option \<Rightarrow> verror option" where
  "CSDevList_Validate m = CSDevList_validate False m"

definition CSDevList_ValidateAll :: "CSDevList option \<Rightarrow> verror option" where
  "CSDevList_ValidateAll m = CSDevList_validate True m"

definition CSDevListMultiError_Error :: "verror list \<Rightarrow> string" where
  "CSDevListMultiError_Error m = (let msgs = foldl (\<lambda>msgs err. msgs @ [Error err]) [] m in strings_Join msgs ''; '')"

definition CSDevListValidationError_Error :: "string \<Rightarrow> string \<Rightarrow> verror option \<Rightarrow> bool \<Rightarrow> string" where
  "CSDevListValidationError_Error field reason cause key =
     (let cause = (case cause of None \<Rightarrow> [] | Some e \<Rightarrow> '' | caused by: '' @ Error e);
          key = (if key then ''key for '' else []) in
      ''invalid '' @ key @ ''CSDevList.'' @ field @ '': '' @ reason @ cause)"

subsection \<open>DevCmdArgProto\<close>

record DevCmdArgProto =
  DevCmdArgProto_Key :: string
  DevCmdArgProto_Def :: string

definition DevCmdArgProto_validate :: "bool \<Rightarrow> DevCmdArgProto option \<Rightarrow> verror option" where
  "DevCmdArgProto_validate all m =
     (case m of
        None \<Rightarrow> None
      | Some r \<Rightarrow> finish_checks (TMsg ''client.message'' ''DevCmdArgProto'') (run_checks [] []))"

definition DevCmdArgProto_Validate :: "DevCmdArgProto option \<Rightarrow> verror option" where
  "DevCmdArgProto_Validate m = DevCmdArgProto_validate False m"

definition DevCmdArgProto_ValidateAll :: "DevCmdArgProto option \<Rightarrow> verror option" where
  "DevCmdArgProto_ValidateAll m = DevCmdArgProto_validate True m"

definition DevCmdArgProtoMultiError_Error :: "verror list \<Rightarrow> string" where
  "DevCmdArgProtoMultiError_Error m = (let msgs = foldl (\<lambda>msgs err. msgs @ [Error err]) [] m in strings_Join msgs ''; '')"

definition DevCmdArgProtoValidationError_Error :: "string \<Rightarrow> string \<Rightarrow> verror option \<Rightarrow> bool \<Rightarrow> string" where
  "DevCmdArgProtoValidationError_Error field reason cause key =
     (let cause = (case cause of None \<Rightarrow> [] | Some e \<Rightarrow> '' | caused by: '' @ Error e);
          key = (if key then ''key for '' else []) in
      ''invalid '' @ key @ ''DevCmdArgProto.'' @ field @ '': '' @ reason @ cause)"

subsection \<open>DevCmdProto\<close>

record DevCmdProto =
  DevCmdProto_Mod :: string
  DevCmdProto_Name :: string
  DevCmdProto_Desc :: string
  DevCmdProto_Args :: "DevCmdArgProto option list"

definition DevCmdProto_validate :: "bool \<Rightarrow> DevCmdProto option \<Rightarrow> verror option" where
  "DevCmdProto_validate all m =
     (case m of
        None \<Rightarrow> None
      | Some r \<Rightarrow>
          finish_checks (TMsg ''client.message'' ''DevCmdProto'') (run_checks
          [check_items all (TMsg ''client.message'' ''DevCmdProto'') ''Args'' DevCmdArgProto_Validate DevCmdArgProto_ValidateAll 0 (DevCmdProto_Args r)] []))"

definition DevCmdProto_Validate :: "DevCmdProto option \<Rightarrow> verror option" where
  "DevCmdProto_Validate m = DevCmdProto_validate False m"

definition DevCmdProto_ValidateAll :: "DevCmdProto option \<Rightarrow> verror option" where
  "DevCmdProto_ValidateAll m = DevCmdProto_validate True m"

definition DevCmdProtoMultiError_Error :: "verror list \<Rightarrow> string" where
  "DevCmdProtoMultiError_Error m = (let msgs = foldl (\<lambda>msgs err. msgs @ [Error err]) [] m in strings_Join msgs ''; '')"

definition DevCmdProtoValidationError_Error :: "string \<Rightarrow> string \<Rightarrow> verror option \<Rightarrow> bool \<Rightarrow> string" where
  "DevCmdProtoValidationError_Error field reason cause key =
     (let cause = (case cause of None \<Rightarrow> [] | Some e \<Rightarrow> '' | caused by: '' @ Error e);
          key = (if key then ''key for '' else []) in
      ''invalid '' @ key @ ''DevCmdProto.'' @ field @ '': '' @ reason @ cause)"

subsection \<open>SCDevList\<close>

record SCDevList =
  SCDevList_Code :: int32
  SCDevList_Commands :: "DevCmdProto option list"

definition SCDevList_validate :: "bool \<Rightarrow> SCDevList option \<Rightarrow> verror option" where
  "SCDevList_validate all m =
     (case m of
        None \<Rightarrow> None
      | Some r \<Rightarrow>
          finish_checks (TMsg ''client.message'' ''SCDevList'') (run_checks
          [check_items all (TMsg ''client.message'' ''SCDevList'') ''Commands'' DevCmdProto_Validate DevCmdProto_ValidateAll 0 (SCDevList_Commands r)] []))"

definition SCDevList_Validate :: "SCDevList option \<Rightarrow> verror option" where
  "SCDevList_Validate m = SCDevList_validate False m"

definition SCDevList_ValidateAll :: "SCDevList option \<Rightarrow> verror option" where
  "SCDevList_ValidateAll m = SCDevList_validate True m"

definition SCDevListMultiError_Error :: "verror list \<Rightarrow> string" where
  "SCDevListMultiError_Error m = (let msgs = foldl (\<lambda>msgs err. msgs @ [Error err]) [] m in strings_Join msgs ''; '')"

definition SCDevListValidationError_Error :: "string \<Rightarrow> string \<Rightarrow> verror option \<Rightarrow> bool \<Rightarrow> string" where
  "SCDevListValidationError_Error field reason cause key =
     (let cause = (case cause of None \<Rightarrow> [] | Some e \<Rightarrow> '' | caused by: '' @ Error e);
          key = (if key then ''key for '' else []) in
      ''invalid '' @ key @ ''SCDevList.'' @ field @ '': '' @ reason @ cause)"

subsection \<open>CSDevExecute\<close>

record CSDevExecute =
  CSDevExecute_Mod :: string
  CSDevExecute_Cmd :: string
  CSDevExecute_StrArgs :: "(string \<times> string) list"

definition CSDevExecute_validate :: "bool \<Rightarrow> CSDevExecute option \<Rightarrow> verror option" where
  "CSDevExecute_validate all m =
     (case m of
        None \<Rightarrow> None
      | Some r \<Rightarrow> finish_checks (TMsg ''client.message'' ''CSDevExecute'') (run_checks [] []))"

definition CSDevExecute_Validate :: "CSDevExecute option \<Rightarrow> verror option" where
  "CSDevExecute_Validate m = CSDevExecute_validate False m"

definition CSDevExecute_ValidateAll :: "CSDevExecute option \<Rightarrow> verror option" where
  "CSDevExecute_ValidateAll m = CSDevExecute_validate True m"

definition CSDevExecuteMultiError_Error :: "verror list \<Rightarrow> string" where
  "CSDevExecuteMultiError_Error m = (let msgs = foldl (\<lambda>msgs err. msgs @ [Error err]) [] m in strings_Join msgs ''; '')"

definition CSDevExecuteValidationError_Error :: "string \<Rightarrow> string \<Rightarrow> verror option \<Rightarrow> bool \<Rightarrow> string" where
  "CSDevExecuteValidationError_Error field reason cause key =
     (let cause = (case cause of None \<Rightarrow> [] | Some e \<Rightarrow> '' | caused by: '' @ Error e);
          key = (if key then ''key for '' else []) in
      ''invalid '' @ key @ ''CSDevExecute.'' @ field @ '': '' @ reason @ cause)"

subsection \<open>SCDevExecute\<close>

record SCDevExecute =
  SCDevExecute_Code :: int32
  SCDevExecute_Message :: string

definition SCDevExecute_validate :: "bool \<Rightarrow> SCDevExecute option \<Rightarrow> verror option" where
  "SCDevExecute_validate all m =
     (case m of
        None \<Rightarrow> None
      | Some r \<Rightarrow> finish_checks (TMsg ''client.message'' ''SCDevExecute'') (run_checks [] []))"

definition SCDevExecute_Validate :: "SCDevExecute option \<Rightarrow> verror option" where
  "SCDevExecute_Validate m = SCDevExecute_validate False m"

definition SCDevExecute_ValidateAll :: "SCDevExecute option \<Rightarrow> verror option" where
  "SCDevExecute_ValidateAll m = SCDevExecute_validate True m"

definition SCDevExecuteMultiError_Error :: "verror list \<Rightarrow> string" where
  "SCDevExecuteMultiError_Error m = (let msgs = foldl (\<lambda>msgs err. msgs @ [Error err]) [] m in strings_Join msgs ''; '')"

definition SCDevExecuteValidationError_Error :: "string \<Rightarrow> string \<Rightarrow> verror option \<Rightarrow> bool \<Rightarrow> string" where
  "SCDevExecuteValidationError_Error field reason cause key =
     (let cause = (case cause of None \<Rightarrow> [] | Some e \<Rightarrow> '' | caused by: '' @ Error e);
          key = (if key then ''key for '' else []) in
      ''invalid '' @ key @ ''SCDevExecute.'' @ field @ '': '' @ reason @ cause)"

section \<open>Hero\<close>

subsection \<open>HeroProto\<close>

record HeroProto =
  HeroProto_Id :: int64
  HeroProto_DataId :: uint64
  HeroProto_Level :: uint64

definition HeroProto_validate :: "bool \<Rightarrow> HeroProto option \<Rightarrow> verror option" where
  "HeroProto_validate all m =
     (case m of
        None \<Rightarrow> None
      | Some r \<Rightarrow> finish_checks (TMsg ''client.message'' ''HeroProto'') (run_checks [] []))"

definition HeroProto_Validate :: "HeroProto option \<Rightarrow> verror option" where
  "HeroProto_Validate m = HeroProto_validate False m"

definition HeroProto_ValidateAll :: "HeroProto option \<Rightarrow> verror option" where
  "HeroProto_ValidateAll m = HeroProto_validate True m"

definition HeroProtoMultiError_Error :: "verror list \<Rightarrow> string" where
  "HeroProtoMultiError_Error m = (let msgs = foldl (\<lambda>msgs err. msgs @ [Error err]) [] m in strings_Join msgs ''; '')"

definition HeroProtoValidationError_Error :: "string \<Rightarrow> string \<Rightarrow> verror option \<Rightarrow> bool \<Rightarrow> string" where
  "HeroProtoValidationError_Error field reason cause key =
     (let cause = (case cause of None \<Rightarrow> [] | Some e \<Rightarrow> '' | caused by: '' @ Error e);
          key = (if key then ''key for '' else []) in
      ''invalid '' @ key @ ''HeroProto.'' @ field @ '': '' @ reason @ cause)"

subsection \<open>SCPushHeroUnlock\<close>

record SCPushHeroUnlock =
  SCPushHeroUnlock_Heroes :: "HeroProto option list"

definition SCPushHeroUnlock_validate :: "bool \<Rightarrow> SCPushHeroUnlock option \<Rightarrow> verror option" where
  "SCPushHeroUnlock_validate all m =
     (case m of
        None \<Rightarrow> None
      | Some r \<Rightarrow>
          finish_checks (TMsg ''client.message'' ''SCPushHeroUnlock'') (run_checks
          [check_items all (TMsg ''client.message'' ''SCPushHeroUnlock'') ''Heroes'' HeroProto_Validate HeroProto_ValidateAll 0 (SCPushHeroUnlock_Heroes r)] []))"

definition SCPushHeroUnlock_Validate :: "SCPushHeroUnlock option \<Rightarrow> verror option" where
  "SCPushHeroUnlock_Validate m = SCPushHeroUnlock_validate False m"

definition SCPushHeroUnlock_ValidateAll :: "SCPushHeroUnlock option \<Rightarrow> verror option" where
  "SCPushHeroUnlock_ValidateAll m = SCPushHeroUnlock_validate True m"

definition SCPushHeroUnlockMultiError_Error :: "verror list \<Rightarrow> string" where
  "SCPushHeroUnlockMultiError_Error m = (let msgs = foldl (\<lambda>msgs err. msgs @ [Error err]) [] m in strings_Join msgs ''; '')"

definition SCPushHeroUnlockValidationError_Error :: "string \<Rightarrow> string \<Rightarrow> verror option \<Rightarrow> bool \<Rightarrow> string" where
  "SCPushHeroUnlockValidationError_Error field reason cause key =
     (let cause = (case cause of None \<Rightarrow> [] | Some e \<Rightarrow> '' | caused by: '' @ Error e);
          key = (if key then ''key for '' else []) in
      ''invalid '' @ key @ ''SCPushHeroUnlock.'' @ field @ '': '' @ reason @ cause)"

subsection \<open>CSHeroLevelUpgrade\<close>

record CSHeroLevelUpgrade =
  CSHeroLevelUpgrade_HeroId :: int64

definition CSHeroLevelUpgrade_validate :: "bool \<Rightarrow> CSHeroLevelUpgrade option \<Rightarrow> verror option" where
  "CSHeroLevelUpgrade_validate all m =
     (case m of
        None \<Rightarrow> None
      | Some r \<Rightarrow> finish_checks (TMsg ''client.message'' ''CSHeroLevelUpgrade'') (run_checks [] []))"

definition CSHeroLevelUpgrade_Validate :: "CSHeroLevelUpgrade option \<Rightarrow> verror option" where
  "CSHeroLevelUpgrade_Validate m = CSHeroLevelUpgrade_validate False m"

definition CSHeroLevelUpgrade_ValidateAll :: "CSHeroLevelUpgrade option \<Rightarrow> verror option" where
  "CSHeroLevelUpgrade_ValidateAll m = CSHeroLevelUpgrade_validate True m"

definition CSHeroLevelUpgradeMultiError_Error :: "verror list \<Rightarrow> string" where
  "CSHeroLevelUpgradeMultiError_Error m = (let msgs = foldl (\<lambda>msgs err. msgs @ [Error err]) [] m in strings_Join msgs ''; '')"

definition CSHeroLevelUpgradeValidationError_Error :: "string \<Rightarrow> string \<Rightarrow> verror option \<Rightarrow> bool \<Rightarrow> string" where
  "CSHeroLevelUpgradeValidationError_Error field reason cause key =
     (let cause = (case cause of None \<Rightarrow> [] | Some e \<Rightarrow> '' | caused by: '' @ Error e);
          key = (if key then ''key for '' else []) in
      ''invalid '' @ key @ ''CSHeroLevelUpgrade.'' @ field @ '': '' @ reason @ cause)"

subsection \<open>SCHeroLevelUpgrade\<close>

record SCHeroLevelUpgrade =
  SCHeroLevelUpgrade_Code :: int32
  SCHeroLevelUpgrade_Hero :: "HeroProto option"
  SCHeroLevelUpgrade_NewAmounts :: "(int64 \<times> uint64) list"

definition SCHeroLevelUpgrade_validate :: "bool \<Rightarrow> SCHeroLevelUpgrade option \<Rightarrow> verror option" where
  "SCHeroLevelUpgrade_validate all m =
     (case m of
        None \<Rightarrow> None
      | Some r \<Rightarrow>
          finish_checks (TMsg ''client.message'' ''SCHeroLevelUpgrade'') (run_checks
          [check_embedded all (TMsg ''client.message'' ''SCHeroLevelUpgrade'') ''Hero'' HeroProto_Validate HeroProto_ValidateAll (SCHeroLevelUpgrade_Hero r)] []))"

definition SCHeroLevelUpgrade_Validate :: "SCHeroLevelUpgrade option \<Rightarrow> verror option" where
  "SCHeroLevelUpgrade_Validate m = SCHeroLevelUpgrade_validate False m"

definition SCHeroLevelUpgrade_ValidateAll :: "SCHeroLevelUpgrade option \<Rightarrow> verror option" where
  "SCHeroLevelUpgrade_ValidateAll m = SCHeroLevelUpgrade_validate True m"

definition SCHeroLevelUpgradeMultiError_Error :: "verror list \<Rightarrow> string" where
  "SCHeroLevelUpgradeMultiError_Error m = (let msgs = foldl (\<lambda>msgs err. msgs @ [Error err]) [] m in strings_Join msgs ''; '')"

definition SCHeroLevelUpgradeValidationError_Error :: "string \<Rightarrow> string \<Rightarrow> verror option \<Rightarrow> bool \<Rightarrow> string" where
  "SCHeroLevelUpgradeValidationError_Error field reason cause key =
     (let cause = (case cause of None \<Rightarrow> [] | Some e \<Rightarrow> '' | caused by: '' @ Error e);
          key = (if key then ''key for '' else []) in
      ''invalid '' @ key @ ''SCHeroLevelUpgrade.'' @ field @ '': '' @ reason @ cause)"

subsection \<open>UserHeroListProto\<close>

record UserHeroListProto =
  UserHeroListProto_Heroes :: "(int64 \<times> HeroProto option) list"

definition UserHeroListProto_validate :: "bool \<Rightarrow> UserHeroListProto option \<Rightarrow> verror option" where
  "UserHeroListProto_validate all m =
     (case m of
        None \<Rightarrow> None
      | Some r \<Rightarrow>
          finish_checks (TMsg ''client.message'' ''UserHeroListProto'') (run_checks
          [check_map all (TMsg ''client.message'' ''UserHeroListProto'') ''Heroes'' HeroProto_Validate HeroProto_ValidateAll (UserHeroListProto_Heroes r)] []))"

definition UserHeroListProto_Validate :: "UserHeroListProto option \<Rightarrow> verror option" where
  "UserHeroListProto_Validate m = UserHeroListProto_validate False m"

definition UserHeroListProto_ValidateAll :: "UserHeroListProto option \<Rightarrow> verror option" where
  "UserHeroListProto_ValidateAll m = UserHeroListProto_validate True m"

definition UserHeroListProtoMultiError_Error :: "verror list \<Rightarrow> string" where
  "UserHeroListProtoMultiError_Error m = (let msgs = foldl (\<lambda>msgs err. msgs @ [Error err]) [] m in strings_Join msgs ''; '')"

definition UserHeroListProtoValidationError_Error :: "string \<Rightarrow> string \<Rightarrow> verror option \<Rightarrow> bool \<Rightarrow> string" where
  "UserHeroListProtoValidationError_Error field reason cause key =
     (let cause = (case cause of None \<Rightarrow> [] | Some e \<Rightarrow> '' | caused by: '' @ Error e);
          key = (if key then ''key for '' else []) in
      ''invalid '' @ key @ ''UserHeroListProto.'' @ field @ '': '' @ reason @ cause)"

section \<open>Storage\<close>

subsection \<open>SCPushItemUpdate\<close>

record SCPushItemUpdate =
  SCPushItemUpdate_Items :: "(int64 \<times> uint64) list"

definition SCPushItemUpdate_validate :: "bool \<Rightarrow> SCPushItemUpdate option \<Rightarrow> verror option" where
  "SCPushItemUpdate_validate all m =
     (case m of
        None \<Rightarrow> None
      | Some r \<Rightarrow> finish_checks (TMsg ''client.message'' ''SCPushItemUpdate'') (run_checks [] []))"

definition SCPushItemUpdate_Validate :: "SCPushItemUpdate option \<Rightarrow> verror option" where
  "SCPushItemUpdate_Validate m = SCPushItemUpdate_validate False m"

definition SCPushItemUpdate_ValidateAll :: "SCPushItemUpdate option \<Rightarrow> verror option" where
  "SCPushItemUpdate_ValidateAll m = SCPushItemUpdate_validate True m"

definition SCPushItemUpdateMultiError_Error :: "verror list \<Rightarrow> string" where
  "SCPushItemUpdateMultiError_Error m = (let msgs = foldl (\<lambda>msgs err. msgs @ [Error err]) [] m in strings_Join msgs ''; '')"

definition SCPushItemUpdateValidationError_Error :: "string \<Rightarrow> string \<Rightarrow> verror option \<Rightarrow> bool \<Rightarrow> string" where
  "SCPushItemUpdateValidationError_Error field reason cause key =
     (let cause = (case cause of None \<Rightarrow> [] | Some e \<Rightarrow> '' | caused by: '' @ Error e);
          key = (if key then ''key for '' else []) in
      ''invalid '' @ key @ ''SCPushItemUpdate.'' @ field @ '': '' @ reason @ cause)"

subsection \<open>CSUsePack\<close>

record CSUsePack =
  CSUsePack_Id :: int64

definition CSUsePack_validate :: "bool \<Rightarrow> CSUsePack option \<Rightarrow> verror option" where
  "CSUsePack_validate all m =
     (case m of
        None \<Rightarrow> None
      | Some r \<Rightarrow> finish_checks (TMsg ''client.message'' ''CSUsePack'') (run_checks [] []))"

definition CSUsePack_Validate :: "CSUsePack option \<Rightarrow> verror option" where
  "CSUsePack_Validate m = CSUsePack_validate False m"

definition CSUsePack_ValidateAll :: "CSUsePack option \<Rightarrow> verror option" where
  "CSUsePack_ValidateAll m = CSUsePack_validate True m"

definition CSUsePackMultiError_Error :: "verror list \<Rightarrow> string" where
  "CSUsePackMultiError_Error m = (let msgs = foldl (\<lambda>msgs err. msgs @ [Error err]) [] m in strings_Join msgs ''; '')"

definition CSUsePackValidationError_Error :: "string \<Rightarrow> string \<Rightarrow> verror option \<Rightarrow> bool \<Rightarrow> string" where
  "CSUsePackValidationError_Error field reason cause key =
     (let cause = (case cause of None \<Rightarrow> [] | Some e \<Rightarrow> '' | caused by: '' @ Error e);
          key = (if key then ''key for '' else []) in
      ''invalid '' @ key @ ''CSUsePack.'' @ field @ '': '' @ reason @ cause)"

subsection \<open>SCUsePack\<close>

record SCUsePack =
  SCUsePack_Code :: int32
  SCUsePack_Id :: int64
  SCUsePack_ChangedItems :: "(int64 \<times> uint64) list"

definition SCUsePack_validate :: "bool \<Rightarrow> SCUsePack option \<Rightarrow> verror option" where
  "SCUsePack_validate all m =
     (case m of
        None \<Rightarrow> None
      | Some r \<Rightarrow> finish_checks (TMsg ''client.message'' ''SCUsePack'') (run_checks [] []))"

definition SCUsePack_Validate :: "SCUsePack option \<Rightarrow> verror option" where
  "SCUsePack_Validate m = SCUsePack_validate False m"

definition SCUsePack_ValidateAll :: "SCUsePack option \<Rightarrow> verror option" where
  "SCUsePack_ValidateAll m = SCUsePack_validate True m"

definition SCUsePackMultiError_Error :: "verror list \<Rightarrow> string" where
  "SCUsePackMultiError_Error m = (let msgs = foldl (\<lambda>msgs err. msgs @ [Error err]) [] m in strings_Join msgs ''; '')"

definition SCUsePackValidationError_Error :: "string \<Rightarrow> string \<Rightarrow> verror option \<Rightarrow> bool \<Rightarrow> string" where
  "SCUsePackValidationError_Error field reason cause key =
     (let cause = (case cause of None \<Rightarrow> [] | Some e \<Rightarrow> '' | caused by: '' @ Error e);
          key = (if key then ''key for '' else []) in
      ''invalid '' @ key @ ''SCUsePack.'' @ field @ '': '' @ reason @ cause)"

subsection \<open>ItemPackProto\<close>

record ItemPackProto =
  ItemPackProto_DataId :: int64
  ItemPackProto_ReceivedAt :: int64

definition ItemPackProto_validate :: "bool \<Rightarrow> ItemPackProto option \<Rightarrow> verror option" where
  "ItemPackProto_validate all m =
     (case m of
        None \<Rightarrow> None
      | Some r \<Rightarrow> finish_checks (TMsg ''client.message'' ''ItemPackProto'') (run_checks [] []))"

definition ItemPackProto_Validate :: "ItemPackProto option \<Rightarrow> verror option" where
  "ItemPackProto_Validate m = ItemPackProto_validate False m"

definition ItemPackProto_ValidateAll :: "ItemPackProto option \<Rightarrow> verror option" where
  "ItemPackProto_ValidateAll m = ItemPackProto_validate True m"

definition ItemPackProtoMultiError_Error :: "verror list \<Rightarrow> string" where
  "ItemPackProtoMultiError_Error m = (let msgs = foldl (\<lambda>msgs err. msgs @ [Error err]) [] m in strings_Join msgs ''; '')"

definition ItemPackProtoValidationError_Error :: "string \<Rightarrow> string \<Rightarrow> verror option \<Rightarrow> bool \<Rightarrow> string" where
  "ItemPackProtoValidationError_Error field reason cause key =
     (let cause = (case cause of None \<Rightarrow> [] | Some e \<Rightarrow> '' | caused by: '' @ Error e);
          key = (if key then ''key for '' else []) in
      ''invalid '' @ key @ ''ItemPackProto.'' @ field @ '': '' @ reason @ cause)"

subsection \<open>ItemRecoverableProto\<close>

record ItemRecoverableProto =
  ItemRecoverableProto_Count :: uint64
  ItemRecoverableProto_Max :: uint64
  ItemRecoverableProto_RecoverPerSecond :: "32 word"
  ItemRecoverableProto_UpdatedAt :: int64

definition ItemRecoverableProto_validate :: "bool \<Rightarrow> ItemRecoverableProto option \<Rightarrow> verror option" where
  "ItemRecoverableProto_validate all m =
     (case m of
        None \<Rightarrow> None
      | Some r \<Rightarrow> finish_checks (TMsg ''client.message'' ''ItemRecoverableProto'') (run_checks [] []))"

definition ItemRecoverableProto_Validate :: "ItemRecoverableProto option \<Rightarrow> verror option" where
  "ItemRecoverableProto_Validate m = ItemRecoverableProto_validate False m"

definition ItemRecoverableProto_ValidateAll :: "ItemRecoverableProto option \<Rightarrow> verror option" where
  "ItemRecoverableProto_ValidateAll m = ItemRecoverableProto_validate True m"

definition ItemRecoverableProtoMultiError_Error :: "verror list \<Rightarrow> string" where
  "ItemRecoverableProtoMultiError_Error m = (let msgs = foldl (\<lambda>msgs err. msgs @ [Error err]) [] m in strings_Join msgs ''; '')"

definition ItemRecoverableProtoValidationError_Error :: "string \<Rightarrow> string \<Rightarrow> verror option \<Rightarrow> bool \<Rightarrow> string" where
  "ItemRecoverableProtoValidationError_Error field reason cause key =
     (let cause = (case cause of None \<Rightarrow> [] | Some e \<Rightarrow> '' | caused by: '' @ Error e);
          key = (if key then ''key for '' else []) in
      ''invalid '' @ key @ ''ItemRecoverableProto.'' @ field @ '': '' @ reason @ cause)"

subsection \<open>UserStorageProto\<close>

record UserStorageProto =
  UserStorageProto_Amounts :: "(int64 \<times> uint64) list"
  UserStorageProto_Packs :: "(int64 \<times> ItemPackProto option) list"
  UserStorageProto_RecoverableItems :: "(int64 \<times> ItemRecoverableProto option) list"

definition UserStorageProto_validate :: "bool \<Rightarrow> UserStorageProto option \<Rightarrow> verror option" where
  "UserStorageProto_validate all m =
     (case m of
        None \<Rightarrow> None
      | Some r \<Rightarrow>
          finish_checks (TMsg ''client.message'' ''UserStorageProto'') (run_checks
          [check_map all (TMsg ''client.message'' ''UserStorageProto'') ''Packs'' ItemPackProto_Validate ItemPackProto_ValidateAll (UserStorageProto_Packs r),
           check_map all (TMsg ''client.message'' ''UserStorageProto'') ''RecoverableItems'' ItemRecoverableProto_Validate ItemRecoverableProto_ValidateAll (UserStorageProto_RecoverableItems r)] []))"

definition UserStorageProto_Validate :: "UserStorageProto option \<Rightarrow> verror option" where
  "UserStorageProto_Validate m = UserStorageProto_validate False m"

definition UserStorageProto_ValidateAll :: "UserStorageProto option \<Rightarrow> verror option" where
  "UserStorageProto_ValidateAll m = UserStorageProto_validate True m"

definition UserStorageProtoMultiError_Error :: "verror list \<Rightarrow> string" where
  "UserStorageProtoMultiError_Error m = (let msgs = foldl (\<lambda>msgs err. msgs @ [Error err]) [] m in strings_Join msgs ''; '')"

definition UserStorageProtoValidationError_Error :: "string \<Rightarrow> string \<Rightarrow> verror option \<Rightarrow> bool \<Rightarrow> string" where
  "UserStorageProtoValidationError_Error field reason cause key =
     (let cause = (case cause of None \<Rightarrow> [] | Some e \<Rightarrow> '' | caused by: '' @ Error e);
          key = (if key then ''key for '' else []) in
      ''invalid '' @ key @ ''UserStorageProto.'' @ field @ '': '' @ reason @ cause)"

section \<open>System\<close>

subsection \<open>CSHandshake\<close>

definition CSHandshake_validate :: "bool \<Rightarrow> cs_handshake option \<Rightarrow> verror option" where
  "CSHandshake_validate all m =
     (case m of
        None \<Rightarrow> None
      | Some r \<Rightarrow> finish_checks (TMsg ''client.message'' ''CSHandshake'') (run_checks [] []))"

definition CSHandshake_Validate :: "cs_handshake option \<Rightarrow> verror option" where
  "CSHandshake_Validate m = CSHandshake_validate False m"

definition CSHandshake_ValidateAll :: "cs_handshake option \<Rightarrow> verror option" where
  "CSHandshake_ValidateAll m = CSHandshake_validate True m"

definition CSHandshakeMultiError_Error :: "verror list \<Rightarrow> string" where
  "CSHandshakeMultiError_Error m = (let msgs = foldl (\<lambda>msgs err. msgs @ [Error err]) [] m in strings_Join msgs ''; '')"

definition CSHandshakeValidationError_Error :: "string \<Rightarrow> string \<Rightarrow> verror option \<Rightarrow> bool \<Rightarrow> string" where
  "CSHandshakeValidationError_Error field reason cause key =
     (let cause = (case cause of None \<Rightarrow> [] | Some e \<Rightarrow> '' | caused by: '' @ Error e);
          key = (if key then ''key for '' else []) in
      ''invalid '' @ key @ ''CSHandshake.'' @ field @ '': '' @ reason @ cause)"

subsection \<open>SCHandshake\<close>

definition SCHandshake_validate :: "bool \<Rightarrow> sc_handshake option \<Rightarrow> verror option" where
  "SCHandshake_validate all m =
     (case m of
        None \<Rightarrow> None
      | Some r \<Rightarrow> finish_checks (TMsg ''client.message'' ''SCHandshake'') (run_checks [] []))"

definition SCHandshake_Validate :: "sc_handshake option \<Rightarrow> verror option" where
  "SCHandshake_Validate m = SCHandshake_validate False m"

definition SCHandshake_ValidateAll :: "sc_handshake option \<Rightarrow> verror option" where
  "SCHandshake_ValidateAll m = SCHandshake_validate True m"

definition SCHandshakeMultiError_Error :: "verror list \<Rightarrow> string" where
  "SCHandshakeMultiError_Error m = (let msgs = foldl (\<lambda>msgs err. msgs @ [Error err]) [] m in strings_Join msgs ''; '')"

definition SCHandshakeValidationError_Error :: "string \<Rightarrow> string \<Rightarrow> verror option \<Rightarrow> bool \<Rightarrow> string" where
  "SCHandshakeValidationError_Error field reason cause key =
     (let cause = (case cause of None \<Rightarrow> [] | Some e \<Rightarrow> '' | caused by: '' @ Error e);
          key = (if key then ''key for '' else []) in
      ''invalid '' @ key @ ''SCHandshake.'' @ field @ '': '' @ reason @ cause)"

subsection \<open>CSHeartBeat\<close>

record CSHeartBeat =
  CSHeartBeat_ClientTime :: int64

definition CSHeartBeat_validate :: "bool \<Rightarrow> CSHeartBeat option \<Rightarrow> verror option" where
  "CSHeartBeat_validate all m =
     (case m of
        None \<Rightarrow> None
      | Some r \<Rightarrow> finish_checks (TMsg ''client.message'' ''CSHeartBeat'') (run_checks [] []))"

definition CSHeartBeat_Validate :: "CSHeartBeat option \<Rightarrow> verror option" where
  "CSHeartBeat_Validate m = CSHeartBeat_validate False m"

definition CSHeartBeat_ValidateAll :: "CSHeartBeat option \<Rightarrow> verror option" where
  "CSHeartBeat_ValidateAll m = CSHeartBeat_validate True m"

definition CSHeartBeatMultiError_Error :: "verror list \<Rightarrow> string" where
  "CSHeartBeatMultiError_Error m = (let msgs = foldl (\<lambda>msgs err. msgs @ [Error err]) [] m in strings_Join msgs ''; '')"

definition CSHeartBeatValidationError_Error :: "string \<Rightarrow> string \<Rightarrow> verror option \<Rightarrow> bool \<Rightarrow> string" where
  "CSHeartBeatValidationError_Error field reason cause key =
     (let cause = (case cause of None \<Rightarrow> [] | Some e \<Rightarrow> '' | caused by: '' @ Error e);
          key = (if key then ''key for '' else []) in
      ''invalid '' @ key @ ''CSHeartBeat.'' @ field @ '': '' @ reason @ cause)"

subsection \<open>SCHeartBeat\<close>

record SCHeartBeat =
  SCHeartBeat_ServerTime :: int64
  SCHeartBeat_Code :: int32

definition SCHeartBeat_validate :: "bool \<Rightarrow> SCHeartBeat option \<Rightarrow> verror option" where
  "SCHeartBeat_validate all m =
     (case m of
        None \<Rightarrow> None
      | Some r \<Rightarrow> finish_checks (TMsg ''client.message'' ''SCHeartBeat'') (run_checks [] []))"

definition SCHeartBeat_Validate :: "SCHeartBeat option \<Rightarrow> verror option" where
  "SCHeartBeat_Validate m = SCHeartBeat_validate False m"

definition SCHeartBeat_ValidateAll :: "SCHeartBeat option \<Rightarrow> verror option" where
  "SCHeartBeat_ValidateAll m = SCHeartBeat_validate True m"

definition SCHeartBeatMultiError_Error :: "verror list \<Rightarrow> string" where
  "SCHeartBeatMultiError_Error m = (let msgs = foldl (\<lambda>msgs err. msgs @ [Error err]) [] m in strings_Join msgs ''; '')"

definition SCHeartBeatValidationError_Error :: "string \<Rightarrow> string \<Rightarrow> verror option \<Rightarrow> bool \<Rightarrow> string" where
  "SCHeartBeatValidationError_Error field reason cause key =
     (let cause = (case cause of None \<Rightarrow> [] | Some e \<Rightarrow> '' | caused by: '' @ Error e);
          key = (if key then ''key for '' else []) in
      ''invalid '' @ key @ ''SCHeartBeat.'' @ field @ '': '' @ reason @ cause)"

subsection \<open>SCServerUnknownErr\<close>

record SCServerUnknownErr =
  SCServerUnknownErr_Mod :: int32
  SCServerUnknownErr_Seq :: int32
  SCServerUnknownErr_Msg :: string

definition SCServerUnknownErr_validate :: "bool \<Rightarrow> SCServerUnknownErr option \<Rightarrow> verror option" where
  "SCServerUnknownErr_validate all m =
     (case m of
        None \<Rightarrow> None
      | Some r \<Rightarrow> finish_checks (TMsg ''client.message'' ''SCServerUnknownErr'') (run_checks [] []))"

definition SCServerUnknownErr_Validate :: "SCServerUnknownErr option \<Rightarrow> verror option" where
  "SCServerUnknownErr_Validate m = SCServerUnknownErr_validate False m"

definition SCServerUnknownErr_ValidateAll :: "SCServerUnknownErr option \<Rightarrow> verror option" where
  "SCServerUnknownErr_ValidateAll m = SCServerUnknownErr_validate True m"

definition SCServerUnknownErrMultiError_Error :: "verror list \<Rightarrow> string" where
  "SCServerUnknownErrMultiError_Error m = (let msgs = foldl (\<lambda>msgs err. msgs @ [Error err]) [] m in strings_Join msgs ''; '')"

definition SCServerUnknownErrValidationError_Error :: "string \<Rightarrow> string \<Rightarrow> verror option \<Rightarrow> bool \<Rightarrow> string" where
  "SCServerUnknownErrValidationError_Error field reason cause key =
     (let cause = (case cause of None \<Rightarrow> [] | Some e \<Rightarrow> '' | caused by: '' @ Error e);
          key = (if key then ''key for '' else []) in
      ''invalid '' @ key @ ''SCServerUnknownErr.'' @ field @ '': '' @ reason @ cause)"

subsection \<open>SCServerLogout\<close>

record SCServerLogout =
  SCServerLogout_Code :: int32

definition SCServerLogout_validate :: "bool \<Rightarrow> SCServerLogout option \<Rightarrow> verror option" where
  "SCServerLogout_validate all m =
     (case m of
        None \<Rightarrow> None
      | Some r \<Rightarrow> finish_checks (TMsg ''client.message'' ''SCServerLogout'') (run_checks [] []))"

definition SCServerLogout_Validate :: "SCServerLogout option \<Rightarrow> verror option" where
  "SCServerLogout_Validate m = SCServerLogout_validate False m"

definition SCServerLogout_ValidateAll :: "SCServerLogout option \<Rightarrow> verror option" where
  "SCServerLogout_ValidateAll m = SCServerLogout_validate True m"

definition SCServerLogoutMultiError_Error :: "verror list \<Rightarrow> string" where
  "SCServerLogoutMultiError_Error m = (let msgs = foldl (\<lambda>msgs err. msgs @ [Error err]) [] m in strings_Join msgs ''; '')"

definition SCServerLogoutValidationError_Error :: "string \<Rightarrow> string \<Rightarrow> verror option \<Rightarrow> bool \<Rightarrow> string" where
  "SCServerLogoutValidationError_Error field reason cause key =
     (let cause = (case cause of None \<Rightarrow> [] | Some e \<Rightarrow> '' | caused by: '' @ Error e);
          key = (if key then ''key for '' else []) in
      ''invalid '' @ key @ ''SCServerLogout.'' @ field @ '': '' @ reason @ cause)"

section \<open>User basic\<close>

subsection \<open>UserBasicProto\<close>

record UserBasicProto =
  UserBasicProto_Id :: string
  UserBasicProto_Name :: string
  UserBasicProto_NameSeq :: uint64
  UserBasicProto_Gender :: int32

definition UserBasicProto_validate :: "bool \<Rightarrow> UserBasicProto option \<Rightarrow> verror option" where
  "UserBasicProto_validate all m =
     (case m of
        None \<Rightarrow> None
      | Some r \<Rightarrow> finish_checks (TMsg ''client.message'' ''UserBasicProto'') (run_checks [] []))"

definition UserBasicProto_Validate :: "UserBasicProto option \<Rightarrow> verror option" where
  "UserBasicProto_Validate m = UserBasicProto_validate False m"

definition UserBasicProto_ValidateAll :: "UserBasicProto option \<Rightarrow> verror option" where
  "UserBasicProto_ValidateAll m = UserBasicProto_validate True m"

definition UserBasicProtoMultiError_Error :: "verror list \<Rightarrow> string" where
  "UserBasicProtoMultiError_Error m = (let msgs = foldl (\<lambda>msgs err. msgs @ [Error err]) [] m in strings_Join msgs ''; '')"

definition UserBasicProtoValidationError_Error :: "string \<Rightarrow> string \<Rightarrow> verror option \<Rightarrow> bool \<Rightarrow> string" where
  "UserBasicProtoValidationError_Error field reason cause key =
     (let cause = (case cause of None \<Rightarrow> [] | Some e \<Rightarrow> '' | caused by: '' @ Error e);
          key = (if key then ''key for '' else []) in
      ''invalid '' @ key @ ''UserBasicProto.'' @ field @ '': '' @ reason @ cause)"

section \<open>Room\<close>

subsection \<open>UserRoomProto\<close>

record UserRoomProto =
  UserRoomProto_RoomId :: int64

definition UserRoomProto_validate :: "bool \<Rightarrow> UserRoomProto option \<Rightarrow> verror option" where
  "UserRoomProto_validate all m =
     (case m of
        None \<Rightarrow> None
      | Some r \<Rightarrow> finish_checks (TMsg ''client.message'' ''UserRoomProto'') (run_checks [] []))"

definition UserRoomProto_Validate :: "UserRoomProto option \<Rightarrow> verror option" where
  "UserRoomProto_Validate m = UserRoomProto_validate False m"

definition UserRoomProto_ValidateAll :: "UserRoomProto option \<Rightarrow> verror option" where
  "UserRoomProto_ValidateAll m = UserRoomProto_validate True m"

definition UserRoomProtoMultiError_Error :: "verror list \<Rightarrow> string" where
  "UserRoomProtoMultiError_Error m = (let msgs = foldl (\<lambda>msgs err. msgs @ [Error err]) [] m in strings_Join msgs ''; '')"

definition UserRoomProtoValidationError_Error :: "string \<Rightarrow> string \<Rightarrow> verror option \<Rightarrow> bool \<Rightarrow> string" where
  "UserRoomProtoValidationError_Error field reason cause key =
     (let cause = (case cause of None \<Rightarrow> [] | Some e \<Rightarrow> '' | caused by: '' @ Error e);
          key = (if key then ''key for '' else []) in
      ''invalid '' @ key @ ''UserRoomProto.'' @ field @ '': '' @ reason @ cause)"

subsection \<open>RoomBasicProto\<close>

record RoomBasicProto =
  RoomBasicProto_Id :: int64
  RoomBasicProto_RoomType :: uint64
  RoomBasicProto_Creator :: "UserBasicProto option"
  RoomBasicProto_CreatedAt :: int64

definition RoomBasicProto_validate :: "bool \<Rightarrow> RoomBasicProto option \<Rightarrow> verror option" where
  "RoomBasicProto_validate all m =
     (case m of
        None \<Rightarrow> None
      | Some r \<Rightarrow>
          finish_checks (TMsg ''client.message'' ''RoomBasicProto'') (run_checks
          [check_embedded all (TMsg ''client.message'' ''RoomBasicProto'') ''Creator'' UserBasicProto_Validate UserBasicProto_ValidateAll (RoomBasicProto_Creator r)] []))"

definition RoomBasicProto_Validate :: "RoomBasicProto option \<Rightarrow> verror option" where
  "RoomBasicProto_Validate m = RoomBasicProto_validate False m"

definition RoomBasicProto_ValidateAll :: "RoomBasicProto option \<Rightarrow> verror option" where
  "RoomBasicProto_ValidateAll m = RoomBasicProto_validate True m"

definition RoomBasicProtoMultiError_Error :: "verror list \<Rightarrow> string" where
  "RoomBasicProtoMultiError_Error m = (let msgs = foldl (\<lambda>msgs err. msgs @ [Error err]) [] m in strings_Join msgs ''; '')"

definition RoomBasicProtoValidationError_Error :: "string \<Rightarrow> string \<Rightarrow> verror option \<Rightarrow> bool \<Rightarrow> string" where
  "RoomBasicProtoValidationError_Error field reason cause key =
     (let cause = (case cause of None \<Rightarrow> [] | Some e \<Rightarrow> '' | caused by: '' @ Error e);
          key = (if key then ''key for '' else []) in
      ''invalid '' @ key @ ''RoomBasicProto.'' @ field @ '': '' @ reason @ cause)"

subsection \<open>RoomMemberProto\<close>

record RoomMemberProto =
  RoomMemberProto_User :: "UserBasicProto option"
  RoomMemberProto_JoinedAt :: int64

definition RoomMemberProto_validate :: "bool \<Rightarrow> RoomMemberProto option \<Rightarrow> verror option" where
  "RoomMemberProto_validate all m =
     (case m of
        None \<Rightarrow> None
      | Some r \<Rightarrow>
          finish_checks (TMsg ''client.message'' ''RoomMemberProto'') (run_checks
          [check_embedded all (TMsg ''client.message'' ''RoomMemberProto'') ''User'' UserBasicProto_Validate UserBasicProto_ValidateAll (RoomMemberProto_User r)] []))"

definition RoomMemberProto_Validate :: "RoomMemberProto option \<Rightarrow> verror option" where
  "RoomMemberProto_Validate m = RoomMemberProto_validate False m"

definition RoomMemberProto_ValidateAll :: "RoomMemberProto option \<Rightarrow> verror option" where
  "RoomMemberProto_ValidateAll m = RoomMemberProto_validate True m"

definition RoomMemberProtoMultiError_Error :: "verror list \<Rightarrow> string" where
  "RoomMemberProtoMultiError_Error m = (let msgs = foldl (\<lambda>msgs err. msgs @ [Error err]) [] m in strings_Join msgs ''; '')"

definition RoomMemberProtoValidationError_Error :: "string \<Rightarrow> string \<Rightarrow> verror option \<Rightarrow> bool \<Rightarrow> string" where
  "RoomMemberProtoValidationError_Error field reason cause key =
     (let cause = (case cause of None \<Rightarrow> [] | Some e \<Rightarrow> '' | caused by: '' @ Error e);
          key = (if key then ''key for '' else []) in
      ''invalid '' @ key @ ''RoomMemberProto.'' @ field @ '': '' @ reason @ cause)"

subsection \<open>RoomProto\<close>

record RoomProto =
  RoomProto_Basic :: "RoomBasicProto option"
  RoomProto_Members :: "(int64 \<times> RoomMemberProto option) list"
  RoomProto_Invitees :: "int64 list"
  RoomProto_Requests :: "int64 list"

definition RoomProto_validate :: "bool \<Rightarrow> RoomProto option \<Rightarrow> verror option" where
  "RoomProto_validate all m =
     (case m of
        None \<Rightarrow> None
      | Some r \<Rightarrow>
          finish_checks (TMsg ''client.message'' ''RoomProto'') (run_checks
          [check_embedded all (TMsg ''client.message'' ''RoomProto'') ''Basic'' RoomBasicProto_Validate RoomBasicProto_ValidateAll (RoomProto_Basic r),
           check_map all (TMsg ''client.message'' ''RoomProto'') ''Members'' RoomMemberProto_Validate RoomMemberProto_ValidateAll (RoomProto_Members r)] []))"

definition RoomProto_Validate :: "RoomProto option \<Rightarrow> verror option" where
  "RoomProto_Validate m = RoomProto_validate False m"

definition RoomProto_ValidateAll :: "RoomProto option \<Rightarrow> verror option" where
  "RoomProto_ValidateAll m = RoomProto_validate True m"

definition RoomProtoMultiError_Error :: "verror list \<Rightarrow> string" where
  "RoomProtoMultiError_Error m = (let msgs = foldl (\<lambda>msgs err. msgs @ [Error err]) [] m in strings_Join msgs ''; '')"

definition RoomProtoValidationError_Error :: "string \<Rightarrow> string \<Rightarrow> verror option \<Rightarrow> bool \<Rightarrow> string" where
  "RoomProtoValidationError_Error field reason cause key =
     (let cause = (case cause of None \<Rightarrow> [] | Some e \<Rightarrow> '' | caused by: '' @ Error e);
          key = (if key then ''key for '' else []) in
      ''invalid '' @ key @ ''RoomProto.'' @ field @ '': '' @ reason @ cause)"

subsection \<open>SCPushJoinedRoom\<close>

record SCPushJoinedRoom =
  SCPushJoinedRoom_RoomId :: int64
  SCPushJoinedRoom_Member :: "RoomMemberProto option"

definition SCPushJoinedRoom_validate :: "bool \<Rightarrow> SCPushJoinedRoom option \<Rightarrow> verror option" where
  "SCPushJoinedRoom_validate all m =
     (case m of
        None \<Rightarrow> None
      | Some r \<Rightarrow>
          finish_checks (TMsg ''client.message'' ''SCPushJoinedRoom'') (run_checks
          [check_embedded all (TMsg ''client.message'' ''SCPushJoinedRoom'') ''Member'' RoomMemberProto_Validate RoomMemberProto_ValidateAll (SCPushJoinedRoom_Member r)] []))"

definition SCPushJoinedRoom_Validate :: "SCPushJoinedRoom option \<Rightarrow> verror option" where
  "SCPushJoinedRoom_Validate m = SCPushJoinedRoom_validate False m"

definition SCPushJoinedRoom_ValidateAll :: "SCPushJoinedRoom option \<Rightarrow> verror option" where
  "SCPushJoinedRoom_ValidateAll m = SCPushJoinedRoom_validate True m"

definition SCPushJoinedRoomMultiError_Error :: "verror list \<Rightarrow> string" where
  "SCPushJoinedRoomMultiError_Error m = (let msgs = foldl (\<lambda>msgs err. msgs @ [Error err]) [] m in strings_Join msgs ''; '')"

definition SCPushJoinedRoomValidationError_Error :: "string \<Rightarrow> string \<Rightarrow> verror option \<Rightarrow> bool \<Rightarrow> string" where
  "SCPushJoinedRoomValidationError_Error field reason cause key =
     (let cause = (case cause of None \<Rightarrow> [] | Some e \<Rightarrow> '' | caused by: '' @ Error e);
          key = (if key then ''key for '' else []) in
      ''invalid '' @ key @ ''SCPushJoinedRoom.'' @ field @ '': '' @ reason @ cause)"

subsection \<open>SCPushRemovedFromRoom\<close>

record SCPushRemovedFromRoom =
  SCPushRemovedFromRoom_RoomId :: int64
  SCPushRemovedFromRoom_Member :: "RoomMemberProto option"

definition SCPushRemovedFromRoom_validate :: "bool \<Rightarrow> SCPushRemovedFromRoom option \<Rightarrow> verror option" where
  "SCPushRemovedFromRoom_validate all m =
     (case m of
        None \<Rightarrow> None
      | Some r \<Rightarrow>
          finish_checks (TMsg ''client.message'' ''SCPushRemovedFromRoom'') (run_checks
          [check_embedded all (TMsg ''client.message'' ''SCPushRemovedFromRoom'') ''Member'' RoomMemberProto_Validate RoomMemberProto_ValidateAll (SCPushRemovedFromRoom_Member r)] []))"

definition SCPushRemovedFromRoom_Validate :: "SCPushRemovedFromRoom option \<Rightarrow> verror option" where
  "SCPushRemovedFromRoom_Validate m = SCPushRemovedFromRoom_validate False m"

definition SCPushRemovedFromRoom_ValidateAll :: "SCPushRemovedFromRoom option \<Rightarrow> verror option" where
  "SCPushRemovedFromRoom_ValidateAll m = SCPushRemovedFromRoom_validate True m"

definition SCPushRemovedFromRoomMultiError_Error :: "verror list \<Rightarrow> string" where
  "SCPushRemovedFromRoomMultiError_Error m = (let msgs = foldl (\<lambda>msgs err. msgs @ [Error err]) [] m in strings_Join msgs ''; '')"

definition SCPushRemovedFromRoomValidationError_Error :: "string \<Rightarrow> string \<Rightarrow> verror option \<Rightarrow> bool \<Rightarrow> string" where
  "SCPushRemovedFromRoomValidationError_Error field reason cause key =
     (let cause = (case cause of None \<Rightarrow> [] | Some e \<Rightarrow> '' | caused by: '' @ Error e);
          key = (if key then ''key for '' else []) in
      ''invalid '' @ key @ ''SCPushRemovedFromRoom.'' @ field @ '': '' @ reason @ cause)"

subsection \<open>CSRoomList\<close>

record CSRoomList =
  CSRoomList_Page :: int64
  CSRoomList_PageSize :: int64

definition CSRoomList_validate :: "bool \<Rightarrow> CSRoomList option \<Rightarrow> verror option" where
  "CSRoomList_validate all m =
     (case m of
        None \<Rightarrow> None
      | Some r \<Rightarrow> finish_checks (TMsg ''client.message'' ''CSRoomList'') (run_checks [] []))"

definition CSRoomList_Validate :: "CSRoomList option \<Rightarrow> verror option" where
  "CSRoomList_Validate m = CSRoomList_validate False m"

definition CSRoomList_ValidateAll :: "CSRoomList option \<Rightarrow> verror option" where
  "CSRoomList_ValidateAll m = CSRoomList_validate True m"

definition CSRoomListMultiError_Error :: "verror list \<Rightarrow> string" where
  "CSRoomListMultiError_Error m = (let msgs = foldl (\<lambda>msgs err. msgs @ [Error err]) [] m in strings_Join msgs ''; '')"

definition CSRoomListValidationError_Error :: "string \<Rightarrow> string \<Rightarrow> verror option \<Rightarrow> bool \<Rightarrow> string" where
  "CSRoomListValidationError_Error field reason cause key =
     (let cause = (case cause of None \<Rightarrow> [] | Some e \<Rightarrow> '' | caused by: '' @ Error e);
          key = (if key then ''key for '' else []) in
      ''invalid '' @ key @ ''CSRoomList.'' @ field @ '': '' @ reason @ cause)"

subsection \<open>SCRoomList\<close>

record SCRoomList =
  SCRoomList_Code :: int32
  SCRoomList_Rooms :: "RoomBasicProto option list"

definition SCRoomList_validate :: "bool \<Rightarrow> SCRoomList option \<Rightarrow> verror option" where
  "SCRoomList_validate all m =
     (case m of
        None \<Rightarrow> None
      | Some r \<Rightarrow>
          finish_checks (TMsg ''client.message'' ''SCRoomList'') (run_checks
          [check_items all (TMsg ''client.message'' ''SCRoomList'') ''Rooms'' RoomBasicProto_Validate RoomBasicProto_ValidateAll 0 (SCRoomList_Rooms r)] []))"

definition SCRoomList_Validate :: "SCRoomList option \<Rightarrow> verror option" where
  "SCRoomList_Validate m = SCRoomList_validate False m"

definition SCRoomList_ValidateAll :: "SCRoomList option \<Rightarrow> verror option" where
  "SCRoomList_ValidateAll m = SCRoomList_validate True m"

definition SCRoomListMultiError_Error :: "verror list \<Rightarrow> string" where
  "SCRoomListMultiError_Error m = (let msgs = foldl (\<lambda>msgs err. msgs @ [Error err]) [] m in strings_Join msgs ''; '')"

definition SCRoomListValidationError_Error :: "string \<Rightarrow> string \<Rightarrow> verror option \<Rightarrow> bool \<Rightarrow> string" where
  "SCRoomListValidationError_Error field reason cause key =
     (let cause = (case cause of None \<Rightarrow> [] | Some e \<Rightarrow> '' | caused by: '' @ Error e);
          key = (if key then ''key for '' else []) in
      ''invalid '' @ key @ ''SCRoomList.'' @ field @ '': '' @ reason @ cause)"

subsection \<open>CSRoomDetail\<close>

record CSRoomDetail =
  CSRoomDetail_RoomId :: int64

definition CSRoomDetail_validate :: "bool \<Rightarrow> CSRoomDetail option \<Rightarrow> verror option" where
  "CSRoomDetail_validate all m =
     (case m of
        None \<Rightarrow> None
      | Some r \<Rightarrow> finish_checks (TMsg ''client.message'' ''CSRoomDetail'') (run_checks [] []))"

definition CSRoomDetail_Validate :: "CSRoomDetail option \<Rightarrow> verror option" where
  "CSRoomDetail_Validate m = CSRoomDetail_validate False m"

definition CSRoomDetail_ValidateAll :: "CSRoomDetail option \<Rightarrow> verror option" where
  "CSRoomDetail_ValidateAll m = CSRoomDetail_validate True m"

definition CSRoomDetailMultiError_Error :: "verror list \<Rightarrow> string" where
  "CSRoomDetailMultiError_Error m = (let msgs = foldl (\<lambda>msgs err. msgs @ [Error err]) [] m in strings_Join msgs ''; '')"

definition CSRoomDetailValidationError_Error :: "string \<Rightarrow> string \<Rightarrow> verror option \<Rightarrow> bool \<Rightarrow> string" where
  "CSRoomDetailValidationError_Error field reason cause key =
     (let cause = (case cause of None \<Rightarrow> [] | Some e \<Rightarrow> '' | caused by: '' @ Error e);
          key = (if key then ''key for '' else []) in
      ''invalid '' @ key @ ''CSRoomDetail.'' @ field @ '': '' @ reason @ cause)"

subsection \<open>SCRoomDetail\<close>

record SCRoomDetail =
  SCRoomDetail_Code :: int32
  SCRoomDetail_Room :: "RoomProto option"

definition SCRoomDetail_validate :: "bool \<Rightarrow> SCRoomDetail option \<Rightarrow> verror option" where
  "SCRoomDetail_validate all m =
     (case m of
        None \<Rightarrow> None
      | Some r \<Rightarrow>
          finish_checks (TMsg ''client.message'' ''SCRoomDetail'') (run_checks
          [check_embedded all (TMsg ''client.message'' ''SCRoomDetail'') ''Room'' RoomProto_Validate RoomProto_ValidateAll (SCRoomDetail_Room r)] []))"

definition SCRoomDetail_Validate :: "SCRoomDetail option \<Rightarrow> verror option" where
  "SCRoomDetail_Validate m = SCRoomDetail_validate False m"

definition SCRoomDetail_ValidateAll :: "SCRoomDetail option \<Rightarrow> verror option" where
  "SCRoomDetail_ValidateAll m = SCRoomDetail_validate True m"

definition SCRoomDetailMultiError_Error :: "verror list \<Rightarrow> string" where
  "SCRoomDetailMultiError_Error m = (let msgs = foldl (\<lambda>msgs err. msgs @ [Error err]) [] m in strings_Join msgs ''; '')"

definition SCRoomDetailValidationError_Error :: "string \<Rightarrow> string \<Rightarrow> verror option \<Rightarrow> bool \<Rightarrow> string" where
  "SCRoomDetailValidationError_Error field reason cause key =
     (let cause = (case cause of None \<Rightarrow> [] | Some e \<Rightarrow> '' | caused by: '' @ Error e);
          key = (if key then ''key for '' else []) in
      ''invalid '' @ key @ ''SCRoomDetail.'' @ field @ '': '' @ reason @ cause)"

subsection \<open>CSCreateRoom\<close>

record CSCreateRoom =
  CSCreateRoom_RoomType :: uint64

definition CSCreateRoom_validate :: "bool \<Rightarrow> CSCreateRoom option \<Rightarrow> verror option" where
  "CSCreateRoom_validate all m =
     (case m of
        None \<Rightarrow> None
      | Some r \<Rightarrow> finish_checks (TMsg ''client.message'' ''CSCreateRoom'') (run_checks [] []))"

definition CSCreateRoom_Validate :: "CSCreateRoom option \<Rightarrow> verror option" where
  "CSCreateRoom_Validate m = CSCreateRoom_validate False m"

definition CSCreateRoom_ValidateAll :: "CSCreateRoom option \<Rightarrow> verror option" where
  "CSCreateRoom_ValidateAll m = CSCreateRoom_validate True m"

definition CSCreateRoomMultiError_Error :: "verror list \<Rightarrow> string" where
  "CSCreateRoomMultiError_Error m = (let msgs = foldl (\<lambda>msgs err. msgs @ [Error err]) [] m in strings_Join msgs ''; '')"

definition CSCreateRoomValidationError_Error :: "string \<Rightarrow> string \<Rightarrow> verror option \<Rightarrow> bool \<Rightarrow> string" where
  "CSCreateRoomValidationError_Error field reason cause key =
     (let cause = (case cause of None \<Rightarrow> [] | Some e \<Rightarrow> '' | caused by: '' @ Error e);
          key = (if key then ''key for '' else []) in
      ''invalid '' @ key @ ''CSCreateRoom.'' @ field @ '': '' @ reason @ cause)"

subsection \<open>SCCreateRoom\<close>

record SCCreateRoom =
  SCCreateRoom_Code :: int32
  SCCreateRoom_Room :: "RoomProto option"

definition SCCreateRoom_validate :: "bool \<Rightarrow> SCCreateRoom option \<Rightarrow> verror option" where
  "SCCreateRoom_validate all m =
     (case m of
        None \<Rightarrow> None
      | Some r \<Rightarrow>
          finish_checks (TMsg ''client.message'' ''SCCreateRoom'') (run_checks
          [check_embedded all (TMsg ''client.message'' ''SCCreateRoom'') ''Room'' RoomProto_Validate RoomProto_ValidateAll (SCCreateRoom_Room r)] []))"

definition SCCreateRoom_Validate :: "SCCreateRoom option \<Rightarrow> verror option" where
  "SCCreateRoom_Validate m = SCCreateRoom_validate False m"

definition SCCreateRoom_ValidateAll :: "SCCreateRoom option \<Rightarrow> verror option" where
  "SCCreateRoom_ValidateAll m = SCCreateRoom_validate True m"

definition SCCreateRoomMultiError_Error :: "verror list \<Rightarrow> string" where
  "SCCreateRoomMultiError_Error m = (let msgs = foldl (\<lambda>msgs err. msgs @ [Error err]) [] m in strings_Join msgs ''; '')"

definition SCCreateRoomValidationError_Error :: "string \<Rightarrow> string \<Rightarrow> verror option \<Rightarrow> bool \<Rightarrow> string" where
  "SCCreateRoomValidationError_Error field reason cause key =
     (let cause = (case cause of None \<Rightarrow> [] | Some e \<Rightarrow> '' | caused by: '' @ Error e);
          key = (if key then ''key for '' else []) in
      ''invalid '' @ key @ ''SCCreateRoom.'' @ field @ '': '' @ reason @ cause)"

subsection \<open>CSInviteToJoinRoom\<close>

record CSInviteToJoinRoom =
  CSInviteToJoinRoom_UserId :: int64

definition CSInviteToJoinRoom_validate :: "bool \<Rightarrow> CSInviteToJoinRoom option \<Rightarrow> verror option" where
  "CSInviteToJoinRoom_validate all m =
     (case m of
        None \<Rightarrow> None
      | Some r \<Rightarrow> finish_checks (TMsg ''client.message'' ''CSInviteToJoinRoom'') (run_checks [] []))"

definition CSInviteToJoinRoom_Validate :: "CSInviteToJoinRoom option \<Rightarrow> verror option" where
  "CSInviteToJoinRoom_Validate m = CSInviteToJoinRoom_validate False m"

definition CSInviteToJoinRoom_ValidateAll :: "CSInviteToJoinRoom option \<Rightarrow> verror option" where
  "CSInviteToJoinRoom_ValidateAll m = CSInviteToJoinRoom_validate True m"

definition CSInviteToJoinRoomMultiError_Error :: "verror list \<Rightarrow> string" where
  "CSInviteToJoinRoomMultiError_Error m = (let msgs = foldl (\<lambda>msgs err. msgs @ [Error err]) [] m in strings_Join msgs ''; '')"

definition CSInviteToJoinRoomValidationError_Error :: "string \<Rightarrow> string \<Rightarrow> verror option \<Rightarrow> bool \<Rightarrow> string" where
  "CSInviteToJoinRoomValidationError_Error field reason cause key =
     (let cause = (case cause of None \<Rightarrow> [] | Some e \<Rightarrow> '' | caused by: '' @ Error e);
          key = (if key then ''key for '' else []) in
      ''invalid '' @ key @ ''CSInviteToJoinRoom.'' @ field @ '': '' @ reason @ cause)"

subsection \<open>SCInviteToJoinRoom\<close>

record SCInviteToJoinRoom =
  SCInviteToJoinRoom_Code :: int32

definition SCInviteToJoinRoom_validate :: "bool \<Rightarrow> SCInviteToJoinRoom option \<Rightarrow> verror option" where
  "SCInviteToJoinRoom_validate all m =
     (case m of
        None \<Rightarrow> None
      | Some r \<Rightarrow> finish_checks (TMsg ''client.message'' ''SCInviteToJoinRoom'') (run_checks [] []))"

definition SCInviteToJoinRoom_Validate :: "SCInviteToJoinRoom option \<Rightarrow> verror option" where
  "SCInviteToJoinRoom_Validate m = SCInviteToJoinRoom_validate False m"

definition SCInviteToJoinRoom_ValidateAll :: "SCInviteToJoinRoom option \<Rightarrow> verror option" where
  "SCInviteToJoinRoom_ValidateAll m = SCInviteToJoinRoom_validate True m"

definition SCInviteToJoinRoomMultiError_Error :: "verror list \<Rightarrow> string" where
  "SCInviteToJoinRoomMultiError_Error m = (let msgs = foldl (\<lambda>msgs err. msgs @ [Error err]) [] m in strings_Join msgs ''; '')"

definition SCInviteToJoinRoomValidationError_Error :: "string \<Rightarrow> string \<Rightarrow> verror option \<Rightarrow> bool \<Rightarrow> string" where
  "SCInviteToJoinRoomValidationError_Error field reason cause key =
     (let cause = (case cause of None \<Rightarrow> [] | Some e \<Rightarrow> '' | caused by: '' @ Error e);
          key = (if key then ''key for '' else []) in
      ''invalid '' @ key @ ''SCInviteToJoinRoom.'' @ field @ '': '' @ reason @ cause)"

subsection \<open>CSAgreeToInviteJoinRoom\<close>

record CSAgreeToInviteJoinRoom =
  CSAgreeToInviteJoinRoom_RoomId :: int64

definition CSAgreeToInviteJoinRoom_validate :: "bool \<Rightarrow> CSAgreeToInviteJoinRoom option \<Rightarrow> verror option" where
  "CSAgreeToInviteJoinRoom_validate all m =
     (case m of
        None \<Rightarrow> None
      | Some r \<Rightarrow> finish_checks (TMsg ''client.message'' ''CSAgreeToInviteJoinRoom'') (run_checks [] []))"

definition CSAgreeToInviteJoinRoom_Validate :: "CSAgreeToInviteJoinRoom option \<Rightarrow> verror option" where
  "CSAgreeToInviteJoinRoom_Validate m = CSAgreeToInviteJoinRoom_validate False m"

definition CSAgreeToInviteJoinRoom_ValidateAll :: "CSAgreeToInviteJoinRoom option \<Rightarrow> verror option" where
  "CSAgreeToInviteJoinRoom_ValidateAll m = CSAgreeToInviteJoinRoom_validate True m"

definition CSAgreeToInviteJoinRoomMultiError_Error :: "verror list \<Rightarrow> string" where
  "CSAgreeToInviteJoinRoomMultiError_Error m = (let msgs = foldl (\<lambda>msgs err. msgs @ [Error err]) [] m in strings_Join msgs ''; '')"

definition CSAgreeToInviteJoinRoomValidationError_Error :: "string \<Rightarrow> string \<Rightarrow> verror option \<Rightarrow> bool \<Rightarrow> string" where
  "CSAgreeToInviteJoinRoomValidationError_Error field reason cause key =
     (let cause = (case cause of None \<Rightarrow> [] | Some e \<Rightarrow> '' | caused by: '' @ Error e);
          key = (if key then ''key for '' else []) in
      ''invalid '' @ key @ ''CSAgreeToInviteJoinRoom.'' @ field @ '': '' @ reason @ cause)"

subsection \<open>SCAgreeToInviteJoinRoom\<close>

record SCAgreeToInviteJoinRoom =
  SCAgreeToInviteJoinRoom_Code :: int32

definition SCAgreeToInviteJoinRoom_validate :: "bool \<Rightarrow> SCAgreeToInviteJoinRoom option \<Rightarrow> verror option" where
  "SCAgreeToInviteJoinRoom_validate all m =
     (case m of
        None \<Rightarrow> None
      | Some r \<Rightarrow> finish_checks (TMsg ''client.message'' ''SCAgreeToInviteJoinRoom'') (run_checks [] []))"

definition SCAgreeToInviteJoinRoom_Validate :: "SCAgreeToInviteJoinRoom option \<Rightarrow> verror option" where
  "SCAgreeToInviteJoinRoom_Validate m = SCAgreeToInviteJoinRoom_validate False m"

definition SCAgreeToInviteJoinRoom_ValidateAll :: "SCAgreeToInviteJoinRoom option \<Rightarrow> verror option" where
  "SCAgreeToInviteJoinRoom_ValidateAll m = SCAgreeToInviteJoinRoom_validate True m"

definition SCAgreeToInviteJoinRoomMultiError_Error :: "verror list \<Rightarrow> string" where
  "SCAgreeToInviteJoinRoomMultiError_Error m = (let msgs = foldl (\<lambda>msgs err. msgs @ [Error err]) [] m in strings_Join msgs ''; '')"

definition SCAgreeToInviteJoinRoomValidationError_Error :: "string \<Rightarrow> string \<Rightarrow> verror option \<Rightarrow> bool \<Rightarrow> string" where
  "SCAgreeToInviteJoinRoomValidationError_Error field reason cause key =
     (let cause = (case cause of None \<Rightarrow> [] | Some e \<Rightarrow> '' | caused by: '' @ Error e);
          key = (if key then ''key for '' else []) in
      ''invalid '' @ key @ ''SCAgreeToInviteJoinRoom.'' @ field @ '': '' @ reason @ cause)"

subsection \<open>CSRequestToJoinRoom\<close>

record CSRequestToJoinRoom =
  CSRequestToJoinRoom_RoomId :: int64

definition CSRequestToJoinRoom_validate :: "bool \<Rightarrow> CSRequestToJoinRoom option \<Rightarrow> verror option" where
  "CSRequestToJoinRoom_validate all m =
     (case m of
        None \<Rightarrow> None
      | Some r \<Rightarrow> finish_checks (TMsg ''client.message'' ''CSRequestToJoinRoom'') (run_checks [] []))"

definition CSRequestToJoinRoom_Validate :: "CSRequestToJoinRoom option \<Rightarrow> verror option" where
  "CSRequestToJoinRoom_Validate m = CSRequestToJoinRoom_validate False m"

definition CSRequestToJoinRoom_ValidateAll :: "CSRequestToJoinRoom option \<Rightarrow> verror option" where
  "CSRequestToJoinRoom_ValidateAll m = CSRequestToJoinRoom_validate True m"

definition CSRequestToJoinRoomMultiError_Error :: "verror list \<Rightarrow> string" where
  "CSRequestToJoinRoomMultiError_Error m = (let msgs = foldl (\<lambda>msgs err. msgs @ [Error err]) [] m in strings_Join msgs ''; '')"

definition CSRequestToJoinRoomValidationError_Error :: "string \<Rightarrow> string \<Rightarrow> verror option \<Rightarrow> bool \<Rightarrow> string" where
  "CSRequestToJoinRoomValidationError_Error field reason cause key =
     (let cause = (case cause of None \<Rightarrow> [] | Some e \<Rightarrow> '' | caused by: '' @ Error e);
          key = (if key then ''key for '' else []) in
      ''invalid '' @ key @ ''CSRequestToJoinRoom.'' @ field @ '': '' @ reason @ cause)"

subsection \<open>SCRequestToJoinRoom\<close>

record SCRequestToJoinRoom =
  SCRequestToJoinRoom_Code :: int32

definition SCRequestToJoinRoom_validate :: "bool \<Rightarrow> SCRequestToJoinRoom option \<Rightarrow> verror option" where
  "SCRequestToJoinRoom_validate all m =
     (case m of
        None \<Rightarrow> None
      | Some r \<Rightarrow> finish_checks (TMsg ''client.message'' ''SCRequestToJoinRoom'') (run_checks [] []))"

definition SCRequestToJoinRoom_Validate :: "SCRequestToJoinRoom option \<Rightarrow> verror option" where
  "SCRequestToJoinRoom_Validate m = SCRequestToJoinRoom_validate False m"

definition SCRequestToJoinRoom_ValidateAll :: "SCRequestToJoinRoom option \<Rightarrow> verror option" where
  "SCRequestToJoinRoom_ValidateAll m = SCRequestToJoinRoom_validate True m"

definition SCRequestToJoinRoomMultiError_Error :: "verror list \<Rightarrow> string" where
  "SCRequestToJoinRoomMultiError_Error m = (let msgs = foldl (\<lambda>msgs err. msgs @ [Error err]) [] m in strings_Join msgs ''; '')"

definition SCRequestToJoinRoomValidationError_Error :: "string \<Rightarrow> string \<Rightarrow> verror option \<Rightarrow> bool \<Rightarrow> string" where
  "SCRequestToJoinRoomValidationError_Error field reason cause key =
     (let cause = (case cause of None \<Rightarrow> [] | Some e \<Rightarrow> '' | caused by: '' @ Error e);
          key = (if key then ''key for '' else []) in
      ''invalid '' @ key @ ''SCRequestToJoinRoom.'' @ field @ '': '' @ reason @ cause)"

subsection \<open>CSApproveRequestToJoinRoom\<close>

record CSApproveRequestToJoinRoom =
  CSApproveRequestToJoinRoom_UserId :: int64

definition CSApproveRequestToJoinRoom_validate :: "bool \<Rightarrow> CSApproveRequestToJoinRoom option \<Rightarrow> verror option" where
  "CSApproveRequestToJoinRoom_validate all m =
     (case m of
        None \<Rightarrow> None
      | Some r \<Rightarrow> finish_checks (TMsg ''client.message'' ''CSApproveRequestToJoinRoom'') (run_checks [] []))"

definition CSApproveRequestToJoinRoom_Validate :: "CSApproveRequestToJoinRoom option \<Rightarrow> verror option" where
  "CSApproveRequestToJoinRoom_Validate m = CSApproveRequestToJoinRoom_validate False m"

definition CSApproveRequestToJoinRoom_ValidateAll :: "CSApproveRequestToJoinRoom option \<Rightarrow> verror option" where
  "CSApproveRequestToJoinRoom_ValidateAll m = CSApproveRequestToJoinRoom_validate True m"

definition CSApproveRequestToJoinRoomMultiError_Error :: "verror list \<Rightarrow> string" where
  "CSApproveRequestToJoinRoomMultiError_Error m = (let msgs = foldl (\<lambda>msgs err. msgs @ [Error err]) [] m in strings_Join msgs ''; '')"

definition CSApproveRequestToJoinRoomValidationError_Error :: "string \<Rightarrow> string \<Rightarrow> verror option \<Rightarrow> bool \<Rightarrow> string" where
  "CSApproveRequestToJoinRoomValidationError_Error field reason cause key =
     (let cause = (case cause of None \<Rightarrow> [] | Some e \<Rightarrow> '' | caused by: '' @ Error e);
          key = (if key then ''key for '' else []) in
      ''invalid '' @ key @ ''CSApproveRequestToJoinRoom.'' @ field @ '': '' @ reason @ cause)"

subsection \<open>SCApproveRequestToJoinRoom\<close>

record SCApproveRequestToJoinRoom =
  SCApproveRequestToJoinRoom_Code :: int32

definition SCApproveRequestToJoinRoom_validate :: "bool \<Rightarrow> SCApproveRequestToJoinRoom option \<Rightarrow> verror option" where
  "SCApproveRequestToJoinRoom_validate all m =
     (case m of
        None \<Rightarrow> None
      | Some r \<Rightarrow> finish_checks (TMsg ''client.message'' ''SCApproveRequestToJoinRoom'') (run_checks [] []))"

definition SCApproveRequestToJoinRoom_Validate :: "SCApproveRequestToJoinRoom option \<Rightarrow> verror option" where
  "SCApproveRequestToJoinRoom_Validate m = SCApproveRequestToJoinRoom_validate False m"

definition SCApproveRequestToJoinRoom_ValidateAll :: "SCApproveRequestToJoinRoom option \<Rightarrow> verror option" where
  "SCApproveRequestToJoinRoom_ValidateAll m = SCApproveRequestToJoinRoom_validate True m"

definition SCApproveRequestToJoinRoomMultiError_Error :: "verror list \<Rightarrow> string" where
  "SCApproveRequestToJoinRoomMultiError_Error m = (let msgs = foldl (\<lambda>msgs err. msgs @ [Error err]) [] m in strings_Join msgs ''; '')"

definition SCApproveRequestToJoinRoomValidationError_Error :: "string \<Rightarrow> string \<Rightarrow> verror option \<Rightarrow> bool \<Rightarrow> string" where
  "SCApproveRequestToJoinRoomValidationError_Error field reason cause key =
     (let cause = (case cause of None \<Rightarrow> [] | Some e \<Rightarrow> '' | caused by: '' @ Error e);
          key = (if key then ''key for '' else []) in
      ''invalid '' @ key @ ''SCApproveRequestToJoinRoom.'' @ field @ '': '' @ reason @ cause)"

subsection \<open>CSKickUserFromRoom\<close>

record CSKickUserFromRoom =
  CSKickUserFromRoom_UserId :: int64

definition CSKickUserFromRoom_validate :: "bool \<Rightarrow> CSKickUserFromRoom option \<Rightarrow> verror option" where
  "CSKickUserFromRoom_validate all m =
     (case m of
        None \<Rightarrow> None
      | Some r \<Rightarrow> finish_checks (TMsg ''client.message'' ''CSKickUserFromRoom'') (run_checks [] []))"

definition CSKickUserFromRoom_Validate :: "CSKickUserFromRoom option \<Rightarrow> verror option" where
  "CSKickUserFromRoom_Validate m = CSKickUserFromRoom_validate False m"

definition CSKickUserFromRoom_ValidateAll :: "CSKickUserFromRoom option \<Rightarrow> verror option" where
  "CSKickUserFromRoom_ValidateAll m = CSKickUserFromRoom_validate True m"

definition CSKickUserFromRoomMultiError_Error :: "verror list \<Rightarrow> string" where
  "CSKickUserFromRoomMultiError_Error m = (let msgs = foldl (\<lambda>msgs err. msgs @ [Error err]) [] m in strings_Join msgs ''; '')"

definition CSKickUserFromRoomValidationError_Error :: "string \<Rightarrow> string \<Rightarrow> verror option \<Rightarrow> bool \<Rightarrow> string" where
  "CSKickUserFromRoomValidationError_Error field reason cause key =
     (let cause = (case cause of None \<Rightarrow> [] | Some e \<Rightarrow> '' | caused by: '' @ Error e);
          key = (if key then ''key for '' else []) in
      ''invalid '' @ key @ ''CSKickUserFromRoom.'' @ field @ '': '' @ reason @ cause)"

subsection \<open>SCKickUserFromRoom\<close>

record SCKickUserFromRoom =
  SCKickUserFromRoom_Code :: int32

definition SCKickUserFromRoom_validate :: "bool \<Rightarrow> SCKickUserFromRoom option \<Rightarrow> verror option" where
  "SCKickUserFromRoom_validate all m =
     (case m of
        None \<Rightarrow> None
      | Some r \<Rightarrow> finish_checks (TMsg ''client.message'' ''SCKickUserFromRoom'') (run_checks [] []))"

definition SCKickUserFromRoom_Validate :: "SCKickUserFromRoom option \<Rightarrow> verror option" where
  "SCKickUserFromRoom_Validate m = SCKickUserFromRoom_validate False m"

definition SCKickUserFromRoom_ValidateAll :: "SCKickUserFromRoom option \<Rightarrow> verror option" where
  "SCKickUserFromRoom_ValidateAll m = SCKickUserFromRoom_validate True m"

definition SCKickUserFromRoomMultiError_Error :: "verror list \<Rightarrow> string" where
  "SCKickUserFromRoomMultiError_Error m = (let msgs = foldl (\<lambda>msgs err. msgs @ [Error err]) [] m in strings_Join msgs ''; '')"

definition SCKickUserFromRoomValidationError_Error :: "string \<Rightarrow> string \<Rightarrow> verror option \<Rightarrow> bool \<Rightarrow> string" where
  "SCKickUserFromRoomValidationError_Error field reason cause key =
     (let cause = (case cause of None \<Rightarrow> [] | Some e \<Rightarrow> '' | caused by: '' @ Error e);
          key = (if key then ''key for '' else []) in
      ''invalid '' @ key @ ''SCKickUserFromRoom.'' @ field @ '': '' @ reason @ cause)"

subsection \<open>CSLeaveRoom\<close>

record CSLeaveRoom =
  CSLeaveRoom_RoomId :: int64

definition CSLeaveRoom_validate :: "bool \<Rightarrow> CSLeaveRoom option \<Rightarrow> verror option" where
  "CSLeaveRoom_validate all m =
     (case m of
        None \<Rightarrow> None
      | Some r \<Rightarrow> finish_checks (TMsg ''client.message'' ''CSLeaveRoom'') (run_checks [] []))"

definition CSLeaveRoom_Validate :: "CSLeaveRoom option \<Rightarrow> verror option" where
  "CSLeaveRoom_Validate m = CSLeaveRoom_validate False m"

definition CSLeaveRoom_ValidateAll :: "CSLeaveRoom option \<Rightarrow> verror option" where
  "CSLeaveRoom_ValidateAll m = CSLeaveRoom_validate True m"

definition CSLeaveRoomMultiError_Error :: "verror list \<Rightarrow> string" where
  "CSLeaveRoomMultiError_Error m = (let msgs = foldl (\<lambda>msgs err. msgs @ [Error err]) [] m in strings_Join msgs ''; '')"

definition CSLeaveRoomValidationError_Error :: "string \<Rightarrow> string \<Rightarrow> verror option \<Rightarrow> bool \<Rightarrow> string" where
  "CSLeaveRoomValidationError_Error field reason cause key =
     (let cause = (case cause of None \<Rightarrow> [] | Some e \<Rightarrow> '' | caused by: '' @ Error e);
          key = (if key then ''key for '' else []) in
      ''invalid '' @ key @ ''CSLeaveRoom.'' @ field @ '': '' @ reason @ cause)"

subsection \<open>SCLeaveRoom\<close>

record SCLeaveRoom =
  SCLeaveRoom_Code :: int32

definition SCLeaveRoom_validate :: "bool \<Rightarrow> SCLeaveRoom option \<Rightarrow> verror option" where
  "SCLeaveRoom_validate all m =
     (case m of
        None \<Rightarrow> None
      | Some r \<Rightarrow> finish_checks (TMsg ''client.message'' ''SCLeaveRoom'') (run_checks [] []))"

definition SCLeaveRoom_Validate :: "SCLeaveRoom option \<Rightarrow> verror option" where
  "SCLeaveRoom_Validate m = SCLeaveRoom_validate False m"

definition SCLeaveRoom_ValidateAll :: "SCLeaveRoom option \<Rightarrow> verror option" where
  "SCLeaveRoom_ValidateAll m = SCLeaveRoom_validate True m"

definition SCLeaveRoomMultiError_Error :: "verror list \<Rightarrow> string" where
  "SCLeaveRoomMultiError_Error m = (let msgs = foldl (\<lambda>msgs err. msgs @ [Error err]) [] m in strings_Join msgs ''; '')"

definition SCLeaveRoomValidationError_Error :: "string \<Rightarrow> string \<Rightarrow> verror option \<Rightarrow> bool \<Rightarrow> string" where
  "SCLeaveRoomValidationError_Error field reason cause key =
     (let cause = (case cause of None \<Rightarrow> [] | Some e \<Rightarrow> '' | caused by: '' @ Error e);
          key = (if key then ''key for '' else []) in
      ''invalid '' @ key @ ''SCLeaveRoom.'' @ field @ '': '' @ reason @ cause)"

subsection \<open>CSCloseRoom\<close>

record CSCloseRoom =
  CSCloseRoom_RoomId :: int64

definition CSCloseRoom_validate :: "bool \<Rightarrow> CSCloseRoom option \<Rightarrow> verror option" where
  "CSCloseRoom_validate all m =
     (case m of
        None \<Rightarrow> None
      | Some r \<Rightarrow> finish_checks (TMsg ''client.message'' ''CSCloseRoom'') (run_checks [] []))"

definition CSCloseRoom_Validate :: "CSCloseRoom option \<Rightarrow> verror option" where
  "CSCloseRoom_Validate m = CSCloseRoom_validate False m"

definition CSCloseRoom_ValidateAll :: "CSCloseRoom option \<Rightarrow> verror option" where
  "CSCloseRoom_ValidateAll m = CSCloseRoom_validate True m"

definition CSCloseRoomMultiError_Error :: "verror list \<Rightarrow> string" where
  "CSCloseRoomMultiError_Error m = (let msgs = foldl (\<lambda>msgs err. msgs @ [Error err]) [] m in strings_Join msgs ''; '')"

definition CSCloseRoomValidationError_Error :: "string \<Rightarrow> string \<Rightarrow> verror option \<Rightarrow> bool \<Rightarrow> string" where
  "CSCloseRoomValidationError_Error field reason cause key =
     (let cause = (case cause of None \<Rightarrow> [] | Some e \<Rightarrow> '' | caused by: '' @ Error e);
          key = (if key then ''key for '' else []) in
      ''invalid '' @ key @ ''CSCloseRoom.'' @ field @ '': '' @ reason @ cause)"

subsection \<open>SCCloseRoom\<close>

record SCCloseRoom =
  SCCloseRoom_Code :: int32

definition SCCloseRoom_validate :: "bool \<Rightarrow> SCCloseRoom option \<Rightarrow> verror option" where
  "SCCloseRoom_validate all m =
     (case m of
        None \<Rightarrow> None
      | Some r \<Rightarrow> finish_checks (TMsg ''client.message'' ''SCCloseRoom'') (run_checks [] []))"

definition SCCloseRoom_Validate :: "SCCloseRoom option \<Rightarrow> verror option" where
  "SCCloseRoom_Validate m = SCCloseRoom_validate False m"

definition SCCloseRoom_ValidateAll :: "SCCloseRoom option \<Rightarrow> verror option" where
  "SCCloseRoom_ValidateAll m = SCCloseRoom_validate True m"

definition SCCloseRoomMultiError_Error :: "verror list \<Rightarrow> string" where
  "SCCloseRoomMultiError_Error m = (let msgs = foldl (\<lambda>msgs err. msgs @ [Error err]) [] m in strings_Join msgs ''; '')"

definition SCCloseRoomValidationError_Error :: "string \<Rightarrow> string \<Rightarrow> verror option \<Rightarrow> bool \<Rightarrow> string" where
  "SCCloseRoomValidationError_Error field reason cause key =
     (let cause = (case cause of None \<Rightarrow> [] | Some e \<Rightarrow> '' | caused by: '' @ Error e);
          key = (if key then ''key for '' else []) in
      ''invalid '' @ key @ ''SCCloseRoom.'' @ field @ '': '' @ reason @ cause)"

section \<open>User\<close>

subsection \<open>UserProto\<close>

record UserProto =
  UserProto_Basic :: "UserBasicProto option"
  UserProto_Storage :: "UserStorageProto option"
  UserProto_HeroList :: "UserHeroListProto option"
  UserProto_Room :: "UserRoomProto option"

definition UserProto_validate :: "bool \<Rightarrow> UserProto option \<Rightarrow> verror option" where
  "UserProto_validate all m =
     (case m of
        None \<Rightarrow> None
      | Some r \<Rightarrow>
          finish_checks (TMsg ''client.message'' ''UserProto'') (run_checks
          [check_embedded all (TMsg ''client.message'' ''UserProto'') ''Basic'' UserBasicProto_Validate UserBasicProto_ValidateAll (UserProto_Basic r),
           check_embedded all (TMsg ''client.message'' ''UserProto'') ''Storage'' UserStorageProto_Validate UserStorageProto_ValidateAll (UserProto_Storage r),
           check_embedded all (TMsg ''client.message'' ''UserProto'') ''HeroList'' UserHeroListProto_Validate UserHeroListProto_ValidateAll (UserProto_HeroList r),
           check_embedded all (TMsg ''client.message'' ''UserProto'') ''Room'' UserRoomProto_Validate UserRoomProto_ValidateAll (UserProto_Room r)] []))"

definition UserProto_Validate :: "UserProto option \<Rightarrow> verror option" where
  "UserProto_Validate m = UserProto_validate False m"

definition UserProto_ValidateAll :: "UserProto option \<Rightarrow> verror option" where
  "UserProto_ValidateAll m = UserProto_validate True m"

definition UserProtoMultiError_Error :: "verror list \<Rightarrow> string" where
  "UserProtoMultiError_Error m = (let msgs = foldl (\<lambda>msgs err. msgs @ [Error err]) [] m in strings_Join msgs ''; '')"

definition UserProtoValidationError_Error :: "string \<Rightarrow> string \<Rightarrow> verror option \<Rightarrow> bool \<Rightarrow> string" where
  "UserProtoValidationError_Error field reason cause key =
     (let cause = (case cause of None \<Rightarrow> [] | Some e \<Rightarrow> '' | caused by: '' @ Error e);
          key = (if key then ''key for '' else []) in
      ''invalid '' @ key @ ''UserProto.'' @ field @ '': '' @ reason @ cause)"

subsection \<open>RechargeParamProto\<close>

record RechargeParamProto =
  RechargeParamProto_ProductId :: int64
  RechargeParamProto_Store :: string
  RechargeParamProto_Payload :: bytes

definition RechargeParamProto_validate :: "bool \<Rightarrow> RechargeParamProto option \<Rightarrow> verror option" where
  "RechargeParamProto_validate all m =
     (case m of
        None \<Rightarrow> None
      | Some r \<Rightarrow> finish_checks (TMsg ''client.message'' ''RechargeParamProto'') (run_checks [] []))"

definition RechargeParamProto_Validate :: "RechargeParamProto option \<Rightarrow> verror option" where
  "RechargeParamProto_Validate m = RechargeParamProto_validate False m"

definition RechargeParamProto_ValidateAll :: "RechargeParamProto option \<Rightarrow> verror option" where
  "RechargeParamProto_ValidateAll m = RechargeParamProto_validate True m"

definition RechargeParamProtoMultiError_Error :: "verror list \<Rightarrow> string" where
  "RechargeParamProtoMultiError_Error m = (let msgs = foldl (\<lambda>msgs err. msgs @ [Error err]) [] m in strings_Join msgs ''; '')"

definition RechargeParamProtoValidationError_Error :: "string \<Rightarrow> string \<Rightarrow> verror option \<Rightarrow> bool \<Rightarrow> string" where
  "RechargeParamProtoValidationError_Error field reason cause key =
     (let cause = (case cause of None \<Rightarrow> [] | Some e \<Rightarrow> '' | caused by: '' @ Error e);
          key = (if key then ''key for '' else []) in
      ''invalid '' @ key @ ''RechargeParamProto.'' @ field @ '': '' @ reason @ cause)"

subsection \<open>SCPushSyncUser\<close>

record SCPushSyncUser =
  SCPushSyncUser_User :: "UserProto option"

definition SCPushSyncUser_validate :: "bool \<Rightarrow> SCPushSyncUser option \<Rightarrow> verror option" where
  "SCPushSyncUser_validate all m =
     (case m of
        None \<Rightarrow> None
      | Some r \<Rightarrow>
          finish_checks (TMsg ''client.message'' ''SCPushSyncUser'') (run_checks
          [check_embedded all (TMsg ''client.message'' ''SCPushSyncUser'') ''User'' UserProto_Validate UserProto_ValidateAll (SCPushSyncUser_User r)] []))"

definition SCPushSyncUser_Validate :: "SCPushSyncUser option \<Rightarrow> verror option" where
  "SCPushSyncUser_Validate m = SCPushSyncUser_validate False m"

definition SCPushSyncUser_ValidateAll :: "SCPushSyncUser option \<Rightarrow> verror option" where
  "SCPushSyncUser_ValidateAll m = SCPushSyncUser_validate True m"

definition SCPushSyncUserMultiError_Error :: "verror list \<Rightarrow> string" where
  "SCPushSyncUserMultiError_Error m = (let msgs = foldl (\<lambda>msgs err. msgs @ [Error err]) [] m in strings_Join msgs ''; '')"

definition SCPushSyncUserValidationError_Error :: "string \<Rightarrow> string \<Rightarrow> verror option \<Rightarrow> bool \<Rightarrow> string" where
  "SCPushSyncUserValidationError_Error field reason cause key =
     (let cause = (case cause of None \<Rightarrow> [] | Some e \<Rightarrow> '' | caused by: '' @ Error e);
          key = (if key then ''key for '' else []) in
      ''invalid '' @ key @ ''SCPushSyncUser.'' @ field @ '': '' @ reason @ cause)"

subsection \<open>CSLogin\<close>

record CSLogin =
  CSLogin_Reconnect :: bool

definition CSLogin_validate :: "bool \<Rightarrow> CSLogin option \<Rightarrow> verror option" where
  "CSLogin_validate all m =
     (case m of
        None \<Rightarrow> None
      | Some r \<Rightarrow> finish_checks (TMsg ''client.message'' ''CSLogin'') (run_checks [] []))"

definition CSLogin_Validate :: "CSLogin option \<Rightarrow> verror option" where
  "CSLogin_Validate m = CSLogin_validate False m"

definition CSLogin_ValidateAll :: "CSLogin option \<Rightarrow> verror option" where
  "CSLogin_ValidateAll m = CSLogin_validate True m"

definition CSLoginMultiError_Error :: "verror list \<Rightarrow> string" where
  "CSLoginMultiError_Error m = (let msgs = foldl (\<lambda>msgs err. msgs @ [Error err]) [] m in strings_Join msgs ''; '')"

definition CSLoginValidationError_Error :: "string \<Rightarrow> string \<Rightarrow> verror option \<Rightarrow> bool \<Rightarrow> string" where
  "CSLoginValidationError_Error field reason cause key =
     (let cause = (case cause of None \<Rightarrow> [] | Some e \<Rightarrow> '' | caused by: '' @ Error e);
          key = (if key then ''key for '' else []) in
      ''invalid '' @ key @ ''CSLogin.'' @ field @ '': '' @ reason @ cause)"

subsection \<open>SCLogin\<close>

record SCLogin =
  SCLogin_Code :: int32
  SCLogin_ServerTime :: int64
  SCLogin_User :: "UserProto option"
  SCLogin_Created :: bool

definition SCLogin_validate :: "bool \<Rightarrow> SCLogin option \<Rightarrow> verror option" where
  "SCLogin_validate all m =
     (case m of
        None \<Rightarrow> None
      | Some r \<Rightarrow>
          finish_checks (TMsg ''client.message'' ''SCLogin'') (run_checks
          [check_embedded all (TMsg ''client.message'' ''SCLogin'') ''User'' UserProto_Validate UserProto_ValidateAll (SCLogin_User r)] []))"

definition SCLogin_Validate :: "SCLogin option \<Rightarrow> verror option" where
  "SCLogin_Validate m = SCLogin_validate False m"

definition SCLogin_ValidateAll :: "SCLogin option \<Rightarrow> verror option" where
  "SCLogin_ValidateAll m = SCLogin_validate True m"

definition SCLoginMultiError_Error :: "verror list \<Rightarrow> string" where
  "SCLoginMultiError_Error m = (let msgs = foldl (\<lambda>msgs err. msgs @ [Error err]) [] m in strings_Join msgs ''; '')"

definition SCLoginValidationError_Error :: "string \<Rightarrow> string \<Rightarrow> verror option \<Rightarrow> bool \<Rightarrow> string" where
  "SCLoginValidationError_Error field reason cause key =
     (let cause = (case cause of None \<Rightarrow> [] | Some e \<Rightarrow> '' | caused by: '' @ Error e);
          key = (if key then ''key for '' else []) in
      ''invalid '' @ key @ ''SCLogin.'' @ field @ '': '' @ reason @ cause)"

subsection \<open>CSUpdateName\<close>

record CSUpdateName =
  CSUpdateName_Name :: string

definition CSUpdateName_validate :: "bool \<Rightarrow> CSUpdateName option \<Rightarrow> verror option" where
  "CSUpdateName_validate all m =
     (case m of
        None \<Rightarrow> None
      | Some r \<Rightarrow> finish_checks (TMsg ''client.message'' ''CSUpdateName'') (run_checks [] []))"

definition CSUpdateName_Validate :: "CSUpdateName option \<Rightarrow> verror option" where
  "CSUpdateName_Validate m = CSUpdateName_validate False m"

definition CSUpdateName_ValidateAll :: "CSUpdateName option \<Rightarrow> verror option" where
  "CSUpdateName_ValidateAll m = CSUpdateName_validate True m"

definition CSUpdateNameMultiError_Error :: "verror list \<Rightarrow> string" where
  "CSUpdateNameMultiError_Error m = (let msgs = foldl (\<lambda>msgs err. msgs @ [Error err]) [] m in strings_Join msgs ''; '')"

definition CSUpdateNameValidationError_Error :: "string \<Rightarrow> string \<Rightarrow> verror option \<Rightarrow> bool \<Rightarrow> string" where
  "CSUpdateNameValidationError_Error field reason cause key =
     (let cause = (case cause of None \<Rightarrow> [] | Some e \<Rightarrow> '' | caused by: '' @ Error e);
          key = (if key then ''key for '' else []) in
      ''invalid '' @ key @ ''CSUpdateName.'' @ field @ '': '' @ reason @ cause)"

subsection \<open>SCUpdateName\<close>

record SCUpdateName =
  SCUpdateName_Code :: int32
  SCUpdateName_IsIllegal :: bool

definition SCUpdateName_validate :: "bool \<Rightarrow> SCUpdateName option \<Rightarrow> verror option" where
  "SCUpdateName_validate all m =
     (case m of
        None \<Rightarrow> None
      | Some r \<Rightarrow> finish_checks (TMsg ''client.message'' ''SCUpdateName'') (run_checks [] []))"

definition SCUpdateName_Validate :: "SCUpdateName option \<Rightarrow> verror option" where
  "SCUpdateName_Validate m = SCUpdateName_validate False m"

definition SCUpdateName_ValidateAll :: "SCUpdateName option \<Rightarrow> verror option" where
  "SCUpdateName_ValidateAll m = SCUpdateName_validate True m"

definition SCUpdateNameMultiError_Error :: "verror list \<Rightarrow> string" where
  "SCUpdateNameMultiError_Error m = (let msgs = foldl (\<lambda>msgs err. msgs @ [Error err]) [] m in strings_Join msgs ''; '')"

definition SCUpdateNameValidationError_Error :: "string \<Rightarrow> string \<Rightarrow> verror option \<Rightarrow> bool \<Rightarrow> string" where
  "SCUpdateNameValidationError_Error field reason cause key =
     (let cause = (case cause of None \<Rightarrow> [] | Some e \<Rightarrow> '' | caused by: '' @ Error e);
          key = (if key then ''key for '' else []) in
      ''invalid '' @ key @ ''SCUpdateName.'' @ field @ '': '' @ reason @ cause)"

subsection \<open>CSSetGender\<close>

record CSSetGender =
  CSSetGender_Gender :: int32

definition CSSetGender_validate :: "bool \<Rightarrow> CSSetGender option \<Rightarrow> verror option" where
  "CSSetGender_validate all m =
     (case m of
        None \<Rightarrow> None
      | Some r \<Rightarrow> finish_checks (TMsg ''client.message'' ''CSSetGender'') (run_checks [] []))"

definition CSSetGender_Validate :: "CSSetGender option \<Rightarrow> verror option" where
  "CSSetGender_Validate m = CSSetGender_validate False m"

definition CSSetGender_ValidateAll :: "CSSetGender option \<Rightarrow> verror option" where
  "CSSetGender_ValidateAll m = CSSetGender_validate True m"

definition CSSetGenderMultiError_Error :: "verror list \<Rightarrow> string" where
  "CSSetGenderMultiError_Error m = (let msgs = foldl (\<lambda>msgs err. msgs @ [Error err]) [] m in strings_Join msgs ''; '')"

definition CSSetGenderValidationError_Error :: "string \<Rightarrow> string \<Rightarrow> verror option \<Rightarrow> bool \<Rightarrow> string" where
  "CSSetGenderValidationError_Error field reason cause key =
     (let cause = (case cause of None \<Rightarrow> [] | Some e \<Rightarrow> '' | caused by: '' @ Error e);
          key = (if key then ''key for '' else []) in
      ''invalid '' @ key @ ''CSSetGender.'' @ field @ '': '' @ reason @ cause)"

subsection \<open>SCSetGender\<close>

record SCSetGender =
  SCSetGender_Code :: int32

definition SCSetGender_validate :: "bool \<Rightarrow> SCSetGender option \<Rightarrow> verror option" where
  "SCSetGender_validate all m =
     (case m of
        None \<Rightarrow> None
      | Some r \<Rightarrow> finish_checks (TMsg ''client.message'' ''SCSetGender'') (run_checks [] []))"

definition SCSetGender_Validate :: "SCSetGender option \<Rightarrow> verror option" where
  "SCSetGender_Validate m = SCSetGender_validate False m"

definition SCSetGender_ValidateAll :: "SCSetGender option \<Rightarrow> verror option" where
  "SCSetGender_ValidateAll m = SCSetGender_validate True m"

definition SCSetGenderMultiError_Error :: "verror list \<Rightarrow> string" where
  "SCSetGenderMultiError_Error m = (let msgs = foldl (\<lambda>msgs err. msgs @ [Error err]) [] m in strings_Join msgs ''; '')"

definition SCSetGenderValidationError_Error :: "string \<Rightarrow> string \<Rightarrow> verror option \<Rightarrow> bool \<Rightarrow> string" where
  "SCSetGenderValidationError_Error field reason cause key =
     (let cause = (case cause of None \<Rightarrow> [] | Some e \<Rightarrow> '' | caused by: '' @ Error e);
          key = (if key then ''key for '' else []) in
      ''invalid '' @ key @ ''SCSetGender.'' @ field @ '': '' @ reason @ cause)"


section \<open>No message is refused\<close>

text \<open>The messages have no rules of their own, and what they embed has none either.\<close>

lemmas client_methods [simp] =
  CSDevList_Validate_def CSDevList_ValidateAll_def
  DevCmdArgProto_Validate_def DevCmdArgProto_ValidateAll_def
  DevCmdProto_Validate_def DevCmdProto_ValidateAll_def
  SCDevList_Validate_def SCDevList_ValidateAll_def
  CSDevExecute_Validate_def CSDevExecute_ValidateAll_def
  SCDevExecute_Validate_def SCDevExecute_ValidateAll_def
  HeroProto_Validate_def HeroProto_ValidateAll_def
  SCPushHeroUnlock_Validate_def SCPushHeroUnlock_ValidateAll_def
  CSHeroLevelUpgrade_Validate_def CSHeroLevelUpgrade_ValidateAll_def
  SCHeroLevelUpgrade_Validate_def SCHeroLevelUpgrade_ValidateAll_def
  UserHeroListProto_Validate_def UserHeroListProto_ValidateAll_def
  SCPushItemUpdate_Validate_def SCPushItemUpdate_ValidateAll_def
  CSUsePack_Validate_def CSUsePack_ValidateAll_def
  SCUsePack_Validate_def SCUsePack_ValidateAll_def
  ItemPackProto_Validate_def ItemPackProto_ValidateAll_def
  ItemRecoverableProto_Validate_def ItemRecoverableProto_ValidateAll_def
  UserStorageProto_Validate_def UserStorageProto_ValidateAll_def
  CSHandshake_Validate_def CSHandshake_ValidateAll_def
  SCHandshake_Validate_def SCHandshake_ValidateAll_def
  CSHeartBeat_Validate_def CSHeartBeat_ValidateAll_def
  SCHeartBeat_Validate_def SCHeartBeat_ValidateAll_def
  SCServerUnknownErr_Validate_def SCServerUnknownErr_ValidateAll_def
  SCServerLogout_Validate_def SCServerLogout_ValidateAll_def
  UserBasicProto_Validate_def UserBasicProto_ValidateAll_def
  UserRoomProto_Validate_def UserRoomProto_ValidateAll_def
  RoomBasicProto_Validate_def RoomBasicProto_ValidateAll_def
  RoomMemberProto_Validate_def RoomMemberProto_ValidateAll_def
  RoomProto_Validate_def RoomProto_ValidateAll_def
  SCPushJoinedRoom_Validate_def SCPushJoinedRoom_ValidateAll_def
  SCPushRemovedFromRoom_Validate_def SCPushRemovedFromRoom_ValidateAll_def
  CSRoomList_Validate_def CSRoomList_ValidateAll_def
  SCRoomList_Validate_def SCRoomList_ValidateAll_def
  CSRoomDetail_Validate_def CSRoomDetail_ValidateAll_def
  SCRoomDetail_Validate_def SCRoomDetail_ValidateAll_def
  CSCreateRoom_Validate_def CSCreateRoom_ValidateAll_def
  SCCreateRoom_Validate_def SCCreateRoom_ValidateAll_def
  CSInviteToJoinRoom_Validate_def CSInviteToJoinRoom_ValidateAll_def
  SCInviteToJoinRoom_Validate_def SCInviteToJoinRoom_ValidateAll_def
  CSAgreeToInviteJoinRoom_Validate_def CSAgreeToInviteJoinRoom_ValidateAll_def
  SCAgreeToInviteJoinRoom_Validate_def SCAgreeToInviteJoinRoom_ValidateAll_def
  CSRequestToJoinRoom_Validate_def CSRequestToJoinRoom_ValidateAll_def
  SCRequestToJoinRoom_Validate_def SCRequestToJoinRoom_ValidateAll_def
  CSApproveRequestToJoinRoom_Validate_def CSApproveRequestToJoinRoom_ValidateAll_def
  SCApproveRequestToJoinRoom_Validate_def SCApproveRequestToJoinRoom_ValidateAll_def
  CSKickUserFromRoom_Validate_def CSKickUserFromRoom_ValidateAll_def
  SCKickUserFromRoom_Validate_def SCKickUserFromRoom_ValidateAll_def
  CSLeaveRoom_Validate_def CSLeaveRoom_ValidateAll_def
  SCLeaveRoom_Validate_def SCLeaveRoom_ValidateAll_def
  CSCloseRoom_Validate_def CSCloseRoom_ValidateAll_def
  SCCloseRoom_Validate_def SCCloseRoom_ValidateAll_def
  UserProto_Validate_def UserProto_ValidateAll_def
  RechargeParamProto_Validate_def RechargeParamProto_ValidateAll_def
  SCPushSyncUser_Validate_def SCPushSyncUser_ValidateAll_def
  CSLogin_Validate_def CSLogin_ValidateAll_def
  SCLogin_Validate_def SCLogin_ValidateAll_def
  CSUpdateName_Validate_def CSUpdateName_ValidateAll_def
  SCUpdateName_Validate_def SCUpdateName_ValidateAll_def
  CSSetGender_Validate_def CSSetGender_ValidateAll_def
  SCSetGender_Validate_def SCSetGender_ValidateAll_def

lemma CSDevList_accepts [simp]: "CSDevList_validate all m = None"
  by (cases m) (simp_all add: CSDevList_validate_def)

lemma DevCmdArgProto_accepts [simp]: "DevCmdArgProto_validate all m = None"
  by (cases m) (simp_all add: DevCmdArgProto_validate_def)

lemma DevCmdProto_accepts [simp]: "DevCmdProto_validate all m = None"
  by (cases m) (simp_all add: DevCmdProto_validate_def)

lemma SCDevList_accepts [simp]: "SCDevList_validate all m = None"
  by (cases m) (simp_all add: SCDevList_validate_def)

lemma CSDevExecute_accepts [simp]: "CSDevExecute_validate all m = None"
  by (cases m) (simp_all add: CSDevExecute_validate_def)

lemma SCDevExecute_accepts [simp]: "SCDevExecute_validate all m = None"
  by (cases m) (simp_all add: SCDevExecute_validate_def)

lemma HeroProto_accepts [simp]: "HeroProto_validate all m = None"
  by (cases m) (simp_all add: HeroProto_validate_def)

lemma SCPushHeroUnlock_accepts [simp]: "SCPushHeroUnlock_validate all m = None"
  by (cases m) (simp_all add: SCPushHeroUnlock_validate_def)

lemma CSHeroLevelUpgrade_accepts [simp]: "CSHeroLevelUpgrade_validate all m = None"
  by (cases m) (simp_all add: CSHeroLevelUpgrade_validate_def)

lemma SCHeroLevelUpgrade_accepts [simp]: "SCHeroLevelUpgrade_validate all m = None"
  by (cases m) (simp_all add: SCHeroLevelUpgrade_validate_def)

lemma UserHeroListProto_accepts [simp]: "UserHeroListProto_validate all m = None"
  by (cases m) (simp_all add: UserHeroListProto_validate_def)

lemma SCPushItemUpdate_accepts [simp]: "SCPushItemUpdate_validate all m = None"
  by (cases m) (simp_all add: SCPushItemUpdate_validate_def)

lemma CSUsePack_accepts [simp]: "CSUsePack_validate all m = None"
  by (cases m) (simp_all add: CSUsePack_validate_def)

lemma SCUsePack_accepts [simp]: "SCUsePack_validate all m = None"
  by (cases m) (simp_all add: SCUsePack_validate_def)

lemma ItemPackProto_accepts [simp]: "ItemPackProto_validate all m = None"
  by (cases m) (simp_all add: ItemPackProto_validate_def)

lemma ItemRecoverableProto_accepts [simp]: "ItemRecoverableProto_validate all m = None"
  by (cases m) (simp_all add: ItemRecoverableProto_validate_def)

lemma UserStorageProto_accepts [simp]: "UserStorageProto_validate all m = None"
  by (cases m) (simp_all add: UserStorageProto_validate_def)

lemma CSHandshake_accepts [simp]: "CSHandshake_validate all m = None"
  by (cases m) (simp_all add: CSHandshake_validate_def)

lemma SCHandshake_accepts [simp]: "SCHandshake_validate all m = None"
  by (cases m) (simp_all add: SCHandshake_validate_def)

lemma CSHeartBeat_accepts [simp]: "CSHeartBeat_validate all m = None"
  by (cases m) (simp_all add: CSHeartBeat_validate_def)

lemma SCHeartBeat_accepts [simp]: "SCHeartBeat_validate all m = None"
  by (cases m) (simp_all add: SCHeartBeat_validate_def)

lemma SCServerUnknownErr_accepts [simp]: "SCServerUnknownErr_validate all m = None"
  by (cases m) (simp_all add: SCServerUnknownErr_validate_def)

lemma SCServerLogout_accepts [simp]: "SCServerLogout_validate all m = None"
  by (cases m) (simp_all add: SCServerLogout_validate_def)

lemma UserBasicProto_accepts [simp]: "UserBasicProto_validate all m = None"
  by (cases m) (simp_all add: UserBasicProto_validate_def)

lemma UserRoomProto_accepts [simp]: "UserRoomProto_validate all m = None"
  by (cases m) (simp_all add: UserRoomProto_validate_def)

lemma RoomBasicProto_accepts [simp]: "RoomBasicProto_validate all m = None"
  by (cases m) (simp_all add: RoomBasicProto_validate_def)

lemma RoomMemberProto_accepts [simp]: "RoomMemberProto_validate all m = None"
  by (cases m) (simp_all add: RoomMemberProto_validate_def)

lemma RoomProto_accepts [simp]: "RoomProto_validate all m = None"
  by (cases m) (simp_all add: RoomProto_validate_def)

lemma SCPushJoinedRoom_accepts [simp]: "SCPushJoinedRoom_validate all m = None"
  by (cases m) (simp_all add: SCPushJoinedRoom_validate_def)

lemma SCPushRemovedFromRoom_accepts [simp]: "SCPushRemovedFromRoom_validate all m = None"
  by (cases m) (simp_all add: SCPushRemovedFromRoom_validate_def)

lemma CSRoomList_accepts [simp]: "CSRoomList_validate all m = None"
  by (cases m) (simp_all add: CSRoomList_validate_def)

lemma SCRoomList_accepts [simp]: "SCRoomList_validate all m = None"
  by (cases m) (simp_all add: SCRoomList_validate_def)

lemma CSRoomDetail_accepts [simp]: "CSRoomDetail_validate all m = None"
  by (cases m) (simp_all add: CSRoomDetail_validate_def)

lemma SCRoomDetail_accepts [simp]: "SCRoomDetail_validate all m = None"
  by (cases m) (simp_all add: SCRoomDetail_validate_def)

lemma CSCreateRoom_accepts [simp]: "CSCreateRoom_validate all m = None"
  by (cases m) (simp_all add: CSCreateRoom_validate_def)

lemma SCCreateRoom_accepts [simp]: "SCCreateRoom_validate all m = None"
  by (cases m) (simp_all add: SCCreateRoom_validate_def)

lemma CSInviteToJoinRoom_accepts [simp]: "CSInviteToJoinRoom_validate all m = None"
  by (cases m) (simp_all add: CSInviteToJoinRoom_validate_def)

lemma SCInviteToJoinRoom_accepts [simp]: "SCInviteToJoinRoom_validate all m = None"
  by (cases m) (simp_all add: SCInviteToJoinRoom_validate_def)

lemma CSAgreeToInviteJoinRoom_accepts [simp]: "CSAgreeToInviteJoinRoom_validate all m = None"
  by (cases m) (simp_all add: CSAgreeToInviteJoinRoom_validate_def)

lemma SCAgreeToInviteJoinRoom_accepts [simp]: "SCAgreeToInviteJoinRoom_validate all m = None"
  by (cases m) (simp_all add: SCAgreeToInviteJoinRoom_validate_def)

lemma CSRequestToJoinRoom_accepts [simp]: "CSRequestToJoinRoom_validate all m = None"
  by (cases m) (simp_all add: CSRequestToJoinRoom_validate_def)

lemma SCRequestToJoinRoom_accepts [simp]: "SCRequestToJoinRoom_validate all m = None"
  by (cases m) (simp_all add: SCRequestToJoinRoom_validate_def)

lemma CSApproveRequestToJoinRoom_accepts [simp]: "CSApproveRequestToJoinRoom_validate all m = None"
  by (cases m) (simp_all add: CSApproveRequestToJoinRoom_validate_def)

lemma SCApproveRequestToJoinRoom_accepts [simp]: "SCApproveRequestToJoinRoom_validate all m = None"
  by (cases m) (simp_all add: SCApproveRequestToJoinRoom_validate_def)

lemma CSKickUserFromRoom_accepts [simp]: "CSKickUserFromRoom_validate all m = None"
  by (cases m) (simp_all add: CSKickUserFromRoom_validate_def)

lemma SCKickUserFromRoom_accepts [simp]: "SCKickUserFromRoom_validate all m = None"
  by (cases m) (simp_all add: SCKickUserFromRoom_validate_def)

lemma CSLeaveRoom_accepts [simp]: "CSLeaveRoom_validate all m = None"
  by (cases m) (simp_all add: CSLeaveRoom_validate_def)

lemma SCLeaveRoom_accepts [simp]: "SCLeaveRoom_validate all m = None"
  by (cases m) (simp_all add: SCLeaveRoom_validate_def)

lemma CSCloseRoom_accepts [simp]: "CSCloseRoom_validate all m = None"
  by (cases m) (simp_all add: CSCloseRoom_validate_def)

lemma SCCloseRoom_accepts [simp]: "SCCloseRoom_validate all m = None"
  by (cases m) (simp_all add: SCCloseRoom_validate_def)

lemma UserProto_accepts [simp]: "UserProto_validate all m = None"
  by (cases m) (simp_all add: UserProto_validate_def)

lemma RechargeParamProto_accepts [simp]: "RechargeParamProto_validate all m = None"
  by (cases m) (simp_all add: RechargeParamProto_validate_def)

lemma SCPushSyncUser_accepts [simp]: "SCPushSyncUser_validate all m = None"
  by (cases m) (simp_all add: SCPushSyncUser_validate_def)

lemma CSLogin_accepts [simp]: "CSLogin_validate all m = None"
  by (cases m) (simp_all add: CSLogin_validate_def)

lemma SCLogin_accepts [simp]: "SCLogin_validate all m = None"
  by (cases m) (simp_all add: SCLogin_validate_def)

lemma CSUpdateName_accepts [simp]: "CSUpdateName_validate all m = None"
  by (cases m) (simp_all add: CSUpdateName_validate_def)

lemma SCUpdateName_accepts [simp]: "SCUpdateName_validate all m = None"
  by (cases m) (simp_all add: SCUpdateName_validate_def)

lemma CSSetGender_accepts [simp]: "CSSetGender_validate all m = None"
  by (cases m) (simp_all add: CSSetGender_validate_def)

lemma SCSetGender_accepts [simp]: "SCSetGender_validate all m = None"
  by (cases m) (simp_all add: SCSetGender_validate_def)

end
