(* ===== verification/Account_Messages.thy ===== *)
theory Account_Messages
  imports Message_Checks
begin

text \<open>
  The messages of the account service (\<^verbatim>\<open>gen/api/server/account/\<close>): the fields of each message and its
  validation methods.

  An empty struct is a type with one value, an enumeration its \<^verbatim>\<open>int32\<close>, a map the list of its entries.
\<close>

section \<open>Account administration\<close>

subsection \<open>account GetByIdRequest\<close>

record account_GetByIdRequest =
  account_GetByIdRequest_Id :: int64

definition account_GetByIdRequest_validate :: "bool \<Rightarrow> account_GetByIdRequest option \<Rightarrow> verror option" where
  "account_GetByIdRequest_validate all m =
     (case m of
        None \<Rightarrow> None
      | Some r \<Rightarrow> finish_checks (TMsg ''account.admin.account'' ''GetByIdRequest'') (run_checks [] []))"

definition account_GetByIdRequest_Validate :: "account_GetByIdRequest option \<Rightarrow> verror option" where
  "account_GetByIdRequest_Validate m = account_GetByIdRequest_validate False m"

definition account_GetByIdRequest_ValidateAll :: "account_GetByIdRequest option \<Rightarrow> verror option" where
  "account_GetByIdRequest_ValidateAll m = account_GetByIdRequest_validate True m"

definition account_GetByIdRequestMultiError_Error :: "verror list \<Rightarrow> string" where
  "account_GetByIdRequestMultiError_Error m = (let msgs = foldl (\<lambda>msgs err. msgs @ [Error err]) [] m in strings_Join msgs ''; '')"

definition account_GetByIdRequestValidationError_Error :: "string \<Rightarrow> string \<Rightarrow> verror option \<Rightarrow> bool \<Rightarrow> string" where
  "account_GetByIdRequestValidationError_Error field reason cause key =
     (let cause = (case cause of None \<Rightarrow> [] | Some e \<Rightarrow> '' | caused by: '' @ Error e);
          key = (if key then ''key for '' else []) in
      ''invalid '' @ key @ ''GetByIdRequest.'' @ field @ '': '' @ reason @ cause)"

subsection \<open>AccountProto\<close>

record AccountProto =
  AccountProto_Id :: int64
  AccountProto_IdStr :: string
  AccountProto_AppleId :: string
  AccountProto_GoogleId :: string
  AccountProto_Name :: string
  AccountProto_RegisterIp :: string
  AccountProto_LastLoginIp :: string
  AccountProto_Channel :: int32
  AccountProto_CreatedAt :: int64

definition AccountProto_validate :: "bool \<Rightarrow> AccountProto option \<Rightarrow> verror option" where
  "AccountProto_validate all m =
     (case m of
        None \<Rightarrow> None
      | Some r \<Rightarrow> finish_checks (TMsg ''account.admin.account'' ''AccountProto'') (run_checks [] []))"

definition AccountProto_Validate :: "AccountProto option \<Rightarrow> verror option" where
  "AccountProto_Validate m = AccountProto_validate False m"

definition AccountProto_ValidateAll :: "AccountProto option \<Rightarrow> verror option" where
  "AccountProto_ValidateAll m = AccountProto_validate True m"

definition AccountProtoMultiError_Error :: "verror list \<Rightarrow> string" where
  "AccountProtoMultiError_Error m = (let msgs = foldl (\<lambda>msgs err. msgs @ [Error err]) [] m in strings_Join msgs ''; '')"

definition AccountProtoValidationError_Error :: "string \<Rightarrow> string \<Rightarrow> verror option \<Rightarrow> bool \<Rightarrow> string" where
  "AccountProtoValidationError_Error field reason cause key =
     (let cause = (case cause of None \<Rightarrow> [] | Some e \<Rightarrow> '' | caused by: '' @ Error e);
          key = (if key then ''key for '' else []) in
      ''invalid '' @ key @ ''AccountProto.'' @ field @ '': '' @ reason @ cause)"

subsection \<open>account GetByIdResponse\<close>

record account_GetByIdResponse =
  account_GetByIdResponse_Code :: int32
  account_GetByIdResponse_Message :: string
  account_GetByIdResponse_Account :: "AccountProto option"

definition account_GetByIdResponse_validate :: "bool \<Rightarrow> account_GetByIdResponse option \<Rightarrow> verror option" where
  "account_GetByIdResponse_validate all m =
     (case m of
        None \<Rightarrow> None
      | Some r \<Rightarrow>
          finish_checks (TMsg ''account.admin.account'' ''GetByIdResponse'') (run_checks
          [check_embedded all (TMsg ''account.admin.account'' ''GetByIdResponse'') ''Account'' AccountProto_Validate AccountProto_ValidateAll (account_GetByIdResponse_Account r)] []))"

definition account_GetByIdResponse_Validate :: "account_GetByIdResponse option \<Rightarrow> verror option" where
  "account_GetByIdResponse_Validate m = account_GetByIdResponse_validate False m"

definition account_GetByIdResponse_ValidateAll :: "account_GetByIdResponse option \<Rightarrow> verror option" where
  "account_GetByIdResponse_ValidateAll m = account_GetByIdResponse_validate True m"

definition account_GetByIdResponseMultiError_Error :: "verror list \<Rightarrow> string" where
  "account_GetByIdResponseMultiError_Error m = (let msgs = foldl (\<lambda>msgs err. msgs @ [Error err]) [] m in strings_Join msgs ''; '')"

definition account_GetByIdResponseValidationError_Error :: "string \<Rightarrow> string \<Rightarrow> verror option \<Rightarrow> bool \<Rightarrow> string" where
  "account_GetByIdResponseValidationError_Error field reason cause key =
     (let cause = (case cause of None \<Rightarrow> [] | Some e \<Rightarrow> '' | caused by: '' @ Error e);
          key = (if key then ''key for '' else []) in
      ''invalid '' @ key @ ''GetByIdResponse.'' @ field @ '': '' @ reason @ cause)"

subsection \<open>AccountListCondition\<close>

record AccountListCondition =
  AccountListCondition_Name :: string
  AccountListCondition_AppleId :: string
  AccountListCondition_GoogleId :: string

definition AccountListCondition_validate :: "bool \<Rightarrow> AccountListCondition option \<Rightarrow> verror option" where
  "AccountListCondition_validate all m =
     (case m of
        None \<Rightarrow> None
      | Some r \<Rightarrow> finish_checks (TMsg ''account.admin.account'' ''AccountListCondition'') (run_checks [] []))"

definition AccountListCondition_Validate :: "AccountListCondition option \<Rightarrow> verror option" where
  "AccountListCondition_Validate m = AccountListCondition_validate False m"

definition AccountListCondition_ValidateAll :: "AccountListCondition option \<Rightarrow> verror option" where
  "AccountListCondition_ValidateAll m = AccountListCondition_validate True m"

definition AccountListConditionMultiError_Error :: "verror list \<Rightarrow> string" where
  "AccountListConditionMultiError_Error m = (let msgs = foldl (\<lambda>msgs err. msgs @ [Error err]) [] m in strings_Join msgs ''; '')"

definition AccountListConditionValidationError_Error :: "string \<Rightarrow> string \<Rightarrow> verror option \<Rightarrow> bool \<Rightarrow> string" where
  "AccountListConditionValidationError_Error field reason cause key =
     (let cause = (case cause of None \<Rightarrow> [] | Some e \<Rightarrow> '' | caused by: '' @ Error e);
          key = (if key then ''key for '' else []) in
      ''invalid '' @ key @ ''AccountListCondition.'' @ field @ '': '' @ reason @ cause)"

subsection \<open>AccountListRequest\<close>

record AccountListRequest =
  AccountListRequest_Page :: int32
  AccountListRequest_PageSize :: int32
  AccountListRequest_Condition :: "AccountListCondition option"

definition AccountListRequest_validate :: "bool \<Rightarrow> AccountListRequest option \<Rightarrow> verror option" where
  "AccountListRequest_validate all m =
     (case m of
        None \<Rightarrow> None
      | Some r \<Rightarrow>
          finish_checks (TMsg ''account.admin.account'' ''AccountListRequest'') (run_checks
          [check_embedded all (TMsg ''account.admin.account'' ''AccountListRequest'') ''Condition'' AccountListCondition_Validate AccountListCondition_ValidateAll (AccountListRequest_Condition r)] []))"

definition AccountListRequest_Validate :: "AccountListRequest option \<Rightarrow> verror option" where
  "AccountListRequest_Validate m = AccountListRequest_validate False m"

definition AccountListRequest_ValidateAll :: "AccountListRequest option \<Rightarrow> verror option" where
  "AccountListRequest_ValidateAll m = AccountListRequest_validate True m"

definition AccountListRequestMultiError_Error :: "verror list \<Rightarrow> string" where
  "AccountListRequestMultiError_Error m = (let msgs = foldl (\<lambda>msgs err. msgs @ [Error err]) [] m in strings_Join msgs ''; '')"

definition AccountListRequestValidationError_Error :: "string \<Rightarrow> string \<Rightarrow> verror option \<Rightarrow> bool \<Rightarrow> string" where
  "AccountListRequestValidationError_Error field reason cause key =
     (let cause = (case cause of None \<Rightarrow> [] | Some e \<Rightarrow> '' | caused by: '' @ Error e);
          key = (if key then ''key for '' else []) in
      ''invalid '' @ key @ ''AccountListRequest.'' @ field @ '': '' @ reason @ cause)"

subsection \<open>AccountListResponse\<close>

record AccountListResponse =
  AccountListResponse_Code :: int32
  AccountListResponse_Message :: string
  AccountListResponse_Accounts :: "AccountProto option list"
  AccountListResponse_Total :: uint32

definition AccountListResponse_validate :: "bool \<Rightarrow> AccountListResponse option \<Rightarrow> verror option" where
  "AccountListResponse_validate all m =
     (case m of
        None \<Rightarrow> None
      | Some r \<Rightarrow>
          finish_checks (TMsg ''account.admin.account'' ''AccountListResponse'') (run_checks
          [check_items all (TMsg ''account.admin.account'' ''AccountListResponse'') ''Accounts'' AccountProto_Validate AccountProto_ValidateAll 0 (AccountListResponse_Accounts r)] []))"

definition AccountListResponse_Validate :: "AccountListResponse option \<Rightarrow> verror option" where
  "AccountListResponse_Validate m = AccountListResponse_validate False m"

definition AccountListResponse_ValidateAll :: "AccountListResponse option \<Rightarrow> verror option" where
  "AccountListResponse_ValidateAll m = AccountListResponse_validate True m"

definition AccountListResponseMultiError_Error :: "verror list \<Rightarrow> string" where
  "AccountListResponseMultiError_Error m = (let msgs = foldl (\<lambda>msgs err. msgs @ [Error err]) [] m in strings_Join msgs ''; '')"

definition AccountListResponseValidationError_Error :: "string \<Rightarrow> string \<Rightarrow> verror option \<Rightarrow> bool \<Rightarrow> string" where
  "AccountListResponseValidationError_Error field reason cause key =
     (let cause = (case cause of None \<Rightarrow> [] | Some e \<Rightarrow> '' | caused by: '' @ Error e);
          key = (if key then ''key for '' else []) in
      ''invalid '' @ key @ ''AccountListResponse.'' @ field @ '': '' @ reason @ cause)"

section \<open>Notice administration\<close>

subsection \<open>GetNoticeListRequest\<close>

record GetNoticeListRequest =
  GetNoticeListRequest_Page :: int32
  GetNoticeListRequest_PageSize :: int32

definition GetNoticeListRequest_validate :: "bool \<Rightarrow> GetNoticeListRequest option \<Rightarrow> verror option" where
  "GetNoticeListRequest_validate all m =
     (case m of
        None \<Rightarrow> None
      | Some r \<Rightarrow> finish_checks (TMsg ''account.admin.notice'' ''GetNoticeListRequest'') (run_checks [] []))"

definition GetNoticeListRequest_Validate :: "GetNoticeListRequest option \<Rightarrow> verror option" where
  "GetNoticeListRequest_Validate m = GetNoticeListRequest_validate False m"

definition GetNoticeListRequest_ValidateAll :: "GetNoticeListRequest option \<Rightarrow> verror option" where
  "GetNoticeListRequest_ValidateAll m = GetNoticeListRequest_validate True m"

definition GetNoticeListRequestMultiError_Error :: "verror list \<Rightarrow> string" where
  "GetNoticeListRequestMultiError_Error m = (let msgs = foldl (\<lambda>msgs err. msgs @ [Error err]) [] m in strings_Join msgs ''; '')"

definition GetNoticeListRequestValidationError_Error :: "string \<Rightarrow> string \<Rightarrow> verror option \<Rightarrow> bool \<Rightarrow> string" where
  "GetNoticeListRequestValidationError_Error field reason cause key =
     (let cause = (case cause of None \<Rightarrow> [] | Some e \<Rightarrow> '' | caused by: '' @ Error e);
          key = (if key then ''key for '' else []) in
      ''invalid '' @ key @ ''GetNoticeListRequest.'' @ field @ '': '' @ reason @ cause)"

subsection \<open>NoticeProto\<close>

record NoticeProto =
  NoticeProto_Id :: int64
  NoticeProto_Title :: string
  NoticeProto_Content :: string
  NoticeProto_Sort :: int64
  NoticeProto_StartTime :: int64
  NoticeProto_EndTime :: int64
  NoticeProto_CreatedTime :: int64
  NoticeProto_UpdatedTime :: int64

definition NoticeProto_validate :: "bool \<Rightarrow> NoticeProto option \<Rightarrow> verror option" where
  "NoticeProto_validate all m =
     (case m of
        None \<Rightarrow> None
      | Some r \<Rightarrow> finish_checks (TMsg ''account.admin.notice'' ''NoticeProto'') (run_checks [] []))"

definition NoticeProto_Validate :: "NoticeProto option \<Rightarrow> verror option" where
  "NoticeProto_Validate m = NoticeProto_validate False m"

definition NoticeProto_ValidateAll :: "NoticeProto option \<Rightarrow> verror option" where
  "NoticeProto_ValidateAll m = NoticeProto_validate True m"

definition NoticeProtoMultiError_Error :: "verror list \<Rightarrow> string" where
  "NoticeProtoMultiError_Error m = (let msgs = foldl (\<lambda>msgs err. msgs @ [Error err]) [] m in strings_Join msgs ''; '')"

definition NoticeProtoValidationError_Error :: "string \<Rightarrow> string \<Rightarrow> verror option \<Rightarrow> bool \<Rightarrow> string" where
  "NoticeProtoValidationError_Error field reason cause key =
     (let cause = (case cause of None \<Rightarrow> [] | Some e \<Rightarrow> '' | caused by: '' @ Error e);
          key = (if key then ''key for '' else []) in
      ''invalid '' @ key @ ''NoticeProto.'' @ field @ '': '' @ reason @ cause)"

subsection \<open>GetNoticeListResponse\<close>

record GetNoticeListResponse =
  GetNoticeListResponse_Code :: int32
  GetNoticeListResponse_Message :: string
  GetNoticeListResponse_List :: "NoticeProto option list"
  GetNoticeListResponse_Total :: uint32

definition GetNoticeListResponse_validate :: "bool \<Rightarrow> GetNoticeListResponse option \<Rightarrow> verror option" where
  "GetNoticeListResponse_validate all m =
     (case m of
        None \<Rightarrow> None
      | Some r \<Rightarrow>
          finish_checks (TMsg ''account.admin.notice'' ''GetNoticeListResponse'') (run_checks
          [check_items all (TMsg ''account.admin.notice'' ''GetNoticeListResponse'') ''List'' NoticeProto_Validate NoticeProto_ValidateAll 0 (GetNoticeListResponse_List r)] []))"

definition GetNoticeListResponse_Validate :: "GetNoticeListResponse option \<Rightarrow> verror option" where
  "GetNoticeListResponse_Validate m = GetNoticeListResponse_validate False m"

definition GetNoticeListResponse_ValidateAll :: "GetNoticeListResponse option \<Rightarrow> verror option" where
  "GetNoticeListResponse_ValidateAll m = GetNoticeListResponse_validate True m"

definition GetNoticeListResponseMultiError_Error :: "verror list \<Rightarrow> string" where
  "GetNoticeListResponseMultiError_Error m = (let msgs = foldl (\<lambda>msgs err. msgs @ [Error err]) [] m in strings_Join msgs ''; '')"

definition GetNoticeListResponseValidationError_Error :: "string \<Rightarrow> string \<Rightarrow> verror option \<Rightarrow> bool \<Rightarrow> string" where
  "GetNoticeListResponseValidationError_Error field reason cause key =
     (let cause = (case cause of None \<Rightarrow> [] | Some e \<Rightarrow> '' | caused by: '' @ Error e);
          key = (if key then ''key for '' else []) in
      ''invalid '' @ key @ ''GetNoticeListResponse.'' @ field @ '': '' @ reason @ cause)"

subsection \<open>GetNoticeByIdRequest\<close>

record GetNoticeByIdRequest =
  GetNoticeByIdRequest_Id :: int64

definition GetNoticeByIdRequest_validate :: "bool \<Rightarrow> GetNoticeByIdRequest option \<Rightarrow> verror option" where
  "GetNoticeByIdRequest_validate all m =
     (case m of
        None \<Rightarrow> None
      | Some r \<Rightarrow> finish_checks (TMsg ''account.admin.notice'' ''GetNoticeByIdRequest'') (run_checks [] []))"

definition GetNoticeByIdRequest_Validate :: "GetNoticeByIdRequest option \<Rightarrow> verror option" where
  "GetNoticeByIdRequest_Validate m = GetNoticeByIdRequest_validate False m"

definition GetNoticeByIdRequest_ValidateAll :: "GetNoticeByIdRequest option \<Rightarrow> verror option" where
  "GetNoticeByIdRequest_ValidateAll m = GetNoticeByIdRequest_validate True m"

definition GetNoticeByIdRequestMultiError_Error :: "verror list \<Rightarrow> string" where
  "GetNoticeByIdRequestMultiError_Error m = (let msgs = foldl (\<lambda>msgs err. msgs @ [Error err]) [] m in strings_Join msgs ''; '')"

definition GetNoticeByIdRequestValidationError_Error :: "string \<Rightarrow> string \<Rightarrow> verror option \<Rightarrow> bool \<Rightarrow> string" where
  "GetNoticeByIdRequestValidationError_Error field reason cause key =
     (let cause = (case cause of None \<Rightarrow> [] | Some e \<Rightarrow> '' | caused by: '' @ Error e);
          key = (if key then ''key for '' else []) in
      ''invalid '' @ key @ ''GetNoticeByIdRequest.'' @ field @ '': '' @ reason @ cause)"

subsection \<open>GetNoticeByIdResponse\<close>

record GetNoticeByIdResponse =
  GetNoticeByIdResponse_Code :: int32
  GetNoticeByIdResponse_Message :: string
  GetNoticeByIdResponse_Item :: "NoticeProto option"

definition GetNoticeByIdResponse_validate :: "bool \<Rightarrow> GetNoticeByIdResponse option \<Rightarrow> verror option" where
  "GetNoticeByIdResponse_validate all m =
     (case m of
        None \<Rightarrow> None
      | Some r \<Rightarrow>
          finish_checks (TMsg ''account.admin.notice'' ''GetNoticeByIdResponse'') (run_checks
          [check_embedded all (TMsg ''account.admin.notice'' ''GetNoticeByIdResponse'') ''Item'' NoticeProto_Validate NoticeProto_ValidateAll (GetNoticeByIdResponse_Item r)] []))"

definition GetNoticeByIdResponse_Validate :: "GetNoticeByIdResponse option \<Rightarrow> verror option" where
  "GetNoticeByIdResponse_Validate m = GetNoticeByIdResponse_validate False m"

definition GetNoticeByIdResponse_ValidateAll :: "GetNoticeByIdResponse option \<Rightarrow> verror option" where
  "GetNoticeByIdResponse_ValidateAll m = GetNoticeByIdResponse_validate True m"

definition GetNoticeByIdResponseMultiError_Error :: "verror list \<Rightarrow> string" where
  "GetNoticeByIdResponseMultiError_Error m = (let msgs = foldl (\<lambda>msgs err. msgs @ [Error err]) [] m in strings_Join msgs ''; '')"

definition GetNoticeByIdResponseValidationError_Error :: "string \<Rightarrow> string \<Rightarrow> verror option \<Rightarrow> bool \<Rightarrow> string" where
  "GetNoticeByIdResponseValidationError_Error field reason cause key =
     (let cause = (case cause of None \<Rightarrow> [] | Some e \<Rightarrow> '' | caused by: '' @ Error e);
          key = (if key then ''key for '' else []) in
      ''invalid '' @ key @ ''GetNoticeByIdResponse.'' @ field @ '': '' @ reason @ cause)"

subsection \<open>CreateNoticeRequest\<close>

record CreateNoticeRequest =
  CreateNoticeRequest_Item :: "NoticeProto option"

definition CreateNoticeRequest_validate :: "bool \<Rightarrow> CreateNoticeRequest option \<Rightarrow> verror option" where
  "CreateNoticeRequest_validate all m =
     (case m of
        None \<Rightarrow> None
      | Some r \<Rightarrow>
          finish_checks (TMsg ''account.admin.notice'' ''CreateNoticeRequest'') (run_checks
          [check_embedded all (TMsg ''account.admin.notice'' ''CreateNoticeRequest'') ''Item'' NoticeProto_Validate NoticeProto_ValidateAll (CreateNoticeRequest_Item r)] []))"

definition CreateNoticeRequest_Validate :: "CreateNoticeRequest option \<Rightarrow> verror option" where
  "CreateNoticeRequest_Validate m = CreateNoticeRequest_validate False m"

definition CreateNoticeRequest_ValidateAll :: "CreateNoticeRequest option \<Rightarrow> verror option" where
  "CreateNoticeRequest_ValidateAll m = CreateNoticeRequest_validate True m"

definition CreateNoticeRequestMultiError_Error :: "verror list \<Rightarrow> string" where
  "CreateNoticeRequestMultiError_Error m = (let msgs = foldl (\<lambda>msgs err. msgs @ [Error err]) [] m in strings_Join msgs ''; '')"

definition CreateNoticeRequestValidationError_Error :: "string \<Rightarrow> string \<Rightarrow> verror option \<Rightarrow> bool \<Rightarrow> string" where
  "CreateNoticeRequestValidationError_Error field reason cause key =
     (let cause = (case cause of None \<Rightarrow> [] | Some e \<Rightarrow> '' | caused by: '' @ Error e);
          key = (if key then ''key for '' else []) in
      ''invalid '' @ key @ ''CreateNoticeRequest.'' @ field @ '': '' @ reason @ cause)"

subsection \<open>CreateNoticeResponse\<close>

record CreateNoticeResponse =
  CreateNoticeResponse_Code :: int32
  CreateNoticeResponse_Message :: string

definition CreateNoticeResponse_validate :: "bool \<Rightarrow> CreateNoticeResponse option \<Rightarrow> verror option" where
  "CreateNoticeResponse_validate all m =
     (case m of
        None \<Rightarrow> None
      | Some r \<Rightarrow> finish_checks (TMsg ''account.admin.notice'' ''CreateNoticeResponse'') (run_checks [] []))"

definition CreateNoticeResponse_Validate :: "CreateNoticeResponse option \<Rightarrow> verror option" where
  "CreateNoticeResponse_Validate m = CreateNoticeResponse_validate False m"

definition CreateNoticeResponse_ValidateAll :: "CreateNoticeResponse option \<Rightarrow> verror option" where
  "CreateNoticeResponse_ValidateAll m = CreateNoticeResponse_validate True m"

definition CreateNoticeResponseMultiError_Error :: "verror list \<Rightarrow> string" where
  "CreateNoticeResponseMultiError_Error m = (let msgs = foldl (\<lambda>msgs err. msgs @ [Error err]) [] m in strings_Join msgs ''; '')"

definition CreateNoticeResponseValidationError_Error :: "string \<Rightarrow> string \<Rightarrow> verror option \<Rightarrow> bool \<Rightarrow> string" where
  "CreateNoticeResponseValidationError_Error field reason cause key =
     (let cause = (case cause of None \<Rightarrow> [] | Some e \<Rightarrow> '' | caused by: '' @ Error e);
          key = (if key then ''key for '' else []) in
      ''invalid '' @ key @ ''CreateNoticeResponse.'' @ field @ '': '' @ reason @ cause)"

subsection \<open>UpdateNoticeRequest\<close>

record UpdateNoticeRequest =
  UpdateNoticeRequest_Item :: "NoticeProto option"

definition UpdateNoticeRequest_validate :: "bool \<Rightarrow> UpdateNoticeRequest option \<Rightarrow> verror option" where
  "UpdateNoticeRequest_validate all m =
     (case m of
        None \<Rightarrow> None
      | Some r \<Rightarrow>
          finish_checks (TMsg ''account.admin.notice'' ''UpdateNoticeRequest'') (run_checks
          [check_embedded all (TMsg ''account.admin.notice'' ''UpdateNoticeRequest'') ''Item'' NoticeProto_Validate NoticeProto_ValidateAll (UpdateNoticeRequest_Item r)] []))"

definition UpdateNoticeRequest_Validate :: "UpdateNoticeRequest option \<Rightarrow> verror option" where
  "UpdateNoticeRequest_Validate m = UpdateNoticeRequest_validate False m"

definition UpdateNoticeRequest_ValidateAll :: "UpdateNoticeRequest option \<Rightarrow> verror option" where
  "UpdateNoticeRequest_ValidateAll m = UpdateNoticeRequest_validate True m"

definition UpdateNoticeRequestMultiError_Error :: "verror list \<Rightarrow> string" where
  "UpdateNoticeRequestMultiError_Error m = (let msgs = foldl (\<lambda>msgs err. msgs @ [Error err]) [] m in strings_Join msgs ''; '')"

definition UpdateNoticeRequestValidationError_Error :: "string \<Rightarrow> string \<Rightarrow> verror option \<Rightarrow> bool \<Rightarrow> string" where
  "UpdateNoticeRequestValidationError_Error field reason cause key =
     (let cause = (case cause of None \<Rightarrow> [] | Some e \<Rightarrow> '' | caused by: '' @ Error e);
          key = (if key then ''key for '' else []) in
      ''invalid '' @ key @ ''UpdateNoticeRequest.'' @ field @ '': '' @ reason @ cause)"

subsection \<open>UpdateNoticeResponse\<close>

record UpdateNoticeResponse =
  UpdateNoticeResponse_Code :: int32
  UpdateNoticeResponse_Message :: string

definition UpdateNoticeResponse_validate :: "bool \<Rightarrow> UpdateNoticeResponse option \<Rightarrow> verror option" where
  "UpdateNoticeResponse_validate all m =
     (case m of
        None \<Rightarrow> None
      | Some r \<Rightarrow> finish_checks (TMsg ''account.admin.notice'' ''UpdateNoticeResponse'') (run_checks [] []))"

definition UpdateNoticeResponse_Validate :: "UpdateNoticeResponse option \<Rightarrow> verror option" where
  "UpdateNoticeResponse_Validate m = UpdateNoticeResponse_validate False m"

definition UpdateNoticeResponse_ValidateAll :: "UpdateNoticeResponse option \<Rightarrow> verror option" where
  "UpdateNoticeResponse_ValidateAll m = UpdateNoticeResponse_validate True m"

definition UpdateNoticeResponseMultiError_Error :: "verror list \<Rightarrow> string" where
  "UpdateNoticeResponseMultiError_Error m = (let msgs = foldl (\<lambda>msgs err. msgs @ [Error err]) [] m in strings_Join msgs ''; '')"

definition UpdateNoticeResponseValidationError_Error :: "string \<Rightarrow> string \<Rightarrow> verror option \<Rightarrow> bool \<Rightarrow> string" where
  "UpdateNoticeResponseValidationError_Error field reason cause key =
     (let cause = (case cause of None \<Rightarrow> [] | Some e \<Rightarrow> '' | caused by: '' @ Error e);
          key = (if key then ''key for '' else []) in
      ''invalid '' @ key @ ''UpdateNoticeResponse.'' @ field @ '': '' @ reason @ cause)"

subsection \<open>DeleteNoticeRequest\<close>

record DeleteNoticeRequest =
  DeleteNoticeRequest_Id :: int64

definition DeleteNoticeRequest_validate :: "bool \<Rightarrow> DeleteNoticeRequest option \<Rightarrow> verror option" where
  "DeleteNoticeRequest_validate all m =
     (case m of
        None \<Rightarrow> None
      | Some r \<Rightarrow> finish_checks (TMsg ''account.admin.notice'' ''DeleteNoticeRequest'') (run_checks [] []))"

definition DeleteNoticeRequest_Validate :: "DeleteNoticeRequest option \<Rightarrow> verror option" where
  "DeleteNoticeRequest_Validate m = DeleteNoticeRequest_validate False m"

definition DeleteNoticeRequest_ValidateAll :: "DeleteNoticeRequest option \<Rightarrow> verror option" where
  "DeleteNoticeRequest_ValidateAll m = DeleteNoticeRequest_validate True m"

definition DeleteNoticeRequestMultiError_Error :: "verror list \<Rightarrow> string" where
  "DeleteNoticeRequestMultiError_Error m = (let msgs = foldl (\<lambda>msgs err. msgs @ [Error err]) [] m in strings_Join msgs ''; '')"

definition DeleteNoticeRequestValidationError_Error :: "string \<Rightarrow> string \<Rightarrow> verror option \<Rightarrow> bool \<Rightarrow> string" where
  "DeleteNoticeRequestValidationError_Error field reason cause key =
     (let cause = (case cause of None \<Rightarrow> [] | Some e \<Rightarrow> '' | caused by: '' @ Error e);
          key = (if key then ''key for '' else []) in
      ''invalid '' @ key @ ''DeleteNoticeRequest.'' @ field @ '': '' @ reason @ cause)"

subsection \<open>DeleteNoticeResponse\<close>

record DeleteNoticeResponse =
  DeleteNoticeResponse_Code :: int32
  DeleteNoticeResponse_Message :: string

definition DeleteNoticeResponse_validate :: "bool \<Rightarrow> DeleteNoticeResponse option \<Rightarrow> verror option" where
  "DeleteNoticeResponse_validate all m =
     (case m of
        None \<Rightarrow> None
      | Some r \<Rightarrow> finish_checks (TMsg ''account.admin.notice'' ''DeleteNoticeResponse'') (run_checks [] []))"

definition DeleteNoticeResponse_Validate :: "DeleteNoticeResponse option \<Rightarrow> verror option" where
  "DeleteNoticeResponse_Validate m = DeleteNoticeResponse_validate False m"

definition DeleteNoticeResponse_ValidateAll :: "DeleteNoticeResponse option \<Rightarrow> verror option" where
  "DeleteNoticeResponse_ValidateAll m = DeleteNoticeResponse_validate True m"

definition DeleteNoticeResponseMultiError_Error :: "verror list \<Rightarrow> string" where
  "DeleteNoticeResponseMultiError_Error m = (let msgs = foldl (\<lambda>msgs err. msgs @ [Error err]) [] m in strings_Join msgs ''; '')"

definition DeleteNoticeResponseValidationError_Error :: "string \<Rightarrow> string \<Rightarrow> verror option \<Rightarrow> bool \<Rightarrow> string" where
  "DeleteNoticeResponseValidationError_Error field reason cause key =
     (let cause = (case cause of None \<Rightarrow> [] | Some e \<Rightarrow> '' | caused by: '' @ Error e);
          key = (if key then ''key for '' else []) in
      ''invalid '' @ key @ ''DeleteNoticeResponse.'' @ field @ '': '' @ reason @ cause)"

section \<open>Notices\<close>

subsection \<open>NoticeListRequest\<close>

datatype NoticeListRequest = NoticeListRequest

definition NoticeListRequest_validate :: "bool \<Rightarrow> NoticeListRequest option \<Rightarrow> verror option" where
  "NoticeListRequest_validate all m =
     (case m of
        None \<Rightarrow> None
      | Some r \<Rightarrow> finish_checks (TMsg ''account.interface'' ''NoticeListRequest'') (run_checks [] []))"

definition NoticeListRequest_Validate :: "NoticeListRequest option \<Rightarrow> verror option" where
  "NoticeListRequest_Validate m = NoticeListRequest_validate False m"

definition NoticeListRequest_ValidateAll :: "NoticeListRequest option \<Rightarrow> verror option" where
  "NoticeListRequest_ValidateAll m = NoticeListRequest_validate True m"

definition NoticeListRequestMultiError_Error :: "verror list \<Rightarrow> string" where
  "NoticeListRequestMultiError_Error m = (let msgs = foldl (\<lambda>msgs err. msgs @ [Error err]) [] m in strings_Join msgs ''; '')"

definition NoticeListRequestValidationError_Error :: "string \<Rightarrow> string \<Rightarrow> verror option \<Rightarrow> bool \<Rightarrow> string" where
  "NoticeListRequestValidationError_Error field reason cause key =
     (let cause = (case cause of None \<Rightarrow> [] | Some e \<Rightarrow> '' | caused by: '' @ Error e);
          key = (if key then ''key for '' else []) in
      ''invalid '' @ key @ ''NoticeListRequest.'' @ field @ '': '' @ reason @ cause)"

subsection \<open>Notice\<close>

record Notice =
  Notice_Title :: string
  Notice_Content :: string

definition Notice_validate :: "bool \<Rightarrow> Notice option \<Rightarrow> verror option" where
  "Notice_validate all m =
     (case m of
        None \<Rightarrow> None
      | Some r \<Rightarrow> finish_checks (TMsg ''account.interface'' ''Notice'') (run_checks [] []))"

definition Notice_Validate :: "Notice option \<Rightarrow> verror option" where
  "Notice_Validate m = Notice_validate False m"

definition Notice_ValidateAll :: "Notice option \<Rightarrow> verror option" where
  "Notice_ValidateAll m = Notice_validate True m"

definition NoticeMultiError_Error :: "verror list \<Rightarrow> string" where
  "NoticeMultiError_Error m = (let msgs = foldl (\<lambda>msgs err. msgs @ [Error err]) [] m in strings_Join msgs ''; '')"

definition NoticeValidationError_Error :: "string \<Rightarrow> string \<Rightarrow> verror option \<Rightarrow> bool \<Rightarrow> string" where
  "NoticeValidationError_Error field reason cause key =
     (let cause = (case cause of None \<Rightarrow> [] | Some e \<Rightarrow> '' | caused by: '' @ Error e);
          key = (if key then ''key for '' else []) in
      ''invalid '' @ key @ ''Notice.'' @ field @ '': '' @ reason @ cause)"

subsection \<open>NoticeListResponse\<close>

record NoticeListResponse =
  NoticeListResponse_Code :: int32
  NoticeListResponse_List :: "Notice option list"

definition NoticeListResponse_validate :: "bool \<Rightarrow> NoticeListResponse option \<Rightarrow> verror option" where
  "NoticeListResponse_validate all m =
     (case m of
        None \<Rightarrow> None
      | Some r \<Rightarrow>
          finish_checks (TMsg ''account.interface'' ''NoticeListResponse'') (run_checks
          [check_items all (TMsg ''account.interface'' ''NoticeListResponse'') ''List'' Notice_Validate Notice_ValidateAll 0 (NoticeListResponse_List r)] []))"

definition NoticeListResponse_Validate :: "NoticeListResponse option \<Rightarrow> verror option" where
  "NoticeListResponse_Validate m = NoticeListResponse_validate False m"

definition NoticeListResponse_ValidateAll :: "NoticeListResponse option \<Rightarrow> verror option" where
  "NoticeListResponse_ValidateAll m = NoticeListResponse_validate True m"

definition NoticeListResponseMultiError_Error :: "verror list \<Rightarrow> string" where
  "NoticeListResponseMultiError_Error m = (let msgs = foldl (\<lambda>msgs err. msgs @ [Error err]) [] m in strings_Join msgs ''; '')"

definition NoticeListResponseValidationError_Error :: "string \<Rightarrow> string \<Rightarrow> verror option \<Rightarrow> bool \<Rightarrow> string" where
  "NoticeListResponseValidationError_Error field reason cause key =
     (let cause = (case cause of None \<Rightarrow> [] | Some e \<Rightarrow> '' | caused by: '' @ Error e);
          key = (if key then ''key for '' else []) in
      ''invalid '' @ key @ ''NoticeListResponse.'' @ field @ '': '' @ reason @ cause)"

section \<open>Accounts\<close>

subsection \<open>DevPingRequest\<close>

record DevPingRequest =
  DevPingRequest_Message :: string

definition DevPingRequest_validate :: "bool \<Rightarrow> DevPingRequest option \<Rightarrow> verror option" where
  "DevPingRequest_validate all m =
     (case m of
        None \<Rightarrow> None
      | Some r \<Rightarrow> finish_checks (TMsg ''account.interface'' ''DevPingRequest'') (run_checks [] []))"

definition DevPingRequest_Validate :: "DevPingRequest option \<Rightarrow> verror option" where
  "DevPingRequest_Validate m = DevPingRequest_validate False m"

definition DevPingRequest_ValidateAll :: "DevPingRequest option \<Rightarrow> verror option" where
  "DevPingRequest_ValidateAll m = DevPingRequest_validate True m"

definition DevPingRequestMultiError_Error :: "verror list \<Rightarrow> string" where
  "DevPingRequestMultiError_Error m = (let msgs = foldl (\<lambda>msgs err. msgs @ [Error err]) [] m in strings_Join msgs ''; '')"

definition DevPingRequestValidationError_Error :: "string \<Rightarrow> string \<Rightarrow> verror option \<Rightarrow> bool \<Rightarrow> string" where
  "DevPingRequestValidationError_Error field reason cause key =
     (let cause = (case cause of None \<Rightarrow> [] | Some e \<Rightarrow> '' | caused by: '' @ Error e);
          key = (if key then ''key for '' else []) in
      ''invalid '' @ key @ ''DevPingRequest.'' @ field @ '': '' @ reason @ cause)"

subsection \<open>DevPingResponse\<close>

record DevPingResponse =
  DevPingResponse_Message :: string
  DevPingResponse_Time :: string

definition DevPingResponse_validate :: "bool \<Rightarrow> DevPingResponse option \<Rightarrow> verror option" where
  "DevPingResponse_validate all m =
     (case m of
        None \<Rightarrow> None
      | Some r \<Rightarrow> finish_checks (TMsg ''account.interface'' ''DevPingResponse'') (run_checks [] []))"

definition DevPingResponse_Validate :: "DevPingResponse option \<Rightarrow> verror option" where
  "DevPingResponse_Validate m = DevPingResponse_validate False m"

definition DevPingResponse_ValidateAll :: "DevPingResponse option \<Rightarrow> verror option" where
  "DevPingResponse_ValidateAll m = DevPingResponse_validate True m"

definition DevPingResponseMultiError_Error :: "verror list \<Rightarrow> string" where
  "DevPingResponseMultiError_Error m = (let msgs = foldl (\<lambda>msgs err. msgs @ [Error err]) [] m in strings_Join msgs ''; '')"

definition DevPingResponseValidationError_Error :: "string \<Rightarrow> string \<Rightarrow> verror option \<Rightarrow> bool \<Rightarrow> string" where
  "DevPingResponseValidationError_Error field reason cause key =
     (let cause = (case cause of None \<Rightarrow> [] | Some e \<Rightarrow> '' | caused by: '' @ Error e);
          key = (if key then ''key for '' else []) in
      ''invalid '' @ key @ ''DevPingResponse.'' @ field @ '': '' @ reason @ cause)"

subsection \<open>RegisterRequest\<close>

record RegisterRequest =
  RegisterRequest_Name :: string
  RegisterRequest_Password :: string
  RegisterRequest_Color :: string

definition RegisterRequest_validate :: "bool \<Rightarrow> RegisterRequest option \<Rightarrow> verror option" where
  "RegisterRequest_validate all m =
     (case m of
        None \<Rightarrow> None
      | Some r \<Rightarrow> finish_checks (TMsg ''account.interface'' ''RegisterRequest'') (run_checks [] []))"

definition RegisterRequest_Validate :: "RegisterRequest option \<Rightarrow> verror option" where
  "RegisterRequest_Validate m = RegisterRequest_validate False m"

definition RegisterRequest_ValidateAll :: "RegisterRequest option \<Rightarrow> verror option" where
  "RegisterRequest_ValidateAll m = RegisterRequest_validate True m"

definition RegisterRequestMultiError_Error :: "verror list \<Rightarrow> string" where
  "RegisterRequestMultiError_Error m = (let msgs = foldl (\<lambda>msgs err. msgs @ [Error err]) [] m in strings_Join msgs ''; '')"

definition RegisterRequestValidationError_Error :: "string \<Rightarrow> string \<Rightarrow> verror option \<Rightarrow> bool \<Rightarrow> string" where
  "RegisterRequestValidationError_Error field reason cause key =
     (let cause = (case cause of None \<Rightarrow> [] | Some e \<Rightarrow> '' | caused by: '' @ Error e);
          key = (if key then ''key for '' else []) in
      ''invalid '' @ key @ ''RegisterRequest.'' @ field @ '': '' @ reason @ cause)"

subsection \<open>RegisterResponse\<close>

record RegisterResponse =
  RegisterResponse_Code :: int32
  RegisterResponse_AccountId :: string
  RegisterResponse_Session :: string
  RegisterResponse_SessionTimeout :: int64
  RegisterResponse_Token :: string
  RegisterResponse_TokenTimeout :: int64

definition RegisterResponse_validate :: "bool \<Rightarrow> RegisterResponse option \<Rightarrow> verror option" where
  "RegisterResponse_validate all m =
     (case m of
        None \<Rightarrow> None
      | Some r \<Rightarrow> finish_checks (TMsg ''account.interface'' ''RegisterResponse'') (run_checks [] []))"

definition RegisterResponse_Validate :: "RegisterResponse option \<Rightarrow> verror option" where
  "RegisterResponse_Validate m = RegisterResponse_validate False m"

definition RegisterResponse_ValidateAll :: "RegisterResponse option \<Rightarrow> verror option" where
  "RegisterResponse_ValidateAll m = RegisterResponse_validate True m"

definition RegisterResponseMultiError_Error :: "verror list \<Rightarrow> string" where
  "RegisterResponseMultiError_Error m = (let msgs = foldl (\<lambda>msgs err. msgs @ [Error err]) [] m in strings_Join msgs ''; '')"

definition RegisterResponseValidationError_Error :: "string \<Rightarrow> string \<Rightarrow> verror option \<Rightarrow> bool \<Rightarrow> string" where
  "RegisterResponseValidationError_Error field reason cause key =
     (let cause = (case cause of None \<Rightarrow> [] | Some e \<Rightarrow> '' | caused by: '' @ Error e);
          key = (if key then ''key for '' else []) in
      ''invalid '' @ key @ ''RegisterResponse.'' @ field @ '': '' @ reason @ cause)"

subsection \<open>LoginRequest\<close>

record LoginRequest =
  LoginRequest_Name :: string
  LoginRequest_Password :: string
  LoginRequest_Color :: string

definition LoginRequest_validate :: "bool \<Rightarrow> LoginRequest option \<Rightarrow> verror option" where
  "LoginRequest_validate all m =
     (case m of
        None \<Rightarrow> None
      | Some r \<Rightarrow> finish_checks (TMsg ''account.interface'' ''LoginRequest'') (run_checks [] []))"

definition LoginRequest_Validate :: "LoginRequest option \<Rightarrow> verror option" where
  "LoginRequest_Validate m = LoginRequest_validate False m"

definition LoginRequest_ValidateAll :: "LoginRequest option \<Rightarrow> verror option" where
  "LoginRequest_ValidateAll m = LoginRequest_validate True m"

definition LoginRequestMultiError_Error :: "verror list \<Rightarrow> string" where
  "LoginRequestMultiError_Error m = (let msgs = foldl (\<lambda>msgs err. msgs @ [Error err]) [] m in strings_Join msgs ''; '')"

definition LoginRequestValidationError_Error :: "string \<Rightarrow> string \<Rightarrow> verror option \<Rightarrow> bool \<Rightarrow> string" where
  "LoginRequestValidationError_Error field reason cause key =
     (let cause = (case cause of None \<Rightarrow> [] | Some e \<Rightarrow> '' | caused by: '' @ Error e);
          key = (if key then ''key for '' else []) in
      ''invalid '' @ key @ ''LoginRequest.'' @ field @ '': '' @ reason @ cause)"

subsection \<open>LoginResponse\<close>

record LoginResponse =
  LoginResponse_Code :: int32
  LoginResponse_AccountId :: string
  LoginResponse_Session :: string
  LoginResponse_SessionTimeout :: int64
  LoginResponse_Token :: string
  LoginResponse_TokenTimeout :: int64

definition LoginResponse_validate :: "bool \<Rightarrow> LoginResponse option \<Rightarrow> verror option" where
  "LoginResponse_validate all m =
     (case m of
        None \<Rightarrow> None
      | Some r \<Rightarrow> finish_checks (TMsg ''account.interface'' ''LoginResponse'') (run_checks [] []))"

definition LoginResponse_Validate :: "LoginResponse option \<Rightarrow> verror option" where
  "LoginResponse_Validate m = LoginResponse_validate False m"

definition LoginResponse_ValidateAll :: "LoginResponse option \<Rightarrow> verror option" where
  "LoginResponse_ValidateAll m = LoginResponse_validate True m"

definition LoginResponseMultiError_Error :: "verror list \<Rightarrow> string" where
  "LoginResponseMultiError_Error m = (let msgs = foldl (\<lambda>msgs err. msgs @ [Error err]) [] m in strings_Join msgs ''; '')"

definition LoginResponseValidationError_Error :: "string \<Rightarrow> string \<Rightarrow> verror option \<Rightarrow> bool \<Rightarrow> string" where
  "LoginResponseValidationError_Error field reason cause key =
     (let cause = (case cause of None \<Rightarrow> [] | Some e \<Rightarrow> '' | caused by: '' @ Error e);
          key = (if key then ''key for '' else []) in
      ''invalid '' @ key @ ''LoginResponse.'' @ field @ '': '' @ reason @ cause)"

subsection \<open>RefreshRequest\<close>

record RefreshRequest =
  RefreshRequest_AccountId :: string
  RefreshRequest_Session :: string

definition RefreshRequest_validate :: "bool \<Rightarrow> RefreshRequest option \<Rightarrow> verror option" where
  "RefreshRequest_validate all m =
     (case m of
        None \<Rightarrow> None
      | Some r \<Rightarrow> finish_checks (TMsg ''account.interface'' ''RefreshRequest'') (run_checks [] []))"

definition RefreshRequest_Validate :: "RefreshRequest option \<Rightarrow> verror option" where
  "RefreshRequest_Validate m = RefreshRequest_validate False m"

definition RefreshRequest_ValidateAll :: "RefreshRequest option \<Rightarrow> verror option" where
  "RefreshRequest_ValidateAll m = RefreshRequest_validate True m"

definition RefreshRequestMultiError_Error :: "verror list \<Rightarrow> string" where
  "RefreshRequestMultiError_Error m = (let msgs = foldl (\<lambda>msgs err. msgs @ [Error err]) [] m in strings_Join msgs ''; '')"

definition RefreshRequestValidationError_Error :: "string \<Rightarrow> string \<Rightarrow> verror option \<Rightarrow> bool \<Rightarrow> string" where
  "RefreshRequestValidationError_Error field reason cause key =
     (let cause = (case cause of None \<Rightarrow> [] | Some e \<Rightarrow> '' | caused by: '' @ Error e);
          key = (if key then ''key for '' else []) in
      ''invalid '' @ key @ ''RefreshRequest.'' @ field @ '': '' @ reason @ cause)"

subsection \<open>RefreshResponse\<close>

record RefreshResponse =
  RefreshResponse_Code :: int32
  RefreshResponse_Session :: string
  RefreshResponse_SessionTimeout :: int64

definition RefreshResponse_validate :: "bool \<Rightarrow> RefreshResponse option \<Rightarrow> verror option" where
  "RefreshResponse_validate all m =
     (case m of
        None \<Rightarrow> None
      | Some r \<Rightarrow> finish_checks (TMsg ''account.interface'' ''RefreshResponse'') (run_checks [] []))"

definition RefreshResponse_Validate :: "RefreshResponse option \<Rightarrow> verror option" where
  "RefreshResponse_Validate m = RefreshResponse_validate False m"

definition RefreshResponse_ValidateAll :: "RefreshResponse option \<Rightarrow> verror option" where
  "RefreshResponse_ValidateAll m = RefreshResponse_validate True m"

definition RefreshResponseMultiError_Error :: "verror list \<Rightarrow> string" where
  "RefreshResponseMultiError_Error m = (let msgs = foldl (\<lambda>msgs err. msgs @ [Error err]) [] m in strings_Join msgs ''; '')"

definition RefreshResponseValidationError_Error :: "string \<Rightarrow> string \<Rightarrow> verror option \<Rightarrow> bool \<Rightarrow> string" where
  "RefreshResponseValidationError_Error field reason cause key =
     (let cause = (case cause of None \<Rightarrow> [] | Some e \<Rightarrow> '' | caused by: '' @ Error e);
          key = (if key then ''key for '' else []) in
      ''invalid '' @ key @ ''RefreshResponse.'' @ field @ '': '' @ reason @ cause)"

subsection \<open>TokenRequest\<close>

record TokenRequest =
  TokenRequest_AccountId :: string
  TokenRequest_Session :: string
  TokenRequest_Color :: string

definition TokenRequest_validate :: "bool \<Rightarrow> TokenRequest option \<Rightarrow> verror option" where
  "TokenRequest_validate all m =
     (case m of
        None \<Rightarrow> None
      | Some r \<Rightarrow> finish_checks (TMsg ''account.interface'' ''TokenRequest'') (run_checks [] []))"

definition TokenRequest_Validate :: "TokenRequest option \<Rightarrow> verror option" where
  "TokenRequest_Validate m = TokenRequest_validate False m"

definition TokenRequest_ValidateAll :: "TokenRequest option \<Rightarrow> verror option" where
  "TokenRequest_ValidateAll m = TokenRequest_validate True m"

definition TokenRequestMultiError_Error :: "verror list \<Rightarrow> string" where
  "TokenRequestMultiError_Error m = (let msgs = foldl (\<lambda>msgs err. msgs @ [Error err]) [] m in strings_Join msgs ''; '')"

definition TokenRequestValidationError_Error :: "string \<Rightarrow> string \<Rightarrow> verror option \<Rightarrow> bool \<Rightarrow> string" where
  "TokenRequestValidationError_Error field reason cause key =
     (let cause = (case cause of None \<Rightarrow> [] | Some e \<Rightarrow> '' | caused by: '' @ Error e);
          key = (if key then ''key for '' else []) in
      ''invalid '' @ key @ ''TokenRequest.'' @ field @ '': '' @ reason @ cause)"

subsection \<open>TokenResponse\<close>

record TokenResponse =
  TokenResponse_Code :: int32
  TokenResponse_Token :: string
  TokenResponse_TokenTimeout :: int64
  TokenResponse_Session :: string
  TokenResponse_SessionTimeout :: int64

definition TokenResponse_validate :: "bool \<Rightarrow> TokenResponse option \<Rightarrow> verror option" where
  "TokenResponse_validate all m =
     (case m of
        None \<Rightarrow> None
      | Some r \<Rightarrow> finish_checks (TMsg ''account.interface'' ''TokenResponse'') (run_checks [] []))"

definition TokenResponse_Validate :: "TokenResponse option \<Rightarrow> verror option" where
  "TokenResponse_Validate m = TokenResponse_validate False m"

definition TokenResponse_ValidateAll :: "TokenResponse option \<Rightarrow> verror option" where
  "TokenResponse_ValidateAll m = TokenResponse_validate True m"

definition TokenResponseMultiError_Error :: "verror list \<Rightarrow> string" where
  "TokenResponseMultiError_Error m = (let msgs = foldl (\<lambda>msgs err. msgs @ [Error err]) [] m in strings_Join msgs ''; '')"

definition TokenResponseValidationError_Error :: "string \<Rightarrow> string \<Rightarrow> verror option \<Rightarrow> bool \<Rightarrow> string" where
  "TokenResponseValidationError_Error field reason cause key =
     (let cause = (case cause of None \<Rightarrow> [] | Some e \<Rightarrow> '' | caused by: '' @ Error e);
          key = (if key then ''key for '' else []) in
      ''invalid '' @ key @ ''TokenResponse.'' @ field @ '': '' @ reason @ cause)"

subsection \<open>account Session\<close>

record account_Session =
  account_Session_AccountId :: int64
  account_Session_Timeout :: int64
  account_Session_Key :: string

definition account_Session_validate :: "bool \<Rightarrow> account_Session option \<Rightarrow> verror option" where
  "account_Session_validate all m =
     (case m of
        None \<Rightarrow> None
      | Some r \<Rightarrow> finish_checks (TMsg ''account.interface'' ''Session'') (run_checks [] []))"

definition account_Session_Validate :: "account_Session option \<Rightarrow> verror option" where
  "account_Session_Validate m = account_Session_validate False m"

definition account_Session_ValidateAll :: "account_Session option \<Rightarrow> verror option" where
  "account_Session_ValidateAll m = account_Session_validate True m"

definition account_SessionMultiError_Error :: "verror list \<Rightarrow> string" where
  "account_SessionMultiError_Error m = (let msgs = foldl (\<lambda>msgs err. msgs @ [Error err]) [] m in strings_Join msgs ''; '')"

definition account_SessionValidationError_Error :: "string \<Rightarrow> string \<Rightarrow> verror option \<Rightarrow> bool \<Rightarrow> string" where
  "account_SessionValidationError_Error field reason cause key =
     (let cause = (case cause of None \<Rightarrow> [] | Some e \<Rightarrow> '' | caused by: '' @ Error e);
          key = (if key then ''key for '' else []) in
      ''invalid '' @ key @ ''Session.'' @ field @ '': '' @ reason @ cause)"

subsection \<open>AppleLoginRequest\<close>

record AppleLoginRequest =
  AppleLoginRequest_Token :: string
  AppleLoginRequest_AppleId :: string
  AppleLoginRequest_Code :: string
  AppleLoginRequest_Color :: string

definition AppleLoginRequest_validate :: "bool \<Rightarrow> AppleLoginRequest option \<Rightarrow> verror option" where
  "AppleLoginRequest_validate all m =
     (case m of
        None \<Rightarrow> None
      | Some r \<Rightarrow> finish_checks (TMsg ''account.interface'' ''AppleLoginRequest'') (run_checks [] []))"

definition AppleLoginRequest_Validate :: "AppleLoginRequest option \<Rightarrow> verror option" where
  "AppleLoginRequest_Validate m = AppleLoginRequest_validate False m"

definition AppleLoginRequest_ValidateAll :: "AppleLoginRequest option \<Rightarrow> verror option" where
  "AppleLoginRequest_ValidateAll m = AppleLoginRequest_validate True m"

definition AppleLoginRequestMultiError_Error :: "verror list \<Rightarrow> string" where
  "AppleLoginRequestMultiError_Error m = (let msgs = foldl (\<lambda>msgs err. msgs @ [Error err]) [] m in strings_Join msgs ''; '')"

definition AppleLoginRequestValidationError_Error :: "string \<Rightarrow> string \<Rightarrow> verror option \<Rightarrow> bool \<Rightarrow> string" where
  "AppleLoginRequestValidationError_Error field reason cause key =
     (let cause = (case cause of None \<Rightarrow> [] | Some e \<Rightarrow> '' | caused by: '' @ Error e);
          key = (if key then ''key for '' else []) in
      ''invalid '' @ key @ ''AppleLoginRequest.'' @ field @ '': '' @ reason @ cause)"

subsection \<open>LoginInfo\<close>

record LoginInfo =
  LoginInfo_AccountId :: string
  LoginInfo_Register :: bool
  LoginInfo_Token :: string
  LoginInfo_TokenTimeout :: int64
  LoginInfo_Session :: string
  LoginInfo_SessionTimeout :: int64
  LoginInfo_State :: string

definition LoginInfo_validate :: "bool \<Rightarrow> LoginInfo option \<Rightarrow> verror option" where
  "LoginInfo_validate all m =
     (case m of
        None \<Rightarrow> None
      | Some r \<Rightarrow> finish_checks (TMsg ''account.interface'' ''LoginInfo'') (run_checks [] []))"

definition LoginInfo_Validate :: "LoginInfo option \<Rightarrow> verror option" where
  "LoginInfo_Validate m = LoginInfo_validate False m"

definition LoginInfo_ValidateAll :: "LoginInfo option \<Rightarrow> verror option" where
  "LoginInfo_ValidateAll m = LoginInfo_validate True m"

definition LoginInfoMultiError_Error :: "verror list \<Rightarrow> string" where
  "LoginInfoMultiError_Error m = (let msgs = foldl (\<lambda>msgs err. msgs @ [Error err]) [] m in strings_Join msgs ''; '')"

definition LoginInfoValidationError_Error :: "string \<Rightarrow> string \<Rightarrow> verror option \<Rightarrow> bool \<Rightarrow> string" where
  "LoginInfoValidationError_Error field reason cause key =
     (let cause = (case cause of None \<Rightarrow> [] | Some e \<Rightarrow> '' | caused by: '' @ Error e);
          key = (if key then ''key for '' else []) in
      ''invalid '' @ key @ ''LoginInfo.'' @ field @ '': '' @ reason @ cause)"

subsection \<open>AppleLoginResponse\<close>

record AppleLoginResponse =
  AppleLoginResponse_Code :: int32
  AppleLoginResponse_Info :: "LoginInfo option"

definition AppleLoginResponse_validate :: "bool \<Rightarrow> AppleLoginResponse option \<Rightarrow> verror option" where
  "AppleLoginResponse_validate all m =
     (case m of
        None \<Rightarrow> None
      | Some r \<Rightarrow>
          finish_checks (TMsg ''account.interface'' ''AppleLoginResponse'') (run_checks
          [check_embedded all (TMsg ''account.interface'' ''AppleLoginResponse'') ''Info'' LoginInfo_Validate LoginInfo_ValidateAll (AppleLoginResponse_Info r)] []))"

definition AppleLoginResponse_Validate :: "AppleLoginResponse option \<Rightarrow> verror option" where
  "AppleLoginResponse_Validate m = AppleLoginResponse_validate False m"

definition AppleLoginResponse_ValidateAll :: "AppleLoginResponse option \<Rightarrow> verror option" where
  "AppleLoginResponse_ValidateAll m = AppleLoginResponse_validate True m"

definition AppleLoginResponseMultiError_Error :: "verror list \<Rightarrow> string" where
  "AppleLoginResponseMultiError_Error m = (let msgs = foldl (\<lambda>msgs err. msgs @ [Error err]) [] m in strings_Join msgs ''; '')"

definition AppleLoginResponseValidationError_Error :: "string \<Rightarrow> string \<Rightarrow> verror option \<Rightarrow> bool \<Rightarrow> string" where
  "AppleLoginResponseValidationError_Error field reason cause key =
     (let cause = (case cause of None \<Rightarrow> [] | Some e \<Rightarrow> '' | caused by: '' @ Error e);
          key = (if key then ''key for '' else []) in
      ''invalid '' @ key @ ''AppleLoginResponse.'' @ field @ '': '' @ reason @ cause)"

subsection \<open>AppleLoginCallbackRequest\<close>

record AppleLoginCallbackRequest =
  AppleLoginCallbackRequest_Code :: string
  AppleLoginCallbackRequest_IdToken :: string
  AppleLoginCallbackRequest_State :: string
  AppleLoginCallbackRequest_User :: string
  AppleLoginCallbackRequest_Error :: string

definition AppleLoginCallbackRequest_validate :: "bool \<Rightarrow> AppleLoginCallbackRequest option \<Rightarrow> verror option" where
  "AppleLoginCallbackRequest_validate all m =
     (case m of
        None \<Rightarrow> None
      | Some r \<Rightarrow> finish_checks (TMsg ''account.interface'' ''AppleLoginCallbackRequest'') (run_checks [] []))"

definition AppleLoginCallbackRequest_Validate :: "AppleLoginCallbackRequest option \<Rightarrow> verror option" where
  "AppleLoginCallbackRequest_Validate m = AppleLoginCallbackRequest_validate False m"

definition AppleLoginCallbackRequest_ValidateAll :: "AppleLoginCallbackRequest option \<Rightarrow> verror option" where
  "AppleLoginCallbackRequest_ValidateAll m = AppleLoginCallbackRequest_validate True m"

definition AppleLoginCallbackRequestMultiError_Error :: "verror list \<Rightarrow> string" where
  "AppleLoginCallbackRequestMultiError_Error m = (let msgs = foldl (\<lambda>msgs err. msgs @ [Error err]) [] m in strings_Join msgs ''; '')"

definition AppleLoginCallbackRequestValidationError_Error :: "string \<Rightarrow> string \<Rightarrow> verror option \<Rightarrow> bool \<Rightarrow> string" where
  "AppleLoginCallbackRequestValidationError_Error field reason cause key =
     (let cause = (case cause of None \<Rightarrow> [] | Some e \<Rightarrow> '' | caused by: '' @ Error e);
          key = (if key then ''key for '' else []) in
      ''invalid '' @ key @ ''AppleLoginCallbackRequest.'' @ field @ '': '' @ reason @ cause)"

subsection \<open>AppleLoginCallbackResponse\<close>

record AppleLoginCallbackResponse =
  AppleLoginCallbackResponse_Code :: int32

definition AppleLoginCallbackResponse_validate :: "bool \<Rightarrow> AppleLoginCallbackResponse option \<Rightarrow> verror option" where
  "AppleLoginCallbackResponse_validate all m =
     (case m of
        None \<Rightarrow> None
      | Some r \<Rightarrow> finish_checks (TMsg ''account.interface'' ''AppleLoginCallbackResponse'') (run_checks [] []))"

definition AppleLoginCallbackResponse_Validate :: "AppleLoginCallbackResponse option \<Rightarrow> verror option" where
  "AppleLoginCallbackResponse_Validate m = AppleLoginCallbackResponse_validate False m"

definition AppleLoginCallbackResponse_ValidateAll :: "AppleLoginCallbackResponse option \<Rightarrow> verror option" where
  "AppleLoginCallbackResponse_ValidateAll m = AppleLoginCallbackResponse_validate True m"

definition AppleLoginCallbackResponseMultiError_Error :: "verror list \<Rightarrow> string" where
  "AppleLoginCallbackResponseMultiError_Error m = (let msgs = foldl (\<lambda>msgs err. msgs @ [Error err]) [] m in strings_Join msgs ''; '')"

definition AppleLoginCallbackResponseValidationError_Error :: "string \<Rightarrow> string \<Rightarrow> verror option \<Rightarrow> bool \<Rightarrow> string" where
  "AppleLoginCallbackResponseValidationError_Error field reason cause key =
     (let cause = (case cause of None \<Rightarrow> [] | Some e \<Rightarrow> '' | caused by: '' @ Error e);
          key = (if key then ''key for '' else []) in
      ''invalid '' @ key @ ''AppleLoginCallbackResponse.'' @ field @ '': '' @ reason @ cause)"

subsection \<open>GoogleLoginRequest\<close>

record GoogleLoginRequest =
  GoogleLoginRequest_Token :: string
  GoogleLoginRequest_Color :: string

definition GoogleLoginRequest_validate :: "bool \<Rightarrow> GoogleLoginRequest option \<Rightarrow> verror option" where
  "GoogleLoginRequest_validate all m =
     (case m of
        None \<Rightarrow> None
      | Some r \<Rightarrow> finish_checks (TMsg ''account.interface'' ''GoogleLoginRequest'') (run_checks [] []))"

definition GoogleLoginRequest_Validate :: "GoogleLoginRequest option \<Rightarrow> verror option" where
  "GoogleLoginRequest_Validate m = GoogleLoginRequest_validate False m"

definition GoogleLoginRequest_ValidateAll :: "GoogleLoginRequest option \<Rightarrow> verror option" where
  "GoogleLoginRequest_ValidateAll m = GoogleLoginRequest_validate True m"

definition GoogleLoginRequestMultiError_Error :: "verror list \<Rightarrow> string" where
  "GoogleLoginRequestMultiError_Error m = (let msgs = foldl (\<lambda>msgs err. msgs @ [Error err]) [] m in strings_Join msgs ''; '')"

definition GoogleLoginRequestValidationError_Error :: "string \<Rightarrow> string \<Rightarrow> verror option \<Rightarrow> bool \<Rightarrow> string" where
  "GoogleLoginRequestValidationError_Error field reason cause key =
     (let cause = (case cause of None \<Rightarrow> [] | Some e \<Rightarrow> '' | caused by: '' @ Error e);
          key = (if key then ''key for '' else []) in
      ''invalid '' @ key @ ''GoogleLoginRequest.'' @ field @ '': '' @ reason @ cause)"

subsection \<open>GoogleLoginResponse\<close>

record GoogleLoginResponse =
  GoogleLoginResponse_Code :: int32
  GoogleLoginResponse_Info :: "LoginInfo option"

definition GoogleLoginResponse_validate :: "bool \<Rightarrow> GoogleLoginResponse option \<Rightarrow> verror option" where
  "GoogleLoginResponse_validate all m =
     (case m of
        None \<Rightarrow> None
      | Some r \<Rightarrow>
          finish_checks (TMsg ''account.interface'' ''GoogleLoginResponse'') (run_checks
          [check_embedded all (TMsg ''account.interface'' ''GoogleLoginResponse'') ''Info'' LoginInfo_Validate LoginInfo_ValidateAll (GoogleLoginResponse_Info r)] []))"

definition GoogleLoginResponse_Validate :: "GoogleLoginResponse option \<Rightarrow> verror option" where
  "GoogleLoginResponse_Validate m = GoogleLoginResponse_validate False m"

definition GoogleLoginResponse_ValidateAll :: "GoogleLoginResponse option \<Rightarrow> verror option" where
  "GoogleLoginResponse_ValidateAll m = GoogleLoginResponse_validate True m"

definition GoogleLoginResponseMultiError_Error :: "verror list \<Rightarrow> string" where
  "GoogleLoginResponseMultiError_Error m = (let msgs = foldl (\<lambda>msgs err. msgs @ [Error err]) [] m in strings_Join msgs ''; '')"

definition GoogleLoginResponseValidationError_Error :: "string \<Rightarrow> string \<Rightarrow> verror option \<Rightarrow> bool \<Rightarrow> string" where
  "GoogleLoginResponseValidationError_Error field reason cause key =
     (let cause = (case cause of None \<Rightarrow> [] | Some e \<Rightarrow> '' | caused by: '' @ Error e);
          key = (if key then ''key for '' else []) in
      ''invalid '' @ key @ ''GoogleLoginResponse.'' @ field @ '': '' @ reason @ cause)"

subsection \<open>FacebookLoginRequest\<close>

record FacebookLoginRequest =
  FacebookLoginRequest_Token :: string
  FacebookLoginRequest_Color :: string

definition FacebookLoginRequest_validate :: "bool \<Rightarrow> FacebookLoginRequest option \<Rightarrow> verror option" where
  "FacebookLoginRequest_validate all m =
     (case m of
        None \<Rightarrow> None
      | Some r \<Rightarrow> finish_checks (TMsg ''account.interface'' ''FacebookLoginRequest'') (run_checks [] []))"

definition FacebookLoginRequest_Validate :: "FacebookLoginRequest option \<Rightarrow> verror option" where
  "FacebookLoginRequest_Validate m = FacebookLoginRequest_validate False m"

definition FacebookLoginRequest_ValidateAll :: "FacebookLoginRequest option \<Rightarrow> verror option" where
  "FacebookLoginRequest_ValidateAll m = FacebookLoginRequest_validate True m"

definition FacebookLoginRequestMultiError_Error :: "verror list \<Rightarrow> string" where
  "FacebookLoginRequestMultiError_Error m = (let msgs = foldl (\<lambda>msgs err. msgs @ [Error err]) [] m in strings_Join msgs ''; '')"

definition FacebookLoginRequestValidationError_Error :: "string \<Rightarrow> string \<Rightarrow> verror option \<Rightarrow> bool \<Rightarrow> string" where
  "FacebookLoginRequestValidationError_Error field reason cause key =
     (let cause = (case cause of None \<Rightarrow> [] | Some e \<Rightarrow> '' | caused by: '' @ Error e);
          key = (if key then ''key for '' else []) in
      ''invalid '' @ key @ ''FacebookLoginRequest.'' @ field @ '': '' @ reason @ cause)"

subsection \<open>FacebookLoginResponse\<close>

record FacebookLoginResponse =
  FacebookLoginResponse_Code :: int32
  FacebookLoginResponse_Info :: "LoginInfo option"

definition FacebookLoginResponse_validate :: "bool \<Rightarrow> FacebookLoginResponse option \<Rightarrow> verror option" where
  "FacebookLoginResponse_validate all m =
     (case m of
        None \<Rightarrow> None
      | Some r \<Rightarrow>
          finish_checks (TMsg ''account.interface'' ''FacebookLoginResponse'') (run_checks
          [check_embedded all (TMsg ''account.interface'' ''FacebookLoginResponse'') ''Info'' LoginInfo_Validate LoginInfo_ValidateAll (FacebookLoginResponse_Info r)] []))"

definition FacebookLoginResponse_Validate :: "FacebookLoginResponse option \<Rightarrow> verror option" where
  "FacebookLoginResponse_Validate m = FacebookLoginResponse_validate False m"

definition FacebookLoginResponse_ValidateAll :: "FacebookLoginResponse option \<Rightarrow> verror option" where
  "FacebookLoginResponse_ValidateAll m = FacebookLoginResponse_validate True m"

definition FacebookLoginResponseMultiError_Error :: "verror list \<Rightarrow> string" where
  "FacebookLoginResponseMultiError_Error m = (let msgs = foldl (\<lambda>msgs err. msgs @ [Error err]) [] m in strings_Join msgs ''; '')"

definition FacebookLoginResponseValidationError_Error :: "string \<Rightarrow> string \<Rightarrow> verror option \<Rightarrow> bool \<Rightarrow> string" where
  "FacebookLoginResponseValidationError_Error field reason cause key =
     (let cause = (case cause of None \<Rightarrow> [] | Some e \<Rightarrow> '' | caused by: '' @ Error e);
          key = (if key then ''key for '' else []) in
      ''invalid '' @ key @ ''FacebookLoginResponse.'' @ field @ '': '' @ reason @ cause)"

subsection \<open>AppleId\<close>

record AppleId =
  AppleId_AppleId :: string
  AppleId_State :: string
  AppleId_T :: int64

definition AppleId_validate :: "bool \<Rightarrow> AppleId option \<Rightarrow> verror option" where
  "AppleId_validate all m =
     (case m of
        None \<Rightarrow> None
      | Some r \<Rightarrow> finish_checks (TMsg ''account.interface'' ''AppleId'') (run_checks [] []))"

definition AppleId_Validate :: "AppleId option \<Rightarrow> verror option" where
  "AppleId_Validate m = AppleId_validate False m"

definition AppleId_ValidateAll :: "AppleId option \<Rightarrow> verror option" where
  "AppleId_ValidateAll m = AppleId_validate True m"

definition AppleIdMultiError_Error :: "verror list \<Rightarrow> string" where
  "AppleIdMultiError_Error m = (let msgs = foldl (\<lambda>msgs err. msgs @ [Error err]) [] m in strings_Join msgs ''; '')"

definition AppleIdValidationError_Error :: "string \<Rightarrow> string \<Rightarrow> verror option \<Rightarrow> bool \<Rightarrow> string" where
  "AppleIdValidationError_Error field reason cause key =
     (let cause = (case cause of None \<Rightarrow> [] | Some e \<Rightarrow> '' | caused by: '' @ Error e);
          key = (if key then ''key for '' else []) in
      ''invalid '' @ key @ ''AppleId.'' @ field @ '': '' @ reason @ cause)"

subsection \<open>AppleLoginCallbackRequest User Name\<close>

record AppleLoginCallbackRequest_User_Name =
  AppleLoginCallbackRequest_User_Name_FirstName :: string
  AppleLoginCallbackRequest_User_Name_LastName :: string

definition AppleLoginCallbackRequest_User_Name_validate :: "bool \<Rightarrow> AppleLoginCallbackRequest_User_Name option \<Rightarrow> verror option" where
  "AppleLoginCallbackRequest_User_Name_validate all m =
     (case m of
        None \<Rightarrow> None
      | Some r \<Rightarrow> finish_checks (TMsg ''account.interface'' ''AppleLoginCallbackRequest_User_Name'') (run_checks [] []))"

definition AppleLoginCallbackRequest_User_Name_Validate :: "AppleLoginCallbackRequest_User_Name option \<Rightarrow> verror option" where
  "AppleLoginCallbackRequest_User_Name_Validate m = AppleLoginCallbackRequest_User_Name_validate False m"

definition AppleLoginCallbackRequest_User_Name_ValidateAll :: "AppleLoginCallbackRequest_User_Name option \<Rightarrow> verror option" where
  "AppleLoginCallbackRequest_User_Name_ValidateAll m = AppleLoginCallbackRequest_User_Name_validate True m"

definition AppleLoginCallbackRequest_User_NameMultiError_Error :: "verror list \<Rightarrow> string" where
  "AppleLoginCallbackRequest_User_NameMultiError_Error m = (let msgs = foldl (\<lambda>msgs err. msgs @ [Error err]) [] m in strings_Join msgs ''; '')"

definition AppleLoginCallbackRequest_User_NameValidationError_Error :: "string \<Rightarrow> string \<Rightarrow> verror option \<Rightarrow> bool \<Rightarrow> string" where
  "AppleLoginCallbackRequest_User_NameValidationError_Error field reason cause key =
     (let cause = (case cause of None \<Rightarrow> [] | Some e \<Rightarrow> '' | caused by: '' @ Error e);
          key = (if key then ''key for '' else []) in
      ''invalid '' @ key @ ''AppleLoginCallbackRequest_User_Name.'' @ field @ '': '' @ reason @ cause)"

subsection \<open>AppleLoginCallbackRequest User\<close>

record AppleLoginCallbackRequest_User =
  AppleLoginCallbackRequest_User_Email :: string
  AppleLoginCallbackRequest_User_Name :: "AppleLoginCallbackRequest_User_Name option"

definition AppleLoginCallbackRequest_User_validate :: "bool \<Rightarrow> AppleLoginCallbackRequest_User option \<Rightarrow> verror option" where
  "AppleLoginCallbackRequest_User_validate all m =
     (case m of
        None \<Rightarrow> None
      | Some r \<Rightarrow>
          finish_checks (TMsg ''account.interface'' ''AppleLoginCallbackRequest_User'') (run_checks
          [check_embedded all (TMsg ''account.interface'' ''AppleLoginCallbackRequest_User'') ''Name'' AppleLoginCallbackRequest_User_Name_Validate AppleLoginCallbackRequest_User_Name_ValidateAll (AppleLoginCallbackRequest_User_Name r)] []))"

definition AppleLoginCallbackRequest_User_Validate :: "AppleLoginCallbackRequest_User option \<Rightarrow> verror option" where
  "AppleLoginCallbackRequest_User_Validate m = AppleLoginCallbackRequest_User_validate False m"

definition AppleLoginCallbackRequest_User_ValidateAll :: "AppleLoginCallbackRequest_User option \<Rightarrow> verror option" where
  "AppleLoginCallbackRequest_User_ValidateAll m = AppleLoginCallbackRequest_User_validate True m"

definition AppleLoginCallbackRequest_UserMultiError_Error :: "verror list \<Rightarrow> string" where
  "AppleLoginCallbackRequest_UserMultiError_Error m = (let msgs = foldl (\<lambda>msgs err. msgs @ [Error err]) [] m in strings_Join msgs ''; '')"

definition AppleLoginCallbackRequest_UserValidationError_Error :: "string \<Rightarrow> string \<Rightarrow> verror option \<Rightarrow> bool \<Rightarrow> string" where
  "AppleLoginCallbackRequest_UserValidationError_Error field reason cause key =
     (let cause = (case cause of None \<Rightarrow> [] | Some e \<Rightarrow> '' | caused by: '' @ Error e);
          key = (if key then ''key for '' else []) in
      ''invalid '' @ key @ ''AppleLoginCallbackRequest_User.'' @ field @ '': '' @ reason @ cause)"


section \<open>No message is refused\<close>

text \<open>The messages have no rules of their own, and what they embed has none either.\<close>

lemmas account_methods [simp] =
  account_GetByIdRequest_Validate_def account_GetByIdRequest_ValidateAll_def
  AccountProto_Validate_def AccountProto_ValidateAll_def
  account_GetByIdResponse_Validate_def account_GetByIdResponse_ValidateAll_def
  AccountListCondition_Validate_def AccountListCondition_ValidateAll_def
  AccountListRequest_Validate_def AccountListRequest_ValidateAll_def
  AccountListResponse_Validate_def AccountListResponse_ValidateAll_def
  GetNoticeListRequest_Validate_def GetNoticeListRequest_ValidateAll_def
  NoticeProto_Validate_def NoticeProto_ValidateAll_def
  GetNoticeListResponse_Validate_def GetNoticeListResponse_ValidateAll_def
  GetNoticeByIdRequest_Validate_def GetNoticeByIdRequest_ValidateAll_def
  GetNoticeByIdResponse_Validate_def GetNoticeByIdResponse_ValidateAll_def
  CreateNoticeRequest_Validate_def CreateNoticeRequest_ValidateAll_def
  CreateNoticeResponse_Validate_def CreateNoticeResponse_ValidateAll_def
  UpdateNoticeRequest_Validate_def UpdateNoticeRequest_ValidateAll_def
  UpdateNoticeResponse_Validate_def UpdateNoticeResponse_ValidateAll_def
  DeleteNoticeRequest_Validate_def DeleteNoticeRequest_ValidateAll_def
  DeleteNoticeResponse_Validate_def DeleteNoticeResponse_ValidateAll_def
  NoticeListRequest_Validate_def NoticeListRequest_ValidateAll_def
  Notice_Validate_def Notice_ValidateAll_def
  NoticeListResponse_Validate_def NoticeListResponse_ValidateAll_def
  DevPingRequest_Validate_def DevPingRequest_ValidateAll_def
  DevPingResponse_Validate_def DevPingResponse_ValidateAll_def
  RegisterRequest_Validate_def RegisterRequest_ValidateAll_def
  RegisterResponse_Validate_def RegisterResponse_ValidateAll_def
  LoginRequest_Validate_def LoginRequest_ValidateAll_def
  LoginResponse_Validate_def LoginResponse_ValidateAll_def
  RefreshRequest_Validate_def RefreshRequest_ValidateAll_def
  RefreshResponse_Validate_def RefreshResponse_ValidateAll_def
  TokenRequest_Validate_def TokenRequest_ValidateAll_def
  TokenResponse_Validate_def TokenResponse_ValidateAll_def
  account_Session_Validate_def account_Session_ValidateAll_def
  AppleLoginRequest_Validate_def AppleLoginRequest_ValidateAll_def
  LoginInfo_Validate_def LoginInfo_ValidateAll_def
  AppleLoginResponse_Validate_def AppleLoginResponse_ValidateAll_def
  AppleLoginCallbackRequest_Validate_def AppleLoginCallbackRequest_ValidateAll_def
  AppleLoginCallbackResponse_Validate_def AppleLoginCallbackResponse_ValidateAll_def
  GoogleLoginRequest_Validate_def GoogleLoginRequest_ValidateAll_def
  GoogleLoginResponse_Validate_def GoogleLoginResponse_ValidateAll_def
  FacebookLoginRequest_Validate_def FacebookLoginRequest_ValidateAll_def
  FacebookLoginResponse_Validate_def FacebookLoginResponse_ValidateAll_def
  AppleId_Validate_def AppleId_ValidateAll_def
  AppleLoginCallbackRequest_User_Name_Validate_def AppleLoginCallbackRequest_User_Name_ValidateAll_def
  AppleLoginCallbackRequest_User_Validate_def AppleLoginCallbackRequest_User_ValidateAll_def

lemma account_GetByIdRequest_accepts [simp]: "account_GetByIdRequest_validate all m = None"
  by (cases m) (simp_all add: account_GetByIdRequest_validate_def)

lemma AccountProto_accepts [simp]: "AccountProto_validate all m = None"
  by (cases m) (simp_all add: AccountProto_validate_def)

lemma account_GetByIdResponse_accepts [simp]: "account_GetByIdResponse_validate all m = None"
  by (cases m) (simp_all add: account_GetByIdResponse_validate_def)

lemma AccountListCondition_accepts [simp]: "AccountListCondition_validate all m = None"
  by (cases m) (simp_all add: AccountListCondition_validate_def)

lemma AccountListRequest_accepts [simp]: "AccountListRequest_validate all m = None"
  by (cases m) (simp_all add: AccountListRequest_validate_def)

lemma AccountListResponse_accepts [simp]: "AccountListResponse_validate all m = None"
  by (cases m) (simp_all add: AccountListResponse_validate_def)

lemma GetNoticeListRequest_accepts [simp]: "GetNoticeListRequest_validate all m = None"
  by (cases m) (simp_all add: GetNoticeListRequest_validate_def)

lemma NoticeProto_accepts [simp]: "NoticeProto_validate all m = None"
  by (cases m) (simp_all add: NoticeProto_validate_def)

lemma GetNoticeListResponse_accepts [simp]: "GetNoticeListResponse_validate all m = None"
  by (cases m) (simp_all add: GetNoticeListResponse_validate_def)

lemma GetNoticeByIdRequest_accepts [simp]: "GetNoticeByIdRequest_validate all m = None"
  by (cases m) (simp_all add: GetNoticeByIdRequest_validate_def)

lemma GetNoticeByIdResponse_accepts [simp]: "GetNoticeByIdResponse_validate all m = None"
  by (cases m) (simp_all add: GetNoticeByIdResponse_validate_def)

lemma CreateNoticeRequest_accepts [simp]: "CreateNoticeRequest_validate all m = None"
  by (cases m) (simp_all add: CreateNoticeRequest_validate_def)

lemma CreateNoticeResponse_accepts [simp]: "CreateNoticeResponse_validate all m = None"
  by (cases m) (simp_all add: CreateNoticeResponse_validate_def)

lemma UpdateNoticeRequest_accepts [simp]: "UpdateNoticeRequest_validate all m = None"
  by (cases m) (simp_all add: UpdateNoticeRequest_validate_def)

lemma UpdateNoticeResponse_accepts [simp]: "UpdateNoticeResponse_validate all m = None"
  by (cases m) (simp_all add: UpdateNoticeResponse_validate_def)

lemma DeleteNoticeRequest_accepts [simp]: "DeleteNoticeRequest_validate all m = None"
  by (cases m) (simp_all add: DeleteNoticeRequest_validate_def)

lemma DeleteNoticeResponse_accepts [simp]: "DeleteNoticeResponse_validate all m = None"
  by (cases m) (simp_all add: DeleteNoticeResponse_validate_def)

lemma NoticeListRequest_accepts [simp]: "NoticeListRequest_validate all m = None"
  by (cases m) (simp_all add: NoticeListRequest_validate_def)

lemma Notice_accepts [simp]: "Notice_validate all m = None"
  by (cases m) (simp_all add: Notice_validate_def)

lemma NoticeListResponse_accepts [simp]: "NoticeListResponse_validate all m = None"
  by (cases m) (simp_all add: NoticeListResponse_validate_def)

lemma DevPingRequest_accepts [simp]: "DevPingRequest_validate all m = None"
  by (cases m) (simp_all add: DevPingRequest_validate_def)

lemma DevPingResponse_accepts [simp]: "DevPingResponse_validate all m = None"
  by (cases m) (simp_all add: DevPingResponse_validate_def)

lemma RegisterRequest_accepts [simp]: "RegisterRequest_validate all m = None"
  by (cases m) (simp_all add: RegisterRequest_validate_def)

lemma RegisterResponse_accepts [simp]: "RegisterResponse_validate all m = None"
  by (cases m) (simp_all add: RegisterResponse_validate_def)

lemma LoginRequest_accepts [simp]: "LoginRequest_validate all m = None"
  by (cases m) (simp_all add: LoginRequest_validate_def)

lemma LoginResponse_accepts [simp]: "LoginResponse_validate all m = None"
  by (cases m) (simp_all add: LoginResponse_validate_def)

lemma RefreshRequest_accepts [simp]: "RefreshRequest_validate all m = None"
  by (cases m) (simp_all add: RefreshRequest_validate_def)

lemma RefreshResponse_accepts [simp]: "RefreshResponse_validate all m = None"
  by (cases m) (simp_all add: RefreshResponse_validate_def)

lemma TokenRequest_accepts [simp]: "TokenRequest_validate all m = None"
  by (cases m) (simp_all add: TokenRequest_validate_def)

lemma TokenResponse_accepts [simp]: "TokenResponse_validate all m = None"
  by (cases m) (simp_all add: TokenResponse_validate_def)

lemma account_Session_accepts [simp]: "account_Session_validate all m = None"
  by (cases m) (simp_all add: account_Session_validate_def)

lemma AppleLoginRequest_accepts [simp]: "AppleLoginRequest_validate all m = None"
  by (cases m) (simp_all add: AppleLoginRequest_validate_def)

lemma LoginInfo_accepts [simp]: "LoginInfo_validate all m = None"
  by (cases m) (simp_all add: LoginInfo_validate_def)

lemma AppleLoginResponse_accepts [simp]: "AppleLoginResponse_validate all m = None"
  by (cases m) (simp_all add: AppleLoginResponse_validate_def)

lemma AppleLoginCallbackRequest_accepts [simp]: "AppleLoginCallbackRequest_validate all m = None"
  by (cases m) (simp_all add: AppleLoginCallbackRequest_validate_def)

lemma AppleLoginCallbackResponse_accepts [simp]: "AppleLoginCallbackResponse_validate all m = None"
  by (cases m) (simp_all add: AppleLoginCallbackResponse_validate_def)

lemma GoogleLoginRequest_accepts [simp]: "GoogleLoginRequest_validate all m = None"
  by (cases m) (simp_all add: GoogleLoginRequest_validate_def)

lemma GoogleLoginResponse_accepts [simp]: "GoogleLoginResponse_validate all m = None"
  by (cases m) (simp_all add: GoogleLoginResponse_validate_def)

lemma FacebookLoginRequest_accepts [simp]: "FacebookLoginRequest_validate all m = None"
  by (cases m) (simp_all add: FacebookLoginRequest_validate_def)

lemma FacebookLoginResponse_accepts [simp]: "FacebookLoginResponse_validate all m = None"
  by (cases m) (simp_all add: FacebookLoginResponse_validate_def)

lemma AppleId_accepts [simp]: "AppleId_validate all m = None"
  by (cases m) (simp_all add: AppleId_validate_def)

lemma AppleLoginCallbackRequest_User_Name_accepts [simp]: "AppleLoginCallbackRequest_User_Name_validate all m = None"
  by (cases m) (simp_all add: AppleLoginCallbackRequest_User_Name_validate_def)

lemma AppleLoginCallbackRequest_User_accepts [simp]: "AppleLoginCallbackRequest_User_validate all m = None"
  by (cases m) (simp_all add: AppleLoginCallbackRequest_User_validate_def)

end
