(* ===== verification/Player_Messages.thy ===== *)
theory Player_Messages
  imports Message_Checks
begin

text \<open>
  The messages of the player service (\<^verbatim>\<open>gen/api/server/player/\<close>) and of the administration of rooms
  (\<^verbatim>\<open>gen/api/server/room/admin/\<close>): the fields of each message and its validation methods.

  An empty struct is a type with one value, an enumeration its \<^verbatim>\<open>int32\<close>, a map the list of its entries.
\<close>

section \<open>Game data\<close>

subsection \<open>GetItemListRequest\<close>

datatype GetItemListRequest = GetItemListRequest

definition GetItemListRequest_validate :: "bool \<Rightarrow> GetItemListRequest option \<Rightarrow> verror option" where
  "GetItemListRequest_validate all m =
     (case m of
        None \<Rightarrow> None
      | Some r \<Rightarrow> finish_checks (TMsg ''player.admin.gamedata'' ''GetItemListRequest'') (run_checks [] []))"

definition GetItemListRequest_Validate :: "GetItemListRequest option \<Rightarrow> verror option" where
  "GetItemListRequest_Validate m = GetItemListRequest_validate False m"

definition GetItemListRequest_ValidateAll :: "GetItemListRequest option \<Rightarrow> verror option" where
  "GetItemListRequest_ValidateAll m = GetItemListRequest_validate True m"

definition GetItemListRequestMultiError_Error :: "verror list \<Rightarrow> string" where
  "GetItemListRequestMultiError_Error m = (let msgs = foldl (\<lambda>msgs err. msgs @ [Error err]) [] m in strings_Join msgs ''; '')"

definition GetItemListRequestValidationError_Error :: "string \<Rightarrow> string \<Rightarrow> verror option \<Rightarrow> bool \<Rightarrow> string" where
  "GetItemListRequestValidationError_Error field reason cause key =
     (let cause = (case cause of None \<Rightarrow> [] | Some e \<Rightarrow> '' | caused by: '' @ Error e);
          key = (if key then ''key for '' else []) in
      ''invalid '' @ key @ ''GetItemListRequest.'' @ field @ '': '' @ reason @ cause)"

subsection \<open>ItemDataProto\<close>

record ItemDataProto =
  ItemDataProto_Id :: int64
  ItemDataProto_Name :: string
  ItemDataProto_Type :: int64
  ItemDataProto_TypeValue :: int64

definition ItemDataProto_validate :: "bool \<Rightarrow> ItemDataProto option \<Rightarrow> verror option" where
  "ItemDataProto_validate all m =
     (case m of
        None \<Rightarrow> None
      | Some r \<Rightarrow> finish_checks (TMsg ''player.admin.gamedata'' ''ItemDataProto'') (run_checks [] []))"

definition ItemDataProto_Validate :: "ItemDataProto option \<Rightarrow> verror option" where
  "ItemDataProto_Validate m = ItemDataProto_validate False m"

definition ItemDataProto_ValidateAll :: "ItemDataProto option \<Rightarrow> verror option" where
  "ItemDataProto_ValidateAll m = ItemDataProto_validate True m"

definition ItemDataProtoMultiError_Error :: "verror list \<Rightarrow> string" where
  "ItemDataProtoMultiError_Error m = (let msgs = foldl (\<lambda>msgs err. msgs @ [Error err]) [] m in strings_Join msgs ''; '')"

definition ItemDataProtoValidationError_Error :: "string \<Rightarrow> string \<Rightarrow> verror option \<Rightarrow> bool \<Rightarrow> string" where
  "ItemDataProtoValidationError_Error field reason cause key =
     (let cause = (case cause of None \<Rightarrow> [] | Some e \<Rightarrow> '' | caused by: '' @ Error e);
          key = (if key then ''key for '' else []) in
      ''invalid '' @ key @ ''ItemDataProto.'' @ field @ '': '' @ reason @ cause)"

subsection \<open>GetItemListResponse\<close>

record GetItemListResponse =
  GetItemListResponse_Code :: int32
  GetItemListResponse_Message :: string
  GetItemListResponse_Items :: "ItemDataProto option list"

definition GetItemListResponse_validate :: "bool \<Rightarrow> GetItemListResponse option \<Rightarrow> verror option" where
  "GetItemListResponse_validate all m =
     (case m of
        None \<Rightarrow> None
      | Some r \<Rightarrow>
          finish_checks (TMsg ''player.admin.gamedata'' ''GetItemListResponse'') (run_checks
          [check_items all (TMsg ''player.admin.gamedata'' ''GetItemListResponse'') ''Items'' ItemDataProto_Validate ItemDataProto_ValidateAll 0 (GetItemListResponse_Items r)] []))"

definition GetItemListResponse_Validate :: "GetItemListResponse option \<Rightarrow> verror option" where
  "GetItemListResponse_Validate m = GetItemListResponse_validate False m"

definition GetItemListResponse_ValidateAll :: "GetItemListResponse option \<Rightarrow> verror option" where
  "GetItemListResponse_ValidateAll m = GetItemListResponse_validate True m"

definition GetItemListResponseMultiError_Error :: "verror list \<Rightarrow> string" where
  "GetItemListResponseMultiError_Error m = (let msgs = foldl (\<lambda>msgs err. msgs @ [Error err]) [] m in strings_Join msgs ''; '')"

definition GetItemListResponseValidationError_Error :: "string \<Rightarrow> string \<Rightarrow> verror option \<Rightarrow> bool \<Rightarrow> string" where
  "GetItemListResponseValidationError_Error field reason cause key =
     (let cause = (case cause of None \<Rightarrow> [] | Some e \<Rightarrow> '' | caused by: '' @ Error e);
          key = (if key then ''key for '' else []) in
      ''invalid '' @ key @ ''GetItemListResponse.'' @ field @ '': '' @ reason @ cause)"

section \<open>Users\<close>

subsection \<open>admin GetByIdRequest\<close>

record admin_GetByIdRequest =
  admin_GetByIdRequest_Id :: int64

definition admin_GetByIdRequest_validate :: "bool \<Rightarrow> admin_GetByIdRequest option \<Rightarrow> verror option" where
  "admin_GetByIdRequest_validate all m =
     (case m of
        None \<Rightarrow> None
      | Some r \<Rightarrow> finish_checks (TMsg ''player.admin.user'' ''GetByIdRequest'') (run_checks [] []))"

definition admin_GetByIdRequest_Validate :: "admin_GetByIdRequest option \<Rightarrow> verror option" where
  "admin_GetByIdRequest_Validate m = admin_GetByIdRequest_validate False m"

definition admin_GetByIdRequest_ValidateAll :: "admin_GetByIdRequest option \<Rightarrow> verror option" where
  "admin_GetByIdRequest_ValidateAll m = admin_GetByIdRequest_validate True m"

definition admin_GetByIdRequestMultiError_Error :: "verror list \<Rightarrow> string" where
  "admin_GetByIdRequestMultiError_Error m = (let msgs = foldl (\<lambda>msgs err. msgs @ [Error err]) [] m in strings_Join msgs ''; '')"

definition admin_GetByIdRequestValidationError_Error :: "string \<Rightarrow> string \<Rightarrow> verror option \<Rightarrow> bool \<Rightarrow> string" where
  "admin_GetByIdRequestValidationError_Error field reason cause key =
     (let cause = (case cause of None \<Rightarrow> [] | Some e \<Rightarrow> '' | caused by: '' @ Error e);
          key = (if key then ''key for '' else []) in
      ''invalid '' @ key @ ''GetByIdRequest.'' @ field @ '': '' @ reason @ cause)"

subsection \<open>admin UserProto\<close>

record admin_UserProto =
  admin_UserProto_Id :: int64
  admin_UserProto_IdStr :: string
  admin_UserProto_Account :: string
  admin_UserProto_Name :: string
  admin_UserProto_CreatedAt :: int64
  admin_UserProto_LoginAt :: int64
  admin_UserProto_LastOnlineAt :: int64
  admin_UserProto_LastOnlineIp :: string
  admin_UserProto_Detail :: string

definition admin_UserProto_validate :: "bool \<Rightarrow> admin_UserProto option \<Rightarrow> verror option" where
  "admin_UserProto_validate all m =
     (case m of
        None \<Rightarrow> None
      | Some r \<Rightarrow> finish_checks (TMsg ''player.admin.user'' ''UserProto'') (run_checks [] []))"

definition admin_UserProto_Validate :: "admin_UserProto option \<Rightarrow> verror option" where
  "admin_UserProto_Validate m = admin_UserProto_validate False m"

definition admin_UserProto_ValidateAll :: "admin_UserProto option \<Rightarrow> verror option" where
  "admin_UserProto_ValidateAll m = admin_UserProto_validate True m"

definition admin_UserProtoMultiError_Error :: "verror list \<Rightarrow> string" where
  "admin_UserProtoMultiError_Error m = (let msgs = foldl (\<lambda>msgs err. msgs @ [Error err]) [] m in strings_Join msgs ''; '')"

definition admin_UserProtoValidationError_Error :: "string \<Rightarrow> string \<Rightarrow> verror option \<Rightarrow> bool \<Rightarrow> string" where
  "admin_UserProtoValidationError_Error field reason cause key =
     (let cause = (case cause of None \<Rightarrow> [] | Some e \<Rightarrow> '' | caused by: '' @ Error e);
          key = (if key then ''key for '' else []) in
      ''invalid '' @ key @ ''UserProto.'' @ field @ '': '' @ reason @ cause)"

subsection \<open>admin GetByIdResponse\<close>

record admin_GetByIdResponse =
  admin_GetByIdResponse_Code :: int32
  admin_GetByIdResponse_Message :: string
  admin_GetByIdResponse_User :: "admin_UserProto option"

definition admin_GetByIdResponse_validate :: "bool \<Rightarrow> admin_GetByIdResponse option \<Rightarrow> verror option" where
  "admin_GetByIdResponse_validate all m =
     (case m of
        None \<Rightarrow> None
      | Some r \<Rightarrow>
          finish_checks (TMsg ''player.admin.user'' ''GetByIdResponse'') (run_checks
          [check_embedded all (TMsg ''player.admin.user'' ''GetByIdResponse'') ''User'' admin_UserProto_Validate admin_UserProto_ValidateAll (admin_GetByIdResponse_User r)] []))"

definition admin_GetByIdResponse_Validate :: "admin_GetByIdResponse option \<Rightarrow> verror option" where
  "admin_GetByIdResponse_Validate m = admin_GetByIdResponse_validate False m"

definition admin_GetByIdResponse_ValidateAll :: "admin_GetByIdResponse option \<Rightarrow> verror option" where
  "admin_GetByIdResponse_ValidateAll m = admin_GetByIdResponse_validate True m"

definition admin_GetByIdResponseMultiError_Error :: "verror list \<Rightarrow> string" where
  "admin_GetByIdResponseMultiError_Error m = (let msgs = foldl (\<lambda>msgs err. msgs @ [Error err]) [] m in strings_Join msgs ''; '')"

definition admin_GetByIdResponseValidationError_Error :: "string \<Rightarrow> string \<Rightarrow> verror option \<Rightarrow> bool \<Rightarrow> string" where
  "admin_GetByIdResponseValidationError_Error field reason cause key =
     (let cause = (case cause of None \<Rightarrow> [] | Some e \<Rightarrow> '' | caused by: '' @ Error e);
          key = (if key then ''key for '' else []) in
      ''invalid '' @ key @ ''GetByIdResponse.'' @ field @ '': '' @ reason @ cause)"

subsection \<open>GetUserListCond\<close>

record GetUserListCond =
  GetUserListCond_Name :: string

definition GetUserListCond_validate :: "bool \<Rightarrow> GetUserListCond option \<Rightarrow> verror option" where
  "GetUserListCond_validate all m =
     (case m of
        None \<Rightarrow> None
      | Some r \<Rightarrow> finish_checks (TMsg ''player.admin.user'' ''GetUserListCond'') (run_checks [] []))"

definition GetUserListCond_Validate :: "GetUserListCond option \<Rightarrow> verror option" where
  "GetUserListCond_Validate m = GetUserListCond_validate False m"

definition GetUserListCond_ValidateAll :: "GetUserListCond option \<Rightarrow> verror option" where
  "GetUserListCond_ValidateAll m = GetUserListCond_validate True m"

definition GetUserListCondMultiError_Error :: "verror list \<Rightarrow> string" where
  "GetUserListCondMultiError_Error m = (let msgs = foldl (\<lambda>msgs err. msgs @ [Error err]) [] m in strings_Join msgs ''; '')"

definition GetUserListCondValidationError_Error :: "string \<Rightarrow> string \<Rightarrow> verror option \<Rightarrow> bool \<Rightarrow> string" where
  "GetUserListCondValidationError_Error field reason cause key =
     (let cause = (case cause of None \<Rightarrow> [] | Some e \<Rightarrow> '' | caused by: '' @ Error e);
          key = (if key then ''key for '' else []) in
      ''invalid '' @ key @ ''GetUserListCond.'' @ field @ '': '' @ reason @ cause)"

subsection \<open>UserListRequest\<close>

record UserListRequest =
  UserListRequest_Page :: int32
  UserListRequest_PageSize :: int32
  UserListRequest_Cond :: "GetUserListCond option"

definition UserListRequest_validate :: "bool \<Rightarrow> UserListRequest option \<Rightarrow> verror option" where
  "UserListRequest_validate all m =
     (case m of
        None \<Rightarrow> None
      | Some r \<Rightarrow>
          finish_checks (TMsg ''player.admin.user'' ''UserListRequest'') (run_checks
          [check_embedded all (TMsg ''player.admin.user'' ''UserListRequest'') ''Cond'' GetUserListCond_Validate GetUserListCond_ValidateAll (UserListRequest_Cond r)] []))"

definition UserListRequest_Validate :: "UserListRequest option \<Rightarrow> verror option" where
  "UserListRequest_Validate m = UserListRequest_validate False m"

definition UserListRequest_ValidateAll :: "UserListRequest option \<Rightarrow> verror option" where
  "UserListRequest_ValidateAll m = UserListRequest_validate True m"

definition UserListRequestMultiError_Error :: "verror list \<Rightarrow> string" where
  "UserListRequestMultiError_Error m = (let msgs = foldl (\<lambda>msgs err. msgs @ [Error err]) [] m in strings_Join msgs ''; '')"

definition UserListRequestValidationError_Error :: "string \<Rightarrow> string \<Rightarrow> verror option \<Rightarrow> bool \<Rightarrow> string" where
  "UserListRequestValidationError_Error field reason cause key =
     (let cause = (case cause of None \<Rightarrow> [] | Some e \<Rightarrow> '' | caused by: '' @ Error e);
          key = (if key then ''key for '' else []) in
      ''invalid '' @ key @ ''UserListRequest.'' @ field @ '': '' @ reason @ cause)"

subsection \<open>UserListResponse\<close>

record UserListResponse =
  UserListResponse_Code :: int32
  UserListResponse_Message :: string
  UserListResponse_Users :: "admin_UserProto option list"
  UserListResponse_Total :: uint32

definition UserListResponse_validate :: "bool \<Rightarrow> UserListResponse option \<Rightarrow> verror option" where
  "UserListResponse_validate all m =
     (case m of
        None \<Rightarrow> None
      | Some r \<Rightarrow>
          finish_checks (TMsg ''player.admin.user'' ''UserListResponse'') (run_checks
          [check_items all (TMsg ''player.admin.user'' ''UserListResponse'') ''Users'' admin_UserProto_Validate admin_UserProto_ValidateAll 0 (UserListResponse_Users r)] []))"

definition UserListResponse_Validate :: "UserListResponse option \<Rightarrow> verror option" where
  "UserListResponse_Validate m = UserListResponse_validate False m"

definition UserListResponse_ValidateAll :: "UserListResponse option \<Rightarrow> verror option" where
  "UserListResponse_ValidateAll m = UserListResponse_validate True m"

definition UserListResponseMultiError_Error :: "verror list \<Rightarrow> string" where
  "UserListResponseMultiError_Error m = (let msgs = foldl (\<lambda>msgs err. msgs @ [Error err]) [] m in strings_Join msgs ''; '')"

definition UserListResponseValidationError_Error :: "string \<Rightarrow> string \<Rightarrow> verror option \<Rightarrow> bool \<Rightarrow> string" where
  "UserListResponseValidationError_Error field reason cause key =
     (let cause = (case cause of None \<Rightarrow> [] | Some e \<Rightarrow> '' | caused by: '' @ Error e);
          key = (if key then ''key for '' else []) in
      ''invalid '' @ key @ ''UserListResponse.'' @ field @ '': '' @ reason @ cause)"

section \<open>Storage\<close>

subsection \<open>AddItemRequest\<close>

record AddItemRequest =
  AddItemRequest_Id :: int64
  AddItemRequest_Items :: "(int64 \<times> uint64) list"

definition AddItemRequest_validate :: "bool \<Rightarrow> AddItemRequest option \<Rightarrow> verror option" where
  "AddItemRequest_validate all m =
     (case m of
        None \<Rightarrow> None
      | Some r \<Rightarrow> finish_checks (TMsg ''player.admin.storage'' ''AddItemRequest'') (run_checks [] []))"

definition AddItemRequest_Validate :: "AddItemRequest option \<Rightarrow> verror option" where
  "AddItemRequest_Validate m = AddItemRequest_validate False m"

definition AddItemRequest_ValidateAll :: "AddItemRequest option \<Rightarrow> verror option" where
  "AddItemRequest_ValidateAll m = AddItemRequest_validate True m"

definition AddItemRequestMultiError_Error :: "verror list \<Rightarrow> string" where
  "AddItemRequestMultiError_Error m = (let msgs = foldl (\<lambda>msgs err. msgs @ [Error err]) [] m in strings_Join msgs ''; '')"

definition AddItemRequestValidationError_Error :: "string \<Rightarrow> string \<Rightarrow> verror option \<Rightarrow> bool \<Rightarrow> string" where
  "AddItemRequestValidationError_Error field reason cause key =
     (let cause = (case cause of None \<Rightarrow> [] | Some e \<Rightarrow> '' | caused by: '' @ Error e);
          key = (if key then ''key for '' else []) in
      ''invalid '' @ key @ ''AddItemRequest.'' @ field @ '': '' @ reason @ cause)"

subsection \<open>AddItemResponse\<close>

record AddItemResponse =
  AddItemResponse_Code :: int32
  AddItemResponse_Message :: string
  AddItemResponse_Items :: "(int64 \<times> uint64) list"

definition AddItemResponse_validate :: "bool \<Rightarrow> AddItemResponse option \<Rightarrow> verror option" where
  "AddItemResponse_validate all m =
     (case m of
        None \<Rightarrow> None
      | Some r \<Rightarrow> finish_checks (TMsg ''player.admin.storage'' ''AddItemResponse'') (run_checks [] []))"

definition AddItemResponse_Validate :: "AddItemResponse option \<Rightarrow> verror option" where
  "AddItemResponse_Validate m = AddItemResponse_validate False m"

definition AddItemResponse_ValidateAll :: "AddItemResponse option \<Rightarrow> verror option" where
  "AddItemResponse_ValidateAll m = AddItemResponse_validate True m"

definition AddItemResponseMultiError_Error :: "verror list \<Rightarrow> string" where
  "AddItemResponseMultiError_Error m = (let msgs = foldl (\<lambda>msgs err. msgs @ [Error err]) [] m in strings_Join msgs ''; '')"

definition AddItemResponseValidationError_Error :: "string \<Rightarrow> string \<Rightarrow> verror option \<Rightarrow> bool \<Rightarrow> string" where
  "AddItemResponseValidationError_Error field reason cause key =
     (let cause = (case cause of None \<Rightarrow> [] | Some e \<Rightarrow> '' | caused by: '' @ Error e);
          key = (if key then ''key for '' else []) in
      ''invalid '' @ key @ ''AddItemResponse.'' @ field @ '': '' @ reason @ cause)"

section \<open>Recharge\<close>

subsection \<open>GetOrderListCond\<close>

record GetOrderListCond =
  GetOrderListCond_Store :: string
  GetOrderListCond_TransId :: string
  GetOrderListCond_Uid :: int64
  GetOrderListCond_Ack :: int32

definition GetOrderListCond_validate :: "bool \<Rightarrow> GetOrderListCond option \<Rightarrow> verror option" where
  "GetOrderListCond_validate all m =
     (case m of
        None \<Rightarrow> None
      | Some r \<Rightarrow> finish_checks (TMsg ''player.admin.recharge'' ''GetOrderListCond'') (run_checks [] []))"

definition GetOrderListCond_Validate :: "GetOrderListCond option \<Rightarrow> verror option" where
  "GetOrderListCond_Validate m = GetOrderListCond_validate False m"

definition GetOrderListCond_ValidateAll :: "GetOrderListCond option \<Rightarrow> verror option" where
  "GetOrderListCond_ValidateAll m = GetOrderListCond_validate True m"

definition GetOrderListCondMultiError_Error :: "verror list \<Rightarrow> string" where
  "GetOrderListCondMultiError_Error m = (let msgs = foldl (\<lambda>msgs err. msgs @ [Error err]) [] m in strings_Join msgs ''; '')"

definition GetOrderListCondValidationError_Error :: "string \<Rightarrow> string \<Rightarrow> verror option \<Rightarrow> bool \<Rightarrow> string" where
  "GetOrderListCondValidationError_Error field reason cause key =
     (let cause = (case cause of None \<Rightarrow> [] | Some e \<Rightarrow> '' | caused by: '' @ Error e);
          key = (if key then ''key for '' else []) in
      ''invalid '' @ key @ ''GetOrderListCond.'' @ field @ '': '' @ reason @ cause)"

subsection \<open>GetOrderListRequest\<close>

record GetOrderListRequest =
  GetOrderListRequest_Page :: int32
  GetOrderListRequest_PageSize :: int32
  GetOrderListRequest_Cond :: "GetOrderListCond option"

definition GetOrderListRequest_validate :: "bool \<Rightarrow> GetOrderListRequest option \<Rightarrow> verror option" where
  "GetOrderListRequest_validate all m =
     (case m of
        None \<Rightarrow> None
      | Some r \<Rightarrow>
          finish_checks (TMsg ''player.admin.recharge'' ''GetOrderListRequest'') (run_checks
          [check_embedded all (TMsg ''player.admin.recharge'' ''GetOrderListRequest'') ''Cond'' GetOrderListCond_Validate GetOrderListCond_ValidateAll (GetOrderListRequest_Cond r)] []))"

definition GetOrderListRequest_Validate :: "GetOrderListRequest option \<Rightarrow> verror option" where
  "GetOrderListRequest_Validate m = GetOrderListRequest_validate False m"

definition GetOrderListRequest_ValidateAll :: "GetOrderListRequest option \<Rightarrow> verror option" where
  "GetOrderListRequest_ValidateAll m = GetOrderListRequest_validate True m"

definition GetOrderListRequestMultiError_Error :: "verror list \<Rightarrow> string" where
  "GetOrderListRequestMultiError_Error m = (let msgs = foldl (\<lambda>msgs err. msgs @ [Error err]) [] m in strings_Join msgs ''; '')"

definition GetOrderListRequestValidationError_Error :: "string \<Rightarrow> string \<Rightarrow> verror option \<Rightarrow> bool \<Rightarrow> string" where
  "GetOrderListRequestValidationError_Error field reason cause key =
     (let cause = (case cause of None \<Rightarrow> [] | Some e \<Rightarrow> '' | caused by: '' @ Error e);
          key = (if key then ''key for '' else []) in
      ''invalid '' @ key @ ''GetOrderListRequest.'' @ field @ '': '' @ reason @ cause)"

subsection \<open>OrderProto\<close>

record OrderProto =
  OrderProto_Store :: string
  OrderProto_TransId :: string
  OrderProto_Ack :: int32
  OrderProto_Uid :: int64
  OrderProto_ProductId :: string
  OrderProto_PurchasedAt :: int64
  OrderProto_AckAt :: int64
  OrderProto_Detail :: string

definition OrderProto_validate :: "bool \<Rightarrow> OrderProto option \<Rightarrow> verror option" where
  "OrderProto_validate all m =
     (case m of
        None \<Rightarrow> None
      | Some r \<Rightarrow> finish_checks (TMsg ''player.admin.recharge'' ''OrderProto'') (run_checks [] []))"

definition OrderProto_Validate :: "OrderProto option \<Rightarrow> verror option" where
  "OrderProto_Validate m = OrderProto_validate False m"

definition OrderProto_ValidateAll :: "OrderProto option \<Rightarrow> verror option" where
  "OrderProto_ValidateAll m = OrderProto_validate True m"

definition OrderProtoMultiError_Error :: "verror list \<Rightarrow> string" where
  "OrderProtoMultiError_Error m = (let msgs = foldl (\<lambda>msgs err. msgs @ [Error err]) [] m in strings_Join msgs ''; '')"

definition OrderProtoValidationError_Error :: "string \<Rightarrow> string \<Rightarrow> verror option \<Rightarrow> bool \<Rightarrow> string" where
  "OrderProtoValidationError_Error field reason cause key =
     (let cause = (case cause of None \<Rightarrow> [] | Some e \<Rightarrow> '' | caused by: '' @ Error e);
          key = (if key then ''key for '' else []) in
      ''invalid '' @ key @ ''OrderProto.'' @ field @ '': '' @ reason @ cause)"

subsection \<open>GetOrderListResponse\<close>

record GetOrderListResponse =
  GetOrderListResponse_Code :: int32
  GetOrderListResponse_Message :: string
  GetOrderListResponse_Orders :: "OrderProto option list"
  GetOrderListResponse_Total :: uint32

definition GetOrderListResponse_validate :: "bool \<Rightarrow> GetOrderListResponse option \<Rightarrow> verror option" where
  "GetOrderListResponse_validate all m =
     (case m of
        None \<Rightarrow> None
      | Some r \<Rightarrow>
          finish_checks (TMsg ''player.admin.recharge'' ''GetOrderListResponse'') (run_checks
          [check_items all (TMsg ''player.admin.recharge'' ''GetOrderListResponse'') ''Orders'' OrderProto_Validate OrderProto_ValidateAll 0 (GetOrderListResponse_Orders r)] []))"

definition GetOrderListResponse_Validate :: "GetOrderListResponse option \<Rightarrow> verror option" where
  "GetOrderListResponse_Validate m = GetOrderListResponse_validate False m"

definition GetOrderListResponse_ValidateAll :: "GetOrderListResponse option \<Rightarrow> verror option" where
  "GetOrderListResponse_ValidateAll m = GetOrderListResponse_validate True m"

definition GetOrderListResponseMultiError_Error :: "verror list \<Rightarrow> string" where
  "GetOrderListResponseMultiError_Error m = (let msgs = foldl (\<lambda>msgs err. msgs @ [Error err]) [] m in strings_Join msgs ''; '')"

definition GetOrderListResponseValidationError_Error :: "string \<Rightarrow> string \<Rightarrow> verror option \<Rightarrow> bool \<Rightarrow> string" where
  "GetOrderListResponseValidationError_Error field reason cause key =
     (let cause = (case cause of None \<Rightarrow> [] | Some e \<Rightarrow> '' | caused by: '' @ Error e);
          key = (if key then ''key for '' else []) in
      ''invalid '' @ key @ ''GetOrderListResponse.'' @ field @ '': '' @ reason @ cause)"

subsection \<open>GetOrderByIdRequest\<close>

record GetOrderByIdRequest =
  GetOrderByIdRequest_Store :: string
  GetOrderByIdRequest_TransId :: string

definition GetOrderByIdRequest_validate :: "bool \<Rightarrow> GetOrderByIdRequest option \<Rightarrow> verror option" where
  "GetOrderByIdRequest_validate all m =
     (case m of
        None \<Rightarrow> None
      | Some r \<Rightarrow> finish_checks (TMsg ''player.admin.recharge'' ''GetOrderByIdRequest'') (run_checks [] []))"

definition GetOrderByIdRequest_Validate :: "GetOrderByIdRequest option \<Rightarrow> verror option" where
  "GetOrderByIdRequest_Validate m = GetOrderByIdRequest_validate False m"

definition GetOrderByIdRequest_ValidateAll :: "GetOrderByIdRequest option \<Rightarrow> verror option" where
  "GetOrderByIdRequest_ValidateAll m = GetOrderByIdRequest_validate True m"

definition GetOrderByIdRequestMultiError_Error :: "verror list \<Rightarrow> string" where
  "GetOrderByIdRequestMultiError_Error m = (let msgs = foldl (\<lambda>msgs err. msgs @ [Error err]) [] m in strings_Join msgs ''; '')"

definition GetOrderByIdRequestValidationError_Error :: "string \<Rightarrow> string \<Rightarrow> verror option \<Rightarrow> bool \<Rightarrow> string" where
  "GetOrderByIdRequestValidationError_Error field reason cause key =
     (let cause = (case cause of None \<Rightarrow> [] | Some e \<Rightarrow> '' | caused by: '' @ Error e);
          key = (if key then ''key for '' else []) in
      ''invalid '' @ key @ ''GetOrderByIdRequest.'' @ field @ '': '' @ reason @ cause)"

subsection \<open>GetOrderByIdResponse\<close>

record GetOrderByIdResponse =
  GetOrderByIdResponse_Code :: int32
  GetOrderByIdResponse_Message :: string
  GetOrderByIdResponse_Order :: "OrderProto option"

definition GetOrderByIdResponse_validate :: "bool \<Rightarrow> GetOrderByIdResponse option \<Rightarrow> verror option" where
  "GetOrderByIdResponse_validate all m =
     (case m of
        None \<Rightarrow> None
      | Some r \<Rightarrow>
          finish_checks (TMsg ''player.admin.recharge'' ''GetOrderByIdResponse'') (run_checks
          [check_embedded all (TMsg ''player.admin.recharge'' ''GetOrderByIdResponse'') ''Order'' OrderProto_Validate OrderProto_ValidateAll (GetOrderByIdResponse_Order r)] []))"

definition GetOrderByIdResponse_Validate :: "GetOrderByIdResponse option \<Rightarrow> verror option" where
  "GetOrderByIdResponse_Validate m = GetOrderByIdResponse_validate False m"

definition GetOrderByIdResponse_ValidateAll :: "GetOrderByIdResponse option \<Rightarrow> verror option" where
  "GetOrderByIdResponse_ValidateAll m = GetOrderByIdResponse_validate True m"

definition GetOrderByIdResponseMultiError_Error :: "verror list \<Rightarrow> string" where
  "GetOrderByIdResponseMultiError_Error m = (let msgs = foldl (\<lambda>msgs err. msgs @ [Error err]) [] m in strings_Join msgs ''; '')"

definition GetOrderByIdResponseValidationError_Error :: "string \<Rightarrow> string \<Rightarrow> verror option \<Rightarrow> bool \<Rightarrow> string" where
  "GetOrderByIdResponseValidationError_Error field reason cause key =
     (let cause = (case cause of None \<Rightarrow> [] | Some e \<Rightarrow> '' | caused by: '' @ Error e);
          key = (if key then ''key for '' else []) in
      ''invalid '' @ key @ ''GetOrderByIdResponse.'' @ field @ '': '' @ reason @ cause)"

subsection \<open>UpdateOrderAckStateByIdRequest\<close>

record UpdateOrderAckStateByIdRequest =
  UpdateOrderAckStateByIdRequest_Store :: string
  UpdateOrderAckStateByIdRequest_TransId :: string
  UpdateOrderAckStateByIdRequest_Ack :: int32

definition UpdateOrderAckStateByIdRequest_validate :: "bool \<Rightarrow> UpdateOrderAckStateByIdRequest option \<Rightarrow> verror option" where
  "UpdateOrderAckStateByIdRequest_validate all m =
     (case m of
        None \<Rightarrow> None
      | Some r \<Rightarrow> finish_checks (TMsg ''player.admin.recharge'' ''UpdateOrderAckStateByIdRequest'') (run_checks [] []))"

definition UpdateOrderAckStateByIdRequest_Validate :: "UpdateOrderAckStateByIdRequest option \<Rightarrow> verror option" where
  "UpdateOrderAckStateByIdRequest_Validate m = UpdateOrderAckStateByIdRequest_validate False m"

definition UpdateOrderAckStateByIdRequest_ValidateAll :: "UpdateOrderAckStateByIdRequest option \<Rightarrow> verror option" where
  "UpdateOrderAckStateByIdRequest_ValidateAll m = UpdateOrderAckStateByIdRequest_validate True m"

definition UpdateOrderAckStateByIdRequestMultiError_Error :: "verror list \<Rightarrow> string" where
  "UpdateOrderAckStateByIdRequestMultiError_Error m = (let msgs = foldl (\<lambda>msgs err. msgs @ [Error err]) [] m in strings_Join msgs ''; '')"

definition UpdateOrderAckStateByIdRequestValidationError_Error :: "string \<Rightarrow> string \<Rightarrow> verror option \<Rightarrow> bool \<Rightarrow> string" where
  "UpdateOrderAckStateByIdRequestValidationError_Error field reason cause key =
     (let cause = (case cause of None \<Rightarrow> [] | Some e \<Rightarrow> '' | caused by: '' @ Error e);
          key = (if key then ''key for '' else []) in
      ''invalid '' @ key @ ''UpdateOrderAckStateByIdRequest.'' @ field @ '': '' @ reason @ cause)"

subsection \<open>UpdateOrderAckStateByIdResponse\<close>

record UpdateOrderAckStateByIdResponse =
  UpdateOrderAckStateByIdResponse_Code :: int32
  UpdateOrderAckStateByIdResponse_Message :: string

definition UpdateOrderAckStateByIdResponse_validate :: "bool \<Rightarrow> UpdateOrderAckStateByIdResponse option \<Rightarrow> verror option" where
  "UpdateOrderAckStateByIdResponse_validate all m =
     (case m of
        None \<Rightarrow> None
      | Some r \<Rightarrow> finish_checks (TMsg ''player.admin.recharge'' ''UpdateOrderAckStateByIdResponse'') (run_checks [] []))"

definition UpdateOrderAckStateByIdResponse_Validate :: "UpdateOrderAckStateByIdResponse option \<Rightarrow> verror option" where
  "UpdateOrderAckStateByIdResponse_Validate m = UpdateOrderAckStateByIdResponse_validate False m"

definition UpdateOrderAckStateByIdResponse_ValidateAll :: "UpdateOrderAckStateByIdResponse option \<Rightarrow> verror option" where
  "UpdateOrderAckStateByIdResponse_ValidateAll m = UpdateOrderAckStateByIdResponse_validate True m"

definition UpdateOrderAckStateByIdResponseMultiError_Error :: "verror list \<Rightarrow> string" where
  "UpdateOrderAckStateByIdResponseMultiError_Error m = (let msgs = foldl (\<lambda>msgs err. msgs @ [Error err]) [] m in strings_Join msgs ''; '')"

definition UpdateOrderAckStateByIdResponseValidationError_Error :: "string \<Rightarrow> string \<Rightarrow> verror option \<Rightarrow> bool \<Rightarrow> string" where
  "UpdateOrderAckStateByIdResponseValidationError_Error field reason cause key =
     (let cause = (case cause of None \<Rightarrow> [] | Some e \<Rightarrow> '' | caused by: '' @ Error e);
          key = (if key then ''key for '' else []) in
      ''invalid '' @ key @ ''UpdateOrderAckStateByIdResponse.'' @ field @ '': '' @ reason @ cause)"

section \<open>User service\<close>

subsection \<open>user GetByIdRequest\<close>

record user_GetByIdRequest =
  user_GetByIdRequest_Id :: int64

definition user_GetByIdRequest_validate :: "bool \<Rightarrow> user_GetByIdRequest option \<Rightarrow> verror option" where
  "user_GetByIdRequest_validate all m =
     (case m of
        None \<Rightarrow> None
      | Some r \<Rightarrow> finish_checks (TMsg ''player.service.user'' ''GetByIdRequest'') (run_checks [] []))"

definition user_GetByIdRequest_Validate :: "user_GetByIdRequest option \<Rightarrow> verror option" where
  "user_GetByIdRequest_Validate m = user_GetByIdRequest_validate False m"

definition user_GetByIdRequest_ValidateAll :: "user_GetByIdRequest option \<Rightarrow> verror option" where
  "user_GetByIdRequest_ValidateAll m = user_GetByIdRequest_validate True m"

definition user_GetByIdRequestMultiError_Error :: "verror list \<Rightarrow> string" where
  "user_GetByIdRequestMultiError_Error m = (let msgs = foldl (\<lambda>msgs err. msgs @ [Error err]) [] m in strings_Join msgs ''; '')"

definition user_GetByIdRequestValidationError_Error :: "string \<Rightarrow> string \<Rightarrow> verror option \<Rightarrow> bool \<Rightarrow> string" where
  "user_GetByIdRequestValidationError_Error field reason cause key =
     (let cause = (case cause of None \<Rightarrow> [] | Some e \<Rightarrow> '' | caused by: '' @ Error e);
          key = (if key then ''key for '' else []) in
      ''invalid '' @ key @ ''GetByIdRequest.'' @ field @ '': '' @ reason @ cause)"

subsection \<open>UserBasicCacheProto\<close>

record UserBasicCacheProto =
  UserBasicCacheProto_Id :: int64
  UserBasicCacheProto_IdStr :: string
  UserBasicCacheProto_Account :: string
  UserBasicCacheProto_Name :: string
  UserBasicCacheProto_CreatedTime :: int64
  UserBasicCacheProto_LoginTime :: int64
  UserBasicCacheProto_LastOnlineTime :: int64
  UserBasicCacheProto_LastOnlineIp :: string
  UserBasicCacheProto_Detail :: string

definition UserBasicCacheProto_validate :: "bool \<Rightarrow> UserBasicCacheProto option \<Rightarrow> verror option" where
  "UserBasicCacheProto_validate all m =
     (case m of
        None \<Rightarrow> None
      | Some r \<Rightarrow> finish_checks (TMsg ''player.service.user'' ''UserBasicCacheProto'') (run_checks [] []))"

definition UserBasicCacheProto_Validate :: "UserBasicCacheProto option \<Rightarrow> verror option" where
  "UserBasicCacheProto_Validate m = UserBasicCacheProto_validate False m"

definition UserBasicCacheProto_ValidateAll :: "UserBasicCacheProto option \<Rightarrow> verror option" where
  "UserBasicCacheProto_ValidateAll m = UserBasicCacheProto_validate True m"

definition UserBasicCacheProtoMultiError_Error :: "verror list \<Rightarrow> string" where
  "UserBasicCacheProtoMultiError_Error m = (let msgs = foldl (\<lambda>msgs err. msgs @ [Error err]) [] m in strings_Join msgs ''; '')"

definition UserBasicCacheProtoValidationError_Error :: "string \<Rightarrow> string \<Rightarrow> verror option \<Rightarrow> bool \<Rightarrow> string" where
  "UserBasicCacheProtoValidationError_Error field reason cause key =
     (let cause = (case cause of None \<Rightarrow> [] | Some e \<Rightarrow> '' | caused by: '' @ Error e);
          key = (if key then ''key for '' else []) in
      ''invalid '' @ key @ ''UserBasicCacheProto.'' @ field @ '': '' @ reason @ cause)"

subsection \<open>UserCacheProto\<close>

record UserCacheProto =
  UserCacheProto_Basic :: "UserBasicCacheProto option"

definition UserCacheProto_validate :: "bool \<Rightarrow> UserCacheProto option \<Rightarrow> verror option" where
  "UserCacheProto_validate all m =
     (case m of
        None \<Rightarrow> None
      | Some r \<Rightarrow>
          finish_checks (TMsg ''player.service.user'' ''UserCacheProto'') (run_checks
          [check_embedded all (TMsg ''player.service.user'' ''UserCacheProto'') ''Basic'' UserBasicCacheProto_Validate UserBasicCacheProto_ValidateAll (UserCacheProto_Basic r)] []))"

definition UserCacheProto_Validate :: "UserCacheProto option \<Rightarrow> verror option" where
  "UserCacheProto_Validate m = UserCacheProto_validate False m"

definition UserCacheProto_ValidateAll :: "UserCacheProto option \<Rightarrow> verror option" where
  "UserCacheProto_ValidateAll m = UserCacheProto_validate True m"

definition UserCacheProtoMultiError_Error :: "verror list \<Rightarrow> string" where
  "UserCacheProtoMultiError_Error m = (let msgs = foldl (\<lambda>msgs err. msgs @ [Error err]) [] m in strings_Join msgs ''; '')"

definition UserCacheProtoValidationError_Error :: "string \<Rightarrow> string \<Rightarrow> verror option \<Rightarrow> bool \<Rightarrow> string" where
  "UserCacheProtoValidationError_Error field reason cause key =
     (let cause = (case cause of None \<Rightarrow> [] | Some e \<Rightarrow> '' | caused by: '' @ Error e);
          key = (if key then ''key for '' else []) in
      ''invalid '' @ key @ ''UserCacheProto.'' @ field @ '': '' @ reason @ cause)"

subsection \<open>user GetByIdResponse\<close>

record user_GetByIdResponse =
  user_GetByIdResponse_Code :: int32
  user_GetByIdResponse_Message :: string
  user_GetByIdResponse_User :: "UserCacheProto option"

definition user_GetByIdResponse_validate :: "bool \<Rightarrow> user_GetByIdResponse option \<Rightarrow> verror option" where
  "user_GetByIdResponse_validate all m =
     (case m of
        None \<Rightarrow> None
      | Some r \<Rightarrow>
          finish_checks (TMsg ''player.service.user'' ''GetByIdResponse'') (run_checks
          [check_embedded all (TMsg ''player.service.user'' ''GetByIdResponse'') ''User'' UserCacheProto_Validate UserCacheProto_ValidateAll (user_GetByIdResponse_User r)] []))"

definition user_GetByIdResponse_Validate :: "user_GetByIdResponse option \<Rightarrow> verror option" where
  "user_GetByIdResponse_Validate m = user_GetByIdResponse_validate False m"

definition user_GetByIdResponse_ValidateAll :: "user_GetByIdResponse option \<Rightarrow> verror option" where
  "user_GetByIdResponse_ValidateAll m = user_GetByIdResponse_validate True m"

definition user_GetByIdResponseMultiError_Error :: "verror list \<Rightarrow> string" where
  "user_GetByIdResponseMultiError_Error m = (let msgs = foldl (\<lambda>msgs err. msgs @ [Error err]) [] m in strings_Join msgs ''; '')"

definition user_GetByIdResponseValidationError_Error :: "string \<Rightarrow> string \<Rightarrow> verror option \<Rightarrow> bool \<Rightarrow> string" where
  "user_GetByIdResponseValidationError_Error field reason cause key =
     (let cause = (case cause of None \<Rightarrow> [] | Some e \<Rightarrow> '' | caused by: '' @ Error e);
          key = (if key then ''key for '' else []) in
      ''invalid '' @ key @ ''GetByIdResponse.'' @ field @ '': '' @ reason @ cause)"

subsection \<open>UserListByIdRequest\<close>

record UserListByIdRequest =
  UserListByIdRequest_Id :: "int64 list"

definition UserListByIdRequest_validate :: "bool \<Rightarrow> UserListByIdRequest option \<Rightarrow> verror option" where
  "UserListByIdRequest_validate all m =
     (case m of
        None \<Rightarrow> None
      | Some r \<Rightarrow> finish_checks (TMsg ''player.service.user'' ''UserListByIdRequest'') (run_checks [] []))"

definition UserListByIdRequest_Validate :: "UserListByIdRequest option \<Rightarrow> verror option" where
  "UserListByIdRequest_Validate m = UserListByIdRequest_validate False m"

definition UserListByIdRequest_ValidateAll :: "UserListByIdRequest option \<Rightarrow> verror option" where
  "UserListByIdRequest_ValidateAll m = UserListByIdRequest_validate True m"

definition UserListByIdRequestMultiError_Error :: "verror list \<Rightarrow> string" where
  "UserListByIdRequestMultiError_Error m = (let msgs = foldl (\<lambda>msgs err. msgs @ [Error err]) [] m in strings_Join msgs ''; '')"

definition UserListByIdRequestValidationError_Error :: "string \<Rightarrow> string \<Rightarrow> verror option \<Rightarrow> bool \<Rightarrow> string" where
  "UserListByIdRequestValidationError_Error field reason cause key =
     (let cause = (case cause of None \<Rightarrow> [] | Some e \<Rightarrow> '' | caused by: '' @ Error e);
          key = (if key then ''key for '' else []) in
      ''invalid '' @ key @ ''UserListByIdRequest.'' @ field @ '': '' @ reason @ cause)"

subsection \<open>UserListByIdResponse\<close>

record UserListByIdResponse =
  UserListByIdResponse_Code :: int32
  UserListByIdResponse_Message :: string
  UserListByIdResponse_Users :: "(int64 \<times> UserCacheProto option) list"

definition UserListByIdResponse_validate :: "bool \<Rightarrow> UserListByIdResponse option \<Rightarrow> verror option" where
  "UserListByIdResponse_validate all m =
     (case m of
        None \<Rightarrow> None
      | Some r \<Rightarrow>
          finish_checks (TMsg ''player.service.user'' ''UserListByIdResponse'') (run_checks
          [check_map all (TMsg ''player.service.user'' ''UserListByIdResponse'') ''Users'' UserCacheProto_Validate UserCacheProto_ValidateAll (UserListByIdResponse_Users r)] []))"

definition UserListByIdResponse_Validate :: "UserListByIdResponse option \<Rightarrow> verror option" where
  "UserListByIdResponse_Validate m = UserListByIdResponse_validate False m"

definition UserListByIdResponse_ValidateAll :: "UserListByIdResponse option \<Rightarrow> verror option" where
  "UserListByIdResponse_ValidateAll m = UserListByIdResponse_validate True m"

definition UserListByIdResponseMultiError_Error :: "verror list \<Rightarrow> string" where
  "UserListByIdResponseMultiError_Error m = (let msgs = foldl (\<lambda>msgs err. msgs @ [Error err]) [] m in strings_Join msgs ''; '')"

definition UserListByIdResponseValidationError_Error :: "string \<Rightarrow> string \<Rightarrow> verror option \<Rightarrow> bool \<Rightarrow> string" where
  "UserListByIdResponseValidationError_Error field reason cause key =
     (let cause = (case cause of None \<Rightarrow> [] | Some e \<Rightarrow> '' | caused by: '' @ Error e);
          key = (if key then ''key for '' else []) in
      ''invalid '' @ key @ ''UserListByIdResponse.'' @ field @ '': '' @ reason @ cause)"

subsection \<open>GetBasicByIdRequest\<close>

record GetBasicByIdRequest =
  GetBasicByIdRequest_Id :: int64

definition GetBasicByIdRequest_validate :: "bool \<Rightarrow> GetBasicByIdRequest option \<Rightarrow> verror option" where
  "GetBasicByIdRequest_validate all m =
     (case m of
        None \<Rightarrow> None
      | Some r \<Rightarrow> finish_checks (TMsg ''player.service.user'' ''GetBasicByIdRequest'') (run_checks [] []))"

definition GetBasicByIdRequest_Validate :: "GetBasicByIdRequest option \<Rightarrow> verror option" where
  "GetBasicByIdRequest_Validate m = GetBasicByIdRequest_validate False m"

definition GetBasicByIdRequest_ValidateAll :: "GetBasicByIdRequest option \<Rightarrow> verror option" where
  "GetBasicByIdRequest_ValidateAll m = GetBasicByIdRequest_validate True m"

definition GetBasicByIdRequestMultiError_Error :: "verror list \<Rightarrow> string" where
  "GetBasicByIdRequestMultiError_Error m = (let msgs = foldl (\<lambda>msgs err. msgs @ [Error err]) [] m in strings_Join msgs ''; '')"

definition GetBasicByIdRequestValidationError_Error :: "string \<Rightarrow> string \<Rightarrow> verror option \<Rightarrow> bool \<Rightarrow> string" where
  "GetBasicByIdRequestValidationError_Error field reason cause key =
     (let cause = (case cause of None \<Rightarrow> [] | Some e \<Rightarrow> '' | caused by: '' @ Error e);
          key = (if key then ''key for '' else []) in
      ''invalid '' @ key @ ''GetBasicByIdRequest.'' @ field @ '': '' @ reason @ cause)"

subsection \<open>GetBasicByIdResponse\<close>

record GetBasicByIdResponse =
  GetBasicByIdResponse_Code :: int32
  GetBasicByIdResponse_Message :: string
  GetBasicByIdResponse_User :: "UserBasicCacheProto option"

definition GetBasicByIdResponse_validate :: "bool \<Rightarrow> GetBasicByIdResponse option \<Rightarrow> verror option" where
  "GetBasicByIdResponse_validate all m =
     (case m of
        None \<Rightarrow> None
      | Some r \<Rightarrow>
          finish_checks (TMsg ''player.service.user'' ''GetBasicByIdResponse'') (run_checks
          [check_embedded all (TMsg ''player.service.user'' ''GetBasicByIdResponse'') ''User'' UserBasicCacheProto_Validate UserBasicCacheProto_ValidateAll (GetBasicByIdResponse_User r)] []))"

definition GetBasicByIdResponse_Validate :: "GetBasicByIdResponse option \<Rightarrow> verror option" where
  "GetBasicByIdResponse_Validate m = GetBasicByIdResponse_validate False m"

definition GetBasicByIdResponse_ValidateAll :: "GetBasicByIdResponse option \<Rightarrow> verror option" where
  "GetBasicByIdResponse_ValidateAll m = GetBasicByIdResponse_validate True m"

definition GetBasicByIdResponseMultiError_Error :: "verror list \<Rightarrow> string" where
  "GetBasicByIdResponseMultiError_Error m = (let msgs = foldl (\<lambda>msgs err. msgs @ [Error err]) [] m in strings_Join msgs ''; '')"

definition GetBasicByIdResponseValidationError_Error :: "string \<Rightarrow> string \<Rightarrow> verror option \<Rightarrow> bool \<Rightarrow> string" where
  "GetBasicByIdResponseValidationError_Error field reason cause key =
     (let cause = (case cause of None \<Rightarrow> [] | Some e \<Rightarrow> '' | caused by: '' @ Error e);
          key = (if key then ''key for '' else []) in
      ''invalid '' @ key @ ''GetBasicByIdResponse.'' @ field @ '': '' @ reason @ cause)"

subsection \<open>GetBasicListByIdRequest\<close>

record GetBasicListByIdRequest =
  GetBasicListByIdRequest_Id :: "int64 list"

definition GetBasicListByIdRequest_validate :: "bool \<Rightarrow> GetBasicListByIdRequest option \<Rightarrow> verror option" where
  "GetBasicListByIdRequest_validate all m =
     (case m of
        None \<Rightarrow> None
      | Some r \<Rightarrow> finish_checks (TMsg ''player.service.user'' ''GetBasicListByIdRequest'') (run_checks [] []))"

definition GetBasicListByIdRequest_Validate :: "GetBasicListByIdRequest option \<Rightarrow> verror option" where
  "GetBasicListByIdRequest_Validate m = GetBasicListByIdRequest_validate False m"

definition GetBasicListByIdRequest_ValidateAll :: "GetBasicListByIdRequest option \<Rightarrow> verror option" where
  "GetBasicListByIdRequest_ValidateAll m = GetBasicListByIdRequest_validate True m"

definition GetBasicListByIdRequestMultiError_Error :: "verror list \<Rightarrow> string" where
  "GetBasicListByIdRequestMultiError_Error m = (let msgs = foldl (\<lambda>msgs err. msgs @ [Error err]) [] m in strings_Join msgs ''; '')"

definition GetBasicListByIdRequestValidationError_Error :: "string \<Rightarrow> string \<Rightarrow> verror option \<Rightarrow> bool \<Rightarrow> string" where
  "GetBasicListByIdRequestValidationError_Error field reason cause key =
     (let cause = (case cause of None \<Rightarrow> [] | Some e \<Rightarrow> '' | caused by: '' @ Error e);
          key = (if key then ''key for '' else []) in
      ''invalid '' @ key @ ''GetBasicListByIdRequest.'' @ field @ '': '' @ reason @ cause)"

subsection \<open>GetBasicListByIdResponse\<close>

record GetBasicListByIdResponse =
  GetBasicListByIdResponse_Code :: int32
  GetBasicListByIdResponse_Message :: string
  GetBasicListByIdResponse_Users :: "(int64 \<times> UserBasicCacheProto option) list"

definition GetBasicListByIdResponse_validate :: "bool \<Rightarrow> GetBasicListByIdResponse option \<Rightarrow> verror option" where
  "GetBasicListByIdResponse_validate all m =
     (case m of
        None \<Rightarrow> None
      | Some r \<Rightarrow>
          finish_checks (TMsg ''player.service.user'' ''GetBasicListByIdResponse'') (run_checks
          [check_map all (TMsg ''player.service.user'' ''GetBasicListByIdResponse'') ''Users'' UserBasicCacheProto_Validate UserBasicCacheProto_ValidateAll (GetBasicListByIdResponse_Users r)] []))"

definition GetBasicListByIdResponse_Validate :: "GetBasicListByIdResponse option \<Rightarrow> verror option" where
  "GetBasicListByIdResponse_Validate m = GetBasicListByIdResponse_validate False m"

definition GetBasicListByIdResponse_ValidateAll :: "GetBasicListByIdResponse option \<Rightarrow> verror option" where
  "GetBasicListByIdResponse_ValidateAll m = GetBasicListByIdResponse_validate True m"

definition GetBasicListByIdResponseMultiError_Error :: "verror list \<Rightarrow> string" where
  "GetBasicListByIdResponseMultiError_Error m = (let msgs = foldl (\<lambda>msgs err. msgs @ [Error err]) [] m in strings_Join msgs ''; '')"

definition GetBasicListByIdResponseValidationError_Error :: "string \<Rightarrow> string \<Rightarrow> verror option \<Rightarrow> bool \<Rightarrow> string" where
  "GetBasicListByIdResponseValidationError_Error field reason cause key =
     (let cause = (case cause of None \<Rightarrow> [] | Some e \<Rightarrow> '' | caused by: '' @ Error e);
          key = (if key then ''key for '' else []) in
      ''invalid '' @ key @ ''GetBasicListByIdResponse.'' @ field @ '': '' @ reason @ cause)"

section \<open>Rooms\<close>

subsection \<open>room GetByIdRequest\<close>

record room_GetByIdRequest =
  room_GetByIdRequest_Id :: int64

definition room_GetByIdRequest_validate :: "bool \<Rightarrow> room_GetByIdRequest option \<Rightarrow> verror option" where
  "room_GetByIdRequest_validate all m =
     (case m of
        None \<Rightarrow> None
      | Some r \<Rightarrow> finish_checks (TMsg ''room.admin.room'' ''GetByIdRequest'') (run_checks [] []))"

definition room_GetByIdRequest_Validate :: "room_GetByIdRequest option \<Rightarrow> verror option" where
  "room_GetByIdRequest_Validate m = room_GetByIdRequest_validate False m"

definition room_GetByIdRequest_ValidateAll :: "room_GetByIdRequest option \<Rightarrow> verror option" where
  "room_GetByIdRequest_ValidateAll m = room_GetByIdRequest_validate True m"

definition room_GetByIdRequestMultiError_Error :: "verror list \<Rightarrow> string" where
  "room_GetByIdRequestMultiError_Error m = (let msgs = foldl (\<lambda>msgs err. msgs @ [Error err]) [] m in strings_Join msgs ''; '')"

definition room_GetByIdRequestValidationError_Error :: "string \<Rightarrow> string \<Rightarrow> verror option \<Rightarrow> bool \<Rightarrow> string" where
  "room_GetByIdRequestValidationError_Error field reason cause key =
     (let cause = (case cause of None \<Rightarrow> [] | Some e \<Rightarrow> '' | caused by: '' @ Error e);
          key = (if key then ''key for '' else []) in
      ''invalid '' @ key @ ''GetByIdRequest.'' @ field @ '': '' @ reason @ cause)"

subsection \<open>room RoomProto\<close>

record room_RoomProto =
  room_RoomProto_Id :: int64
  room_RoomProto_Name :: string
  room_RoomProto_CreatedAt :: int64

definition room_RoomProto_validate :: "bool \<Rightarrow> room_RoomProto option \<Rightarrow> verror option" where
  "room_RoomProto_validate all m =
     (case m of
        None \<Rightarrow> None
      | Some r \<Rightarrow> finish_checks (TMsg ''room.admin.room'' ''RoomProto'') (run_checks [] []))"

definition room_RoomProto_Validate :: "room_RoomProto option \<Rightarrow> verror option" where
  "room_RoomProto_Validate m = room_RoomProto_validate False m"

definition room_RoomProto_ValidateAll :: "room_RoomProto option \<Rightarrow> verror option" where
  "room_RoomProto_ValidateAll m = room_RoomProto_validate True m"

definition room_RoomProtoMultiError_Error :: "verror list \<Rightarrow> string" where
  "room_RoomProtoMultiError_Error m = (let msgs = foldl (\<lambda>msgs err. msgs @ [Error err]) [] m in strings_Join msgs ''; '')"

definition room_RoomProtoValidationError_Error :: "string \<Rightarrow> string \<Rightarrow> verror option \<Rightarrow> bool \<Rightarrow> string" where
  "room_RoomProtoValidationError_Error field reason cause key =
     (let cause = (case cause of None \<Rightarrow> [] | Some e \<Rightarrow> '' | caused by: '' @ Error e);
          key = (if key then ''key for '' else []) in
      ''invalid '' @ key @ ''RoomProto.'' @ field @ '': '' @ reason @ cause)"

subsection \<open>room GetByIdResponse\<close>

record room_GetByIdResponse =
  room_GetByIdResponse_Code :: int32
  room_GetByIdResponse_Message :: string
  room_GetByIdResponse_Item :: "room_RoomProto option"

definition room_GetByIdResponse_validate :: "bool \<Rightarrow> room_GetByIdResponse option \<Rightarrow> verror option" where
  "room_GetByIdResponse_validate all m =
     (case m of
        None \<Rightarrow> None
      | Some r \<Rightarrow>
          finish_checks (TMsg ''room.admin.room'' ''GetByIdResponse'') (run_checks
          [check_embedded all (TMsg ''room.admin.room'' ''GetByIdResponse'') ''Item'' room_RoomProto_Validate room_RoomProto_ValidateAll (room_GetByIdResponse_Item r)] []))"

definition room_GetByIdResponse_Validate :: "room_GetByIdResponse option \<Rightarrow> verror option" where
  "room_GetByIdResponse_Validate m = room_GetByIdResponse_validate False m"

definition room_GetByIdResponse_ValidateAll :: "room_GetByIdResponse option \<Rightarrow> verror option" where
  "room_GetByIdResponse_ValidateAll m = room_GetByIdResponse_validate True m"

definition room_GetByIdResponseMultiError_Error :: "verror list \<Rightarrow> string" where
  "room_GetByIdResponseMultiError_Error m = (let msgs = foldl (\<lambda>msgs err. msgs @ [Error err]) [] m in strings_Join msgs ''; '')"

definition room_GetByIdResponseValidationError_Error :: "string \<Rightarrow> string \<Rightarrow> verror option \<Rightarrow> bool \<Rightarrow> string" where
  "room_GetByIdResponseValidationError_Error field reason cause key =
     (let cause = (case cause of None \<Rightarrow> [] | Some e \<Rightarrow> '' | caused by: '' @ Error e);
          key = (if key then ''key for '' else []) in
      ''invalid '' @ key @ ''GetByIdResponse.'' @ field @ '': '' @ reason @ cause)"


section \<open>No message is refused\<close>

text \<open>The messages have no rules of their own, and what they embed has none either.\<close>

lemmas player_methods [simp] =
  GetItemListRequest_Validate_def GetItemListRequest_ValidateAll_def
  ItemDataProto_Validate_def ItemDataProto_ValidateAll_def
  GetItemListResponse_Validate_def GetItemListResponse_ValidateAll_def
  admin_GetByIdRequest_Validate_def admin_GetByIdRequest_ValidateAll_def
  admin_UserProto_Validate_def admin_UserProto_ValidateAll_def
  admin_GetByIdResponse_Validate_def admin_GetByIdResponse_ValidateAll_def
  GetUserListCond_Validate_def GetUserListCond_ValidateAll_def
  UserListRequest_Validate_def UserListRequest_ValidateAll_def
  UserListResponse_Validate_def UserListResponse_ValidateAll_def
  AddItemRequest_Validate_def AddItemRequest_ValidateAll_def
  AddItemResponse_Validate_def AddItemResponse_ValidateAll_def
  GetOrderListCond_Validate_def GetOrderListCond_ValidateAll_def
  GetOrderListRequest_Validate_def GetOrderListRequest_ValidateAll_def
  OrderProto_Validate_def OrderProto_ValidateAll_def
  GetOrderListResponse_Validate_def GetOrderListResponse_ValidateAll_def
  GetOrderByIdRequest_Validate_def GetOrderByIdRequest_ValidateAll_def
  GetOrderByIdResponse_Validate_def GetOrderByIdResponse_ValidateAll_def
  UpdateOrderAckStateByIdRequest_Validate_def UpdateOrderAckStateByIdRequest_ValidateAll_def
  UpdateOrderAckStateByIdResponse_Validate_def UpdateOrderAckStateByIdResponse_ValidateAll_def
  user_GetByIdRequest_Validate_def user_GetByIdRequest_ValidateAll_def
  UserBasicCacheProto_Validate_def UserBasicCacheProto_ValidateAll_def
  UserCacheProto_Validate_def UserCacheProto_ValidateAll_def
  user_GetByIdResponse_Validate_def user_GetByIdResponse_ValidateAll_def
  UserListByIdRequest_Validate_def UserListByIdRequest_ValidateAll_def
  UserListByIdResponse_Validate_def UserListByIdResponse_ValidateAll_def
  GetBasicByIdRequest_Validate_def GetBasicByIdRequest_ValidateAll_def
  GetBasicByIdResponse_Validate_def GetBasicByIdResponse_ValidateAll_def
  GetBasicListByIdRequest_Validate_def GetBasicListByIdRequest_ValidateAll_def
  GetBasicListByIdResponse_Validate_def GetBasicListByIdResponse_ValidateAll_def
  room_GetByIdRequest_Validate_def room_GetByIdRequest_ValidateAll_def
  room_RoomProto_Validate_def room_RoomProto_ValidateAll_def
  room_GetByIdResponse_Validate_def room_GetByIdResponse_ValidateAll_def

lemma GetItemListRequest_accepts [simp]: "GetItemListRequest_validate all m = None"
  by (cases m) (simp_all add: GetItemListRequest_validate_def)

lemma ItemDataProto_accepts [simp]: "ItemDataProto_validate all m = None"
  by (cases m) (simp_all add: ItemDataProto_validate_def)

lemma GetItemListResponse_accepts [simp]: "GetItemListResponse_validate all m = None"
  by (cases m) (simp_all add: GetItemListResponse_validate_def)

lemma admin_GetByIdRequest_accepts [simp]: "admin_GetByIdRequest_validate all m = None"
  by (cases m) (simp_all add: admin_GetByIdRequest_validate_def)

lemma admin_UserProto_accepts [simp]: "admin_UserProto_validate all m = None"
  by (cases m) (simp_all add: admin_UserProto_validate_def)

lemma admin_GetByIdResponse_accepts [simp]: "admin_GetByIdResponse_validate all m = None"
  by (cases m) (simp_all add: admin_GetByIdResponse_validate_def)

lemma GetUserListCond_accepts [simp]: "GetUserListCond_validate all m = None"
  by (cases m) (simp_all add: GetUserListCond_validate_def)

lemma UserListRequest_accepts [simp]: "UserListRequest_validate all m = None"
  by (cases m) (simp_all add: UserListRequest_validate_def)

lemma UserListResponse_accepts [simp]: "UserListResponse_validate all m = None"
  by (cases m) (simp_all add: UserListResponse_validate_def)

lemma AddItemRequest_accepts [simp]: "AddItemRequest_validate all m = None"
  by (cases m) (simp_all add: AddItemRequest_validate_def)

lemma AddItemResponse_accepts [simp]: "AddItemResponse_validate all m = None"
  by (cases m) (simp_all add: AddItemResponse_validate_def)

lemma GetOrderListCond_accepts [simp]: "GetOrderListCond_validate all m = None"
  by (cases m) (simp_all add: GetOrderListCond_validate_def)

lemma GetOrderListRequest_accepts [simp]: "GetOrderListRequest_validate all m = None"
  by (cases m) (simp_all add: GetOrderListRequest_validate_def)

lemma OrderProto_accepts [simp]: "OrderProto_validate all m = None"
  by (cases m) (simp_all add: OrderProto_validate_def)

lemma GetOrderListResponse_accepts [simp]: "GetOrderListResponse_validate all m = None"
  by (cases m) (simp_all add: GetOrderListResponse_validate_def)

lemma GetOrderByIdRequest_accepts [simp]: "GetOrderByIdRequest_validate all m = None"
  by (cases m) (simp_all add: GetOrderByIdRequest_validate_def)

lemma GetOrderByIdResponse_accepts [simp]: "GetOrderByIdResponse_validate all m = None"
  by (cases m) (simp_all add: GetOrderByIdResponse_validate_def)

lemma UpdateOrderAckStateByIdRequest_accepts [simp]: "UpdateOrderAckStateByIdRequest_validate all m = None"
  by (cases m) (simp_all add: UpdateOrderAckStateByIdRequest_validate_def)

lemma UpdateOrderAckStateByIdResponse_accepts [simp]: "UpdateOrderAckStateByIdResponse_validate all m = None"
  by (cases m) (simp_all add: UpdateOrderAckStateByIdResponse_validate_def)

lemma user_GetByIdRequest_accepts [simp]: "user_GetByIdRequest_validate all m = None"
  by (cases m) (simp_all add: user_GetByIdRequest_validate_def)

lemma UserBasicCacheProto_accepts [simp]: "UserBasicCacheProto_validate all m = None"
  by (cases m) (simp_all add: UserBasicCacheProto_validate_def)

lemma UserCacheProto_accepts [simp]: "UserCacheProto_validate all m = None"
  by (cases m) (simp_all add: UserCacheProto_validate_def)

lemma user_GetByIdResponse_accepts [simp]: "user_GetByIdResponse_validate all m = None"
  by (cases m) (simp_all add: user_GetByIdResponse_validate_def)

lemma UserListByIdRequest_accepts [simp]: "UserListByIdRequest_validate all m = None"
  by (cases m) (simp_all add: UserListByIdRequest_validate_def)

lemma UserListByIdResponse_accepts [simp]: "UserListByIdResponse_validate all m = None"
  by (cases m) (simp_all add: UserListByIdResponse_validate_def)

lemma GetBasicByIdRequest_accepts [simp]: "GetBasicByIdRequest_validate all m = None"
  by (cases m) (simp_all add: GetBasicByIdRequest_validate_def)

lemma GetBasicByIdResponse_accepts [simp]: "GetBasicByIdResponse_validate all m = None"
  by (cases m) (simp_all add: GetBasicByIdResponse_validate_def)

lemma GetBasicListByIdRequest_accepts [simp]: "GetBasicListByIdRequest_validate all m = None"
  by (cases m) (simp_all add: GetBasicListByIdRequest_validate_def)

lemma GetBasicListByIdResponse_accepts [simp]: "GetBasicListByIdResponse_validate all m = None"
  by (cases m) (simp_all add: GetBasicListByIdResponse_validate_def)

lemma room_GetByIdRequest_accepts [simp]: "room_GetByIdRequest_validate all m = None"
  by (cases m) (simp_all add: room_GetByIdRequest_validate_def)

lemma room_RoomProto_accepts [simp]: "room_RoomProto_validate all m = None"
  by (cases m) (simp_all add: room_RoomProto_validate_def)

lemma room_GetByIdResponse_accepts [simp]: "room_GetByIdResponse_validate all m = None"
  by (cases m) (simp_all add: room_GetByIdResponse_validate_def)

end
