(* ===== verification/Spec2Isabelle.thy ===== *)
theory Spec2Isabelle
  imports Buf_Pool Buf_Reader Session Frame Messages Tunnel_Holder Buckets Decimal Context Conf App_Tunnel Service
    Worker Request_Path Whole_Session Tunnel_Run Tcp_Server Reply_Path Connection Server_Run Channel_Race Tcp_Client Client_Run Middleware Router Gate_App
    Message_Checks Validation Client_Messages Account_Messages Player_Messages
begin

text \<open>
  \<^bold>\<open>The program.\<close> vulcan-gate is the TCP front end of a game backend. Clients connect over TCP,
  authenticate with a token, and exchange length-prefixed, optionally encrypted packets. The gate
  opens a stream to the player service or to a room service for each module and object a client
  addresses and forwards the packets there in order; the services, and other backends through the
  push operations, send packets back. A route table shared by all gates records at which gate a
  user is connected.

  A connection passes through these parts: \<^verbatim>\<open>Server.accept\<close> draws a worker id; \<^verbatim>\<open>Server.work\<close> makes a
  worker, starts it (handshake and authentication), registers it in the buckets, enters the user
  into the route table and runs it; the reading loop of the worker reads frames through a buffered
  reader whose buffers come from a slab pool, passes them through the middlewares to the service,
  which checks the packet index and forwards the packet into a tunnel; the writing loop encrypts
  and frames the replies. At the end the worker is removed from the registry, stopped and taken out
  of the route table.

  \<^bold>\<open>Theories and sources\<close> (paths under \<^verbatim>\<open>src/\<close>).

  \<^item> \<open>Gate_Prelude\<close>: integers, errors and panics as values, slices over a heap of arrays, list lemmas.
  \<^item> \<open>Buf_Pool\<close>, \<open>Buf_Reader\<close>: \<^verbatim>\<open>pkg/net/internal/bufreader/{pool,reader}.go\<close>. The pool is a list of free
    lists of slices, a reader its buffer with read and write positions over a stream of network
    events. \<open>Buf_Pool\<close> shows that power-of-two allocations never panic or share memory, that freed
    buffers of the sizes of the readers are never used again, and exhibits the misfiled buffers of
    other sizes; \<open>Buf_Reader\<close> shows that \<^verbatim>\<open>ReadFull\<close> delivers exactly the next
    bytes for every splitting of the stream, isolation between readers, the error paths, and the
    correctness of \<^verbatim>\<open>nextPowerOfTwo\<close> with its overflow.
  \<^item> \<open>Session\<close>, \<open>Frame\<close>: \<^verbatim>\<open>pkg/net/session.go\<close>, \<^verbatim>\<open>pkg/net/internal/crypto.go\<close>, and the packet formats of
    \<^verbatim>\<open>pkg/net/internal/worker.go\<close> and \<^verbatim>\<open>pkg/net/tcp/client/client.go\<close>: packets written are read back
    unchanged and in order, bad lengths are refused.
  \<^item> \<open>Tunnel_Holder\<close>, \<open>Messages\<close>, \<open>App_Tunnel\<close>, \<open>Tunnel_Run\<close>: \<^verbatim>\<open>pkg/net/internal/tunnel.go\<close>, the object pools, and
    \<^verbatim>\<open>app/gate/internal/intra/net/tunnels/\<close>: forwarding keeps order and content; one live tunnel per key;
    the teardown runs once; the handling of messages of the services never returns; the goroutines
    of a tunnel (\<open>Tunnel_Run\<close>) end when the stream from the service fails.
  \<^item> \<open>Buckets\<close>: \<^verbatim>\<open>pkg/net/internal/buckets.go\<close>, a refinement of one map by the sharded registry, and the
    user index with the case in which it loses a user.
  \<^item> \<open>Decimal\<close>, \<open>Context\<close>, \<open>Middleware\<close>: \<^verbatim>\<open>pkg/net/context/context.go\<close>, \<^verbatim>\<open>pkg/net/transport.go\<close>,
    \<^verbatim>\<open>pkg/net/middleware/dev/\<close> and \<^verbatim>\<open>app/gate/internal/pkg/middleware/\<close>: what a worker puts into a context
    is read back by the services; logging does not interfere with requests and replies.
  \<^item> \<open>Conf\<close>: \<^verbatim>\<open>pkg/net/conf/conf.go\<close>; the defaults fit the components.
  \<^item> \<open>Service\<close>: \<^verbatim>\<open>app/gate/internal/intra/net/service/\<close> and \<^verbatim>\<open>app/gate/internal/pkg/security/crypto.go\<close>:
    sessions only for valid tokens; packets of encrypted sessions are accepted in the order of
    their indexes, once each.
  \<^item> \<open>Worker\<close>: \<^verbatim>\<open>pkg/net/internal/worker.go\<close>: start authenticates, replies are written in order, the
    goroutines of a run as a step relation, the stop.
  \<^item> \<open>Request_Path\<close>: the parts above composed, from the frames of a client through reader, decryption,
    service, holder and tunnel to the streams of the services, as a refinement of the map that gives
    each service and object its messages.
  \<^item> \<open>Whole_Session\<close>: a connection from its first byte, that is the creation of the worker, its start with
    the authentication by the service, and the requests of \<open>Request_Path\<close>; and that requests which are
    repeated in an encrypted session end the connection.
  \<^item> \<open>Tcp_Server\<close>, \<open>Connection\<close>: \<^verbatim>\<open>pkg/net/tcp/server/server.go\<close>: the push operations reach exactly the
    intended workers, every connection is cleaned up, the state stays well formed, and where errors
    are lost.
  \<^item> \<open>Reply_Path\<close>: the push operations of the server interleaved with the writing loops of the workers,
    as a refinement of one mailbox for each connected user, up to what the clients read.
  \<^item> \<open>Server_Run\<close>: any number of connections of a server at once, each at its place in \<^verbatim>\<open>Server.work\<close>,
    interleaved with each other and with the calls of the rest of the program: the registry holds
    exactly the connections that are served, and no connection gets stuck in its cleanup.
  \<^item> \<open>Channel_Race\<close>: \<^verbatim>\<open>Worker.Push\<close> and \<^verbatim>\<open>Tunnel.Forward\<close> split at their send on a channel, interleaved with
    the stop that closes it: they panic in exactly the interleavings in which the stop comes between the two parts.
  \<^item> \<open>Tcp_Client\<close>, \<open>Client_Run\<close>: \<^verbatim>\<open>pkg/net/tcp/client/client.go\<close>: received packets are intact until the next
    one is read, and the goroutines of a client close it exactly once.
  \<^item> \<open>Router\<close>, \<open>Gate_App\<close>: \<^verbatim>\<open>app/gate/internal/{data,router,client,server,service}/\<close>,
    \<^verbatim>\<open>pkg/net/health/server.go\<close> and \<^verbatim>\<open>app/gate/cmd/server/{main,wire_gen}.go\<close>: routes over several gates,
    the servers as they are wired, and the release of the data layer.
  \<^item> \<open>Message_Checks\<close>, \<open>Validation\<close>, \<open>Client_Messages\<close>, \<open>Account_Messages\<close>, \<open>Player_Messages\<close>: the generated
    validation methods \<^verbatim>\<open>gen/api/**/*.pb.validate.go\<close>: what they share, then those of the messages the
    gate handles itself (push API, packets, tokens, tunnel messages), of the messages of clients and
    of the other services. Maps are checked in an order that does not depend on the run, and no
    message is refused.

  \<^bold>\<open>Conventions.\<close> A Go integer of fixed width is a word of that width. A call returns \<open>Ok\<close>, \<open>Fail\<close> (an
  error) or \<open>Panic\<close>; a result \<open>None\<close> in an option is a call that blocks in that state. Pointers to
  objects that are shared (workers, tunnels, sessions) are indexes into lists of the state.
  Goroutines are rounds of their loops; a group of goroutines is a step relation over such rounds.
  A blocking \<^verbatim>\<open>select\<close> takes its case as an argument.

  Code that is not in the repository is a parameter: the cryptography, the serialisation and the
  compression (\<open>crypto_lib\<close>, \<open>codec\<close>), the stopper and the countdown of the tool library (\<open>sync_ops\<close>
  with \<open>sync_laws\<close>), metadata and headers of the RPC library (\<open>md_ops\<close>, \<open>header_ops\<close>), the route table
  (\<open>route_ops\<close> with \<open>store_laws\<close>, under which calls may fail and be executed late), the middlewares of the framework, sockets, the clock and the
  random generator. Choices the runtime makes (which pooled object \<^verbatim>\<open>sync.Pool\<close> returns, how the
  network splits the stream) are arguments, so that theorems hold for all of them.

  \<^bold>\<open>Interfaces.\<close> Locales state the contracts between components and are interpreted on the model:
  the memory of readers, the sources of bytes, \<open>worker_registry\<close>, \<open>tunnel_factory\<close> and
  \<open>stoppable_tunnels\<close>, \<open>blank_pool\<close> (three object pools), \<open>session_keeper\<close>, \<open>packet_logger\<close> (requests and
  replies), \<open>server_relation\<close> (what a call on the server does to a relation its elementary effects
  respect, used for the ids of workers and for what a connection keeps while others run),
  and \<open>guarded_channel\<close> (checking before sending on a channel that a stop closes, for replies and for
  packets).

  \<^bold>\<open>Bounds and fuel.\<close> Loops over data are structural recursions. The only fuel is in the draining of the
  channel of replies in \<open>Worker\<close>, where the number of waiting replies is enough. Endless recursion of
  the program itself is stated with \<open>partial_function\<close>, whose value is then \<open>None\<close>.

  \<^bold>\<open>Not modelled.\<close> Log lines other than those of the logging middlewares, the times of deadlines
  and waiting for a stopper are left out; a deadline of the client's connection is represented by
  the time-out it causes. The reading of configuration
  files and the environment, tracing, metrics and the servers of the framework are library calls
  whose outcomes are parameters. The generated serialisation code is represented by the records of
  its messages; the HTTP and gRPC stubs are not modelled.
\<close>

end
